(* ===== verification/Prelude.thy ===== *)
theory Prelude
  imports Complex_Main "HOL-Library.AList" "HOL-Library.Multiset"
begin

text \<open>
  Shared vocabulary of the development.

  \<^item> Python dictionaries. Since Python 3.7 a \<open>dict\<close> keeps insertion order, and several
    components depend on it (the first capable agent, the last builds, the least recently
    used cache entry among ties). A dict is therefore an association list with distinct
    keys; \<open>d[k] = v\<close> is \<open>AList.update\<close> (replace in place or append), \<open>del d[k]\<close> and
    \<open>d.pop(k, None)\<close> are \<open>AList.delete\<close>, \<open>d.get(k)\<close> is \<open>map_of d k\<close>.
  \<^item> Python strings are HOL strings (lists of characters); the string methods the sources
    call are defined below.
  \<^item> Python floats are real numbers: rounding errors of binary floating point are not
    modelled, every comparison and branch on them is.
  \<^item> \<open>time.time()\<close>, \<open>uuid.uuid4()\<close> and other readings of the environment are arguments.
\<close>

named_theorems dict_simps \<open>how the dict operations change lookups, keys and sizes\<close>
named_theorems inv_intros \<open>preservation of component invariants\<close>
named_theorems str_simps \<open>facts about the string methods\<close>

section \<open>Exceptions\<close>

text \<open>
  The exceptions the sources raise or catch, with their message. An operation that may
  raise returns \<open>exn + 'a\<close>: \<open>Inl\<close> is the exception, \<open>Inr\<close> the value. Only subclasses
  of Python's \<open>Exception\<close> are modelled (\<open>except Exception\<close> catches all of them).
\<close>

datatype exn =
    ConnectionError string | TimeoutError string | OSError string
  | ValueError string | KeyError string | TypeError string | AttributeError string
  | IndexError string | RuntimeError string | JSONDecodeError string
  | OtherError string string

fun is_os_error :: "exn \<Rightarrow> bool" where
  \<comment> \<open>\<open>ConnectionError\<close> and \<open>TimeoutError\<close> are subclasses of \<open>OSError\<close>.\<close>
  "is_os_error (ConnectionError m) = True"
| "is_os_error (TimeoutError m) = True"
| "is_os_error (OSError m) = True"
| "is_os_error e = False"

fun exn_message :: "exn \<Rightarrow> string" where
  "exn_message (ConnectionError m) = m"
| "exn_message (TimeoutError m) = m"
| "exn_message (OSError m) = m"
| "exn_message (ValueError m) = m"
| "exn_message (KeyError m) = CHR 0x27 # m @ [CHR 0x27]"
| "exn_message (TypeError m) = m"
| "exn_message (AttributeError m) = m"
| "exn_message (IndexError m) = m"
| "exn_message (RuntimeError m) = m"
| "exn_message (JSONDecodeError m) = m"
| "exn_message (OtherError c m) = m"

section \<open>Dictionaries\<close>

type_synonym ('k, 'v) dict = "('k \<times> 'v) list"

abbreviation dget :: "('k, 'v) dict \<Rightarrow> 'k \<Rightarrow> 'v option" where
  "dget \<equiv> map_of"

abbreviation dset :: "'k \<Rightarrow> 'v \<Rightarrow> ('k, 'v) dict \<Rightarrow> ('k, 'v) dict" where
  "dset \<equiv> AList.update"

abbreviation ddel :: "'k \<Rightarrow> ('k, 'v) dict \<Rightarrow> ('k, 'v) dict" where
  "ddel \<equiv> AList.delete"

abbreviation dkeys :: "('k, 'v) dict \<Rightarrow> 'k list" where
  "dkeys d \<equiv> map fst d"

abbreviation dvalues :: "('k, 'v) dict \<Rightarrow> 'v list" where
  "dvalues d \<equiv> map snd d"

definition dict_ok :: "('k, 'v) dict \<Rightarrow> bool" where
  "dict_ok d \<longleftrightarrow> distinct (dkeys d)"

definition dhas :: "('k, 'v) dict \<Rightarrow> 'k \<Rightarrow> bool" where
  "dhas d k \<longleftrightarrow> map_of d k \<noteq> None"

lemma dict_ok_Nil [simp, inv_intros]: "dict_ok []"
  by (simp add: dict_ok_def)

lemma dict_ok_dset [simp, inv_intros]: "dict_ok d \<Longrightarrow> dict_ok (dset k v d)"
  by (simp add: dict_ok_def distinct_update)

lemma dict_ok_ddel [simp, inv_intros]: "dict_ok d \<Longrightarrow> dict_ok (ddel k d)"
  by (simp add: dict_ok_def distinct_delete)

lemma dict_ok_filter [simp, inv_intros]: "dict_ok d \<Longrightarrow> dict_ok (filter p d)"
  by (auto simp: dict_ok_def distinct_map inj_on_def)

lemma dget_dset [dict_simps]: "dget (dset k v d) = (dget d)(k \<mapsto> v)"
  by (rule update_conv')

lemma dget_ddel [dict_simps]: "dget (ddel k d) = (dget d)(k := None)"
  by (rule delete_conv')

lemma dhas_dset [dict_simps]: "dhas (dset k v d) k' \<longleftrightarrow> k' = k \<or> dhas d k'"
  by (simp add: dhas_def dget_dset)

lemma dhas_ddel [dict_simps]: "dhas (ddel k d) k' \<longleftrightarrow> k' \<noteq> k \<and> dhas d k'"
  by (simp add: dhas_def dget_ddel)

lemma dhas_keys: "dhas d k \<longleftrightarrow> k \<in> set (dkeys d)"
  by (metis dhas_def list.set_map map_of_eq_None_iff)

lemma dget_mem: "dict_ok d \<Longrightarrow> (k, v) \<in> set d \<longleftrightarrow> dget d k = Some v"
  by (auto simp: dict_ok_def map_of_eq_Some_iff)

lemma dget_SomeD: "dget d k = Some v \<Longrightarrow> (k, v) \<in> set d"
  by (rule map_of_SomeD)

lemma dkeys_dset_new [dict_simps]: "\<not> dhas d k \<Longrightarrow> dset k v d = d @ [(k, v)]"
  unfolding dhas_def by (induction d) (auto split: if_splits)

lemma length_dset [dict_simps]:
  "length (dset k v d) = (if dhas d k then length d else Suc (length d))"
  unfolding dhas_def by (induction d) auto

lemma ddel_filter: "ddel k d = filter (\<lambda>p. fst p \<noteq> k) d"
  by (auto simp: AList.delete_eq intro: filter_cong)

lemma mset_ddel: "dict_ok d \<Longrightarrow> p \<in> set d \<Longrightarrow> mset d = add_mset p (mset (ddel (fst p) d))"
  unfolding ddel_filter dict_ok_def
proof (induction d)
  case Nil
  then show ?case by simp
next
  case (Cons q d)
  show ?case
  proof (cases "p = q")
    case True
    with Cons.prems(1) have "fst p \<notin> fst ` set d" by simp
    then have "\<forall>r\<in>set d. fst r \<noteq> fst p" by (metis imageI)
    with True show ?thesis by (simp add: filter_True)
  next
    case False
    with Cons show ?thesis by (auto simp: rev_image_eqI)
  qed
qed

lemma length_ddel_present: "dict_ok d \<Longrightarrow> dhas d k \<Longrightarrow> Suc (length (ddel k d)) = length d"
  unfolding dict_ok_def dhas_def
proof (induction d)
  case Nil
  then show ?case by simp
next
  case (Cons p d)
  then show ?case by (cases p) (auto split: if_splits)
qed

lemma set_dset_subset: "set (dset k v d) \<subseteq> insert (k, v) (set d)"
  by (induction d) auto

lemma set_ddel_subset: "set (ddel k d) \<subseteq> set d"
  by (auto simp: ddel_filter)

lemma dget_filter: "dict_ok d \<Longrightarrow>
  dget (filter p d) k = (case dget d k of None \<Rightarrow> None | Some v \<Rightarrow> if p (k, v) then Some v else None)"
  unfolding dict_ok_def by (induction d) (auto split: option.splits simp: rev_image_eqI)

lemma dvalues_mem: "v \<in> set (dvalues d) \<Longrightarrow> \<exists>k. (k, v) \<in> set d"
  by auto

section \<open>Lists\<close>

text \<open>Python slicing \<open>xs[-n:]\<close>, \<open>xs[n:]\<close> and \<open>xs[:n]\<close> for an integer \<open>n\<close>.\<close>

definition py_clamp :: "int \<Rightarrow> nat \<Rightarrow> nat" where
  "py_clamp i n = (if i < 0 then nat (max 0 (int n + i)) else nat (min i (int n)))"

definition slice_from :: "'a list \<Rightarrow> int \<Rightarrow> 'a list" where
  "slice_from xs i = drop (py_clamp i (length xs)) xs"

definition slice_to :: "'a list \<Rightarrow> int \<Rightarrow> 'a list" where
  "slice_to xs i = take (py_clamp i (length xs)) xs"

lemma slice_from_neg: "0 < n \<Longrightarrow> slice_from xs (- n) = drop (length xs - nat n) xs"
  by (simp add: slice_from_def py_clamp_def max_def nat_diff_distrib')

lemma length_slice_from_neg: "0 < n \<Longrightarrow> length (slice_from xs (- n)) = min (nat n) (length xs)"
  by (simp add: slice_from_neg)

lemma slice_to_nonneg: "0 \<le> n \<Longrightarrow> slice_to xs n = take (nat n) xs"
  by (simp add: slice_to_def py_clamp_def min_def)

text \<open>The first element with a property, with its position (\<open>for i, x in enumerate(xs)\<close>).\<close>

fun find_index :: "('a \<Rightarrow> bool) \<Rightarrow> 'a list \<Rightarrow> nat option" where
  "find_index p [] = None"
| "find_index p (x # xs) = (if p x then Some 0 else map_option Suc (find_index p xs))"

lemma find_index_Some:
  "find_index p xs = Some i \<Longrightarrow> i < length xs \<and> p (xs ! i) \<and> (\<forall>j<i. \<not> p (xs ! j))"
proof (induction xs arbitrary: i)
  case Nil
  then show ?case by simp
next
  case (Cons x xs)
  then show ?case
    by (auto split: if_splits simp: nth_Cons split: nat.splits)
qed

lemma find_index_None: "find_index p xs = None \<longleftrightarrow> (\<forall>x\<in>set xs. \<not> p x)"
  by (induction xs) auto

text \<open>\<open>xs.pop(i)\<close> for an index in range: the list without position \<open>i\<close>.\<close>

definition remove_nth :: "nat \<Rightarrow> 'a list \<Rightarrow> 'a list" where
  "remove_nth i xs = take i xs @ drop (Suc i) xs"

lemma mset_remove_nth: "i < length xs \<Longrightarrow> mset xs = add_mset (xs ! i) (mset (remove_nth i xs))"
proof -
  assume "i < length xs"
  then have "xs = take i xs @ xs ! i # drop (Suc i) xs" by (rule id_take_nth_drop)
  then have "mset xs = mset (take i xs @ xs ! i # drop (Suc i) xs)" by simp
  then show ?thesis by (simp add: remove_nth_def)
qed

lemma length_remove_nth: "i < length xs \<Longrightarrow> Suc (length (remove_nth i xs)) = length xs"
  by (auto simp: remove_nth_def)

text \<open>\<open>xs.remove(x)\<close>: only the first occurrence goes (\<open>remove1\<close>).\<close>

text \<open>\<open>min(xs, key=f)\<close> of a non-empty list \<open>x # xs\<close>: the first of the least.\<close>

fun min_by :: "('a \<Rightarrow> 'k::linorder) \<Rightarrow> 'a \<Rightarrow> 'a list \<Rightarrow> 'a" where
  "min_by f x [] = x"
| "min_by f x (y # ys) = min_by f (if f y < f x then y else x) ys"

lemma min_by_mem: "min_by f x ys \<in> set (x # ys)"
  by (induction f x ys rule: min_by.induct) (auto split: if_splits)

lemma min_by_le: "y \<in> set (x # ys) \<Longrightarrow> f (min_by f x ys) \<le> f y"
proof (induction f x ys arbitrary: y rule: min_by.induct)
  case (1 f x)
  then show ?case by simp
next
  case (2 f x z zs)
  let ?m = "if f z < f x then z else x"
  have "f (min_by f ?m zs) \<le> f ?m" by (rule 2(1)) simp
  moreover have "f ?m \<le> f x" "f ?m \<le> f z" by auto
  ultimately have "f (min_by f ?m zs) \<le> f x" "f (min_by f ?m zs) \<le> f z"
    by (blast intro: order_trans)+
  moreover have "f (min_by f ?m zs) \<le> f y" if "y \<in> set zs" using 2(1) that by simp
  ultimately show ?case using 2(2) by auto
qed

fun sum_list_int :: "int list \<Rightarrow> int" where
  "sum_list_int [] = 0"
| "sum_list_int (x # xs) = x + sum_list_int xs"

section \<open>Strings\<close>

fun py_startswith :: "string \<Rightarrow> string \<Rightarrow> bool" where
  "py_startswith s [] = True"
| "py_startswith [] (p # ps) = False"
| "py_startswith (c # s) (p # ps) = (c = p \<and> py_startswith s ps)"

definition py_endswith :: "string \<Rightarrow> string \<Rightarrow> bool" where
  "py_endswith s p = py_startswith (rev s) (rev p)"

fun py_contains :: "string \<Rightarrow> string \<Rightarrow> bool" where
  \<comment> \<open>\<open>py_contains s p\<close> is Python's \<open>p in s\<close>.\<close>
  "py_contains [] p = (p = [])"
| "py_contains (c # s) p = (py_startswith (c # s) p \<or> py_contains s p)"

fun py_split :: "char \<Rightarrow> string \<Rightarrow> string list" where
  \<comment> \<open>\<open>s.split(sep)\<close> for a one character separator: never empty.\<close>
  "py_split c [] = [[]]"
| "py_split c (x # xs) =
     (if x = c then [] # py_split c xs
      else case py_split c xs of [] \<Rightarrow> [[x]] | w # ws \<Rightarrow> (x # w) # ws)"

fun py_join :: "string \<Rightarrow> string list \<Rightarrow> string" where
  "py_join sep [] = []"
| "py_join sep [w] = w"
| "py_join sep (w # ws) = w @ sep @ py_join sep ws"

definition py_replace1 :: "char \<Rightarrow> char \<Rightarrow> string \<Rightarrow> string" where
  \<comment> \<open>\<open>s.replace(a, b)\<close> for one character strings\<close>
  "py_replace1 a b s = map (\<lambda>c. if c = a then b else c) s"

definition char_lower :: "char \<Rightarrow> char" where
  "char_lower c = (let n = (of_char c :: nat) in
     if 65 \<le> n \<and> n \<le> 90 then char_of (n + 32) else c)"

definition char_upper :: "char \<Rightarrow> char" where
  "char_upper c = (let n = (of_char c :: nat) in
     if 97 \<le> n \<and> n \<le> 122 then char_of (n - 32) else c)"

definition py_lower :: "string \<Rightarrow> string" where
  "py_lower s = map char_lower s"

definition py_upper :: "string \<Rightarrow> string" where
  "py_upper s = map char_upper s"

definition is_space :: "char \<Rightarrow> bool" where
  "is_space c = (let n = (of_char c :: nat) in n = 32 \<or> (9 \<le> n \<and> n \<le> 13) \<or> (28 \<le> n \<and> n \<le> 31))"

definition py_strip :: "string \<Rightarrow> string" where
  "py_strip s = rev (dropWhile is_space (rev (dropWhile is_space s)))"

lemma py_startswith_iff [str_simps]: "py_startswith s p \<longleftrightarrow> (\<exists>t. s = p @ t)"
  by (induction s p rule: py_startswith.induct) auto

lemma py_endswith_iff [str_simps]: "py_endswith s p \<longleftrightarrow> (\<exists>t. s = t @ p)"
proof -
  have "py_endswith s p \<longleftrightarrow> (\<exists>t. rev s = rev p @ t)"
    by (simp add: py_endswith_def py_startswith_iff)
  also have "\<dots> \<longleftrightarrow> (\<exists>t. s = t @ p)"
    by (metis rev_append rev_rev_ident)
  finally show ?thesis .
qed

lemma py_contains_iff [str_simps]: "py_contains s p \<longleftrightarrow> (\<exists>a b. s = a @ p @ b)"
proof (induction s)
  case Nil
  then show ?case by simp
next
  case (Cons c s)
  have "(\<exists>a b. c # s = a @ p @ b) \<longleftrightarrow> (\<exists>b. c # s = p @ b) \<or> (\<exists>a b. s = a @ p @ b)"
    by (metis append_Cons append_Nil list.exhaust list.inject)
  with Cons show ?case by (simp add: py_startswith_iff)
qed

lemma py_split_nonempty [simp]: "py_split c s \<noteq> []"
  by (induction s) (auto split: list.splits)

lemma py_join_split [str_simps]: "py_join [c] (py_split c s) = s"
proof (induction s)
  case Nil
  then show ?case by simp
next
  case (Cons x xs)
  obtain w ws where ws: "py_split c xs = w # ws"
    by (metis list.exhaust py_split_nonempty)
  with Cons show ?case
    by (cases ws) auto
qed

lemma py_split_no_sep: "w \<in> set (py_split c s) \<Longrightarrow> c \<notin> set w"
  by (induction s arbitrary: w) (auto split: list.splits if_splits)

lemma py_split_single: "c \<notin> set s \<Longrightarrow> py_split c s = [s]"
  by (induction s) auto

lemma py_split_append: "c \<notin> set w \<Longrightarrow> py_split c (w @ c # s) = w # py_split c s"
  by (induction w) auto

lemma py_split_join:
  "ws \<noteq> [] \<Longrightarrow> (\<And>w. w \<in> set ws \<Longrightarrow> c \<notin> set w) \<Longrightarrow> py_split c (py_join [c] ws) = ws"
proof (induction "[c]" ws rule: py_join.induct)
  case (3 w w' ws)
  then show ?case by (simp add: py_split_append)
qed (simp_all add: py_split_single)

lemma hd_py_split: "hd (py_split c s) = takeWhile (\<lambda>x. x \<noteq> c) s"
proof (induction s)
  case Nil
  then show ?case by simp
next
  case (Cons x xs)
  then show ?case by (cases "py_split c xs") auto
qed

text \<open>Decimal numbers: \<open>str(n)\<close> and \<open>int(s)\<close> (surrounding blanks, one sign, digits with
  single underscores between them; anything else is a ValueError, here \<open>None\<close>).\<close>

definition digit_char :: "nat \<Rightarrow> char" where
  "digit_char d = char_of (48 + d)"

fun nat_str_aux :: "nat \<Rightarrow> string \<Rightarrow> string" where
  "nat_str_aux n acc =
     (if n < 10 then digit_char n # acc else nat_str_aux (n div 10) (digit_char (n mod 10) # acc))"

declare nat_str_aux.simps [simp del]

definition nat_str :: "nat \<Rightarrow> string" where
  "nat_str n = nat_str_aux n []"

definition int_str :: "int \<Rightarrow> string" where
  "int_str i = (if i < 0 then CHR ''-'' # nat_str (nat (- i)) else nat_str (nat i))"

definition is_digit :: "char \<Rightarrow> bool" where
  "is_digit c = (let n = (of_char c :: nat) in 48 \<le> n \<and> n \<le> 57)"

definition digit_val :: "char \<Rightarrow> nat" where
  "digit_val c = of_char c - 48"

fun digits_val :: "nat \<Rightarrow> string \<Rightarrow> nat option" where
  "digits_val acc [] = Some acc"
| "digits_val acc (c # s) =
     (if is_digit c then digits_val (10 * acc + digit_val c) s
      else if c = CHR ''_'' then
        (case s of [] \<Rightarrow> None
         | d # t \<Rightarrow> if is_digit d then digits_val (10 * acc + digit_val d) t else None)
      else None)"

definition parse_nat :: "string \<Rightarrow> nat option" where
  "parse_nat s = (case s of [] \<Rightarrow> None
     | c # t \<Rightarrow> if is_digit c then digits_val (digit_val c) t else None)"

definition py_int :: "string \<Rightarrow> int option" where
  "py_int s = (case py_strip s of
       [] \<Rightarrow> None
     | c # t \<Rightarrow>
         if c = CHR ''-'' then map_option (\<lambda>n. - int n) (parse_nat t)
         else if c = CHR ''+'' then map_option int (parse_nat t)
         else map_option int (parse_nat (c # t)))"

lemma is_digit_digit_char [simp]: "d < 10 \<Longrightarrow> is_digit (digit_char d)"
  by (simp add: is_digit_def digit_char_def Let_def)

lemma digit_val_digit_char [simp]: "d < 10 \<Longrightarrow> digit_val (digit_char d) = d"
  by (simp add: digit_val_def digit_char_def)

text \<open>\<open>int(str(i))\<close> is \<open>i\<close>.\<close>

lemma digits_val_nat_str_aux: "digits_val 0 (nat_str_aux n acc) = digits_val n acc"
proof (induction n acc rule: nat_str_aux.induct)
  case (1 n acc)
  then show ?case by (subst nat_str_aux.simps) auto
qed

lemma nat_str_aux_digits:
  "list_all is_digit acc \<Longrightarrow> list_all is_digit (nat_str_aux n acc) \<and> nat_str_aux n acc \<noteq> []"
proof (induction n acc rule: nat_str_aux.induct)
  case (1 n acc)
  then show ?case by (subst (1 2) nat_str_aux.simps) auto
qed

lemma nat_str_digits [str_simps]: "list_all is_digit (nat_str n)" "nat_str n \<noteq> []"
  using nat_str_aux_digits [of "[]" n] by (simp_all add: nat_str_def)

lemma parse_nat_str [str_simps]: "parse_nat (nat_str n) = Some n"
proof -
  obtain c t where ct: "nat_str n = c # t" using nat_str_digits(2) by (cases "nat_str n") auto
  with nat_str_digits(1) [of n] have "is_digit c" by simp
  then have "parse_nat (nat_str n) = digits_val 0 (nat_str n)" by (simp add: parse_nat_def ct)
  then show ?thesis by (simp add: nat_str_def digits_val_nat_str_aux)
qed

lemma is_digit_not_space: "is_digit c \<Longrightarrow> \<not> is_space c"
  by (auto simp: is_digit_def is_space_def Let_def)

lemma py_strip_id: "s \<noteq> [] \<Longrightarrow> \<not> is_space (hd s) \<Longrightarrow> \<not> is_space (List.last s) \<Longrightarrow> py_strip s = s"
proof -
  assume a: "s \<noteq> []" "\<not> is_space (hd s)" "\<not> is_space (List.last s)"
  have id: "dropWhile is_space w = w" if "w \<noteq> []" "\<not> is_space (hd w)" for w
    using that by (cases w) auto
  have "dropWhile is_space s = s" by (rule id [OF a(1,2)])
  moreover have "dropWhile is_space (rev s) = rev s" by (rule id) (simp_all add: a hd_rev)
  ultimately show ?thesis by (simp add: py_strip_def)
qed

lemma py_int_int_str [str_simps]: "py_int (int_str i) = Some i"
proof -
  obtain c t where ct: "nat_str (nat \<bar>i\<bar>) = c # t"
    using nat_str_digits(2) by (cases "nat_str (nat \<bar>i\<bar>)") auto
  have dig: "list_all is_digit (c # t)" using nat_str_digits(1) [of "nat \<bar>i\<bar>"] by (simp add: ct)
  then have "is_digit x" if "x \<in> set (c # t)" for x using that by (auto simp: list_all_iff)
  then have ends: "\<not> is_space c" "\<not> is_space (List.last (c # t))"
    by (rule is_digit_not_space, simp)+
  have sign: "c \<noteq> CHR ''-''" "c \<noteq> CHR ''+''" using dig by (auto simp: is_digit_def)
  show ?thesis
  proof (cases "i < 0")
    case True
    have "\<not> is_space CHR ''-''" by (simp add: is_space_def)
    then have "py_strip (CHR ''-'' # c # t) = CHR ''-'' # c # t" using ends by (intro py_strip_id) auto
    with True ct parse_nat_str [of "nat \<bar>i\<bar>"] show ?thesis
      by (simp add: py_int_def int_str_def abs_if)
  next
    case False
    have "py_strip (c # t) = c # t" using ends by (intro py_strip_id) auto
    with False ct sign parse_nat_str [of "nat \<bar>i\<bar>"] show ?thesis
      by (simp add: py_int_def int_str_def abs_if)
  qed
qed

section \<open>Rounding\<close>

text \<open>\<open>os.getenv(k, dflt)\<close>\<close>

definition env_or :: "(string \<Rightarrow> string option) \<Rightarrow> string \<Rightarrow> string \<Rightarrow> string" where
  "env_or getenv k dflt = (case getenv k of Some v \<Rightarrow> v | None \<Rightarrow> dflt)"

text \<open>\<open>round(x, n)\<close> of Python 3: to the nearest multiple of \<open>10^-n\<close>, ties to even.\<close>

definition py_round :: "nat \<Rightarrow> real \<Rightarrow> real" where
  "py_round n x = (let y = x * 10 ^ n; f = \<lfloor>y\<rfloor>; d = y - of_int f in
     of_int (if d < 1/2 then f else if 1/2 < d then f + 1 else if even f then f else f + 1)
       / 10 ^ n)"

lemma py_round_lower: "of_int k \<le> x * 10 ^ n \<Longrightarrow> of_int k / 10 ^ n \<le> py_round n x"
proof -
  assume "of_int k \<le> x * 10 ^ n"
  then have "k \<le> \<lfloor>x * 10 ^ n\<rfloor>" by (simp add: le_floor_iff)
  then show ?thesis by (auto simp: py_round_def Let_def divide_right_mono)
qed

lemma py_round_upper: "x * 10 ^ n \<le> of_int k \<Longrightarrow> py_round n x \<le> of_int k / 10 ^ n"
proof -
  assume le: "x * 10 ^ n \<le> of_int k"
  have "\<lfloor>x * 10 ^ n\<rfloor> + 1 \<le> k" if "0 < x * 10 ^ n - of_int \<lfloor>x * 10 ^ n\<rfloor>"
    using le that by linarith
  moreover have "\<lfloor>x * 10 ^ n\<rfloor> \<le> k" using le by linarith
  ultimately show ?thesis
    by (auto simp: py_round_def Let_def intro!: divide_right_mono)
qed

lemma py_round_close: "\<bar>py_round n x - x\<bar> \<le> (1/2) / 10 ^ n"
proof -
  define y where "y = x * 10 ^ n"
  define r :: int where "r = (let f = \<lfloor>y\<rfloor>; d = y - of_int f in
     if d < 1/2 then f else if 1/2 < d then f + 1 else if even f then f else f + 1)"
  have "\<bar>of_int r - y\<bar> \<le> 1/2"
    unfolding r_def Let_def by (auto; linarith)
  then have "\<bar>of_int r - y\<bar> / 10 ^ n \<le> (1/2) / 10 ^ n"
    by (intro divide_right_mono) auto
  moreover have "\<bar>of_int r - y\<bar> / 10 ^ n = \<bar>of_int r / 10 ^ n - x\<bar>"
    by (simp add: y_def abs_div_pos diff_divide_distrib)
  ultimately show ?thesis
    by (simp add: py_round_def r_def y_def Let_def)
qed

end
