(* ===== verification/Interfaces.thy ===== *)
theory Interfaces
  imports Prelude
begin

text \<open>
  The contracts several components share, as locales: a store addressed by keys, a
  system that moves by steps and keeps an invariant, a simulation of a specification, a codec
  with its round trip, a priority queue.
  Each component interprets the ones it implements on its own operations and takes its
  properties from the lemmas proved here once.
\<close>

section \<open>Stores addressed by keys\<close>

text \<open>
  \<open>put k x\<close> stores under \<open>k\<close> the item \<open>mk k x\<close> built from the caller's argument,
  \<open>get\<close> reads it back, \<open>del\<close> removes it. Sessions, connections, builds, agents,
  manifests, proxies and configurations are all kept this way.
\<close>

locale keyed_store =
  fixes put :: "'k \<Rightarrow> 'x \<Rightarrow> 's \<Rightarrow> 's"
    and get :: "'s \<Rightarrow> 'k \<Rightarrow> 'v option"
    and del :: "'k \<Rightarrow> 's \<Rightarrow> 's"
    and mk :: "'k \<Rightarrow> 'x \<Rightarrow> 'v"
    and ok :: "'s \<Rightarrow> bool"
  assumes get_put: "ok s \<Longrightarrow> get (put k x s) k' = (if k' = k then Some (mk k x) else get s k')"
    and get_del: "ok s \<Longrightarrow> get (del k s) k' = (if k' = k then None else get s k')"
    and ok_put: "ok s \<Longrightarrow> ok (put k x s)"
    and ok_del: "ok s \<Longrightarrow> ok (del k s)"
begin

lemma ok_puts: "ok s \<Longrightarrow> ok (fold (\<lambda>(k, x). put k x) kxs s)"
  by (induction kxs arbitrary: s) (auto simp: ok_put)

lemma ok_dels: "ok s \<Longrightarrow> ok (fold del ks s)"
  by (induction ks arbitrary: s) (auto simp: ok_del)

text \<open>After a batch of writes, a key reads its last write, or what it held before.\<close>

lemma get_puts:
  "ok s \<Longrightarrow> get (fold (\<lambda>(k, x). put k x) kxs s) k =
     (case map_of (rev kxs) k of Some x \<Rightarrow> Some (mk k x) | None \<Rightarrow> get s k)"
proof (induction kxs arbitrary: s)
  case Nil
  then show ?case by simp
next
  case (Cons p kxs)
  obtain k' x' where p: "p = (k', x')" by (cases p)
  with Cons show ?case
    by (auto simp: get_put ok_put map_add_def split: option.splits)
qed

lemma get_dels: "ok s \<Longrightarrow> get (fold del ks s) k = (if k \<in> set ks then None else get s k)"
  by (induction ks arbitrary: s) (auto simp: get_del ok_del)

lemma put_del_other:
  "ok s \<Longrightarrow> k \<noteq> k' \<Longrightarrow> get (put k x (del k' s)) = get (del k' (put k x s))"
  by (auto simp: fun_eq_iff get_put get_del ok_put ok_del)

lemma del_put_same: "ok s \<Longrightarrow> get (del k (put k x s)) = get (del k s)"
  by (auto simp: fun_eq_iff get_put get_del ok_put)

end

section \<open>Systems that move by steps\<close>

text \<open>
  A component whose operations are the events of a step function, with an invariant
  every event keeps. \<open>runs s es\<close> is the list of the states passed through.
\<close>

locale step_system =
  fixes step :: "'e \<Rightarrow> 's \<Rightarrow> 's"
    and inv :: "'s \<Rightarrow> bool"
  assumes inv_step: "inv s \<Longrightarrow> inv (step e s)"
begin

lemma inv_run: "inv s \<Longrightarrow> inv (fold step es s)"
  by (induction es arbitrary: s) (auto simp: inv_step)

lemma inv_prefix: "inv s \<Longrightarrow> inv (fold step (take n es) s)"
  by (rule inv_run)

end

text \<open>A step system with a quantity that never grows.\<close>

locale bounded_system = step_system step inv
  for step :: "'e \<Rightarrow> 's \<Rightarrow> 's" and inv :: "'s \<Rightarrow> bool" +
  fixes load :: "'s \<Rightarrow> nat"
    and cap :: "nat"
  assumes load_step: "inv s \<Longrightarrow> load s \<le> cap \<Longrightarrow> load (step e s) \<le> cap"
begin

lemma load_run: "inv s \<Longrightarrow> load s \<le> cap \<Longrightarrow> load (fold step es s) \<le> cap"
proof (induction es arbitrary: s)
  case Nil
  then show ?case by simp
next
  case (Cons e es)
  from Cons.prems have "inv (step e s)" "load (step e s) \<le> cap"
    by (simp_all add: inv_step load_step)
  with Cons.IH show ?case by simp
qed

end

section \<open>Simulations\<close>

text \<open>
  A component seen through \<open>view\<close>: each of its steps on an admissible event is a step of the
  abstract system on what is seen, so a whole run is.
\<close>

locale simulation =
  fixes cstep :: "'e \<Rightarrow> 'c \<Rightarrow> 'c"
    and astep :: "'e \<Rightarrow> 'a \<Rightarrow> 'a"
    and view :: "'c \<Rightarrow> 'a"
    and inv :: "'c \<Rightarrow> bool"
    and ok :: "'e \<Rightarrow> bool"
  assumes sim_inv: "inv c \<Longrightarrow> ok e \<Longrightarrow> inv (cstep e c)"
    and sim_step: "inv c \<Longrightarrow> ok e \<Longrightarrow> view (cstep e c) = astep e (view c)"
begin

lemma sim_run:
  "inv c \<Longrightarrow> list_all ok es \<Longrightarrow> inv (fold cstep es c) \<and> view (fold cstep es c) = fold astep es (view c)"
  by (induction es arbitrary: c) (simp_all add: sim_inv sim_step)

end

section \<open>Codecs\<close>

text \<open>\<open>enc\<close> writes a value, \<open>dec\<close> reads it back or fails; on \<open>good\<close> values nothing is lost.\<close>

locale codec =
  fixes enc :: "'a \<Rightarrow> 'b"
    and dec :: "'b \<Rightarrow> 'a option"
    and good :: "'a \<Rightarrow> bool"
  assumes dec_enc: "good x \<Longrightarrow> dec (enc x) = Some x"
begin

lemma enc_inj: "good x \<Longrightarrow> good y \<Longrightarrow> enc x = enc y \<Longrightarrow> x = y"
  by (metis dec_enc option.inject)

lemma dec_enc_list: "list_all good xs \<Longrightarrow> those (map dec (map enc xs)) = Some xs"
  by (induction xs) (auto simp: dec_enc)

lemma enc_list_inj:
  "list_all good xs \<Longrightarrow> list_all good ys \<Longrightarrow> map enc xs = map enc ys \<Longrightarrow> xs = ys"
  by (metis dec_enc_list option.inject)

end

text \<open>Two codecs in a row: a value written by the first, then carried by the second.\<close>

locale codec_chain = inner: codec enc dec good + outer: codec enc' dec' good'
  for enc :: "'a \<Rightarrow> 'b" and dec :: "'b \<Rightarrow> 'a option" and good :: "'a \<Rightarrow> bool"
    and enc' :: "'b \<Rightarrow> 'c" and dec' :: "'c \<Rightarrow> 'b option" and good' :: "'b \<Rightarrow> bool" +
  assumes good_enc: "good x \<Longrightarrow> good' (enc x)"
begin

sublocale chain: codec "\<lambda>x. enc' (enc x)" "\<lambda>c. Option.bind (dec' c) dec" good
  by unfold_locales (simp add: good_enc inner.dec_enc outer.dec_enc)

end

section \<open>Priority queues\<close>

text \<open>
  \<open>push\<close> adds an item, \<open>pop\<close> takes one with the least key; \<open>elems\<close> is what the queue
  holds. A client that pops until the queue is empty sees the keys in order.
\<close>

locale priority_queue =
  fixes push :: "'a \<Rightarrow> 'q \<Rightarrow> 'q"
    and pop :: "'q \<Rightarrow> ('a \<times> 'q) option"
    and elems :: "'q \<Rightarrow> 'a multiset"
    and key :: "'a \<Rightarrow> 'key::linorder"
    and ok :: "'q \<Rightarrow> bool"
  assumes elems_push: "ok q \<Longrightarrow> elems (push x q) = add_mset x (elems q)"
    and ok_push: "ok q \<Longrightarrow> ok (push x q)"
    and pop_None: "ok q \<Longrightarrow> pop q = None \<longleftrightarrow> elems q = {#}"
    and pop_elems: "ok q \<Longrightarrow> pop q = Some (x, q') \<Longrightarrow> elems q = add_mset x (elems q')"
    and pop_least: "ok q \<Longrightarrow> pop q = Some (x, q') \<Longrightarrow> y \<in># elems q \<Longrightarrow> key x \<le> key y"
    and ok_pop: "ok q \<Longrightarrow> pop q = Some (x, q') \<Longrightarrow> ok q'"
begin

fun drain :: "nat \<Rightarrow> 'q \<Rightarrow> 'a list" where
  "drain 0 q = []"
| "drain (Suc n) q = (case pop q of None \<Rightarrow> [] | Some (x, q') \<Rightarrow> x # drain n q')"

lemma drain_mem: "ok q \<Longrightarrow> set (drain n q) \<subseteq> set_mset (elems q)"
proof (induction n arbitrary: q)
  case 0
  then show ?case by simp
next
  case (Suc n)
  show ?case
  proof (cases "pop q")
    case None
    then show ?thesis by simp
  next
    case (Some p)
    then obtain x q' where p: "pop q = Some (x, q')" by (cases p) auto
    from p Suc.prems have "ok q'" "elems q = add_mset x (elems q')"
      by (auto dest: ok_pop pop_elems)
    with Suc.IH [of q'] p show ?thesis by auto
  qed
qed

lemma drain_sorted: "ok q \<Longrightarrow> sorted (map key (drain n q))"
proof (induction n arbitrary: q)
  case 0
  then show ?case by simp
next
  case (Suc n)
  show ?case
  proof (cases "pop q")
    case None
    then show ?thesis by simp
  next
    case (Some p)
    then obtain x q' where p: "pop q = Some (x, q')" by (cases p) auto
    with Suc.prems have ok': "ok q'" and el: "elems q = add_mset x (elems q')"
      by (auto dest: ok_pop pop_elems)
    have "key x \<le> key y" if "y \<in> set (drain n q')" for y
      using drain_mem [OF ok', of n] that pop_least [OF Suc.prems p, of y] el by auto
    with Suc.IH [OF ok'] p show ?thesis by auto
  qed
qed

lemma drain_all: "ok q \<Longrightarrow> size (elems q) \<le> n \<Longrightarrow> mset (drain n q) = elems q"
proof (induction n arbitrary: q)
  case 0
  then show ?case by simp
next
  case (Suc n)
  show ?case
  proof (cases "pop q")
    case None
    then have "elems q = {#}" using pop_None [OF Suc.prems(1)] by blast
    with None show ?thesis by simp
  next
    case (Some p)
    then obtain x q' where p: "pop q = Some (x, q')" by (cases p) auto
    with Suc.prems have "ok q'" and el: "elems q = add_mset x (elems q')"
      by (auto dest: ok_pop pop_elems)
    with Suc.IH [of q'] Suc.prems(2) p show ?thesis by auto
  qed
qed

end

end
