(* ===== verification/Fallback.thy ===== *)
theory Fallback
  imports Interfaces
begin

text \<open>
  \<open>runtime/fallback.py\<close>: the strategy chain, the retry loop with exponential backoff and
  the circuit breaker. A callable is its sequence of outcomes, one per invocation:
  \<open>Inl e\<close> when it raises \<open>e\<close>, \<open>Inr x\<close> when it returns \<open>x\<close> (a coroutine function is awaited,
  which gives the same outcome). Sleeps are recorded in order.
\<close>

section \<open>Fallback chain\<close>

record 'f fallback_chain =
  fc_strategies :: "'f list"
  fc_labels :: "string list"

definition fc_add :: "'f fallback_chain \<Rightarrow> 'f \<Rightarrow> string \<Rightarrow> 'f fallback_chain" where
  "fc_add c strategy label =
     (let c1 = c\<lparr>fc_strategies := fc_strategies c @ [strategy]\<rparr> in
      c1\<lparr>fc_labels := fc_labels c1 @
           [if label \<noteq> [] then label
            else ''strategy_'' @ nat_str (length (fc_strategies c1))]\<rparr>)"

fun fc_loop :: "exn option \<Rightarrow> ('a \<Rightarrow> exn + 'b) list \<Rightarrow> 'a \<Rightarrow> exn + 'b" where
  "fc_loop le [] args = Inl (case le of Some e \<Rightarrow> e | None \<Rightarrow> RuntimeError ''All strategies exhausted'')"
| "fc_loop le (strategy # rest) args =
     (case strategy args of Inr r \<Rightarrow> Inr r | Inl e \<Rightarrow> fc_loop (Some e) rest args)"

definition fc_execute :: "('a \<Rightarrow> exn + 'b) fallback_chain \<Rightarrow> 'a \<Rightarrow> exn + 'b" where
  "fc_execute c args = fc_loop None (fc_strategies c) args"

section \<open>Retry with backoff\<close>

record retry_config =
  rc_max_retries :: int
  rc_base_delay :: real
  rc_max_delay :: real
  rc_backoff_factor :: real
  rc_retryable :: "exn \<Rightarrow> bool"

definition default_retry_config :: retry_config where
  "default_retry_config = \<lparr>rc_max_retries = 3, rc_base_delay = 1, rc_max_delay = 30,
     rc_backoff_factor = 2, rc_retryable = is_os_error\<rparr>"

text \<open>
  \<open>retry_loop cfg func n attempt delay le\<close> is the \<open>for\<close> loop with \<open>n\<close> iterations to go.
  The result is the outcome and the list of sleeps.
\<close>

fun retry_loop ::
  "retry_config \<Rightarrow> (nat \<Rightarrow> exn + 'a) \<Rightarrow> nat \<Rightarrow> nat \<Rightarrow> real \<Rightarrow> exn option \<Rightarrow> (exn + 'a) \<times> real list" where
  "retry_loop cfg func 0 attempt delay le =
     (Inl (case le of Some e \<Rightarrow> e | None \<Rightarrow> RuntimeError ''Retry exhausted''), [])"
| "retry_loop cfg func (Suc n) attempt delay le =
     (case func attempt of
        Inr x \<Rightarrow> (Inr x, [])
      | Inl e \<Rightarrow>
          if rc_retryable cfg e then
            if int attempt < rc_max_retries cfg then
              (let (r, sleeps) = retry_loop cfg func n (Suc attempt)
                     (min (delay * rc_backoff_factor cfg) (rc_max_delay cfg)) (Some e)
               in (r, delay # sleeps))
            else retry_loop cfg func n (Suc attempt) delay (Some e)
          else (Inl e, []))"

definition retry_async :: "retry_config option \<Rightarrow> (nat \<Rightarrow> exn + 'a) \<Rightarrow> (exn + 'a) \<times> real list" where
  "retry_async config func =
     (let cfg = (case config of Some c \<Rightarrow> c | None \<Rightarrow> default_retry_config) in
      retry_loop cfg func (nat (rc_max_retries cfg + 1)) 0 (rc_base_delay cfg) None)"

text \<open>Reference: the first attempt that is not a retryable failure decides.\<close>

definition retryable_failure :: "retry_config \<Rightarrow> exn + 'a \<Rightarrow> bool" where
  "retryable_failure cfg r = (case r of Inl e \<Rightarrow> rc_retryable cfg e | Inr _ \<Rightarrow> False)"

fun nth_delay :: "retry_config \<Rightarrow> nat \<Rightarrow> real" where
  "nth_delay cfg 0 = rc_base_delay cfg"
| "nth_delay cfg (Suc i) = min (nth_delay cfg i * rc_backoff_factor cfg) (rc_max_delay cfg)"

lemma retry_loop_decided:
  assumes "\<forall>i<k. retryable_failure cfg (func (a + i))"
    and "\<not> retryable_failure cfg (func (a + k))"
    and "k < n" and "int (a + n) = rc_max_retries cfg + 1" and "d = nth_delay cfg a"
  shows "retry_loop cfg func n a d le = (func (a + k), map (nth_delay cfg) [a..<a + k])"
  using assms
proof (induction k arbitrary: n a d le)
  case 0
  then obtain m where "n = Suc m" by (cases n) auto
  with 0 show ?case
    by (auto simp: retryable_failure_def split: sum.splits)
next
  case (Suc k)
  then obtain m where m: "n = Suc m" by (cases n) auto
  from Suc.prems(1) have "retryable_failure cfg (func a)" by (metis add_0_right zero_less_Suc)
  then obtain e where e: "func a = Inl e" "rc_retryable cfg e"
    by (auto simp: retryable_failure_def split: sum.splits)
  have "\<forall>i<k. retryable_failure cfg (func (Suc a + i))" using Suc.prems(1) by auto
  moreover have "\<not> retryable_failure cfg (func (Suc a + k))" using Suc.prems(2) by simp
  moreover have "k < m" "int (Suc a + m) = rc_max_retries cfg + 1" using Suc.prems m by auto
  ultimately have IH: "retry_loop cfg func m (Suc a)
      (min (d * rc_backoff_factor cfg) (rc_max_delay cfg)) (Some e)
      = (func (Suc a + k), map (nth_delay cfg) [Suc a..<Suc a + k])"
    using Suc.prems(5) by (intro Suc.IH) auto
  have "int a < rc_max_retries cfg" using Suc.prems(3,4) m by auto
  moreover have "[a..<a + Suc k] = a # [Suc a..<Suc a + k]" by (simp add: upt_rec)
  ultimately show ?case using e m IH Suc.prems(5) by simp
qed

lemma retry_loop_exhausted:
  assumes "\<forall>i\<le>k. retryable_failure cfg (func (a + i))"
    and "int (a + k) = rc_max_retries cfg" and "d = nth_delay cfg a"
  shows "retry_loop cfg func (Suc k) a d le = (func (a + k), map (nth_delay cfg) [a..<a + k])"
  using assms
proof (induction k arbitrary: a d le)
  case 0
  then show ?case
    by (auto simp: retryable_failure_def split: sum.splits)
next
  case (Suc k)
  from Suc.prems(1) have "retryable_failure cfg (func a)" by (metis add_0_right zero_le)
  then obtain e where e: "func a = Inl e" "rc_retryable cfg e"
    by (auto simp: retryable_failure_def split: sum.splits)
  have "\<forall>i\<le>k. retryable_failure cfg (func (Suc a + i))" using Suc.prems(1) by auto
  moreover have "int (Suc a + k) = rc_max_retries cfg" using Suc.prems by auto
  ultimately have IH: "retry_loop cfg func (Suc k) (Suc a)
      (min (d * rc_backoff_factor cfg) (rc_max_delay cfg)) (Some e)
      = (func (Suc a + k), map (nth_delay cfg) [Suc a..<Suc a + k])"
    using Suc.prems(3) by (intro Suc.IH) auto
  have "int a < rc_max_retries cfg" using Suc.prems(2) by auto
  moreover have "[a..<a + Suc k] = a # [Suc a..<Suc a + k]" by (simp add: upt_rec)
  ultimately show ?case using e IH Suc.prems(3) by simp
qed

text \<open>With a factor of at least one and a non-negative cap the delays are a capped
  geometric sequence; only the first one escapes the cap.\<close>

lemma nth_delay_closed:
  assumes "1 \<le> rc_backoff_factor cfg" and "0 \<le> rc_max_delay cfg" and "0 < i"
  shows "nth_delay cfg i = min (rc_base_delay cfg * rc_backoff_factor cfg ^ i) (rc_max_delay cfg)"
  using assms(3)
proof (induction i)
  case 0
  then show ?case by simp
next
  case (Suc i)
  let ?b = "rc_base_delay cfg" and ?f = "rc_backoff_factor cfg" and ?M = "rc_max_delay cfg"
  show ?case
  proof (cases i)
    case 0
    then show ?thesis by simp
  next
    case (Suc j)
    then have "nth_delay cfg i = min (?b * ?f ^ i) ?M" using Suc.IH by simp
    moreover have "?M \<le> ?M * ?f" using assms(1,2) by (simp add: mult_le_cancel_left1)
    moreover have "min (min x ?M * ?f) ?M = min (x * ?f) ?M" if "?M \<le> ?M * ?f" for x
    proof (cases "x \<le> ?M")
      case False
      then have "?M * ?f \<le> x * ?f" using assms(1) by (intro mult_right_mono) auto
      with False that show ?thesis by simp
    qed simp
    ultimately show ?thesis by (simp add: mult.assoc mult.commute [of ?f])
  qed
qed

text \<open>The attempt whose outcome \<open>retry_async\<close> reports: the first that is not a retryable
  failure, or the last one allowed.\<close>

definition decisive_attempt :: "retry_config \<Rightarrow> (nat \<Rightarrow> exn + 'a) \<Rightarrow> nat" where
  "decisive_attempt cfg func =
     (let m = nat (rc_max_retries cfg) in
      case find_index (\<lambda>i. \<not> retryable_failure cfg (func i)) [0..<Suc m] of
        Some i \<Rightarrow> i | None \<Rightarrow> m)"

lemma retry_async_decisive:
  assumes "0 \<le> rc_max_retries cfg"
  shows "retry_async (Some cfg) func =
     (let k = decisive_attempt cfg func in (func k, map (nth_delay cfg) [0..<k]))"
proof (cases "find_index (\<lambda>i. \<not> retryable_failure cfg (func i)) [0..<Suc (nat (rc_max_retries cfg))]")
  case (Some i)
  from find_index_Some [OF this]
  have i: "i < Suc (nat (rc_max_retries cfg))"
    and dec: "\<not> retryable_failure cfg (func i)" "\<forall>j<i. retryable_failure cfg (func j)"
    by (auto simp del: upt_Suc simp: nth_append)
  have n: "nat (rc_max_retries cfg + 1) = Suc (nat (rc_max_retries cfg))" using assms by simp
  have "retry_loop cfg func (nat (rc_max_retries cfg + 1)) 0 (rc_base_delay cfg) None
      = (func (0 + i), map (nth_delay cfg) [0..<0 + i])"
    unfolding n using i dec assms by (intro retry_loop_decided) auto
  with Some show ?thesis by (simp add: retry_async_def decisive_attempt_def del: upt_Suc)
next
  case None
  then have all: "\<forall>i\<le>nat (rc_max_retries cfg). retryable_failure cfg (func i)"
    by (auto simp: find_index_None simp del: upt_Suc)
  have n: "nat (rc_max_retries cfg + 1) = Suc (nat (rc_max_retries cfg))" using assms by simp
  have "retry_loop cfg func (nat (rc_max_retries cfg + 1)) 0 (rc_base_delay cfg) None
      = (func (0 + nat (rc_max_retries cfg)), map (nth_delay cfg) [0..<0 + nat (rc_max_retries cfg)])"
    unfolding n using all assms by (intro retry_loop_exhausted) auto
  with None show ?thesis by (simp add: retry_async_def decisive_attempt_def Let_def del: upt_Suc)
qed

text \<open>C30: \<open>retry_async\<close> reports the outcome of the first attempt that is not a retryable
  failure, or of attempt \<open>max_retries\<close> when every attempt is one; before each retry it
  sleeps, first \<open>base_delay\<close> and then the geometric delay capped at \<open>max_delay\<close> (the first
  sleep is the only one the cap does not bound).\<close>

theorem retry_async_outcome_and_sleeps:
  assumes "0 \<le> rc_max_retries cfg" and "1 \<le> rc_backoff_factor cfg" and "0 \<le> rc_max_delay cfg"
  shows "retry_async (Some cfg) func =
     (let k = decisive_attempt cfg func in
      (func k, map (\<lambda>i. if i = 0 then rc_base_delay cfg
         else min (rc_base_delay cfg * rc_backoff_factor cfg ^ i) (rc_max_delay cfg)) [0..<k]))"
  unfolding retry_async_decisive [OF assms(1)] Let_def
  using nth_delay_closed [OF assms(2,3)] by auto

theorem retry_async_outcome_and_sleeps_witness:
  "retry_async (Some (default_retry_config\<lparr>rc_max_delay := 3\<rparr>))
     (\<lambda>i. if i < 3 then Inl (TimeoutError ''slow'') else Inr i) = (Inr 3, [1, 2, 3])"
proof -
  define cfg where "cfg = default_retry_config\<lparr>rc_max_delay := 3\<rparr>"
  define func :: "nat \<Rightarrow> exn + nat" where "func = (\<lambda>i. if i < 3 then Inl (TimeoutError ''slow'') else Inr i)"
  have "decisive_attempt cfg func = 3"
    by (simp add: decisive_attempt_def cfg_def func_def default_retry_config_def
        retryable_failure_def upt_rec)
  then show ?thesis
    using retry_async_outcome_and_sleeps [of cfg func]
    by (simp add: cfg_def func_def default_retry_config_def upt_rec)
qed

lemma fc_loop_spec:
  "fc_loop le xs args =
     (case dropWhile (\<lambda>s. isl (s args)) xs of
        s # rest \<Rightarrow> s args
      | [] \<Rightarrow> if xs = [] then fc_loop le [] args else (last xs) args)"
proof (induction xs arbitrary: le)
  case Nil
  then show ?case by simp
next
  case (Cons x xs)
  show ?case
  proof (cases "x args")
    case (Inl e)
    show ?thesis
    proof (cases "xs = []")
      case True
      with Inl show ?thesis by simp
    next
      case False
      then have "last (x # xs) = last xs" by simp
      with Inl False Cons.IH [of "Some e"] show ?thesis
        by (simp only: fc_loop.simps sum.case dropWhile.simps list.simps if_True if_False simp_thms
            isl_def sum.inject)
    qed
  next
    case (Inr y)
    then show ?thesis by simp
  qed
qed

text \<open>A fallback chain gives the outcome of the first strategy that does not raise; when
  every strategy raises it raises the last one's exception, and an empty chain raises
  RuntimeError.\<close>

theorem fallback_chain_outcome:
  "fc_execute c args =
     (case dropWhile (\<lambda>s. isl (s args)) (fc_strategies c) of
        s # rest \<Rightarrow> s args
      | [] \<Rightarrow> if fc_strategies c = [] then Inl (RuntimeError ''All strategies exhausted'')
              else (last (fc_strategies c)) args)"
  unfolding fc_execute_def by (subst fc_loop_spec) simp

section \<open>Circuit breaker\<close>

datatype cb_state = CB_closed | CB_open | CB_half_open

record breaker =
  cb_threshold :: int
  cb_reset_timeout :: real
  cb_failures :: int
  cb_last_failure :: real
  cb_state :: cb_state

definition new_breaker :: "int \<Rightarrow> real \<Rightarrow> breaker" where
  "new_breaker threshold timeout = \<lparr>cb_threshold = threshold, cb_reset_timeout = timeout,
     cb_failures = 0, cb_last_failure = 0, cb_state = CB_closed\<rparr>"

definition cb_is_open :: "real \<Rightarrow> breaker \<Rightarrow> bool \<times> breaker" where
  "cb_is_open now cb =
     (if cb_state cb = CB_open then
        if now - cb_last_failure cb > cb_reset_timeout cb
        then (False, cb\<lparr>cb_state := CB_half_open\<rparr>) else (True, cb)
      else (False, cb))"

definition cb_record_success :: "breaker \<Rightarrow> breaker" where
  "cb_record_success cb = cb\<lparr>cb_failures := 0, cb_state := CB_closed\<rparr>"

definition cb_record_failure :: "real \<Rightarrow> breaker \<Rightarrow> breaker" where
  "cb_record_failure now cb =
     (let cb1 = cb\<lparr>cb_failures := cb_failures cb + 1, cb_last_failure := now\<rparr> in
      if cb_failures cb1 \<ge> cb_threshold cb1 then cb1\<lparr>cb_state := CB_open\<rparr> else cb1)"

text \<open>
  A call reads the clock in \<open>is_open\<close> and again in \<open>record_failure\<close>. The result carries
  whether the wrapped function was invoked at all.
\<close>

definition cb_call ::
  "real \<Rightarrow> exn + 'a \<Rightarrow> real \<Rightarrow> breaker \<Rightarrow> (exn + 'a) \<times> bool \<times> breaker" where
  "cb_call now outcome now' cb =
     (case cb_is_open now cb of
        (True, cb1) \<Rightarrow>
          (Inl (ConnectionError (''Circuit breaker is open '' @ [CHR 0xE2, CHR 0x80, CHR 0x94] @ '' cloud unavailable'')), False, cb1)
      | (False, cb1) \<Rightarrow>
          (case outcome of
             Inr x \<Rightarrow> (Inr x, True, cb_record_success cb1)
           | Inl e \<Rightarrow> (Inl e, True, cb_record_failure now' cb1)))"

text \<open>The events of a breaker's life: its public methods.\<close>

datatype 'a cb_event =
    CB_poll real | CB_call real "exn + 'a" real | CB_success | CB_failure real

fun cb_step :: "'a cb_event \<Rightarrow> breaker \<Rightarrow> breaker" where
  "cb_step (CB_poll now) cb = snd (cb_is_open now cb)"
| "cb_step (CB_call now r now') cb = snd (snd (cb_call now r now' cb))"
| "cb_step CB_success cb = cb_record_success cb"
| "cb_step (CB_failure now) cb = cb_record_failure now cb"

definition cb_inv :: "breaker \<Rightarrow> bool" where
  "cb_inv cb \<longleftrightarrow> 1 \<le> cb_threshold cb \<and> 0 \<le> cb_failures cb \<and>
     (cb_state cb = CB_closed \<longleftrightarrow> cb_failures cb < cb_threshold cb)"

lemma cb_inv_new [inv_intros]: "1 \<le> n \<Longrightarrow> cb_inv (new_breaker n t)"
  by (simp add: cb_inv_def new_breaker_def)

lemma cb_inv_is_open [inv_intros]: "cb_inv cb \<Longrightarrow> cb_inv (snd (cb_is_open now cb))"
  by (auto simp: cb_inv_def cb_is_open_def)

lemma cb_inv_success [inv_intros]: "cb_inv cb \<Longrightarrow> cb_inv (cb_record_success cb)"
  by (auto simp: cb_inv_def cb_record_success_def)

lemma cb_inv_failure [inv_intros]: "cb_inv cb \<Longrightarrow> cb_inv (cb_record_failure now cb)"
  by (auto simp: cb_inv_def cb_record_failure_def Let_def)

lemma cb_inv_call [inv_intros]: "cb_inv cb \<Longrightarrow> cb_inv (snd (snd (cb_call now r now' cb)))"
  using cb_inv_is_open [of cb now]
  by (auto simp: cb_call_def intro: inv_intros split: prod.splits bool.splits sum.splits)

interpretation cbs: step_system "cb_step :: 'a cb_event \<Rightarrow> breaker \<Rightarrow> breaker" cb_inv
proof unfold_locales
  fix s and e :: "'a cb_event"
  assume "cb_inv s"
  then show "cb_inv (cb_step e s)" by (cases e) (auto intro: inv_intros)
qed

text \<open>
  What the breaker has seen: one entry per recorded outcome, \<open>True\<close> for a success. The
  number of failures since the last success is what the breaker is meant to count.
\<close>

fun cb_seen :: "breaker \<Rightarrow> 'a cb_event list \<Rightarrow> bool list" where
  "cb_seen cb [] = []"
| "cb_seen cb (e # es) =
     (case e of
        CB_poll now \<Rightarrow> []
      | CB_call now r now' \<Rightarrow> if fst (snd (cb_call now r now' cb)) then [\<not> isl r] else []
      | CB_success \<Rightarrow> [True]
      | CB_failure now \<Rightarrow> [False]) @ cb_seen (cb_step e cb) es"

definition trailing_failures :: "bool list \<Rightarrow> nat" where
  "trailing_failures seen = length (takeWhile Not (rev seen))"

lemma trailing_failures_Nil [simp]: "trailing_failures [] = 0"
  by (simp add: trailing_failures_def)

lemma trailing_failures_snoc [simp]:
  "trailing_failures (seen @ [b]) = (if b then 0 else Suc (trailing_failures seen))"
  by (simp add: trailing_failures_def)

lemma cb_seen_append: "cb_seen cb (es @ fs) = cb_seen cb es @ cb_seen (fold cb_step es cb) fs"
  by (induction es arbitrary: cb) auto

lemma cb_failures_is_open [simp]: "cb_failures (snd (cb_is_open now cb)) = cb_failures cb"
  by (simp add: cb_is_open_def)

lemma cb_threshold_step [simp]: "cb_threshold (cb_step e cb) = cb_threshold cb"
  by (cases e) (auto simp: cb_call_def cb_is_open_def cb_record_success_def
      cb_record_failure_def Let_def split: sum.splits)

lemma cb_threshold_run: "cb_threshold (fold cb_step es cb) = cb_threshold cb"
  by (induction es arbitrary: cb) auto

lemma cb_failures_step:
  "cb_failures (cb_step e cb) =
     (case e of
        CB_poll now \<Rightarrow> cb_failures cb
      | CB_call now r now' \<Rightarrow>
          if \<not> fst (snd (cb_call now r now' cb)) then cb_failures cb
          else if isl r then cb_failures cb + 1 else 0
      | CB_success \<Rightarrow> 0
      | CB_failure now \<Rightarrow> cb_failures cb + 1)"
  by (auto simp: cb_call_def cb_is_open_def cb_record_success_def cb_record_failure_def Let_def
      split: cb_event.splits sum.splits)

lemma cb_failures_seen:
  assumes "cb_failures cb = 0"
  shows "cb_failures (fold cb_step es cb) = int (trailing_failures (cb_seen cb es))"
proof (induction es rule: rev_induct)
  case Nil
  then show ?case using assms by simp
next
  case (snoc e es)
  then show ?case
    by (auto simp: cb_seen_append cb_failures_step split: cb_event.splits)
qed

text \<open>Whatever sequence of polls, calls and recorded outcomes a fresh circuit breaker
  goes through, its failure counter is the number of failures recorded since the last
  success, and it is closed exactly while that number is below the threshold (so in the
  half-open state a single failed trial call opens it again).\<close>

theorem breaker_counts_consecutive_failures:
  fixes es :: "'a cb_event list"
  assumes "1 \<le> n"
  shows "cb_failures (fold cb_step es (new_breaker n t))
           = int (trailing_failures (cb_seen (new_breaker n t) es)) \<and>
         (cb_state (fold cb_step es (new_breaker n t)) = CB_closed \<longleftrightarrow>
            int (trailing_failures (cb_seen (new_breaker n t) es)) < n)"
proof -
  let ?cb = "fold cb_step es (new_breaker n t)"
  have f: "cb_failures ?cb = int (trailing_failures (cb_seen (new_breaker n t) es))"
    by (rule cb_failures_seen) (simp add: new_breaker_def)
  have "cb_inv ?cb" using assms by (intro cbs.inv_run inv_intros)
  moreover have "cb_threshold ?cb = n" by (simp add: cb_threshold_run new_breaker_def)
  ultimately show ?thesis using f by (auto simp: cb_inv_def)
qed

theorem breaker_counts_consecutive_failures_witness:
  "let es = [CB_call 0 (Inl (OSError ''a'')) 1, CB_call 2 (Inl (OSError ''b'')) 3,
             CB_call 4 (Inr ()) 5]
   in cb_failures (fold cb_step es (new_breaker 2 60)) = 2 \<and>
      cb_state (fold cb_step es (new_breaker 2 60)) \<noteq> CB_closed"
proof -
  define es where "es = [CB_call 0 (Inl (OSError ''a'')) 1, CB_call 2 (Inl (OSError ''b'')) 3,
             CB_call 4 (Inr ()) (5::real)]"
  have "trailing_failures (cb_seen (new_breaker 2 60) es) = 2"
    by (simp add: es_def new_breaker_def cb_call_def cb_is_open_def cb_record_failure_def
        trailing_failures_def)
  then show ?thesis
    using breaker_counts_consecutive_failures [of 2 es 60] unfolding es_def [symmetric] by simp
qed

text \<open>A call through the breaker is refused, without invoking the function and without
  changing the breaker, exactly when it is open and the reset timeout has not passed
  since the last failure; otherwise the function runs and its own outcome is passed on.\<close>

theorem breaker_call_refused_iff:
  "(fst (snd (cb_call now r now' cb)) \<longleftrightarrow>
      \<not> (cb_state cb = CB_open \<and> now - cb_last_failure cb \<le> cb_reset_timeout cb)) \<and>
   (if fst (snd (cb_call now r now' cb)) then fst (cb_call now r now' cb) = r
    else (\<exists>m. fst (cb_call now r now' cb) = Inl (ConnectionError m)) \<and>
         snd (snd (cb_call now r now' cb)) = cb)"
  by (auto simp: cb_call_def cb_is_open_def split: sum.splits)

end
