(* ===== verification/PyVal.thy ===== *)
theory PyVal
  imports Interfaces "HOL-Library.Word"
begin

text \<open>
  Python objects as the sources pass them around untyped (RPC payloads, call arguments,
  decoded JSON), the methods used on them, and base64, which the wire formats build on.
\<close>

section \<open>Objects\<close>

type_synonym byte = "8 word"

text \<open>
  \<open>VNdarray dt shape data\<close> is a numpy array with its \<open>tobytes()\<close> contents; \<open>VObj m c i\<close> is
  any other object: the module and name of its class and an identity.
\<close>

datatype pyval =
    VNone | VBool bool | VInt int | VFloat real | VStr string
  | VBytes "byte list" | VComplex real real
  | VList "pyval list" | VTuple "pyval list" | VSet "pyval list"
  | VDict "(pyval \<times> pyval) list"
  | VNdarray string "int list" "byte list"
  | VObj string string nat

fun truthy :: "pyval \<Rightarrow> bool" where
  "truthy VNone = False"
| "truthy (VBool b) = b"
| "truthy (VInt i) = (i \<noteq> 0)"
| "truthy (VFloat r) = (r \<noteq> 0)"
| "truthy (VStr s) = (s \<noteq> [])"
| "truthy (VBytes b) = (b \<noteq> [])"
| "truthy (VComplex r i) = (r \<noteq> 0 \<or> i \<noteq> 0)"
| "truthy (VList xs) = (xs \<noteq> [])"
| "truthy (VTuple xs) = (xs \<noteq> [])"
| "truthy (VSet xs) = (xs \<noteq> [])"
| "truthy (VDict d) = (d \<noteq> [])"
| "truthy (VNdarray dt shape b) = (b \<noteq> [])"
| "truthy (VObj m c i) = True"

text \<open>\<open>a or b\<close>\<close>

definition py_or :: "pyval \<Rightarrow> pyval \<Rightarrow> pyval" where
  "py_or a b = (if truthy a then a else b)"

text \<open>\<open>d.get(k, default)\<close>: only dicts have the method.\<close>

definition py_get :: "pyval \<Rightarrow> string \<Rightarrow> pyval \<Rightarrow> exn + pyval" where
  "py_get d k dflt = (case d of
       VDict kvs \<Rightarrow> Inr (case map_of kvs (VStr k) of Some v \<Rightarrow> v | None \<Rightarrow> dflt)
     | _ \<Rightarrow> Inl (AttributeError ''get''))"

text \<open>\<open>d[k]\<close> on a dict\<close>

definition py_item :: "(pyval \<times> pyval) list \<Rightarrow> string \<Rightarrow> exn + pyval" where
  "py_item d k = (case map_of d (VStr k) of Some v \<Rightarrow> Inr v | None \<Rightarrow> Inl (KeyError k))"

text \<open>
  Lists, dicts and sets are not hashable, tuples when their parts are; only hashable
  values can be dict keys or set members.
\<close>

fun hashable :: "pyval \<Rightarrow> bool" where
  "hashable (VList xs) = False"
| "hashable (VSet xs) = False"
| "hashable (VDict d) = False"
| "hashable (VNdarray dt shape b) = False"
| "hashable (VTuple xs) = list_all hashable xs"
| "hashable v = True"

text \<open>Values without numpy arrays or foreign objects, dict keys and set members hashable and
  distinct: what Python can build from literals.\<close>

fun plain :: "pyval \<Rightarrow> bool" where
  "plain (VList xs) = list_all plain xs"
| "plain (VTuple xs) = list_all plain xs"
| "plain (VSet xs) = (list_all plain xs \<and> list_all hashable xs \<and> distinct xs)"
| "plain (VDict d) = (list_all (\<lambda>kv. plain (snd kv)) d \<and> list_all (\<lambda>kv. hashable (fst kv)) d
      \<and> distinct (map fst d))"
| "plain (VNdarray dt shape b) = False"
| "plain (VObj m c i) = False"
| "plain v = True"

text \<open>Running a fallible function over a list, left to right, stopping at the first error.\<close>

fun traverse :: "('a \<Rightarrow> exn + 'b) \<Rightarrow> 'a list \<Rightarrow> exn + 'b list" where
  "traverse f [] = Inr []"
| "traverse f (x # xs) = (case f x of Inl e \<Rightarrow> Inl e
     | Inr y \<Rightarrow> (case traverse f xs of Inl e \<Rightarrow> Inl e | Inr ys \<Rightarrow> Inr (y # ys)))"

lemma traverse_cong [fundef_cong]:
  "xs = ys \<Longrightarrow> (\<And>x. x \<in> set ys \<Longrightarrow> f x = g x) \<Longrightarrow> traverse f xs = traverse g ys"
proof -
  assume eq: "xs = ys" and fg: "\<And>x. x \<in> set ys \<Longrightarrow> f x = g x"
  have "traverse f ys = traverse g ys" using fg
  proof (induction ys)
    case Nil
    then show ?case by simp
  next
    case (Cons y ys)
    then have "f y = g y" and "traverse f ys = traverse g ys" by auto
    then show ?case by (simp only: traverse.simps)
  qed
  with eq show ?thesis by simp
qed

lemma traverse_Inr:
  "(\<And>x. x \<in> set xs \<Longrightarrow> f x = Inr (g x)) \<Longrightarrow> traverse f xs = Inr (map g xs)"
  by (induction xs) auto

lemma traverse_Inl: "traverse f xs = Inl e \<Longrightarrow> \<exists>x\<in>set xs. f x = Inl e"
  by (induction xs) (auto split: sum.splits)

section \<open>Base64\<close>

text \<open>The standard alphabet.\<close>

definition b64_alphabet :: string where
  "b64_alphabet = ''ABCDEFGHIJKLMNOPQRSTUVWXYZabcdefghijklmnopqrstuvwxyz0123456789+/''"

definition b64_char :: "nat \<Rightarrow> char" where
  "b64_char n = b64_alphabet ! n"

definition b64_val :: "char \<Rightarrow> nat option" where
  "b64_val c = find_index (\<lambda>d. d = c) b64_alphabet"

fun b64_encode :: "byte list \<Rightarrow> string" where
  "b64_encode [] = []"
| "b64_encode [a] =
     [b64_char (unat a div 4), b64_char (unat a mod 4 * 16), CHR ''='', CHR ''='']"
| "b64_encode [a, b] =
     [b64_char (unat a div 4), b64_char (unat a mod 4 * 16 + unat b div 16),
      b64_char (unat b mod 16 * 4), CHR ''='']"
| "b64_encode (a # b # c # rest) =
     [b64_char (unat a div 4), b64_char (unat a mod 4 * 16 + unat b div 16),
      b64_char (unat b mod 16 * 4 + unat c div 64), b64_char (unat c mod 64)] @ b64_encode rest"

text \<open>
  The decoder of \<open>base64.b64decode\<close> without validation: a character outside the alphabet is
  skipped, a padding sign that completes a group ends the input, one that does not is
  skipped, and input that stops inside a group is an error.
  \<open>b64_dec pos left pads s\<close> is in position \<open>pos\<close> of a group with \<open>left\<close> bits carried over.
\<close>

fun b64_dec :: "nat \<Rightarrow> nat \<Rightarrow> nat \<Rightarrow> string \<Rightarrow> byte list option" where
  "b64_dec pos left pads [] = (if pos = 0 then Some [] else None)"
| "b64_dec pos left pads (c # s) =
     (if c = CHR ''='' then
        (if 2 \<le> pos then (if 4 \<le> pos + Suc pads then Some [] else b64_dec pos left (Suc pads) s)
         else b64_dec pos left pads s)
      else case b64_val c of
          None \<Rightarrow> b64_dec pos left pads s
        | Some v \<Rightarrow>
            (if pos = 0 then b64_dec 1 v 0 s
             else if pos = 1 then
               map_option ((#) (of_nat (left * 4 + v div 16))) (b64_dec 2 (v mod 16) 0 s)
             else if pos = 2 then
               map_option ((#) (of_nat (left * 16 + v div 4))) (b64_dec 3 (v mod 4) 0 s)
             else map_option ((#) (of_nat (left * 64 + v))) (b64_dec 0 0 0 s)))"

definition b64_decode :: "string \<Rightarrow> byte list option" where
  "b64_decode s = b64_dec 0 0 0 s"

lemma b64_val_char: "n < 64 \<Longrightarrow> b64_val (b64_char n) = Some n"
proof -
  have "\<forall>n\<in>set [0..<64]. b64_val (b64_char n) = Some n" by code_simp
  then show "n < 64 \<Longrightarrow> b64_val (b64_char n) = Some n" by auto
qed

lemma b64_char_not_pad: "n < 64 \<Longrightarrow> b64_char n \<noteq> CHR ''=''"
proof -
  have "\<forall>n\<in>set [0..<64]. b64_char n \<noteq> CHR ''=''" by code_simp
  then show "n < 64 \<Longrightarrow> b64_char n \<noteq> CHR ''=''" by auto
qed

lemma unat_byte: "unat (b :: byte) < 256"
proof -
  have "unat b < 2 ^ LENGTH(8)" by (rule unsigned_less)
  then show ?thesis by simp
qed

lemma of_nat_unat_byte: "n = unat (b :: byte) \<Longrightarrow> of_nat n = b"
  by simp

lemma b64_dec_char:
  "v < 64 \<Longrightarrow> b64_dec pos left pads (b64_char v # s) =
     (if pos = 0 then b64_dec 1 v 0 s
      else if pos = 1 then
        map_option ((#) (of_nat (left * 4 + v div 16))) (b64_dec 2 (v mod 16) 0 s)
      else if pos = 2 then
        map_option ((#) (of_nat (left * 16 + v div 4))) (b64_dec 3 (v mod 4) 0 s)
      else map_option ((#) (of_nat (left * 64 + v))) (b64_dec 0 0 0 s))"
  by (simp add: b64_val_char b64_char_not_pad)

lemma divmod_join:
  "(r::nat) < n \<Longrightarrow> (k * n + r) div n = k" "r < n \<Longrightarrow> (k * n + r) mod n = r"
  by simp_all

lemma group_bounds:
  assumes "(x::nat) < 256" and "y < 256" and "z < 256"
  shows "x div 4 < 64" "x mod 4 * 16 < 64" "y div 16 < 16" "x mod 4 * 16 + y div 16 < 64"
    "y mod 16 * 4 < 64" "z div 64 < 4" "y mod 16 * 4 + z div 64 < 64" "z mod 64 < 64"
proof -
  have m: "x mod 4 < 4" "y mod 16 < 16" by simp_all
  show "x div 4 < 64" "y div 16 < 16" "z div 64 < 4" "z mod 64 < 64" using assms by simp_all
  then show "x mod 4 * 16 < 64" "x mod 4 * 16 + y div 16 < 64" "y mod 16 * 4 < 64"
    "y mod 16 * 4 + z div 64 < 64" using m by linarith+
qed

lemma group_join:
  assumes "(y::nat) < 256" and "z < 256"
  shows "x div 4 * 4 + x mod 4 * 16 div 16 = (x::nat)"
    "x div 4 * 4 + (x mod 4 * 16 + y div 16) div 16 = x"
    "(x mod 4 * 16 + y div 16) mod 16 * 16 + y mod 16 * 4 div 4 = y"
    "(x mod 4 * 16 + y div 16) mod 16 * 16 + (y mod 16 * 4 + z div 64) div 4 = y"
    "(y mod 16 * 4 + z div 64) mod 4 * 64 + z mod 64 = z"
proof -
  have d: "y div 16 < 16" "z div 64 < 4" using assms by simp_all
  show "x div 4 * 4 + x mod 4 * 16 div 16 = x" by simp
  show "x div 4 * 4 + (x mod 4 * 16 + y div 16) div 16 = x"
    by (simp only: divmod_join(1) [OF d(1)] div_mult_mod_eq)
  show "(x mod 4 * 16 + y div 16) mod 16 * 16 + y mod 16 * 4 div 4 = y"
    by (simp only: divmod_join(2) [OF d(1)]) simp
  show "(x mod 4 * 16 + y div 16) mod 16 * 16 + (y mod 16 * 4 + z div 64) div 4 = y"
    by (simp only: divmod_join(2) [OF d(1)] divmod_join(1) [OF d(2)] div_mult_mod_eq)
  show "(y mod 16 * 4 + z div 64) mod 4 * 64 + z mod 64 = z"
    by (simp only: divmod_join(2) [OF d(2)] div_mult_mod_eq)
qed

lemma b64_roundtrip: "b64_dec 0 0 0 (b64_encode bs) = Some bs"
proof (induction bs rule: b64_encode.induct)
  case 1
  then show ?case by simp
next
  case (2 a)
  note u = unat_byte [of a] unat_byte [of a] unat_byte [of a]
  show ?case
    by (simp only: b64_encode.simps b64_dec_char group_bounds [OF u] if_True if_False
        group_join [OF u(1,2)] of_nat_unat zero_neq_one one_neq_zero) simp
next
  case (3 a b)
  note u = unat_byte [of a] unat_byte [of b] unat_byte [of b]
  show ?case
    by (simp only: b64_encode.simps b64_dec_char group_bounds [OF u] if_True if_False
        group_join [OF u(2,3)]) simp
next
  case (4 a b c rest)
  note u = unat_byte [of a] unat_byte [of b] unat_byte [of c]
  show ?case
    by (simp only: b64_encode.simps append.simps b64_dec_char group_bounds [OF u] if_True if_False
        group_join [OF u(2,3)]) (simp add: "4.IH")
qed

interpretation base64: codec b64_encode b64_decode "\<lambda>_. True"
  by unfold_locales (simp add: b64_decode_def b64_roundtrip)

end
