(* ===== verification/Serialization.thy ===== *)
theory Serialization
  imports PyVal
begin

text \<open>
  \<open>runtime/serialization.py\<close>: tagging Python values for JSON transport and reading them
  back. numpy, torch and pickle are the environment \<open>ser_env\<close>: what is importable, and
  what \<open>pickle.dumps\<close>, \<open>pickle.loads\<close>, \<open>repr\<close>, \<open>np.frombuffer(..).reshape(..)\<close> and
  \<open>torch.from_numpy\<close> give. Two Python values that compare equal across types (\<open>1\<close>, \<open>1.0\<close>,
  \<open>True\<close>) are kept apart as dict keys and set members.
\<close>

record ser_env =
  se_repr :: "pyval \<Rightarrow> string"
  se_dumps :: "pyval \<Rightarrow> exn + byte list"
  se_loads :: "byte list \<Rightarrow> exn + pyval"
  se_numpy :: bool
  se_torch :: bool
  se_np_array :: "byte list \<Rightarrow> pyval \<Rightarrow> pyval \<Rightarrow> exn + pyval"
  se_from_numpy :: "pyval \<Rightarrow> exn + pyval"

definition PICKLE_ALLOWLIST :: "string list" where
  "PICKLE_ALLOWLIST = [''builtins'', ''collections'', ''datetime'', ''decimal'',
     ''fractions'', ''numbers'', ''re'', ''uuid'']"

fun type_module :: "pyval \<Rightarrow> string" where
  "type_module (VObj m c i) = m"
| "type_module (VNdarray dt shape b) = ''numpy''"
| "type_module v = ''builtins''"

fun type_name :: "pyval \<Rightarrow> string" where
  "type_name (VObj m c i) = c"
| "type_name (VNdarray dt shape b) = ''ndarray''"
| "type_name VNone = ''NoneType''"
| "type_name (VBool b) = ''bool''"
| "type_name (VInt i) = ''int''"
| "type_name (VFloat r) = ''float''"
| "type_name (VStr s) = ''str''"
| "type_name (VBytes b) = ''bytes''"
| "type_name (VComplex r i) = ''complex''"
| "type_name (VList xs) = ''list''"
| "type_name (VTuple xs) = ''tuple''"
| "type_name (VSet xs) = ''set''"
| "type_name (VDict d) = ''dict''"

section \<open>Serialization\<close>

definition tagged :: "string \<Rightarrow> (string \<times> pyval) list \<Rightarrow> pyval" where
  "tagged tag kvs = VDict ((VStr ''__type__'', VStr tag) # map (\<lambda>(k, v). (VStr k, v)) kvs)"

definition is_numpy_array :: "ser_env \<Rightarrow> pyval \<Rightarrow> bool" where
  "is_numpy_array env v = (se_numpy env \<and> (case v of VNdarray _ _ _ \<Rightarrow> True | _ \<Rightarrow> False))"

definition serialize_numpy :: "string \<Rightarrow> int list \<Rightarrow> byte list \<Rightarrow> pyval" where
  "serialize_numpy dt shape b = tagged ''ndarray''
     [(''dtype'', VStr dt), (''shape'', VList (map VInt shape)), (''data'', VStr (b64_encode b))]"

definition serialize_pickle :: "ser_env \<Rightarrow> pyval \<Rightarrow> exn + pyval" where
  "serialize_pickle env v = (case se_dumps env v of Inl e \<Rightarrow> Inl e
     | Inr b \<Rightarrow> Inr (tagged ''pickle'' [(''data'', VStr (b64_encode b)),
         (''class'', VStr (type_module v @ ''.'' @ type_name v))]))"

definition serialize_other :: "ser_env \<Rightarrow> pyval \<Rightarrow> exn + pyval" where
  "serialize_other env v =
     (if hd (py_split CHR ''.'' (type_module v)) \<in> set PICKLE_ALLOWLIST then serialize_pickle env v
      else Inr (tagged ''repr'' [(''value'', VStr (se_repr env v)), (''class'', VStr (type_name v))]))"

lemma size_pair_mem [termination_simp]:
  "kv \<in> set d \<Longrightarrow> size (snd kv) < Suc (size_list (size_prod size size) d)"
  by (rule le_imp_less_Suc, rule less_imp_le, rule size_list_estimation, assumption, cases kv, simp)

definition snd_result :: "'k \<Rightarrow> exn + 'v \<Rightarrow> exn + ('k \<times> 'v)" where
  "snd_result k r = (case r of Inl e \<Rightarrow> Inl e | Inr v \<Rightarrow> Inr (k, v))"

definition map_result :: "('a \<Rightarrow> 'b) \<Rightarrow> exn + 'a \<Rightarrow> exn + 'b" where
  "map_result f r = (case r of Inl e \<Rightarrow> Inl e | Inr v \<Rightarrow> Inr (f v))"

lemma map_result_simps [simp]: "map_result f (Inl e) = Inl e" "map_result f (Inr v) = Inr (f v)"
  by (simp_all add: map_result_def)

lemma snd_result_simps [simp]: "snd_result k (Inl e) = Inl e" "snd_result k (Inr v) = Inr (k, v)"
  by (simp_all add: snd_result_def)

fun serialize_value :: "ser_env \<Rightarrow> pyval \<Rightarrow> exn + pyval" where
  "serialize_value env (VList xs) =
     map_result (\<lambda>ys. tagged ''list'' [(''values'', VList ys)]) (traverse (serialize_value env) xs)"
| "serialize_value env (VTuple xs) =
     map_result (\<lambda>ys. tagged ''list'' [(''values'', VList ys)]) (traverse (serialize_value env) xs)"
| "serialize_value env (VDict d) =
     map_result (\<lambda>kvs. tagged ''dict'' [(''items'', VDict kvs)])
       (traverse (\<lambda>kv. snd_result (fst kv) (serialize_value env (snd kv))) d)"
| "serialize_value env (VBytes b) = Inr (tagged ''bytes'' [(''data'', VStr (b64_encode b))])"
| "serialize_value env (VComplex r i) = Inr (tagged ''complex'' [(''real'', VFloat r), (''imag'', VFloat i)])"
| "serialize_value env (VSet xs) =
     map_result (\<lambda>ys. tagged ''set'' [(''values'', VList ys)]) (traverse (serialize_value env) xs)"
| "serialize_value env (VNdarray dt shape b) =
     (if is_numpy_array env (VNdarray dt shape b) then Inr (serialize_numpy dt shape b)
      else serialize_other env (VNdarray dt shape b))"
| "serialize_value env (VObj m c i) = serialize_other env (VObj m c i)"
| "serialize_value env v = Inr v"

definition serialize_args :: "ser_env \<Rightarrow> pyval \<Rightarrow> exn + pyval" where
  "serialize_args env args = (case args of
       VNone \<Rightarrow> Inr VNone
     | VList xs \<Rightarrow> map_result VList (traverse (serialize_value env) xs)
     | VTuple xs \<Rightarrow> map_result VList (traverse (serialize_value env) xs)
     | VDict d \<Rightarrow> map_result VDict
         (traverse (\<lambda>kv. snd_result (fst kv) (serialize_value env (snd kv))) d)
     | v \<Rightarrow> serialize_value env v)"

section \<open>Deserialization\<close>

text \<open>\<open>for x in v\<close>\<close>

definition py_iter :: "pyval \<Rightarrow> exn + pyval list" where
  "py_iter v = (case v of
       VList xs \<Rightarrow> Inr xs | VTuple xs \<Rightarrow> Inr xs | VSet xs \<Rightarrow> Inr xs
     | VDict d \<Rightarrow> Inr (map fst d)
     | VStr s \<Rightarrow> Inr (map (\<lambda>c. VStr [c]) s)
     | VBytes b \<Rightarrow> Inr (map (\<lambda>x. VInt (uint x)) b)
     | _ \<Rightarrow> Inl (TypeError ''object is not iterable''))"

definition py_b64decode :: "pyval \<Rightarrow> exn + byte list" where
  "py_b64decode v = (case v of
       VStr s \<Rightarrow>
         if list_all (\<lambda>c. (of_char c :: nat) < 128) s then
           (case b64_decode s of Some b \<Rightarrow> Inr b | None \<Rightarrow> Inl (ValueError ''Incorrect padding''))
         else Inl (ValueError ''string argument should contain only ASCII characters'')
     | VBytes b \<Rightarrow>
         (case b64_decode (map (\<lambda>x. char_of (unat x)) b) of Some b' \<Rightarrow> Inr b'
          | None \<Rightarrow> Inl (ValueError ''Incorrect padding''))
     | _ \<Rightarrow> Inl (TypeError ''argument should be a bytes-like object or ASCII string''))"

text \<open>\<open>complex(a, b)\<close> of two numbers\<close>

fun as_number :: "pyval \<Rightarrow> (real \<times> real) option" where
  "as_number (VBool b) = Some (if b then 1 else 0, 0)"
| "as_number (VInt i) = Some (of_int i, 0)"
| "as_number (VFloat r) = Some (r, 0)"
| "as_number (VComplex r i) = Some (r, i)"
| "as_number v = None"

definition py_complex :: "pyval \<Rightarrow> pyval \<Rightarrow> exn + pyval" where
  "py_complex a b = (case (as_number a, as_number b) of
       (Some (ar, ai), Some (br, bi)) \<Rightarrow> Inr (VComplex (ar - bi) (ai + br))
     | _ \<Rightarrow> Inl (TypeError ''complex() argument must be a number''))"

definition bind_result :: "exn + 'a \<Rightarrow> ('a \<Rightarrow> exn + 'b) \<Rightarrow> exn + 'b" where
  "bind_result r f = (case r of Inl e \<Rightarrow> Inl e | Inr v \<Rightarrow> f v)"

lemma bind_result_simps [simp]: "bind_result (Inl e) f = Inl e" "bind_result (Inr v) f = f v"
  by (simp_all add: bind_result_def)

lemma bind_result_cong [fundef_cong]:
  "r = r' \<Longrightarrow> (\<And>v. r' = Inr v \<Longrightarrow> f v = g v) \<Longrightarrow> bind_result r f = bind_result r' g"
  by (auto simp: bind_result_def split: sum.splits)

definition deserialize_numpy :: "ser_env \<Rightarrow> (pyval \<times> pyval) list \<Rightarrow> exn + pyval" where
  "deserialize_numpy env d =
     (if se_numpy env then
        bind_result (py_item d ''data'') (\<lambda>x. bind_result (py_b64decode x) (\<lambda>b.
        bind_result (py_item d ''dtype'') (\<lambda>dt. bind_result (py_item d ''shape'') (\<lambda>shape.
          se_np_array env b dt shape))))
      else Inr (VDict d))"

definition deserialize_tensor :: "ser_env \<Rightarrow> (pyval \<times> pyval) list \<Rightarrow> exn + pyval" where
  "deserialize_tensor env d =
     (if se_torch env \<and> se_numpy env then
        bind_result (py_item d ''data'') (\<lambda>x. bind_result (py_b64decode x) (\<lambda>b.
        bind_result (py_get (VDict d) ''numpy_dtype'' (VStr ''float32'')) (\<lambda>dt.
        bind_result (py_item d ''shape'') (\<lambda>shape.
        bind_result (se_np_array env b dt shape) (se_from_numpy env)))))
      else deserialize_numpy env d)"

definition deserialize_pickle :: "ser_env \<Rightarrow> (pyval \<times> pyval) list \<Rightarrow> exn + pyval" where
  "deserialize_pickle env d =
     bind_result (py_get (VDict d) ''class'' (VStr [])) (\<lambda>cp. case cp of
       VStr class_path \<Rightarrow>
         (if hd (py_split CHR ''.'' class_path) \<notin> set PICKLE_ALLOWLIST then Inr (VDict d)
          else bind_result (py_item d ''data'') (\<lambda>x. bind_result (py_b64decode x) (se_loads env)))
     | _ \<Rightarrow> Inl (AttributeError ''split''))"

lemma size_py_iter: "py_iter v = Inr xs \<Longrightarrow> x \<in> set xs \<Longrightarrow> size x \<le> size v"
proof (cases v)
  case (VDict d)
  have "size (fst kv) < Suc (size_list (size_prod size size) d)" if "kv \<in> set d" for kv
    by (rule le_imp_less_Suc, rule less_imp_le, rule size_list_estimation, rule that, cases kv, simp)
  then show "py_iter v = Inr xs \<Longrightarrow> x \<in> set xs \<Longrightarrow> size x \<le> size v"
    using VDict by (fastforce simp: py_iter_def)
qed (auto simp: py_iter_def dest: size_list_estimation' [of _ _ _ size] intro: less_imp_le_nat size_list_estimation)

lemma size_map_of: "map_of d k = Some v \<Longrightarrow> size v < Suc (size_list (size_prod size size) d)"
  using size_pair_mem [of "(k, v)" d] by (auto dest: map_of_SomeD)

definition get_values :: "(pyval \<times> pyval) list \<Rightarrow> exn + pyval list" where
  "get_values d = (case map_of d (VStr ''values'') of None \<Rightarrow> Inr [] | Some v \<Rightarrow> py_iter v)"

definition get_items :: "(pyval \<times> pyval) list \<Rightarrow> exn + (pyval \<times> pyval) list" where
  "get_items d = (case map_of d (VStr ''items'') of None \<Rightarrow> Inr []
     | Some (VDict kvs) \<Rightarrow> Inr kvs | Some _ \<Rightarrow> Inl (AttributeError ''items''))"

lemma size_get_values:
  "get_values d = Inr xs \<Longrightarrow> x \<in> set xs \<Longrightarrow> size x < Suc (size_list (size_prod size size) d)"
  by (auto simp: get_values_def dest!: size_py_iter size_map_of split: option.splits)

lemma size_get_items:
  "get_items d = Inr kvs \<Longrightarrow> kv \<in> set kvs \<Longrightarrow>
   size (snd kv) < Suc (size_list (size_prod size size) d)"
  using size_pair_mem [of kv kvs]
  by (auto simp: get_items_def dest!: size_map_of split: option.splits pyval.splits)

definition require_hashable :: "exn + pyval \<Rightarrow> exn + pyval" where
  "require_hashable r = bind_result r
     (\<lambda>v. if hashable v then Inr v else Inl (TypeError ''unhashable type''))"

function (sequential) deserialize_result :: "ser_env \<Rightarrow> pyval \<Rightarrow> exn + pyval" where
  "deserialize_result env (VList xs) = map_result VList (traverse (deserialize_result env) xs)"
| "deserialize_result env (VDict d) =
     (case map_of d (VStr ''__type__'') of
        Some tag \<Rightarrow>
          if truthy tag then
            (if tag = VStr ''list'' then
               bind_result (get_values d) (\<lambda>xs. map_result VList (traverse (deserialize_result env) xs))
             else if tag = VStr ''dict'' then
               bind_result (get_items d) (\<lambda>kvs. map_result VDict
                 (traverse (\<lambda>kv. snd_result (fst kv) (deserialize_result env (snd kv))) kvs))
             else if tag = VStr ''bytes'' then
               bind_result (py_item d ''data'') (\<lambda>x. map_result VBytes (py_b64decode x))
             else if tag = VStr ''complex'' then
               bind_result (py_item d ''real'') (\<lambda>a. bind_result (py_item d ''imag'') (py_complex a))
             else if tag = VStr ''set'' then
               bind_result (get_values d) (\<lambda>xs. map_result (\<lambda>ys. VSet (remdups ys))
                 (traverse (\<lambda>x. require_hashable (deserialize_result env x)) xs))
             else if tag = VStr ''ndarray'' then deserialize_numpy env d
             else if tag = VStr ''tensor'' then deserialize_tensor env d
             else if tag = VStr ''pickle'' then deserialize_pickle env d
             else if tag = VStr ''repr'' then py_get (VDict d) ''value'' (VStr [])
             else Inr (VDict d))
          else map_result VDict
            (traverse (\<lambda>kv. snd_result (fst kv) (deserialize_result env (snd kv))) d)
      | None \<Rightarrow> map_result VDict
            (traverse (\<lambda>kv. snd_result (fst kv) (deserialize_result env (snd kv))) d))"
| "deserialize_result env v = Inr v"
  by pat_completeness auto
termination
  by (relation "measure (\<lambda>(env, v). size v)")
    (auto dest: size_get_values size_get_items size_pair_mem size_list_estimation
      simp: less_Suc_eq_le intro: size_list_estimation')

section \<open>Round trip\<close>

text \<open>What comes back: tuples have become lists, everything else is unchanged.\<close>

fun listify :: "pyval \<Rightarrow> pyval" where
  "listify (VList xs) = VList (map listify xs)"
| "listify (VTuple xs) = VList (map listify xs)"
| "listify (VDict d) = VDict (map (\<lambda>kv. (fst kv, listify (snd kv))) d)"
| "listify v = v"

fun scalar :: "pyval \<Rightarrow> bool" where
  "scalar (VList xs) = False"
| "scalar (VTuple xs) = False"
| "scalar (VSet xs) = False"
| "scalar (VDict d) = False"
| "scalar (VNdarray dt shape b) = False"
| "scalar (VObj m c i) = False"
| "scalar v = True"

text \<open>
  The values that survive: nested lists, tuples and dicts of scalars, sets of scalars, and
  arrays that numpy rebuilds from their own bytes, dtype and shape.
\<close>

fun transportable :: "ser_env \<Rightarrow> pyval \<Rightarrow> bool" where
  "transportable env (VList xs) = list_all (transportable env) xs"
| "transportable env (VTuple xs) = list_all (transportable env) xs"
| "transportable env (VSet xs) = (list_all scalar xs \<and> distinct xs)"
| "transportable env (VDict d) = list_all (\<lambda>kv. transportable env (snd kv)) d"
| "transportable env (VNdarray dt shape b) =
     (se_numpy env \<and> se_np_array env b (VStr dt) (VList (map VInt shape)) = Inr (VNdarray dt shape b))"
| "transportable env (VObj m c i) = False"
| "transportable env v = True"

lemma traverse_roundtrip:
  assumes "\<And>x. x \<in> set xs \<Longrightarrow> \<exists>j. f x = Inr j \<and> g j = Inr (h x)"
  shows "\<exists>js. traverse f xs = Inr js \<and> traverse g js = Inr (map h xs)"
  using assms
proof (induction xs)
  case Nil
  then show ?case by simp
next
  case (Cons x xs)
  then obtain js where "traverse f xs = Inr js \<and> traverse g js = Inr (map h xs)" by auto
  moreover obtain j where "f x = Inr j \<and> g j = Inr (h x)" using Cons.prems [of x] by auto
  ultimately show ?case by auto
qed

lemma b64_encode_ascii: "list_all (\<lambda>c. (of_char c :: nat) < 128) (b64_encode bs)"
proof -
  have a: "\<forall>n\<in>set [0..<64]. (of_char (b64_char n) :: nat) < 128" by code_simp
  have "(of_char (b64_char n) :: nat) < 128" if "n < 64" for n using a that by auto
  then show ?thesis
  proof (induction bs rule: b64_encode.induct)
    case (2 a)
    note u = unat_byte [of a] unat_byte [of a] unat_byte [of a]
    show ?case using 2 group_bounds [OF u] by simp
  next
    case (3 a b)
    note u = unat_byte [of a] unat_byte [of b] unat_byte [of b]
    show ?case using 3 group_bounds [OF u] by simp
  next
    case (4 a b c rest)
    note u = unat_byte [of a] unat_byte [of b] unat_byte [of c]
    show ?case using 4 group_bounds [OF u] by simp
  qed simp
qed

lemma py_b64decode_encode [simp]: "py_b64decode (VStr (b64_encode b)) = Inr b"
  using b64_encode_ascii [of b] base64.dec_enc [of b] by (simp add: py_b64decode_def)

lemma deserialize_tagged:
  "deserialize_result env (tagged ''list'' [(''values'', VList ys)]) =
     map_result VList (traverse (deserialize_result env) ys)"
  "deserialize_result env (tagged ''dict'' [(''items'', VDict kvs)]) =
     map_result VDict (traverse (\<lambda>kv. snd_result (fst kv) (deserialize_result env (snd kv))) kvs)"
  "deserialize_result env (tagged ''bytes'' [(''data'', VStr (b64_encode b))]) = Inr (VBytes b)"
  "deserialize_result env (tagged ''complex'' [(''real'', VFloat r), (''imag'', VFloat i)])
     = Inr (VComplex r i)"
  "deserialize_result env (tagged ''set'' [(''values'', VList ys)]) =
     map_result (\<lambda>zs. VSet (remdups zs)) (traverse (\<lambda>x. require_hashable (deserialize_result env x)) ys)"
  by (simp_all add: tagged_def get_values_def get_items_def py_iter_def py_item_def py_complex_def)

lemma deserialize_ndarray:
  "se_numpy env \<Longrightarrow> deserialize_result env (serialize_numpy dt shape b) =
     se_np_array env b (VStr dt) (VList (map VInt shape))"
  by (simp add: serialize_numpy_def tagged_def deserialize_numpy_def py_item_def)

lemma scalar_roundtrip:
  "scalar v \<Longrightarrow> \<exists>j. serialize_value env v = Inr j \<and> require_hashable (deserialize_result env j) = Inr v"
  by (cases v) (auto simp: deserialize_tagged require_hashable_def)

lemma serialize_roundtrip:
  "transportable env v \<Longrightarrow>
     \<exists>j. serialize_value env v = Inr j \<and> deserialize_result env j = Inr (listify v)"
proof (induction env v rule: serialize_value.induct)
  case (1 env xs)
  then have "\<exists>js. traverse (serialize_value env) xs = Inr js \<and>
      traverse (deserialize_result env) js = Inr (map listify xs)"
    by (intro traverse_roundtrip) (auto simp: list_all_iff)
  then show ?case by (auto simp: deserialize_tagged)
next
  case (2 env xs)
  then have "\<exists>js. traverse (serialize_value env) xs = Inr js \<and>
      traverse (deserialize_result env) js = Inr (map listify xs)"
    by (intro traverse_roundtrip) (auto simp: list_all_iff)
  then show ?case by (auto simp: deserialize_tagged)
next
  case (3 env d)
  have "\<exists>js. traverse (\<lambda>kv. snd_result (fst kv) (serialize_value env (snd kv))) d = Inr js \<and>
      traverse (\<lambda>kv. snd_result (fst kv) (deserialize_result env (snd kv))) js
        = Inr (map (\<lambda>kv. (fst kv, listify (snd kv))) d)"
  proof (rule traverse_roundtrip)
    fix kv assume kv: "kv \<in> set d"
    with "3.prems" have "transportable env (snd kv)" by (auto simp: list_all_iff)
    with "3.IH" [OF kv] obtain j where "serialize_value env (snd kv) = Inr j"
      "deserialize_result env j = Inr (listify (snd kv))" by blast
    then show "\<exists>j. snd_result (fst kv) (serialize_value env (snd kv)) = Inr j \<and>
        snd_result (fst j) (deserialize_result env (snd j)) = Inr (fst kv, listify (snd kv))"
      by simp
  qed
  then show ?case by (auto simp: deserialize_tagged)
next
  case (6 env xs)
  then have "\<exists>js. traverse (serialize_value env) xs = Inr js \<and>
      traverse (\<lambda>x. require_hashable (deserialize_result env x)) js = Inr (map (\<lambda>x. x) xs)"
    by (intro traverse_roundtrip scalar_roundtrip) (auto simp: list_all_iff)
  with 6 show ?case by (auto simp: deserialize_tagged distinct_remdups_id)
next
  case (7 env dt shape b)
  then show ?case by (auto simp: is_numpy_array_def deserialize_ndarray)
qed (auto simp: deserialize_tagged)

text \<open>The serialized form is a JSON value: only string keys, no tuple, set, bytes or object.\<close>

fun is_str :: "pyval \<Rightarrow> bool" where
  "is_str (VStr s) = True"
| "is_str v = False"

fun json_pure :: "pyval \<Rightarrow> bool" where
  "json_pure (VList xs) = list_all json_pure xs"
| "json_pure (VDict d) = list_all (\<lambda>kv. is_str (fst kv) \<and> json_pure (snd kv)) d"
| "json_pure VNone = True"
| "json_pure (VBool b) = True"
| "json_pure (VInt i) = True"
| "json_pure (VFloat r) = True"
| "json_pure (VStr s) = True"
| "json_pure v = False"

fun string_keys :: "pyval \<Rightarrow> bool" where
  "string_keys (VList xs) = list_all string_keys xs"
| "string_keys (VTuple xs) = list_all string_keys xs"
| "string_keys (VSet xs) = list_all string_keys xs"
| "string_keys (VDict d) = list_all (\<lambda>kv. is_str (fst kv) \<and> string_keys (snd kv)) d"
| "string_keys v = True"

lemma traverse_image:
  "traverse f xs = Inr ys \<Longrightarrow> y \<in> set ys \<Longrightarrow> \<exists>x\<in>set xs. f x = Inr y"
  by (induction xs arbitrary: ys) (auto split: sum.splits)

lemma map_result_Inr: "map_result f r = Inr y \<longleftrightarrow> (\<exists>v. r = Inr v \<and> y = f v)"
  by (auto simp: map_result_def split: sum.splits)

lemma snd_result_Inr: "snd_result k r = Inr y \<longleftrightarrow> (\<exists>v. r = Inr v \<and> y = (k, v))"
  by (auto simp: snd_result_def split: sum.splits)

lemma json_pure_other: "serialize_other env v = Inr j \<Longrightarrow> json_pure j"
  by (auto simp: serialize_other_def serialize_pickle_def tagged_def split: if_splits sum.splits)

lemma json_pure_list:
  assumes "traverse (serialize_value env) xs = Inr ys"
    and "\<And>x j. x \<in> set xs \<Longrightarrow> serialize_value env x = Inr j \<Longrightarrow> json_pure j"
  shows "list_all json_pure ys"
  using assms by (auto simp: list_all_iff dest: traverse_image)

lemma json_pure_values:
  assumes "map_result (\<lambda>ys. tagged t [(''values'', VList ys)]) (traverse (serialize_value env) xs) = Inr j"
    and "\<And>x j. x \<in> set xs \<Longrightarrow> serialize_value env x = Inr j \<Longrightarrow> string_keys x \<Longrightarrow> json_pure j"
    and "list_all string_keys xs"
  shows "json_pure j"
proof -
  from assms(1) obtain ys where ys: "traverse (serialize_value env) xs = Inr ys"
    and j: "j = tagged t [(''values'', VList ys)]"
    by (auto simp: map_result_Inr)
  have "list_all json_pure ys"
    by (rule json_pure_list [OF ys]) (use assms(2,3) in \<open>auto simp: list_all_iff\<close>)
  then show ?thesis by (simp add: j tagged_def)
qed

lemma serialize_json_pure: "serialize_value env v = Inr j \<Longrightarrow> string_keys v \<Longrightarrow> json_pure j"
proof (induction env v arbitrary: j rule: serialize_value.induct)
  case (1 env xs)
  then show ?case by (auto intro: json_pure_values)
next
  case (2 env xs)
  then show ?case by (auto intro: json_pure_values)
next
  case (3 env d)
  from "3.prems"(1) obtain kvs where
    kvs: "traverse (\<lambda>kv. snd_result (fst kv) (serialize_value env (snd kv))) d = Inr kvs"
    and j: "j = tagged ''dict'' [(''items'', VDict kvs)]"
    by (auto simp: map_result_Inr)
  have "is_str (fst kv') \<and> json_pure (snd kv')" if "kv' \<in> set kvs" for kv'
  proof -
    from traverse_image [OF kvs that] obtain kv where kv: "kv \<in> set d"
      and "snd_result (fst kv) (serialize_value env (snd kv)) = Inr kv'" by blast
    then obtain v where v: "serialize_value env (snd kv) = Inr v" and kv': "kv' = (fst kv, v)"
      by (auto simp: snd_result_Inr)
    have "is_str (fst kv)" "string_keys (snd kv)" using "3.prems"(2) kv by (auto simp: list_all_iff)
    with "3.IH" [OF kv v] kv' show ?thesis by simp
  qed
  then show ?case by (auto simp: j tagged_def list_all_iff)
next
  case (6 env xs)
  then show ?case by (auto intro: json_pure_values)
next
  case (7 env dt shape b)
  then show ?case
    by (auto simp: serialize_numpy_def tagged_def list_all_iff dest: json_pure_other split: if_splits)
qed (auto simp: tagged_def dest: json_pure_other)


definition no_libs_env :: ser_env where
  "no_libs_env = \<lparr>se_repr = (\<lambda>v. ''?''), se_dumps = (\<lambda>v. Inr []), se_loads = (\<lambda>b. Inr VNone),
     se_numpy = False, se_torch = False, se_np_array = (\<lambda>b d s. Inl (TypeError ''no numpy'')),
     se_from_numpy = (\<lambda>v. Inl (TypeError ''no torch''))\<rparr>"


text \<open>The allowlist of \<open>_deserialize_pickle\<close> does not restrict what is unpickled: it only
  reads the \<open>class\<close> field of the message, so for every byte string there is a message that
  hands exactly these bytes to \<open>pickle.loads\<close>.\<close>

theorem pickle_allowlist_trusts_the_message:
  "deserialize_result env (tagged ''pickle''
      [(''data'', VStr (b64_encode b)), (''class'', VStr ''builtins.int'')]) = se_loads env b"
  by (simp add: tagged_def deserialize_pickle_def py_get_def py_item_def PICKLE_ALLOWLIST_def)

text \<open>A set that contains a tuple is serialized without complaint but can never be read
  back: the tuple returns as a list, which is not hashable, and \<open>deserialize_result\<close>
  raises TypeError.\<close>

theorem set_of_tuples_is_lost:
  assumes "list_all scalar ts"
  shows "\<exists>j m. serialize_value env (VSet [VTuple ts]) = Inr j \<and>
           deserialize_result env j = Inl (TypeError m)"
proof -
  have "\<forall>v. scalar v \<longrightarrow> transportable env v \<and> listify v = v"
  proof (intro allI impI)
    fix v assume "scalar v"
    then show "transportable env v \<and> listify v = v" by (cases v) auto
  qed
  with assms have "transportable env (VTuple ts)" by (auto simp: list_all_iff)
  from serialize_roundtrip [OF this] obtain j where
    j: "serialize_value env (VTuple ts) = Inr j" "deserialize_result env j = Inr (VList (map listify ts))"
    by auto
  then show ?thesis by (auto simp: deserialize_tagged require_hashable_def)
qed

theorem set_of_tuples_is_lost_witness:
  "\<exists>j m. serialize_value no_libs_env (VSet [VTuple [VInt 1, VInt 2]]) = Inr j \<and>
     deserialize_result no_libs_env j = Inl (TypeError m)"
  using set_of_tuples_is_lost [of "[VInt 1, VInt 2]" no_libs_env] by simp

end
