(* ===== verification/Protocol.thy ===== *)
theory Protocol
  imports Serialization
begin

text \<open>
  \<open>shared/protocol.py\<close>: message types, the message object, its dictionary and JSON forms
  and the constructors. Fields that come off the wire are untyped values. A fresh uuid and
  the clock reading that \<open>__init__\<close> takes are arguments. JSON text is represented by the
  value \<open>json.loads\<close> reads from it, and by \<open>None\<close> when it is not JSON; the msgpack form is
  not modelled.
\<close>

section \<open>Message types\<close>

datatype msg_type =
    MT_CALL | MT_RESULT | MT_ERROR
  | MT_STREAM_START | MT_STREAM_CHUNK | MT_STREAM_END
  | MT_HEARTBEAT | MT_HEARTBEAT_ACK
  | MT_SESSION_INIT | MT_SESSION_ACK | MT_SESSION_END
  | MT_NOTIFY | MT_LOG | MT_PROGRESS

fun msg_type_value :: "msg_type \<Rightarrow> string" where
  "msg_type_value MT_CALL = ''rpc.call''"
| "msg_type_value MT_RESULT = ''rpc.result''"
| "msg_type_value MT_ERROR = ''rpc.error''"
| "msg_type_value MT_STREAM_START = ''rpc.stream.start''"
| "msg_type_value MT_STREAM_CHUNK = ''rpc.stream.chunk''"
| "msg_type_value MT_STREAM_END = ''rpc.stream.end''"
| "msg_type_value MT_HEARTBEAT = ''rpc.heartbeat''"
| "msg_type_value MT_HEARTBEAT_ACK = ''rpc.heartbeat.ack''"
| "msg_type_value MT_SESSION_INIT = ''session.init''"
| "msg_type_value MT_SESSION_ACK = ''session.ack''"
| "msg_type_value MT_SESSION_END = ''session.end''"
| "msg_type_value MT_NOTIFY = ''rpc.notify''"
| "msg_type_value MT_LOG = ''rpc.log''"
| "msg_type_value MT_PROGRESS = ''rpc.progress''"

definition all_msg_types :: "msg_type list" where
  "all_msg_types = [MT_CALL, MT_RESULT, MT_ERROR, MT_STREAM_START, MT_STREAM_CHUNK,
     MT_STREAM_END, MT_HEARTBEAT, MT_HEARTBEAT_ACK, MT_SESSION_INIT, MT_SESSION_ACK,
     MT_SESSION_END, MT_NOTIFY, MT_LOG, MT_PROGRESS]"

text \<open>\<open>MessageType(x)\<close>: lookup by value, ValueError for anything else.\<close>

definition parse_msg_type :: "pyval \<Rightarrow> msg_type option" where
  "parse_msg_type v = find (\<lambda>t. VStr (msg_type_value t) = v) all_msg_types"

interpretation msg_type: codec "\<lambda>t. VStr (msg_type_value t)" parse_msg_type "\<lambda>_. True"
proof unfold_locales
  fix t
  show "parse_msg_type (VStr (msg_type_value t)) = Some t"
    by (cases t) (simp_all add: parse_msg_type_def all_msg_types_def)
qed

section \<open>Messages\<close>

record rpc_msg =
  rm_type :: msg_type
  rm_id :: pyval
  rm_method :: pyval
  rm_params :: pyval
  rm_result :: pyval
  rm_error :: pyval
  rm_timestamp :: real
  rm_metadata :: pyval

text \<open>\<open>RPCMessage(type, method, params, result, error, id, metadata)\<close>\<close>

definition rpc_message ::
  "string \<Rightarrow> real \<Rightarrow> msg_type \<Rightarrow> pyval \<Rightarrow> pyval \<Rightarrow> pyval \<Rightarrow> pyval \<Rightarrow> pyval \<Rightarrow> pyval \<Rightarrow> rpc_msg" where
  "rpc_message uuid now type method params result error id' metadata =
     \<lparr>rm_type = type, rm_id = py_or id' (VStr uuid), rm_method = method,
      rm_params = py_or params (VDict []), rm_result = result, rm_error = error,
      rm_timestamp = now, rm_metadata = py_or metadata (VDict [])\<rparr>"

definition opt_field :: "bool \<Rightarrow> string \<Rightarrow> pyval \<Rightarrow> (pyval \<times> pyval) list" where
  "opt_field present k v = (if present then [(VStr k, v)] else [])"

definition to_dict :: "rpc_msg \<Rightarrow> pyval" where
  "to_dict m = VDict
     ([(VStr ''jsonrpc'', VStr ''2.0''),
       (VStr ''type'', VStr (msg_type_value (rm_type m))),
       (VStr ''id'', rm_id m),
       (VStr ''timestamp'', VFloat (rm_timestamp m))]
      @ opt_field (truthy (rm_method m)) ''method'' (rm_method m)
      @ opt_field (truthy (rm_params m)) ''params'' (rm_params m)
      @ opt_field (rm_result m \<noteq> VNone) ''result'' (rm_result m)
      @ opt_field (truthy (rm_error m)) ''error'' (rm_error m)
      @ opt_field (truthy (rm_metadata m)) ''metadata'' (rm_metadata m))"

text \<open>\<open>data.get(k)\<close> on a dict\<close>

definition dict_get_none :: "(pyval \<times> pyval) list \<Rightarrow> string \<Rightarrow> pyval" where
  "dict_get_none d k = (case map_of d (VStr k) of Some v \<Rightarrow> v | None \<Rightarrow> VNone)"

definition from_dict :: "string \<Rightarrow> real \<Rightarrow> pyval \<Rightarrow> exn + rpc_msg" where
  "from_dict uuid now data =
     bind_result (py_get data ''type'' (VStr ''rpc.call'')) (\<lambda>t.
       case parse_msg_type t of
         None \<Rightarrow> Inl (ValueError ''not a valid MessageType'')
       | Some ty \<Rightarrow>
           bind_result (py_get data ''id'' VNone) (\<lambda>i.
           bind_result (py_get data ''method'' VNone) (\<lambda>me.
           bind_result (py_get data ''params'' VNone) (\<lambda>p.
           bind_result (py_get data ''result'' VNone) (\<lambda>r.
           bind_result (py_get data ''error'' VNone) (\<lambda>e.
           bind_result (py_get data ''metadata'' VNone) (\<lambda>md.
             Inr (rpc_message uuid now ty me p r e i md))))))))"

section \<open>JSON\<close>

text \<open>
  \<open>json.loads(json.dumps(v, default=str))\<close>: tuples become lists, keys become strings, what
  JSON cannot hold is written with \<open>str\<close>, and a dict whose keys collide keeps the last value.
\<close>

fun json_key :: "(pyval \<Rightarrow> string) \<Rightarrow> pyval \<Rightarrow> exn + string" where
  "json_key str (VStr s) = Inr s"
| "json_key str (VInt i) = Inr (int_str i)"
| "json_key str (VBool b) = Inr (if b then ''true'' else ''false'')"
| "json_key str VNone = Inr ''null''"
| "json_key str (VFloat r) = Inr (str (VFloat r))"
| "json_key str v = Inl (TypeError ''keys must be str, int, float, bool or None'')"

fun json_wire :: "(pyval \<Rightarrow> string) \<Rightarrow> pyval \<Rightarrow> exn + pyval" where
  "json_wire str (VList xs) = map_result VList (traverse (json_wire str) xs)"
| "json_wire str (VTuple xs) = map_result VList (traverse (json_wire str) xs)"
| "json_wire str (VDict d) =
     map_result (\<lambda>kvs. VDict (fold (\<lambda>(k, v). dset (VStr k) v) kvs []))
       (traverse (\<lambda>kv. bind_result (json_key str (fst kv)) (\<lambda>k. snd_result k (json_wire str (snd kv)))) d)"
| "json_wire str VNone = Inr VNone"
| "json_wire str (VBool b) = Inr (VBool b)"
| "json_wire str (VInt i) = Inr (VInt i)"
| "json_wire str (VFloat r) = Inr (VFloat r)"
| "json_wire str (VStr s) = Inr (VStr s)"
| "json_wire str v = Inr (VStr (str v))"

definition to_json :: "(pyval \<Rightarrow> string) \<Rightarrow> rpc_msg \<Rightarrow> exn + pyval" where
  "to_json str m = json_wire str (to_dict m)"

definition from_json :: "string \<Rightarrow> real \<Rightarrow> pyval option \<Rightarrow> exn + rpc_msg" where
  "from_json uuid now raw = (case raw of
       None \<Rightarrow> Inl (JSONDecodeError ''Expecting value'')
     | Some v \<Rightarrow> from_dict uuid now v)"

text \<open>Values that JSON carries unchanged: pure, and no dict repeats a key.\<close>

fun canonical :: "pyval \<Rightarrow> bool" where
  "canonical (VList xs) = list_all canonical xs"
| "canonical (VDict d) = (list_all (\<lambda>kv. is_str (fst kv) \<and> canonical (snd kv)) d \<and> distinct (map fst d))"
| "canonical v = json_pure v"

lemma fold_dset_append:
  "distinct (map fst (acc @ kvs)) \<Longrightarrow> fold (\<lambda>(k, v). dset k v) kvs acc = acc @ kvs"
proof (induction kvs arbitrary: acc)
  case Nil
  then show ?case by simp
next
  case (Cons p kvs)
  obtain k v where p: "p = (k, v)" by (cases p)
  with Cons.prems have "\<not> dhas acc k" by (auto simp: dhas_keys)
  then have "dset k v acc = acc @ [(k, v)]" by (rule dkeys_dset_new)
  with Cons.IH [of "acc @ [(k, v)]"] Cons.prems p show ?case by simp
qed

lemma json_wire_canonical: "canonical v \<Longrightarrow> json_wire str v = Inr v"
proof (induction str v rule: json_wire.induct)
  case (1 str xs)
  then have "traverse (json_wire str) xs = Inr (map (\<lambda>x. x) xs)"
    by (intro traverse_Inr) (auto simp: list_all_iff)
  then show ?case by simp
next
  case (3 str d)
  let ?unstr = "\<lambda>k. case k of VStr s \<Rightarrow> s | _ \<Rightarrow> []"
  have "traverse (\<lambda>kv. bind_result (json_key str (fst kv)) (\<lambda>k. snd_result k (json_wire str (snd kv)))) d
      = Inr (map (\<lambda>kv. (?unstr (fst kv), snd kv)) d)"
  proof (rule traverse_Inr)
    fix kv assume kv: "kv \<in> set d"
    with "3.prems" have c: "is_str (fst kv)" "canonical (snd kv)" by (auto simp: list_all_iff)
    then obtain s where s: "fst kv = VStr s" by (cases "fst kv") auto
    with "3.IH" [of kv s] kv c show
      "bind_result (json_key str (fst kv)) (\<lambda>k. snd_result k (json_wire str (snd kv)))
        = Inr (?unstr (fst kv), snd kv)" by simp
  qed
  moreover have "fold (\<lambda>(k, v). dset (VStr k) v) (map (\<lambda>kv. (?unstr (fst kv), snd kv)) d) [] = d"
  proof -
    have "map (\<lambda>kv. (VStr (?unstr (fst kv)), snd kv)) d = map (\<lambda>kv. kv) d"
      using "3.prems" by (intro map_cong refl) (auto simp: list_all_iff elim!: is_str.elims)
    then have m: "map (\<lambda>kv. (VStr (?unstr (fst kv)), snd kv)) d = d" by simp
    have "fold (\<lambda>(k, v). dset (VStr k) v) (map (\<lambda>kv. (?unstr (fst kv), snd kv)) d) []
        = fold (\<lambda>(k, v). dset k v) (map (\<lambda>kv. (VStr (?unstr (fst kv)), snd kv)) d) []"
      by (simp add: fold_map comp_def)
    also have "\<dots> = d" unfolding m using fold_dset_append [of "[]" d] "3.prems" by simp
    finally show ?thesis .
  qed
  ultimately show ?case by simp
qed auto

section \<open>Constructors\<close>

definition str_dict :: "(string \<times> pyval) list \<Rightarrow> pyval" where
  "str_dict kvs = VDict (map (\<lambda>(k, v). (VStr k, v)) kvs)"

definition make_call :: "string \<Rightarrow> real \<Rightarrow> string \<Rightarrow> pyval \<Rightarrow> pyval \<Rightarrow> rpc_msg" where
  "make_call uuid now method params kwargs =
     rpc_message uuid now MT_CALL (VStr method) (py_or params kwargs) VNone VNone VNone VNone"

definition make_result :: "string \<Rightarrow> real \<Rightarrow> pyval \<Rightarrow> pyval \<Rightarrow> rpc_msg" where
  "make_result uuid now call_id result =
     rpc_message uuid now MT_RESULT VNone VNone result VNone call_id VNone"

definition make_error :: "string \<Rightarrow> real \<Rightarrow> pyval \<Rightarrow> pyval \<Rightarrow> pyval \<Rightarrow> pyval \<Rightarrow> rpc_msg" where
  "make_error uuid now call_id code message data =
     rpc_message uuid now MT_ERROR VNone VNone VNone
       (str_dict [(''code'', code), (''message'', message), (''data'', data)]) call_id VNone"

definition make_heartbeat :: "string \<Rightarrow> real \<Rightarrow> rpc_msg" where
  "make_heartbeat uuid now = rpc_message uuid now MT_HEARTBEAT VNone VNone VNone VNone VNone VNone"

definition make_heartbeat_ack :: "string \<Rightarrow> real \<Rightarrow> pyval \<Rightarrow> rpc_msg" where
  "make_heartbeat_ack uuid now ping_id =
     rpc_message uuid now MT_HEARTBEAT_ACK VNone VNone VNone VNone ping_id VNone"

definition make_stream_start :: "string \<Rightarrow> real \<Rightarrow> pyval \<Rightarrow> pyval \<Rightarrow> rpc_msg" where
  "make_stream_start uuid now call_id metadata =
     rpc_message uuid now MT_STREAM_START VNone VNone VNone VNone call_id metadata"

definition make_stream_chunk :: "string \<Rightarrow> real \<Rightarrow> pyval \<Rightarrow> pyval \<Rightarrow> int \<Rightarrow> rpc_msg" where
  "make_stream_chunk uuid now call_id data index =
     rpc_message uuid now MT_STREAM_CHUNK VNone VNone data VNone call_id
       (str_dict [(''index'', VInt index)])"

definition make_stream_end :: "string \<Rightarrow> real \<Rightarrow> pyval \<Rightarrow> rpc_msg" where
  "make_stream_end uuid now call_id =
     rpc_message uuid now MT_STREAM_END VNone VNone VNone VNone call_id VNone"

definition make_notification :: "string \<Rightarrow> real \<Rightarrow> string \<Rightarrow> pyval \<Rightarrow> rpc_msg" where
  "make_notification uuid now method params =
     rpc_message uuid now MT_NOTIFY (VStr method) params VNone VNone VNone VNone"

definition make_log :: "string \<Rightarrow> real \<Rightarrow> string \<Rightarrow> string \<Rightarrow> string \<Rightarrow> rpc_msg" where
  "make_log uuid now level message source =
     rpc_message uuid now MT_LOG VNone
       (str_dict [(''level'', VStr level), (''message'', VStr message), (''source'', VStr source)])
       VNone VNone VNone VNone"

definition progress_percent :: "int \<Rightarrow> int \<Rightarrow> real" where
  "progress_percent current tot = py_round 1 (of_int current / of_int (max tot 1) * 100)"

definition make_progress :: "string \<Rightarrow> real \<Rightarrow> string \<Rightarrow> int \<Rightarrow> int \<Rightarrow> string \<Rightarrow> rpc_msg" where
  "make_progress uuid now task current tot message =
     rpc_message uuid now MT_PROGRESS VNone
       (str_dict [(''task'', VStr task), (''current'', VInt current), (''total'', VInt tot),
          (''message'', VStr message), (''percent'', VFloat (progress_percent current tot))])
       VNone VNone VNone VNone"

definition make_session_init :: "string \<Rightarrow> real \<Rightarrow> pyval \<Rightarrow> rpc_msg" where
  "make_session_init uuid now device_info =
     rpc_message uuid now MT_SESSION_INIT VNone device_info VNone VNone VNone VNone"

section \<open>Properties\<close>

text \<open>
  Well-formed messages: what the constructors build. The id is not empty, params and
  metadata are dicts, an error is absent or a non-empty dict, and a method is absent or a
  non-empty string.
\<close>

definition is_dict :: "pyval \<Rightarrow> bool" where
  "is_dict v = (case v of VDict d \<Rightarrow> True | _ \<Rightarrow> False)"

definition well_formed :: "rpc_msg \<Rightarrow> bool" where
  "well_formed m \<longleftrightarrow> truthy (rm_id m) \<and> is_dict (rm_params m) \<and> is_dict (rm_metadata m) \<and>
     (rm_error m = VNone \<or> truthy (rm_error m)) \<and> (rm_method m = VNone \<or> truthy (rm_method m))"

definition canonical_msg :: "rpc_msg \<Rightarrow> bool" where
  "canonical_msg m \<longleftrightarrow> canonical (rm_id m) \<and> canonical (rm_method m) \<and> canonical (rm_params m) \<and>
     canonical (rm_result m) \<and> canonical (rm_error m) \<and> canonical (rm_metadata m)"

lemma empty_dict: "is_dict v \<Longrightarrow> \<not> truthy v \<Longrightarrow> v = VDict []"
  by (cases v) (auto simp: is_dict_def)

lemma to_dict_get:
  assumes "to_dict m = VDict d"
  shows "map_of d (VStr ''type'') = Some (VStr (msg_type_value (rm_type m)))"
    "map_of d (VStr ''id'') = Some (rm_id m)"
    "map_of d (VStr ''method'') = (if truthy (rm_method m) then Some (rm_method m) else None)"
    "map_of d (VStr ''params'') = (if truthy (rm_params m) then Some (rm_params m) else None)"
    "map_of d (VStr ''result'') = (if rm_result m \<noteq> VNone then Some (rm_result m) else None)"
    "map_of d (VStr ''error'') = (if truthy (rm_error m) then Some (rm_error m) else None)"
    "map_of d (VStr ''metadata'') = (if truthy (rm_metadata m) then Some (rm_metadata m) else None)"
  using assms by (auto simp: to_dict_def opt_field_def)

lemma from_to_dict:
  assumes "well_formed m"
  shows "from_dict uuid now (to_dict m) = Inr (m\<lparr>rm_timestamp := now\<rparr>)"
proof -
  obtain d where d: "to_dict m = VDict d" by (simp add: to_dict_def)
  show ?thesis
    using assms empty_dict [of "rm_params m"] empty_dict [of "rm_metadata m"]
    unfolding d from_dict_def py_get_def
    by (auto simp: to_dict_get [OF d] msg_type.dec_enc rpc_message_def py_or_def well_formed_def
        intro!: rpc_msg.equality)
qed

lemma to_dict_canonical: "canonical_msg m \<Longrightarrow> canonical (to_dict m)"
  by (auto simp: to_dict_def canonical_msg_def opt_field_def)

interpretation message: codec to_dict
  "\<lambda>v. case from_dict [] t v of Inr m \<Rightarrow> Some m | Inl e \<Rightarrow> None"
  "\<lambda>m. well_formed m \<and> rm_timestamp m = t" for t
proof unfold_locales
  fix m
  assume "well_formed m \<and> rm_timestamp m = t"
  then show "(case from_dict [] t (to_dict m) of Inr m \<Rightarrow> Some m | Inl e \<Rightarrow> None) = Some m"
    using from_to_dict [of m "[]" t] by auto
qed

lemma message_wire:
  assumes "well_formed m" and "canonical_msg m"
  shows "\<exists>j. to_json str m = Inr j \<and>
           from_json uuid now (Some j) = Inr (m\<lparr>rm_timestamp := now\<rparr>)"
  using from_to_dict [OF assms(1)] json_wire_canonical [OF to_dict_canonical [OF assms(2)]]
  by (auto simp: to_json_def from_json_def)

text \<open>C26: A message whose fields are JSON values survives the wire: reading the JSON that was
  written gives the same message, except that its timestamp is the moment of reading (the
  transmitted one is dropped).\<close>

theorem message_json_roundtrip:
  assumes "well_formed m" and "canonical_msg m"
  shows "\<exists>j. to_json str m = Inr j \<and>
           from_json uuid now (Some j) = Inr (m\<lparr>rm_timestamp := now\<rparr>)"
  by (rule message_wire [OF assms])

theorem message_json_roundtrip_witness:
  "\<exists>j. to_json (\<lambda>v. []) (make_call ''u1'' 5 ''ping'' (str_dict [(''a'', VList [VInt 1])]) VNone) = Inr j \<and>
     from_json ''u2'' 9 (Some j)
       = Inr (make_call ''u1'' 9 ''ping'' (str_dict [(''a'', VList [VInt 1])]) VNone)"
  using message_json_roundtrip [of "make_call ''u1'' 5 ''ping'' (str_dict [(''a'', VList [VInt 1])]) VNone"
      "\<lambda>v. []" "''u2''" 9]
  by (simp add: make_call_def rpc_message_def str_dict_def py_or_def well_formed_def
      canonical_msg_def is_dict_def)

section \<open>Bytes\<close>

text \<open>\<open>msgpack\<close>, where it is installed, and the coding of JSON text as UTF-8 bytes are parameters.\<close>

record bytes_lib =
  bl_msgpack :: bool
  bl_packb :: "pyval \<Rightarrow> exn + string"
  bl_unpackb :: "string \<Rightarrow> exn + pyval"
  bl_encode :: "pyval \<Rightarrow> string"
  bl_decode :: "string \<Rightarrow> exn + pyval option"

definition to_bytes :: "bytes_lib \<Rightarrow> (pyval \<Rightarrow> string) \<Rightarrow> rpc_msg \<Rightarrow> exn + string" where
  "to_bytes lib str m =
     (if bl_msgpack lib then bl_packb lib (to_dict m) else map_result (bl_encode lib) (to_json str m))"

definition from_bytes :: "bytes_lib \<Rightarrow> string \<Rightarrow> real \<Rightarrow> string \<Rightarrow> exn + rpc_msg" where
  "from_bytes lib uuid now raw = (let json = bind_result (bl_decode lib raw) (from_json uuid now) in
     if bl_msgpack lib then
       (case bind_result (bl_unpackb lib raw) (from_dict uuid now) of Inr m \<Rightarrow> Inr m | Inl e \<Rightarrow> json)
     else json)"

text \<open>Two peers with one library understand each other; a reader with msgpack also understands a
  writer without it, as JSON text does not unpack.\<close>

lemma message_bytes_roundtrip:
  assumes "well_formed m" and "canonical_msg m"
    and "\<And>v. canonical v \<Longrightarrow> \<exists>b. bl_packb lib v = Inr b \<and> bl_unpackb lib b = Inr v"
    and "\<And>v. bl_decode lib (bl_encode lib v) = Inr (Some v)"
  shows "\<exists>b. to_bytes lib str m = Inr b \<and> from_bytes lib uuid now b = Inr (m\<lparr>rm_timestamp := now\<rparr>)"
proof (cases "bl_msgpack lib")
  case True
  from assms(3) [OF to_dict_canonical [OF assms(2)]] obtain b
    where "bl_packb lib (to_dict m) = Inr b" and "bl_unpackb lib b = Inr (to_dict m)" by blast
  with True show ?thesis by (simp add: to_bytes_def from_bytes_def from_to_dict [OF assms(1)])
next
  case False
  from message_wire [OF assms(1,2)] obtain j where "to_json str m = Inr j"
    "from_json uuid now (Some j) = Inr (m\<lparr>rm_timestamp := now\<rparr>)" by blast
  with False show ?thesis by (simp add: to_bytes_def from_bytes_def Let_def assms(4))
qed

lemma json_bytes_read_with_msgpack:
  assumes "well_formed m" and "canonical_msg m"
    and "\<not> bl_msgpack old" and "\<And>v. bl_decode new (bl_encode old v) = Inr (Some v)"
    and "\<And>v. \<exists>e. bl_unpackb new (bl_encode old v) = Inl e"
  shows "\<exists>b. to_bytes old str m = Inr b \<and> from_bytes new uuid now b = Inr (m\<lparr>rm_timestamp := now\<rparr>)"
proof -
  from message_wire [OF assms(1,2)] obtain j where j: "to_json str m = Inr j"
    "from_json uuid now (Some j) = Inr (m\<lparr>rm_timestamp := now\<rparr>)" by blast
  from assms(5) [of j] obtain e where "bl_unpackb new (bl_encode old j) = Inl e" by blast
  with j show ?thesis by (simp add: to_bytes_def from_bytes_def Let_def assms(3,4))
qed

definition message_repr :: "rpc_msg \<Rightarrow> string" where
  "message_repr m = ''RPCMessage(type='' @ msg_type_value (rm_type m) @ '', id='' @
     (case rm_id m of VStr i \<Rightarrow> take 8 i | _ \<Rightarrow> []) @ ''..., method='' @
     (case rm_method m of VStr me \<Rightarrow> me | _ \<Rightarrow> ''None'') @ '')''"

lemma percent_scale: "x \<le> 1 \<Longrightarrow> x * 100 * 10 ^ 1 \<le> (of_int 1000 :: real)"
  by simp

lemma progress_percent_bounds:
  assumes "0 \<le> current" and "current \<le> tot"
  shows "0 \<le> progress_percent current tot \<and> progress_percent current tot \<le> 100"
proof -
  have p: "0 < max tot 1" by simp
  have "of_int current \<le> (of_int (max tot 1) :: real)" using assms by simp
  then have "of_int current / of_int (max tot 1) \<le> (1::real)" using p by (simp add: divide_le_eq_1)
  then have "of_int current / of_int (max tot 1) * 100 * 10 ^ 1 \<le> (of_int 1000 :: real)"
    using percent_scale by blast
  from py_round_upper [OF this] have "progress_percent current tot \<le> 100"
    by (simp add: progress_percent_def)
  moreover have "of_int 0 \<le> of_int current / of_int (max tot 1) * 100 * (10::real) ^ 1"
    using assms(1) p by simp
  from py_round_lower [OF this] have "0 \<le> progress_percent current tot"
    by (simp add: progress_percent_def)
  ultimately show ?thesis by simp
qed

end
