(* ===== verification/Streaming.thy ===== *)
theory Streaming
  imports Protocol
begin

text \<open>
  \<open>runtime/streaming.py\<close>: receivers that reassemble a streamed result and the manager that
  routes messages to them. The caller of \<open>create_stream\<close> keeps a reference to the receiver
  the manager also holds, so receivers live in a store and both sides use the index into it.
  \<open>str(c)\<close> of a value that is not a string is the argument \<open>str\<close>; encoding is ASCII.
\<close>

record stream_receiver =
  sr_call_id :: pyval
  sr_chunks :: "pyval list"
  sr_metadata :: pyval
  sr_complete :: bool
  sr_event :: bool
  sr_error :: "exn option"

definition new_receiver :: "pyval \<Rightarrow> stream_receiver" where
  "new_receiver call_id = \<lparr>sr_call_id = call_id, sr_chunks = [], sr_metadata = VDict [],
     sr_complete = False, sr_event = False, sr_error = None\<rparr>"

definition on_start :: "pyval \<Rightarrow> stream_receiver \<Rightarrow> stream_receiver" where
  "on_start metadata r = r\<lparr>sr_metadata := metadata\<rparr>"

text \<open>The padding loop \<open>while len(chunks) <= index\<close>, then the assignment \<open>chunks[index] = data\<close>
  with Python's negative indices. A float index pads and then fails.\<close>

definition pad_chunks :: "nat \<Rightarrow> pyval list \<Rightarrow> pyval list" where
  "pad_chunks n xs = xs @ replicate (n - length xs) VNone"

definition store_chunk :: "pyval \<Rightarrow> int \<Rightarrow> stream_receiver \<Rightarrow> exn option \<times> stream_receiver" where
  "store_chunk data index r =
     (let cs = pad_chunks (nat (index + 1)) (sr_chunks r); n = int (length cs);
          j = (if index < 0 then n + index else index) in
      if 0 \<le> j then (None, r\<lparr>sr_chunks := cs[nat j := data]\<rparr>)
      else (Some (IndexError ''list assignment index out of range''), r\<lparr>sr_chunks := cs\<rparr>))"

definition on_chunk :: "pyval \<Rightarrow> pyval \<Rightarrow> stream_receiver \<Rightarrow> exn option \<times> stream_receiver" where
  "on_chunk data index r = (case index of
       VInt i \<Rightarrow> store_chunk data i r
     | VBool b \<Rightarrow> store_chunk data (if b then 1 else 0) r
     | VFloat x \<Rightarrow>
         (Some (TypeError ''list indices must be integers or slices''),
          r\<lparr>sr_chunks := pad_chunks (nat (\<lfloor>x\<rfloor> + 1)) (sr_chunks r)\<rparr>)
     | _ \<Rightarrow> (Some (TypeError ''not supported between instances''), r))"

definition on_end :: "stream_receiver \<Rightarrow> stream_receiver" where
  "on_end r = r\<lparr>sr_complete := True, sr_event := True\<rparr>"

definition on_error :: "exn \<Rightarrow> stream_receiver \<Rightarrow> stream_receiver" where
  "on_error e r = r\<lparr>sr_error := Some e, sr_event := True\<rparr>"

definition chunk_str :: "(pyval \<Rightarrow> string) \<Rightarrow> pyval \<Rightarrow> string" where
  "chunk_str str c = (case c of VStr s \<Rightarrow> s | _ \<Rightarrow> str c)"

definition chunk_bytes :: "(pyval \<Rightarrow> string) \<Rightarrow> pyval \<Rightarrow> byte list" where
  "chunk_bytes str c = (case c of VBytes b \<Rightarrow> b | _ \<Rightarrow> map of_char (chunk_str str c))"

definition assemble :: "(pyval \<Rightarrow> string) \<Rightarrow> stream_receiver \<Rightarrow> exn + pyval" where
  "assemble str r =
     bind_result (py_get (sr_metadata r) ''content_type'' (VStr ''json'')) (\<lambda>ct.
       if ct = VStr ''bytes'' then Inr (VBytes (concat (map (chunk_bytes str) (sr_chunks r))))
       else if ct = VStr ''text'' then Inr (VStr (concat (map (chunk_str str) (sr_chunks r))))
       else case sr_chunks r of [c] \<Rightarrow> Inr c | cs \<Rightarrow> Inr (VList cs))"

definition wait_stream :: "(pyval \<Rightarrow> string) \<Rightarrow> stream_receiver \<Rightarrow> exn + pyval" where
  "wait_stream str r =
     (if \<not> sr_event r then Inl (TimeoutError [])
      else case sr_error r of Some e \<Rightarrow> Inl e | None \<Rightarrow> assemble str r)"

section \<open>Manager\<close>

record stream_mgr =
  sm_objs :: "stream_receiver list"
  sm_streams :: "(pyval, nat) dict"

definition new_stream_mgr :: stream_mgr where
  "new_stream_mgr = \<lparr>sm_objs = [], sm_streams = []\<rparr>"

definition create_stream :: "pyval \<Rightarrow> stream_mgr \<Rightarrow> nat \<times> stream_mgr" where
  "create_stream call_id s =
     (let ref = length (sm_objs s) in
      (ref, \<lparr>sm_objs = sm_objs s @ [new_receiver call_id],
             sm_streams = dset call_id ref (sm_streams s)\<rparr>))"

definition upd_receiver :: "nat \<Rightarrow> stream_receiver \<Rightarrow> stream_mgr \<Rightarrow> stream_mgr" where
  "upd_receiver ref r s = s\<lparr>sm_objs := (sm_objs s)[ref := r]\<rparr>"

definition handle_message :: "rpc_msg \<Rightarrow> stream_mgr \<Rightarrow> exn option \<times> stream_mgr" where
  "handle_message msg s = (case dget (sm_streams s) (rm_id msg) of
       None \<Rightarrow> (None, s)
     | Some ref \<Rightarrow>
         (let r = sm_objs s ! ref in
          if rm_type msg = MT_STREAM_START then
            (None, upd_receiver ref (on_start (rm_metadata msg) r) s)
          else if rm_type msg = MT_STREAM_CHUNK then
            (case py_get (rm_metadata msg) ''index'' (VInt 0) of
               Inl e \<Rightarrow> (Some e, s)
             | Inr i \<Rightarrow> (case on_chunk (rm_result msg) i r of
                  (e, r') \<Rightarrow> (e, upd_receiver ref r' s)))
          else if rm_type msg = MT_STREAM_END then
            (None, (upd_receiver ref (on_end r) s)
               \<lparr>sm_streams := ddel (rm_id msg) (sm_streams s)\<rparr>)
          else (None, s)))"

definition get_stream :: "pyval \<Rightarrow> stream_mgr \<Rightarrow> nat option" where
  "get_stream call_id s = dget (sm_streams s) call_id"

text \<open>A receive loop: the messages in order of arrival; an exception leaves the loop running.\<close>

definition run_messages :: "rpc_msg list \<Rightarrow> stream_mgr \<Rightarrow> stream_mgr" where
  "run_messages ms s = fold (\<lambda>m s. snd (handle_message m s)) ms s"

section \<open>Invariant\<close>

text \<open>References in range, and two ids never share a receiver.\<close>

definition mgr_ok :: "stream_mgr \<Rightarrow> bool" where
  "mgr_ok s \<longleftrightarrow> dict_ok (sm_streams s) \<and>
     (\<forall>k ref. dget (sm_streams s) k = Some ref \<longrightarrow> ref < length (sm_objs s)) \<and>
     (\<forall>k k' ref. dget (sm_streams s) k = Some ref \<longrightarrow> dget (sm_streams s) k' = Some ref \<longrightarrow> k = k')"

lemma mgr_ok_new [inv_intros]: "mgr_ok new_stream_mgr"
  by (simp add: mgr_ok_def new_stream_mgr_def)

lemma mgr_ok_create [inv_intros]: "mgr_ok s \<Longrightarrow> mgr_ok (snd (create_stream k s))"
  by (auto simp: mgr_ok_def create_stream_def Let_def dict_simps less_Suc_eq dest: less_imp_neq
      split: if_splits)

lemma mgr_ok_upd [inv_intros]: "mgr_ok s \<Longrightarrow> mgr_ok (upd_receiver ref r s)"
  by (auto simp: mgr_ok_def upd_receiver_def)

lemma mgr_ok_del [inv_intros]: "mgr_ok s \<Longrightarrow> mgr_ok (s\<lparr>sm_streams := ddel k (sm_streams s)\<rparr>)"
  by (auto simp: mgr_ok_def dict_simps split: if_splits)

lemma mgr_ok_handle [inv_intros]: "mgr_ok s \<Longrightarrow> mgr_ok (snd (handle_message m s))"
  using mgr_ok_del [OF mgr_ok_upd, of s "rm_id m"]
  by (auto simp: handle_message_def Let_def upd_receiver_def intro: mgr_ok_upd [unfolded upd_receiver_def]
      split: option.splits sum.splits prod.splits)

interpretation streams: step_system "\<lambda>m s. snd (handle_message m s)" mgr_ok
  by unfold_locales (rule mgr_ok_handle)

text \<open>A message for another id does not touch a stream.\<close>

lemma handle_other:
  assumes "mgr_ok s" and "dget (sm_streams s) k = Some ref" and "rm_id m \<noteq> k"
  shows "dget (sm_streams (snd (handle_message m s))) k = Some ref \<and>
         sm_objs (snd (handle_message m s)) ! ref = sm_objs s ! ref"
proof -
  have "ref' \<noteq> ref" if "dget (sm_streams s) (rm_id m) = Some ref'" for ref'
    using assms that by (auto simp: mgr_ok_def)
  then show ?thesis using assms(2,3)
    by (auto simp: handle_message_def Let_def upd_receiver_def dict_simps
        split: option.splits sum.splits prod.splits)
qed

lemma handle_unregistered:
  assumes "mgr_ok s" and "\<forall>k. dget (sm_streams s) k \<noteq> Some ref"
  shows "(\<forall>k. dget (sm_streams (snd (handle_message m s))) k \<noteq> Some ref) \<and>
         sm_objs (snd (handle_message m s)) ! ref = sm_objs s ! ref"
proof -
  have "ref' \<noteq> ref" if "dget (sm_streams s) (rm_id m) = Some ref'" for ref'
    using assms that by auto
  then show ?thesis using assms(2)
    by (auto simp: handle_message_def Let_def upd_receiver_def dict_simps
        split: option.splits sum.splits prod.splits)
qed

section \<open>Reassembly\<close>

text \<open>What the messages of one stream do to its receiver.\<close>

definition receive :: "rpc_msg \<Rightarrow> stream_receiver \<Rightarrow> stream_receiver" where
  "receive m r =
     (if rm_type m = MT_STREAM_START then on_start (rm_metadata m) r
      else if rm_type m = MT_STREAM_CHUNK then
        (case py_get (rm_metadata m) ''index'' (VInt 0) of
           Inl e \<Rightarrow> r | Inr i \<Rightarrow> snd (on_chunk (rm_result m) i r))
      else if rm_type m = MT_STREAM_END then on_end r else r)"

lemma handle_own:
  assumes "mgr_ok s" and "dget (sm_streams s) k = Some ref" and "rm_id m = k"
  shows "sm_objs (snd (handle_message m s)) ! ref = receive m (sm_objs s ! ref) \<and>
         dget (sm_streams (snd (handle_message m s))) k
           = (if rm_type m = MT_STREAM_END then None else Some ref)"
proof -
  have "ref < length (sm_objs s)" using assms by (auto simp: mgr_ok_def)
  then show ?thesis using assms(2,3)
    by (auto simp: handle_message_def receive_def Let_def upd_receiver_def dict_simps
        split: option.splits sum.splits prod.splits)
qed

lemma run_unregistered:
  "mgr_ok s \<Longrightarrow> \<forall>k. dget (sm_streams s) k \<noteq> Some ref \<Longrightarrow>
   sm_objs (run_messages ms s) ! ref = sm_objs s ! ref"
proof (induction ms arbitrary: s)
  case Nil
  then show ?case by (simp add: run_messages_def)
next
  case (Cons m ms)
  with handle_unregistered [OF Cons.prems, of m]
  have "sm_objs (run_messages ms (snd (handle_message m s))) ! ref = sm_objs s ! ref"
    by (simp add: mgr_ok_handle)
  then show ?case by (simp add: run_messages_def)
qed

lemma run_own:
  assumes "mgr_ok s" and "dget (sm_streams s) k = Some ref"
    and "filter (\<lambda>m. rm_id m = k) ms = own @ [fin]"
    and "\<forall>m\<in>set own. rm_type m \<noteq> MT_STREAM_END" and "rm_type fin = MT_STREAM_END"
  shows "sm_objs (run_messages ms s) ! ref = on_end (fold receive own (sm_objs s ! ref))"
  using assms
proof (induction ms arbitrary: s own)
  case Nil
  then show ?case by simp
next
  case (Cons m ms)
  let ?s = "snd (handle_message m s)"
  have ok: "mgr_ok ?s" using Cons.prems(1) by (rule mgr_ok_handle)
  have run: "run_messages (m # ms) s = run_messages ms ?s" by (simp add: run_messages_def)
  show ?case
  proof (cases "rm_id m = k")
    case False
    with Cons.prems(3) have "filter (\<lambda>m. rm_id m = k) ms = own @ [fin]" by simp
    with Cons.IH [OF ok _ this Cons.prems(4,5)] handle_other [OF Cons.prems(1,2) False] run
    show ?thesis by simp
  next
    case True
    note h = handle_own [OF Cons.prems(1,2) True]
    show ?thesis
    proof (cases own)
      case Nil
      with Cons.prems True have "m = fin" by simp
      with h Cons.prems(5) have none: "dget (sm_streams ?s) k = None"
        and obj: "sm_objs ?s ! ref = on_end (sm_objs s ! ref)" by (auto simp: receive_def)
      have "dget (sm_streams ?s) k' \<noteq> Some ref" for k'
        using Cons.prems(1,2) none by (cases "k' = k")
          (auto simp: handle_message_def upd_receiver_def mgr_ok_def Let_def dict_simps
            split: option.splits sum.splits prod.splits if_splits)
      then have "sm_objs (run_messages ms ?s) ! ref = sm_objs ?s ! ref"
        by (intro run_unregistered ok) simp
      with run obj Nil show ?thesis by simp
    next
      case (Cons o' own')
      with Cons.prems True have m: "m = o'" and rest: "filter (\<lambda>m. rm_id m = k) ms = own' @ [fin]"
        by auto
      have "rm_type m \<noteq> MT_STREAM_END" using Cons.prems(4) m Cons by simp
      with h have reg: "dget (sm_streams ?s) k = Some ref" by simp
      have "\<forall>m\<in>set own'. rm_type m \<noteq> MT_STREAM_END" using Cons.prems(4) Cons by simp
      from Cons.IH [OF ok reg rest this Cons.prems(5)] run h m Cons show ?thesis by simp
    qed
  qed
qed

lemma stream_msg_simps [simp]:
  "rm_type (make_stream_start u t k md) = MT_STREAM_START" "rm_id (make_stream_start u t k md) = py_or k (VStr u)"
  "rm_type (make_stream_chunk u t k d i) = MT_STREAM_CHUNK" "rm_id (make_stream_chunk u t k d i) = py_or k (VStr u)"
  "rm_type (make_stream_end u t k) = MT_STREAM_END" "rm_id (make_stream_end u t k) = py_or k (VStr u)"
  by (simp_all add: make_stream_end_def make_stream_start_def make_stream_chunk_def rpc_message_def)

text \<open>Chunks of \<open>ds\<close> in any order: position \<open>j\<close> holds its chunk once that chunk is in.\<close>

definition partly :: "pyval list \<Rightarrow> nat set \<Rightarrow> pyval list \<Rightarrow> bool" where
  "partly ds S cs \<longleftrightarrow> (\<forall>j<length cs. cs ! j = (if j \<in> S then ds ! j else VNone)) \<and>
     S \<subseteq> {..<length cs} \<and> length cs \<le> length ds"

lemma partly_step:
  assumes "partly ds S (sr_chunks r)" and "i < length ds"
  shows "partly ds (insert i S) (sr_chunks (snd (store_chunk (ds ! i) (int i) r)))"
proof -
  let ?cs = "sr_chunks r"
  have cs': "sr_chunks (snd (store_chunk (ds ! i) (int i) r)) = (pad_chunks (Suc i) ?cs)[i := ds ! i]"
    by (simp add: store_chunk_def Let_def nat_add_distrib)
  have len: "length (pad_chunks (Suc i) ?cs) = max (length ?cs) (Suc i)"
    by (simp add: pad_chunks_def max_def)
  have "pad_chunks (Suc i) ?cs ! j = (if j \<in> S then ds ! j else VNone)"
    if "j < max (length ?cs) (Suc i)" for j
    using assms(1) that by (auto simp: partly_def pad_chunks_def nth_append)
  then show ?thesis
    using assms unfolding cs' partly_def by (auto simp: len nth_list_update)
qed

lemma receive_chunk:
  "receive (make_stream_chunk u t k d (int i)) r = snd (store_chunk d (int i) r)"
  by (simp add: receive_def make_stream_chunk_def rpc_message_def py_or_def str_dict_def
      py_get_def on_chunk_def)

lemma partly_run:
  assumes "partly ds S (sr_chunks r)" and "\<forall>i\<in>set is. i < length ds"
  shows "partly ds (S \<union> set is)
    (sr_chunks (fold receive (map (\<lambda>i. make_stream_chunk u t k (ds ! i) (int i)) is) r))"
  using assms
proof (induction "is" arbitrary: S r)
  case Nil
  then show ?case by simp
next
  case (Cons i "is")
  then have "partly ds (insert i S) (sr_chunks (snd (store_chunk (ds ! i) (int i) r)))"
    by (intro partly_step) auto
  from Cons.IH [OF this] Cons.prems(2) show ?case by (simp add: receive_chunk)
qed

lemma partly_all: "partly ds {..<length ds} cs \<Longrightarrow> cs = ds"
  by (auto simp: partly_def intro!: nth_equalityI)

lemma store_chunk_frame:
  "sr_metadata (snd (store_chunk d i r)) = sr_metadata r" "sr_error (snd (store_chunk d i r)) = sr_error r"
  by (auto simp: store_chunk_def Let_def)

lemma fold_chunks_frame:
  "sr_metadata (fold receive (map (\<lambda>i. make_stream_chunk u t k (ds ! i) (int i)) is) r) = sr_metadata r"
  "sr_error (fold receive (map (\<lambda>i. make_stream_chunk u t k (ds ! i) (int i)) is) r) = sr_error r"
  by (induction "is" arbitrary: r) (auto simp: receive_chunk store_chunk_frame)

lemma wait_complete:
  "sr_metadata r = VDict [] \<Longrightarrow> sr_error r = None \<Longrightarrow>
   wait_stream str (on_end r) =
     Inr (if length (sr_chunks r) = 1 then hd (sr_chunks r) else VList (sr_chunks r))"
  by (cases "sr_chunks r" rule: list.exhaust; cases "tl (sr_chunks r)")
    (simp_all add: wait_stream_def on_end_def assemble_def py_get_def)

text \<open>C25: A streamed result is reassembled in order however its chunks are permuted on the way
  and however the stream interleaves with other traffic: once the start message, every
  chunk of \<open>ds\<close> exactly in any order, and the end message have arrived, waiting on the
  receiver gives the list \<open>ds\<close> (its only element for a one-chunk stream).\<close>

theorem stream_reassembly:
  assumes "mgr_ok s" and "truthy call_id"
    and "create_stream call_id s = (ref, s1)"
    and "mset is = mset [0..<length ds]"
    and "filter (\<lambda>m. rm_id m = call_id) ms =
           make_stream_start u t call_id VNone
           # map (\<lambda>i. make_stream_chunk u t call_id (ds ! i) (int i)) is
           @ [make_stream_end u t call_id]"
  shows "wait_stream str (sm_objs (run_messages ms s1) ! ref) =
           Inr (if length ds = 1 then hd ds else VList ds)"
proof -
  let ?start = "make_stream_start u t call_id VNone"
  let ?chunks = "map (\<lambda>i. make_stream_chunk u t call_id (ds ! i) (int i)) is"
  have s1: "s1 = snd (create_stream call_id s)" and ref: "ref = length (sm_objs s)"
    using assms(3) by (auto simp: create_stream_def Let_def)
  have ok: "mgr_ok s1" unfolding s1 by (rule mgr_ok_create [OF assms(1)])
  have reg: "dget (sm_streams s1) call_id = Some ref" and obj: "sm_objs s1 ! ref = new_receiver call_id"
    unfolding s1 ref by (simp_all add: create_stream_def Let_def dict_simps)
  have "set is = set [0..<length ds]" using assms(4) by (rule mset_eq_setD)
  then have set_is: "set is = {..<length ds}" by (simp only: set_upt atLeast0LessThan)
  define r0 where "r0 = receive ?start (new_receiver call_id)"
  have fin: "sm_objs (run_messages ms s1) ! ref
      = on_end (fold receive (?start # ?chunks) (sm_objs s1 ! ref))"
  proof (rule run_own [OF ok reg])
    show "filter (\<lambda>m. rm_id m = call_id) ms = (?start # ?chunks) @ [make_stream_end u t call_id]"
      by (simp only: assms(5) append_Cons)
    show "\<forall>m\<in>set (?start # ?chunks). rm_type m \<noteq> MT_STREAM_END" by simp
    show "rm_type (make_stream_end u t call_id) = MT_STREAM_END" by simp
  qed
  have r0: "sr_chunks r0 = []" "sr_metadata r0 = VDict []" "sr_error r0 = None"
    by (simp_all add: r0_def receive_def make_stream_start_def rpc_message_def on_start_def
        new_receiver_def py_or_def)
  have "partly ds ({} \<union> set is) (sr_chunks (fold receive ?chunks r0))"
    by (rule partly_run) (auto simp: partly_def r0 set_is)
  then have all: "sr_chunks (fold receive ?chunks r0) = ds"
    by (simp only: set_is partly_all Un_empty_left)
  have "sr_metadata (fold receive ?chunks r0) = VDict []"
    "sr_error (fold receive ?chunks r0) = None" by (simp_all only: fold_chunks_frame r0)
  note finished = wait_complete [OF this, of str, unfolded all]
  show ?thesis
    unfolding fin obj fold_simps r0_def [symmetric] by (rule finished)
qed

theorem stream_reassembly_witness:
  "let k = VStr ''s1''; other = make_stream_chunk ''u'' 0 (VStr ''s2'') (VInt 9) 0;
       ms = [make_stream_start ''u'' 0 k VNone, other, make_stream_chunk ''u'' 0 k (VInt 20) 1,
             make_stream_chunk ''u'' 0 k (VInt 10) 0, make_stream_end ''u'' 0 k]
   in wait_stream (\<lambda>v. []) (sm_objs (run_messages ms (snd (create_stream k new_stream_mgr))) ! 0)
        = Inr (VList [VInt 10, VInt 20])"
proof -
  define k where "k = VStr ''s1''"
  define ms where "ms = [make_stream_start ''u'' 0 k VNone,
      make_stream_chunk ''u'' 0 (VStr ''s2'') (VInt 9) 0, make_stream_chunk ''u'' 0 k (VInt 20) 1,
      make_stream_chunk ''u'' 0 k (VInt 10) 0, make_stream_end ''u'' 0 k]"
  have "filter (\<lambda>m. rm_id m = k) ms = make_stream_start ''u'' 0 k VNone
      # map (\<lambda>i. make_stream_chunk ''u'' 0 k ([VInt 10, VInt 20] ! i) (int i)) [1, 0]
      @ [make_stream_end ''u'' 0 k]"
    by (simp add: ms_def k_def make_stream_start_def make_stream_chunk_def make_stream_end_def
        rpc_message_def py_or_def)
  moreover have "create_stream k new_stream_mgr = (0, snd (create_stream k new_stream_mgr))"
    by (simp add: create_stream_def new_stream_mgr_def Let_def)
  ultimately have "wait_stream (\<lambda>v. []) (sm_objs (run_messages ms (snd (create_stream k new_stream_mgr))) ! 0)
      = Inr (VList [VInt 10, VInt 20])"
    using stream_reassembly [of new_stream_mgr k 0 "snd (create_stream k new_stream_mgr)" "[1, 0]"
        "[VInt 10, VInt 20]" ms "''u''" 0 "\<lambda>v. []"]
    by (simp add: mgr_ok_new k_def upt_rec)
  then show ?thesis by (simp add: ms_def k_def Let_def)
qed

end
