(* ===== verification/FileSystem.thy ===== *)
theory FileSystem
  imports Protocol
begin

text \<open>
  The file operations the sources call (\<open>pathlib\<close>, \<open>shutil\<close>), on a tree given by its absolute
  paths. A path is the list of its components; \<open>..\<close> and links are not resolved. A JSON file
  holds the value \<open>json.loads\<close> reads from it, \<open>Text\<close> is other text and \<open>Bytes\<close> is not UTF-8. Hash and length of a file are the record
  \<open>file_env\<close>; permissions never fail an operation except where an argument says so.
\<close>

type_synonym path = "string list"

datatype content = Bytes "byte list" | Text string | JsonText pyval

datatype node = File content | Dir

type_synonym fs = "(path, node) dict"

record file_env =
  fe_hash :: "content \<Rightarrow> string"
  fe_size :: "content \<Rightarrow> nat"
  fe_dir_stat :: nat

text \<open>\<open>Path(dir) / s\<close>, \<open>path.name\<close>, and \<open>str(path)\<close>\<close>

definition path_parts :: "string \<Rightarrow> path" where
  "path_parts s = filter (\<lambda>c. c \<noteq> [] \<and> c \<noteq> ''.'') (py_split CHR ''/'' s)"

definition path_join :: "path \<Rightarrow> string \<Rightarrow> path" where
  "path_join dir s = (if py_startswith s ''/'' then path_parts s else dir @ path_parts s)"

definition path_name :: "path \<Rightarrow> string" where
  "path_name p = (if p = [] then [] else List.last p)"

definition path_str :: "path \<Rightarrow> string" where
  "path_str p = CHR ''/'' # py_join ''/'' p"

definition under :: "path \<Rightarrow> path \<Rightarrow> bool" where
  "under p q = (take (length p) q = p)"

definition fs_node :: "fs \<Rightarrow> path \<Rightarrow> node option" where
  "fs_node fs p = (if p = [] then Some Dir else dget fs p)"

definition fs_exists :: "fs \<Rightarrow> path \<Rightarrow> bool" where
  "fs_exists fs p = (fs_node fs p \<noteq> None)"

definition fs_is_file :: "fs \<Rightarrow> path \<Rightarrow> bool" where
  "fs_is_file fs p = (case fs_node fs p of Some (File c) \<Rightarrow> True | _ \<Rightarrow> False)"

definition fs_is_dir :: "fs \<Rightarrow> path \<Rightarrow> bool" where
  "fs_is_dir fs p = (fs_node fs p = Some Dir)"

definition fs_read :: "fs \<Rightarrow> path \<Rightarrow> exn + content" where
  "fs_read fs p = (case fs_node fs p of
       None \<Rightarrow> Inl (OSError ''No such file or directory'')
     | Some Dir \<Rightarrow> Inl (OSError ''Is a directory'')
     | Some (File c) \<Rightarrow> Inr c)"

definition fs_write :: "path \<Rightarrow> content \<Rightarrow> fs \<Rightarrow> exn + fs" where
  "fs_write p c fs =
     (if fs_is_dir fs p then Inl (OSError ''Is a directory'')
      else if \<not> fs_is_dir fs (butlast p) then Inl (OSError ''No such file or directory'')
      else Inr (dset p (File c) fs))"

text \<open>\<open>path.unlink(missing_ok=True)\<close> where the path is not a directory\<close>

definition fs_unlink :: "path \<Rightarrow> fs \<Rightarrow> fs" where
  "fs_unlink p fs = ddel p fs"

definition fs_rmtree :: "path \<Rightarrow> fs \<Rightarrow> fs" where
  "fs_rmtree p fs = filter (\<lambda>(q, n). \<not> under p q) fs"

text \<open>\<open>path.mkdir(parents=True, exist_ok=True)\<close>, over the prefixes of the path\<close>

fun fs_mkdirs_from :: "path \<Rightarrow> string list \<Rightarrow> fs \<Rightarrow> exn + fs" where
  "fs_mkdirs_from p [] fs = Inr fs"
| "fs_mkdirs_from p (c # cs) fs = (case fs_node fs (p @ [c]) of
       Some Dir \<Rightarrow> fs_mkdirs_from (p @ [c]) cs fs
     | Some (File _) \<Rightarrow> Inl (OSError ''Not a directory'')
     | None \<Rightarrow> fs_mkdirs_from (p @ [c]) cs (dset (p @ [c]) Dir fs))"

definition fs_mkdirs :: "path \<Rightarrow> fs \<Rightarrow> exn + fs" where
  "fs_mkdirs p fs = fs_mkdirs_from [] p fs"

text \<open>\<open>shutil.copy2(src, dst)\<close>: into \<open>dst\<close> when it is a directory.\<close>

definition fs_copy :: "path \<Rightarrow> path \<Rightarrow> fs \<Rightarrow> exn + fs" where
  "fs_copy src dst fs = (case fs_read fs src of
       Inl e \<Rightarrow> Inl e
     | Inr c \<Rightarrow> fs_write (if fs_is_dir fs dst then dst @ [path_name src] else dst) c fs)"

text \<open>\<open>shutil.copytree(src, dst)\<close> of the tree as it is when the copy starts\<close>

definition fs_copytree :: "path \<Rightarrow> path \<Rightarrow> fs \<Rightarrow> exn + fs" where
  "fs_copytree src dst fs =
     (if \<not> fs_is_dir fs src then Inl (OSError ''Not a directory'')
      else if fs_exists fs dst then Inl (OSError ''File exists'')
      else case fs_mkdirs dst fs of Inl e \<Rightarrow> Inl e
        | Inr fs' \<Rightarrow> Inr (fold (\<lambda>(q, n). dset (dst @ drop (length src) q) n)
            (filter (\<lambda>(q, n). under src q \<and> q \<noteq> src) fs) fs'))"

definition fs_dir_size :: "file_env \<Rightarrow> fs \<Rightarrow> path \<Rightarrow> nat" where
  "fs_dir_size env fs p = sum_list (map (\<lambda>(q, n). case n of File c \<Rightarrow> fe_size env c | Dir \<Rightarrow> 0)
     (filter (\<lambda>(q, n). under p q \<and> q \<noteq> p) fs))"

text \<open>\<open>dir.glob("*" + suffix)\<close>\<close>

definition fs_glob_suffix :: "fs \<Rightarrow> path \<Rightarrow> string \<Rightarrow> path list" where
  "fs_glob_suffix fs p suffix =
     filter (\<lambda>q. length q = Suc (length p) \<and> under p q \<and> py_endswith (path_name q) suffix) (dkeys fs)"

section \<open>JSON files\<close>

text \<open>\<open>json.dumps(v)\<close> without \<open>default\<close>, and \<open>json.loads(text)\<close>\<close>

fun json_able :: "pyval \<Rightarrow> bool" where
  "json_able (VList xs) = list_all json_able xs"
| "json_able (VTuple xs) = list_all json_able xs"
| "json_able (VDict d) = list_all (\<lambda>kv. json_able (snd kv)) d"
| "json_able (VBytes b) = False"
| "json_able (VComplex r i) = False"
| "json_able (VSet xs) = False"
| "json_able (VNdarray dt sh b) = False"
| "json_able (VObj m c i) = False"
| "json_able v = True"

definition json_dumps :: "(pyval \<Rightarrow> string) \<Rightarrow> pyval \<Rightarrow> exn + content" where
  "json_dumps str v =
     (if json_able v then map_result JsonText (json_wire str v)
      else Inl (TypeError ''Object is not JSON serializable''))"

definition json_loads :: "content \<Rightarrow> exn + pyval" where
  "json_loads c = (case c of
       JsonText v \<Rightarrow> Inr v
     | Text s \<Rightarrow> Inl (JSONDecodeError ''Expecting value'')
     | Bytes b \<Rightarrow> Inl (OtherError ''UnicodeDecodeError'' ''invalid start byte''))"

lemma canonical_json_able: "canonical v \<Longrightarrow> json_able v"
  by (induction v rule: json_able.induct) (auto simp: list_all_iff)

lemma json_dumps_canonical: "canonical v \<Longrightarrow> json_dumps str v = Inr (JsonText v)"
  by (simp add: json_dumps_def canonical_json_able json_wire_canonical)

section \<open>Facts\<close>

lemma fs_node_set [dict_simps]:
  "p \<noteq> [] \<Longrightarrow> fs_node (dset p n fs) q = (if q = p then Some n else fs_node fs q)"
  by (simp add: fs_node_def dget_dset)

lemma fs_node_unlink [dict_simps]:
  "p \<noteq> [] \<Longrightarrow> fs_node (fs_unlink p fs) q = (if q = p then None else fs_node fs q)"
  by (simp add: fs_node_def fs_unlink_def dget_ddel)

lemma fs_read_Inr: "fs_read fs p = Inr c \<longleftrightarrow> fs_node fs p = Some (File c)"
  by (auto simp: fs_read_def split: option.splits node.splits)

lemma fs_is_file_iff: "fs_is_file fs p \<longleftrightarrow> (\<exists>c. fs_node fs p = Some (File c))"
  by (auto simp: fs_is_file_def split: option.splits node.splits)

lemma fs_write_node:
  "fs_write p c fs = Inr fs' \<Longrightarrow> fs_node fs' q = (if q = p then Some (File c) else fs_node fs q)"
  by (cases "p = []") (auto simp: fs_write_def fs_is_dir_def fs_node_set fs_node_def[of _ "[]"] split: if_splits)

lemma fs_write_ok: "dict_ok fs \<Longrightarrow> fs_write p c fs = Inr fs' \<Longrightarrow> dict_ok fs'"
  by (auto simp: fs_write_def split: if_splits)

lemma fs_copy_node:
  "fs_copy src dst fs = Inr fs' \<Longrightarrow> \<not> fs_is_dir fs dst \<Longrightarrow>
   \<exists>c. fs_node fs src = Some (File c) \<and>
     (\<forall>q. fs_node fs' q = (if q = dst then Some (File c) else fs_node fs q))"
  by (auto simp: fs_copy_def fs_read_Inr fs_write_node split: sum.splits if_splits)

lemma fs_write_keeps_dirs:
  assumes "fs_write p c fs = Inr fs'" and "fs_is_dir fs q"
  shows "fs_is_dir fs' q"
proof -
  have "q \<noteq> p" using assms by (auto simp: fs_write_def)
  with fs_write_node [OF assms(1), of q] assms(2) show ?thesis by (simp add: fs_is_dir_def)
qed

lemma fs_copy_keeps_dirs:
  "fs_copy src dst fs = Inr fs' \<Longrightarrow> fs_is_dir fs q \<Longrightarrow> fs_is_dir fs' q"
  unfolding fs_copy_def by (cases "fs_read fs src") (simp_all add: fs_write_keeps_dirs)

lemma mkdirs_nodes:
  "fs_mkdirs_from p cs fs = Inr fs' \<Longrightarrow> \<not> under q (p @ cs) \<Longrightarrow> fs_node fs' q = fs_node fs q"
proof (induction p cs fs rule: fs_mkdirs_from.induct)
  case (2 p c cs fs)
  then have "q \<noteq> p @ [c]" by (auto simp: under_def)
  with 2 show ?case by (auto simp: fs_node_set split: option.splits node.splits)
qed simp

lemma mkdirs_dict_ok: "fs_mkdirs_from p cs fs = Inr fs' \<Longrightarrow> dict_ok fs \<Longrightarrow> dict_ok fs'"
  by (induction p cs fs rule: fs_mkdirs_from.induct) (auto split: option.splits node.splits)

lemma mkdirs_keeps_dirs:
  "fs_mkdirs_from p cs fs = Inr fs' \<Longrightarrow> fs_is_dir fs q \<Longrightarrow> fs_is_dir fs' q"
proof (induction p cs fs rule: fs_mkdirs_from.induct)
  case (2 p c cs fs)
  have "fs_is_dir (dset (p @ [c]) Dir fs) q" if "fs_node fs (p @ [c]) = None"
    using 2(4) by (simp add: fs_is_dir_def fs_node_set)
  with 2 show ?case by (auto split: option.splits node.splits)
qed auto

text \<open>A directory made with its parents has them all, and making it again changes nothing.\<close>

definition dirs_to :: "fs \<Rightarrow> path \<Rightarrow> bool" where
  "dirs_to fs p \<longleftrightarrow> (\<forall>i\<le>length p. fs_is_dir fs (take i p))"

lemma mkdirs_from_dirs:
  "fs_mkdirs_from p cs fs = Inr fs' \<Longrightarrow> dirs_to fs p \<Longrightarrow> dirs_to fs' (p @ cs)"
proof (induction p cs fs rule: fs_mkdirs_from.induct)
  case (1 p fs)
  then show ?case by simp
next
  case (2 p c cs fs)
  have step: "dirs_to g (p @ [c])" if "dirs_to g p" "fs_is_dir g (p @ [c])" for g
    using that by (auto simp: dirs_to_def le_Suc_eq)
  show ?case
  proof (cases "fs_node fs (p @ [c])")
    case None
    let ?g = "dset (p @ [c]) Dir fs"
    have "fs_is_dir ?g q" if "fs_is_dir fs q" for q
      using that by (simp add: fs_is_dir_def fs_node_set)
    then have "dirs_to ?g p" using 2(4) by (simp add: dirs_to_def)
    then have "dirs_to ?g (p @ [c])" by (rule step) (simp add: fs_is_dir_def fs_node_set)
    with 2 None show ?thesis by simp
  next
    case (Some n)
    with 2 step [of fs] show ?thesis by (cases n) (auto simp: fs_is_dir_def)
  qed
qed

lemma mkdirs_from_again:
  "(\<forall>i\<le>length cs. fs_is_dir fs (p @ take i cs)) \<Longrightarrow> fs_mkdirs_from p cs fs = Inr fs"
proof (induction cs arbitrary: p)
  case Nil
  then show ?case by simp
next
  case (Cons c cs)
  have n: "fs_node fs (p @ [c]) = Some Dir" using Cons.prems [rule_format, of 1] by (simp add: fs_is_dir_def)
  have "fs_is_dir fs ((p @ [c]) @ take i cs)" if "i \<le> length cs" for i
    using Cons.prems [rule_format, of "Suc i"] that by simp
  with Cons.IH [of "p @ [c]"] have "fs_mkdirs_from (p @ [c]) cs fs = Inr fs" by blast
  with n show ?case by simp
qed

lemma fs_mkdirs_dirs: "fs_mkdirs p fs = Inr fs' \<Longrightarrow> dirs_to fs' p"
  using mkdirs_from_dirs [of "[]" p fs fs'] by (simp add: fs_mkdirs_def dirs_to_def fs_is_dir_def fs_node_def)

lemma fs_mkdirs_again: "dirs_to fs p \<Longrightarrow> fs_mkdirs p fs = Inr fs"
  by (simp add: fs_mkdirs_def dirs_to_def mkdirs_from_again)

end
