(* ===== verification/Cache.thy ===== *)
theory Cache
  imports FileSystem Interfaces
begin

text \<open>
  \<open>client/cache.py\<close>: the local cache of wheels, layers and metadata. The index lives in
  memory and in \<open>cache.json\<close>, which holds either an index this manager wrote or something
  unreadable. \<open>ca_writable\<close> says whether writing that file succeeds; a failed write is ignored.
  SHA-256 and file lengths are those of \<open>file_env\<close>.
\<close>

datatype cache_item = WheelItem string string | LayerItem string

record cache_entry =
  ce_item :: cache_item
  ce_path :: path
  ce_sha256 :: string
  ce_size :: nat
  ce_cached_at :: real
  ce_last_accessed :: real

type_synonym cache_index = "(string, cache_entry) dict"

record cache =
  ca_max_mb :: int
  ca_home :: path
  ca_index :: cache_index
  ca_disk :: "cache_index option"
  ca_fs :: fs
  ca_writable :: bool

definition wheels_dir :: "path \<Rightarrow> path" where
  "wheels_dir home = home @ [''cache'', ''wheels'']"

definition layers_dir :: "path \<Rightarrow> path" where
  "layers_dir home = home @ [''cache'', ''layers'']"

definition metadata_dir :: "path \<Rightarrow> path" where
  "metadata_dir home = home @ [''cache'', ''metadata'']"

definition load_index :: "cache_index option \<Rightarrow> cache_index" where
  "load_index disk = (case disk of None \<Rightarrow> [] | Some idx \<Rightarrow> idx)"

definition save_index :: "cache \<Rightarrow> cache" where
  "save_index s = (if ca_writable s then s\<lparr>ca_disk := Some (ca_index s)\<rparr> else s)"

definition make_dirs :: "path \<Rightarrow> fs \<Rightarrow> exn + fs" where
  "make_dirs home fs =
     bind_result (fs_mkdirs (wheels_dir home) fs) (\<lambda>fs1.
     bind_result (fs_mkdirs (layers_dir home) fs1) (\<lambda>fs2. fs_mkdirs (metadata_dir home) fs2))"

definition new_cache :: "int \<Rightarrow> path \<Rightarrow> fs \<Rightarrow> cache_index option \<Rightarrow> bool \<Rightarrow> exn + cache" where
  "new_cache max_mb home fs disk writable = map_result
     (\<lambda>fs'. \<lparr>ca_max_mb = max_mb, ca_home = home, ca_index = load_index disk, ca_disk = disk,
        ca_fs = fs', ca_writable = writable\<rparr>) (make_dirs home fs)"

definition cache_key :: "string \<Rightarrow> string \<Rightarrow> string \<Rightarrow> string" where
  "cache_key package version entry_type = entry_type @ '':'' @ package @ '':'' @ version"

definition drop_entry :: "string \<Rightarrow> cache \<Rightarrow> cache" where
  "drop_entry key s = save_index (s\<lparr>ca_index := ddel key (ca_index s)\<rparr>)"

definition touch_entry :: "real \<Rightarrow> string \<Rightarrow> cache_entry \<Rightarrow> cache \<Rightarrow> cache" where
  "touch_entry now key e s =
     save_index (s\<lparr>ca_index := dset key (e\<lparr>ce_last_accessed := now\<rparr>) (ca_index s)\<rparr>)"

section \<open>Eviction\<close>

definition index_size_mb :: "cache_index \<Rightarrow> real" where
  "index_size_mb idx = real (sum_list (map (\<lambda>p. ce_size (snd p)) idx)) / (1024 * 1024)"

definition remove_path :: "path \<Rightarrow> fs \<Rightarrow> fs" where
  "remove_path p fs =
     (if fs_is_file fs p then fs_unlink p fs
      else if fs_is_dir fs p then fs_rmtree p fs else fs)"

definition lru_entry :: "string \<times> cache_entry \<Rightarrow> cache_index \<Rightarrow> string \<times> cache_entry" where
  "lru_entry p rest = min_by (\<lambda>p. ce_last_accessed (snd p)) p rest"

function evict_loop :: "real \<Rightarrow> fs \<Rightarrow> cache_index \<Rightarrow> fs \<times> cache_index" where
  "evict_loop cap fs idx =
     (if cap < index_size_mb idx then
        (case idx of [] \<Rightarrow> (fs, idx)
         | p # rest \<Rightarrow>
             (let lru = lru_entry p rest in
              evict_loop cap (remove_path (ce_path (snd lru)) fs) (ddel (fst lru) idx)))
      else (fs, idx))"
  by pat_completeness auto

lemma length_ddel_less: "p \<in> set d \<Longrightarrow> length (ddel (fst p) d) < length d"
  unfolding ddel_filter by (rule length_filter_less) auto

lemma lru_entry_mem: "lru_entry p rest \<in> set (p # rest)"
  unfolding lru_entry_def by (rule min_by_mem)

lemma lru_entry_le: "q \<in> set (p # rest) \<Longrightarrow>
  ce_last_accessed (snd (lru_entry p rest)) \<le> ce_last_accessed (snd q)"
  unfolding lru_entry_def by (rule min_by_le)

termination evict_loop
proof (relation "measure (\<lambda>(cap, fs, idx). length idx)")
  fix cap :: real and fs :: fs and idx p rest lru
  assume "idx = p # rest" and "lru = lru_entry p rest"
  then show "((cap, remove_path (ce_path (snd lru)) fs, ddel (fst lru) idx), (cap, fs, idx))
      \<in> measure (\<lambda>(cap, fs, idx). length idx)"
    using length_ddel_less [OF lru_entry_mem [of p rest]] by simp
qed simp

declare evict_loop.simps [simp del]

definition evict_limit :: "cache \<Rightarrow> real" where
  "evict_limit s = of_int (ca_max_mb s) * 9 / 10"

definition maybe_evict :: "cache \<Rightarrow> cache" where
  "maybe_evict s = (case evict_loop (evict_limit s) (ca_fs s) (ca_index s) of
     (fs, idx) \<Rightarrow> save_index (s\<lparr>ca_fs := fs, ca_index := idx\<rparr>))"

section \<open>Wheels and layers\<close>

text \<open>\<open>_hash_file\<close> feeds the hash object block by block. The rest of the theory takes the hash of the whole
  content, which is the same wherever updating twice is updating with both.\<close>

record 'h hasher =
  ha_bytes :: "content \<Rightarrow> byte list"
  ha_new :: 'h
  ha_update :: "'h \<Rightarrow> byte list \<Rightarrow> 'h"
  ha_hexdigest :: "'h \<Rightarrow> string"

function read_blocks :: "nat \<Rightarrow> 'a list \<Rightarrow> 'a list list" where
  "read_blocks n bs = (if bs = [] \<or> n = 0 then [] else take n bs # read_blocks n (drop n bs))"
  by auto
termination by (relation "measure (length \<circ> snd)") auto

declare read_blocks.simps [simp del]

definition hash_file :: "'h hasher \<Rightarrow> fs \<Rightarrow> path \<Rightarrow> exn + string" where
  "hash_file h fs p = map_result (\<lambda>c. ha_hexdigest h
     (fold (\<lambda>b s. ha_update h s b) (read_blocks 8192 (ha_bytes h c)) (ha_new h))) (fs_read fs p)"

lemma concat_read_blocks: "0 < n \<Longrightarrow> concat (read_blocks n bs) = bs"
  by (induction n bs rule: read_blocks.induct) (subst read_blocks.simps, simp)

lemma read_blocks_sizes: "b \<in> set (read_blocks n bs) \<Longrightarrow> b \<noteq> [] \<and> length b \<le> n"
proof (induction n bs rule: read_blocks.induct)
  case (1 n bs)
  then show ?case by (subst (asm) (2) read_blocks.simps) (auto split: if_splits)
qed

lemma fold_update:
  assumes "\<And>s a b. ha_update h (ha_update h s a) b = ha_update h s (a @ b)" and "\<And>s. ha_update h s [] = s"
  shows "fold (\<lambda>b s. ha_update h s b) bss s = ha_update h s (concat bss)"
  by (induction bss arbitrary: s) (simp_all add: assms)

lemma hash_file_whole:
  assumes "\<And>s a b. ha_update h (ha_update h s a) b = ha_update h s (a @ b)" and "\<And>s. ha_update h s [] = s"
    and "\<And>c. fe_hash env c = ha_hexdigest h (ha_update h (ha_new h) (ha_bytes h c))"
  shows "hash_file h fs p = map_result (fe_hash env) (fs_read fs p)"
proof -
  have "(\<lambda>c. ha_hexdigest h (fold (\<lambda>b s. ha_update h s b) (read_blocks 8192 (ha_bytes h c)) (ha_new h))) = fe_hash env"
    by (rule ext) (simp add: assms(3) fold_update [OF assms(1,2)] concat_read_blocks)
  then show ?thesis by (simp add: hash_file_def)
qed

definition get_wheel :: "file_env \<Rightarrow> real \<Rightarrow> string \<Rightarrow> string \<Rightarrow> cache \<Rightarrow> (exn + path option) \<times> cache" where
  "get_wheel env now package version s =
     (let key = cache_key package version ''wheel'' in
      case dget (ca_index s) key of
        None \<Rightarrow> (Inr None, s)
      | Some e \<Rightarrow>
          (if \<not> fs_exists (ca_fs s) (ce_path e) then (Inr None, drop_entry key s)
           else case fs_read (ca_fs s) (ce_path e) of
               Inl err \<Rightarrow> (Inl err, s)
             | Inr c \<Rightarrow>
                 (if fe_hash env c \<noteq> ce_sha256 e then
                    (Inr None, drop_entry key (s\<lparr>ca_fs := fs_unlink (ce_path e) (ca_fs s)\<rparr>))
                  else (Inr (Some (ce_path e)), touch_entry now key e s))))"

definition stat_size :: "file_env \<Rightarrow> fs \<Rightarrow> path \<Rightarrow> exn + nat" where
  "stat_size env fs p = (case fs_node fs p of
       None \<Rightarrow> Inl (OSError ''No such file or directory'')
     | Some Dir \<Rightarrow> Inr (fe_dir_stat env)
     | Some (File c) \<Rightarrow> Inr (fe_size env c))"

definition put_entry :: "string \<Rightarrow> cache_entry \<Rightarrow> cache \<Rightarrow> cache" where
  "put_entry key e s = save_index (s\<lparr>ca_index := dset key e (ca_index s)\<rparr>)"

definition wheel_entry :: "string \<Rightarrow> string \<Rightarrow> path \<Rightarrow> string \<Rightarrow> nat \<Rightarrow> real \<Rightarrow> real \<Rightarrow> cache_entry" where
  "wheel_entry package version dest actual_hash n t1 t2 =
     \<lparr>ce_item = WheelItem package version, ce_path = dest, ce_sha256 = actual_hash,
      ce_size = n, ce_cached_at = t1, ce_last_accessed = t2\<rparr>"

text \<open>The two readings of the clock are \<open>t1\<close> and \<open>t2\<close>.\<close>

definition store_wheel ::
  "file_env \<Rightarrow> real \<Rightarrow> real \<Rightarrow> string \<Rightarrow> string \<Rightarrow> path \<Rightarrow> string \<Rightarrow> cache \<Rightarrow> (exn + path) \<times> cache" where
  "store_wheel env t1 t2 package version src sha s0 =
     (let s = maybe_evict s0; dest = path_join (wheels_dir (ca_home s)) (path_name src) in
      case (if src \<noteq> dest then fs_copy src dest (ca_fs s) else Inr (ca_fs s)) of
        Inl e \<Rightarrow> (Inl e, s)
      | Inr fs \<Rightarrow>
          (let s = s\<lparr>ca_fs := fs\<rparr> in
           case (if sha \<noteq> [] then Inr sha else map_result (fe_hash env) (fs_read fs dest)) of
             Inl e \<Rightarrow> (Inl e, s)
           | Inr actual \<Rightarrow>
               (case stat_size env fs dest of
                  Inl e \<Rightarrow> (Inl e, s)
                | Inr n \<Rightarrow>
                    (Inr dest, put_entry (cache_key package version ''wheel'')
                       (wheel_entry package version dest actual n t1 t2) s))))"

definition layer_key :: "string \<Rightarrow> string" where
  "layer_key layer_id = ''layer:'' @ layer_id"

definition get_layer :: "real \<Rightarrow> string \<Rightarrow> cache \<Rightarrow> path option \<times> cache" where
  "get_layer now layer_id s = (case dget (ca_index s) (layer_key layer_id) of
       None \<Rightarrow> (None, s)
     | Some e \<Rightarrow>
         (if \<not> fs_exists (ca_fs s) (ce_path e) then (None, drop_entry (layer_key layer_id) s)
          else (Some (ce_path e), touch_entry now (layer_key layer_id) e s)))"

text \<open>\<open>if dest.exists(): shutil.rmtree(dest)\<close>, then \<open>copytree\<close>; on an error the files removed
  so far stay removed.\<close>

definition replace_tree :: "path \<Rightarrow> path \<Rightarrow> fs \<Rightarrow> exn option \<times> fs" where
  "replace_tree src dest fs =
     (if fs_is_file fs dest then (Some (OSError ''Not a directory''), fs)
      else (let fs1 = (if fs_exists fs dest then fs_rmtree dest fs else fs) in
        case fs_copytree src dest fs1 of Inl e \<Rightarrow> (Some e, fs1) | Inr fs2 \<Rightarrow> (None, fs2)))"

definition store_layer ::
  "file_env \<Rightarrow> real \<Rightarrow> real \<Rightarrow> string \<Rightarrow> path \<Rightarrow> string \<Rightarrow> cache \<Rightarrow> (exn + path) \<times> cache" where
  "store_layer env t1 t2 layer_id src sha s0 =
     (let s = maybe_evict s0; dest = path_join (layers_dir (ca_home s)) layer_id in
      case (if src \<noteq> dest then replace_tree src dest (ca_fs s) else (None, ca_fs s)) of
        (Some e, fs) \<Rightarrow> (Inl e, s\<lparr>ca_fs := fs\<rparr>)
      | (None, fs) \<Rightarrow>
          (Inr dest, put_entry (layer_key layer_id)
             \<lparr>ce_item = LayerItem layer_id, ce_path = dest, ce_sha256 = sha,
              ce_size = fs_dir_size env fs dest, ce_cached_at = t1, ce_last_accessed = t2\<rparr>
             (s\<lparr>ca_fs := fs\<rparr>)))"

section \<open>Metadata\<close>

definition meta_file :: "string \<Rightarrow> cache \<Rightarrow> path" where
  "meta_file package s = path_join (metadata_dir (ca_home s)) (package @ ''.json'')"

definition caught_json_os :: "exn \<Rightarrow> bool" where
  \<comment> \<open>\<open>except (json.JSONDecodeError, OSError)\<close>\<close>
  "caught_json_os e = (is_os_error e \<or> (case e of JSONDecodeError m \<Rightarrow> True | _ \<Rightarrow> False))"

definition get_metadata :: "real \<Rightarrow> string \<Rightarrow> cache \<Rightarrow> (exn + pyval option) \<times> cache" where
  "get_metadata now package s =
     (let f = meta_file package s in
      if \<not> fs_exists (ca_fs s) f then (Inr None, s)
      else case bind_result (fs_read (ca_fs s) f) json_loads of
          Inl e \<Rightarrow> (if caught_json_os e then Inr None else Inl e, s)
        | Inr data \<Rightarrow>
            (case py_get data ''_cached_at'' (VInt 0) of
               Inl e \<Rightarrow> (Inl e, s)
             | Inr t \<Rightarrow>
                 (case as_number t of
                    None \<Rightarrow> (Inl (TypeError ''unsupported operand type(s) for -''), s)
                  | Some (x, _) \<Rightarrow>
                      (if 86400 < now - x then
                         (Inr None, s\<lparr>ca_fs := fs_unlink f (ca_fs s)\<rparr>)
                       else (Inr (Some data), s)))))"

definition store_metadata ::
  "(pyval \<Rightarrow> string) \<Rightarrow> real \<Rightarrow> string \<Rightarrow> (pyval \<times> pyval) list \<Rightarrow> cache \<Rightarrow> exn option \<times> cache" where
  "store_metadata str now package metadata s =
     (case json_dumps str (VDict (dset (VStr ''_cached_at'') (VFloat now) metadata)) of
        Inl e \<Rightarrow> (Some e, s)
      | Inr text \<Rightarrow>
          (case fs_write (meta_file package s) text (ca_fs s) of
             Inl e \<Rightarrow> (Some e, s)
           | Inr fs \<Rightarrow> (None, s\<lparr>ca_fs := fs\<rparr>)))"

section \<open>Statistics and maintenance\<close>

record cache_stats =
  cs_total_size_mb :: real
  cs_max_size_mb :: int
  cs_num_wheels :: nat
  cs_num_layers :: nat
  cs_num_metadata :: nat
  cs_utilization_pct :: real

definition is_wheel_item :: "cache_item \<Rightarrow> bool" where
  "is_wheel_item i = (case i of WheelItem p v \<Rightarrow> True | LayerItem l \<Rightarrow> False)"

definition stats :: "cache \<Rightarrow> cache_stats" where
  "stats s =
     (let current = index_size_mb (ca_index s) in
      \<lparr>cs_total_size_mb = py_round 2 current, cs_max_size_mb = ca_max_mb s,
       cs_num_wheels = length (filter (\<lambda>e. is_wheel_item (ce_item e)) (dvalues (ca_index s))),
       cs_num_layers = length (filter (\<lambda>e. \<not> is_wheel_item (ce_item e)) (dvalues (ca_index s))),
       cs_num_metadata = length (fs_glob_suffix (ca_fs s) (metadata_dir (ca_home s)) ''.json''),
       cs_utilization_pct = py_round 1 (current / of_int (max (ca_max_mb s) 1) * 100)\<rparr>)"

fun reset_dirs :: "path list \<Rightarrow> fs \<Rightarrow> exn option \<times> fs" where
  "reset_dirs [] fs = (None, fs)"
| "reset_dirs (d # ds) fs =
     (let fs1 = (if fs_is_dir fs d then fs_rmtree d fs else fs) in
      case fs_mkdirs d fs1 of Inl e \<Rightarrow> (Some e, fs1) | Inr fs2 \<Rightarrow> reset_dirs ds fs2)"

definition clear_cache :: "cache \<Rightarrow> exn option \<times> cache" where
  "clear_cache s =
     (case reset_dirs [wheels_dir (ca_home s), layers_dir (ca_home s), metadata_dir (ca_home s)]
        (ca_fs s) of
        (Some e, fs) \<Rightarrow> (Some e, s\<lparr>ca_fs := fs\<rparr>)
      | (None, fs) \<Rightarrow> (None, save_index (s\<lparr>ca_fs := fs, ca_index := []\<rparr>)))"

fun verify_loop :: "file_env \<Rightarrow> cache_index \<Rightarrow> string list \<times> fs \<times> cache_index \<Rightarrow>
    string list \<times> fs \<times> cache_index" where
  "verify_loop env [] st = st"
| "verify_loop env ((key, e) # rest) (issues, fs, idx) =
     verify_loop env rest
       (case fs_node fs (ce_path e) of
          None \<Rightarrow> (issues @ [''Missing: '' @ key], fs, ddel key idx)
        | Some (File c) \<Rightarrow>
            (if ce_sha256 e \<noteq> [] \<and> fe_hash env c \<noteq> ce_sha256 e then
               (issues @ [''Corrupt: '' @ key @ '' (hash mismatch)''],
                fs_unlink (ce_path e) fs, ddel key idx)
             else (issues, fs, idx))
        | Some Dir \<Rightarrow> (issues, fs, idx))"

definition verify_integrity :: "file_env \<Rightarrow> cache \<Rightarrow> string list \<times> cache" where
  "verify_integrity env s = (case verify_loop env (ca_index s) ([], ca_fs s, ca_index s) of
     (issues, fs, idx) \<Rightarrow>
       (let s' = s\<lparr>ca_fs := fs, ca_index := idx\<rparr> in
        (issues, if issues \<noteq> [] then save_index s' else s')))"

section \<open>Eviction: least recently used, and no more than needed\<close>

lemma set_ddel: "dict_ok d \<Longrightarrow> p \<in> set d \<Longrightarrow> set (ddel (fst p) d) = set d - {p}"
  unfolding ddel_filter dict_ok_def by (auto simp: distinct_map inj_on_def)

definition entry_mb :: "string \<times> cache_entry \<Rightarrow> real" where
  "entry_mb p = real (ce_size (snd p)) / (1024 * 1024)"

lemma index_size_ddel:
  assumes "dict_ok idx" and "p \<in> set idx"
  shows "index_size_mb idx = index_size_mb (ddel (fst p) idx) + entry_mb p"
proof -
  have "sum_list (map (\<lambda>p. ce_size (snd p)) idx)
      = sum_mset (image_mset (\<lambda>p. ce_size (snd p)) (mset idx))" by (simp flip: sum_mset_sum_list)
  also have "\<dots> = ce_size (snd p) + sum_list (map (\<lambda>p. ce_size (snd p)) (ddel (fst p) idx))"
    unfolding mset_ddel [OF assms] by (simp flip: sum_mset_sum_list)
  finally show ?thesis by (simp add: index_size_mb_def entry_mb_def add_divide_distrib)
qed

text \<open>What the loop has done when it ends in \<open>idx'\<close>.\<close>

definition evicted_ok :: "real \<Rightarrow> cache_index \<Rightarrow> cache_index \<Rightarrow> bool" where
  "evicted_ok cap idx idx' \<longleftrightarrow>
     dict_ok idx' \<and> set idx' \<subseteq> set idx \<and> (index_size_mb idx' \<le> cap \<or> idx' = []) \<and>
     (\<forall>p\<in>set idx - set idx'. \<forall>q\<in>set idx'. ce_last_accessed (snd p) \<le> ce_last_accessed (snd q)) \<and>
     (idx' = idx \<or> (\<exists>p\<in>set idx - set idx'. cap < index_size_mb idx' + entry_mb p))"

lemma evicted_ok_step:
  assumes "dict_ok idx" and "p \<in> set idx" and "cap < index_size_mb idx"
    and le: "\<forall>q\<in>set idx. ce_last_accessed (snd p) \<le> ce_last_accessed (snd q)"
    and ev: "evicted_ok cap (ddel (fst p) idx) idx'"
  shows "evicted_ok cap idx idx'"
proof -
  have sub: "set idx' \<subseteq> set idx - {p}"
    using ev set_ddel [OF assms(1,2)] by (auto simp: evicted_ok_def)
  have last: "\<exists>q\<in>set idx - set idx'. cap < index_size_mb idx' + entry_mb q"
  proof (cases "idx' = ddel (fst p) idx")
    case True
    then show ?thesis using assms(2,3) sub index_size_ddel [OF assms(1,2)] by auto
  next
    case False
    then obtain q where "q \<in> set (ddel (fst p) idx) - set idx'" "cap < index_size_mb idx' + entry_mb q"
      using ev by (auto simp: evicted_ok_def)
    then show ?thesis using set_ddel [OF assms(1,2)] by auto
  qed
  have lru: "ce_last_accessed (snd r) \<le> ce_last_accessed (snd q)"
    if "r \<in> set idx - set idx'" "q \<in> set idx'" for r q
  proof (cases "r = p")
    case True
    then show ?thesis using le that sub by auto
  next
    case False
    then have "r \<in> set (ddel (fst p) idx) - set idx'" using that set_ddel [OF assms(1,2)] by auto
    then show ?thesis using ev that unfolding evicted_ok_def by blast
  qed
  show ?thesis
    using ev sub last lru unfolding evicted_ok_def by blast
qed

lemma evict_loop_ok: "dict_ok idx \<Longrightarrow> evicted_ok cap idx (snd (evict_loop cap fs idx))"
proof (induction cap fs idx rule: evict_loop.induct)
  case (1 cap fs idx)
  show ?case
  proof (cases "cap < index_size_mb idx \<and> idx \<noteq> []")
    case False
    then show ?thesis using 1(2)
      by (subst evict_loop.simps) (auto simp: evicted_ok_def split: list.splits)
  next
    case True
    then obtain p rest where idx: "idx = p # rest" and big: "cap < index_size_mb idx"
      by (cases idx) auto
    define q where "q = lru_entry p rest"
    have mem: "q \<in> set idx" unfolding q_def idx by (rule lru_entry_mem)
    have "evict_loop cap fs idx = evict_loop cap (remove_path (ce_path (snd q)) fs) (ddel (fst q) idx)"
      using big by (subst evict_loop.simps) (simp add: idx q_def Let_def)
    moreover have "evicted_ok cap (ddel (fst q) idx)
        (snd (evict_loop cap (remove_path (ce_path (snd q)) fs) (ddel (fst q) idx)))"
      by (rule 1(1) [OF big idx q_def]) (simp add: 1(2))
    ultimately show ?thesis
      using evicted_ok_step [OF 1(2) mem big] lru_entry_le by (simp add: idx q_def)
  qed
qed

text \<open>Eviction only removes files, and removes those of the entries it drops.\<close>

lemma dget_filter_key: "dget (filter (\<lambda>(q, n). P q) d) k = (if P k then dget d k else None)"
  by (induction d) auto

lemma remove_path_node:
  "fs_node (remove_path p fs) q = Some n \<Longrightarrow> fs_node fs q = Some n"
  by (auto simp: remove_path_def fs_unlink_def fs_rmtree_def fs_node_def dget_ddel
      dget_filter_key [where P = "\<lambda>q. \<not> under p q"] split: if_splits)

lemma remove_path_gone: "p \<noteq> [] \<Longrightarrow> \<not> fs_exists (remove_path p fs) p"
  by (auto simp: remove_path_def fs_exists_def fs_unlink_def fs_rmtree_def fs_node_def dget_ddel
      dget_filter_key [where P = "\<lambda>q. \<not> under p q"] fs_is_file_def fs_is_dir_def
      split: if_splits option.splits node.splits) (simp_all add: under_def)

lemma evict_loop_node:
  "fs_node (fst (evict_loop cap fs idx)) q = Some n \<Longrightarrow> fs_node fs q = Some n"
proof (induction cap fs idx rule: evict_loop.induct)
  case (1 cap fs idx)
  show ?case
  proof (cases "cap < index_size_mb idx \<and> idx \<noteq> []")
    case False
    with 1(2) show ?thesis by (subst (asm) evict_loop.simps) (auto split: list.splits if_splits)
  next
    case True
    then obtain p rest where idx: "idx = p # rest" and big: "cap < index_size_mb idx"
      by (cases idx) auto
    have "fs_node (remove_path (ce_path (snd (lru_entry p rest))) fs) q = Some n"
      by (rule 1(1) [OF big idx refl])
        (use 1(2) big in \<open>simp add: idx Let_def evict_loop.simps [of cap fs]\<close>)
    then show ?thesis by (rule remove_path_node)
  qed
qed

lemma evict_loop_gone:
  "dict_ok idx \<Longrightarrow> p \<in> set idx - set (snd (evict_loop cap fs idx)) \<Longrightarrow> ce_path (snd p) \<noteq> [] \<Longrightarrow>
   \<not> fs_exists (fst (evict_loop cap fs idx)) (ce_path (snd p))"
proof (induction cap fs idx rule: evict_loop.induct)
  case (1 cap fs idx)
  show ?case
  proof (cases "cap < index_size_mb idx \<and> idx \<noteq> []")
    case False
    with 1(3) show ?thesis by (subst (asm) evict_loop.simps) (auto split: list.splits if_splits)
  next
    case True
    then obtain h rest where idx: "idx = h # rest" and big: "cap < index_size_mb idx"
      by (cases idx) auto
    define q where "q = lru_entry h rest"
    define fs1 where "fs1 = remove_path (ce_path (snd q)) fs"
    have mem: "q \<in> set idx" unfolding q_def idx by (rule lru_entry_mem)
    have unf: "evict_loop cap fs idx = evict_loop cap fs1 (ddel (fst q) idx)"
      using big by (subst evict_loop.simps) (simp add: idx q_def fs1_def Let_def)
    show ?thesis
    proof (cases "p = q")
      case True
      have "\<not> fs_exists fs1 (ce_path (snd p))"
        unfolding fs1_def True [symmetric] using 1(4) by (rule remove_path_gone)
      then have "fs_node fs1 (ce_path (snd p)) = None" by (simp add: fs_exists_def)
      with evict_loop_node [of cap fs1 "ddel (fst q) idx" "ce_path (snd p)"]
      have "fs_node (fst (evict_loop cap fs1 (ddel (fst q) idx))) (ce_path (snd p)) = None"
        by (metis not_None_eq)
      then show ?thesis by (simp only: unf fs_exists_def simp_thms)
    next
      case False
      have "\<not> fs_exists (fst (evict_loop cap fs1 (ddel (fst q) idx))) (ce_path (snd p))"
        unfolding fs1_def
      proof (rule 1(1) [OF big idx q_def])
        show "dict_ok (ddel (fst q) idx)" by (rule dict_ok_ddel [OF 1(2)])
        show "p \<in> set (ddel (fst q) idx) - set (snd (evict_loop cap (remove_path (ce_path (snd q)) fs) (ddel (fst q) idx)))"
          using 1(3) False unfolding set_ddel [OF 1(2) mem] unf fs1_def by blast
      qed (rule 1(4))
      then show ?thesis by (simp only: unf simp_thms)
    qed
  qed
qed

lemma save_index_simps [simp]:
  "ca_index (save_index s) = ca_index s" "ca_fs (save_index s) = ca_fs s"
  "ca_home (save_index s) = ca_home s" "ca_max_mb (save_index s) = ca_max_mb s"
  "ca_writable (save_index s) = ca_writable s"
  by (simp_all add: save_index_def)

lemma maybe_evict_simps:
  "ca_index (maybe_evict s) = snd (evict_loop (evict_limit s) (ca_fs s) (ca_index s))"
  "ca_fs (maybe_evict s) = fst (evict_loop (evict_limit s) (ca_fs s) (ca_index s))"
  "ca_home (maybe_evict s) = ca_home s" "ca_writable (maybe_evict s) = ca_writable s"
  by (simp_all add: maybe_evict_def split: prod.split)

text \<open>C21: Eviction terminates with the cache at most at nine tenths of its maximum (or empty),
  removes only entries last used no later than every entry it keeps, stops as soon as it
  can (putting back some evicted entry would exceed the limit), and the files of the
  evicted entries are gone.\<close>

theorem eviction_is_lru_and_minimal:
  assumes "dict_ok (ca_index s)"
  shows "let kept = ca_index (maybe_evict s); gone = set (ca_index s) - set kept in
     set kept \<subseteq> set (ca_index s) \<and>
     (index_size_mb kept \<le> of_int (ca_max_mb s) * 9 / 10 \<or> kept = []) \<and>
     (\<forall>p\<in>gone. \<forall>q\<in>set kept. ce_last_accessed (snd p) \<le> ce_last_accessed (snd q)) \<and>
     (kept = ca_index s \<or>
      (\<exists>p\<in>gone. of_int (ca_max_mb s) * 9 / 10 < index_size_mb kept + entry_mb p)) \<and>
     (\<forall>p\<in>gone. ce_path (snd p) \<noteq> [] \<longrightarrow> \<not> fs_exists (ca_fs (maybe_evict s)) (ce_path (snd p)))"
  using evict_loop_ok [OF assms, of "evict_limit s" "ca_fs s"]
    evict_loop_gone [OF assms, where cap = "evict_limit s" and fs = "ca_fs s"]
  unfolding Let_def maybe_evict_simps evicted_ok_def evict_limit_def by blast

definition demo_entry :: "string \<Rightarrow> string \<Rightarrow> real \<Rightarrow> cache_entry" where
  "demo_entry name sha used = \<lparr>ce_item = WheelItem name ''1'', ce_path = [name], ce_sha256 = sha,
     ce_size = 1048576, ce_cached_at = 0, ce_last_accessed = used\<rparr>"

definition demo_cache :: cache where
  "demo_cache = \<lparr>ca_max_mb = 2, ca_home = [''h''],
     ca_index = [(''wheel:a:1'', demo_entry ''a'' ''A'' 5), (''wheel:b:1'', demo_entry ''b'' ''B'' 3)],
     ca_disk = None, ca_fs = [([''a''], File (Text ''A'')), ([''b''], File (Text ''B''))],
     ca_writable = True\<rparr>"

theorem eviction_is_lru_and_minimal_witness:
  "dict_ok (ca_index demo_cache) \<and>
   (index_size_mb (ca_index (maybe_evict demo_cache)) \<le> 9 / 5 \<or> ca_index (maybe_evict demo_cache) = [])"
proof -
  have ok: "dict_ok (ca_index demo_cache)" by (simp add: demo_cache_def dict_ok_def)
  show ?thesis using ok eviction_is_lru_and_minimal [OF ok] by (simp add: Let_def demo_cache_def)
qed

section \<open>Storing and looking up a wheel\<close>

lemma store_wheel_Inr:
  assumes "store_wheel env t1 t2 package version src sha s = (Inr dest, s')" and "src \<noteq> dest"
  shows "\<exists>fs n h. fs_copy src dest (ca_fs (maybe_evict s)) = Inr fs \<and>
    (if sha \<noteq> [] then Inr sha else map_result (fe_hash env) (fs_read fs dest)) = Inr h \<and>
    s' = put_entry (cache_key package version ''wheel'')
      (wheel_entry package version dest h n t1 t2) ((maybe_evict s)\<lparr>ca_fs := fs\<rparr>)"
  using assms unfolding store_wheel_def Let_def by (auto split: sum.splits if_splits)


definition text_env :: file_env where
  "text_env = \<lparr>fe_hash = (\<lambda>c. case c of Text s \<Rightarrow> s | _ \<Rightarrow> []),
     fe_size = (\<lambda>c. case c of Text s \<Rightarrow> length s | _ \<Rightarrow> 0), fe_dir_stat = 0\<rparr>"

definition fresh_cache :: cache where
  "fresh_cache = \<lparr>ca_max_mb = 2, ca_home = [], ca_index = [], ca_disk = None,
     ca_fs = [([''cache''], Dir), ([''cache'', ''wheels''], Dir), ([''w''], File (Text ''abc''))],
     ca_writable = True\<rparr>"


section \<open>Integrity\<close>

definition entry_sound :: "file_env \<Rightarrow> fs \<Rightarrow> cache_entry \<Rightarrow> bool" where
  "entry_sound env fs e = (case fs_node fs (ce_path e) of
       None \<Rightarrow> False
     | Some Dir \<Rightarrow> True
     | Some (File c) \<Rightarrow> ce_sha256 e = [] \<or> fe_hash env c = ce_sha256 e)"

lemma verify_step_sound:
  "entry_sound env fs e \<Longrightarrow> verify_loop env ((k, e) # es) (iss, fs, idx) = verify_loop env es (iss, fs, idx)"
  by (auto simp: entry_sound_def split: option.splits node.splits)

lemma verify_step_unsound:
  assumes "\<not> entry_sound env fs e" and "ce_path e \<noteq> []"
  shows "\<exists>i. verify_loop env ((k, e) # es) (iss, fs, idx)
    = verify_loop env es (iss @ [i], fs_unlink (ce_path e) fs, ddel k idx)"
proof (cases "fs_node fs (ce_path e)")
  case None
  then have "fs_unlink (ce_path e) fs = fs"
    using assms(2) by (simp add: fs_unlink_def fs_node_def map_of_eq_None_iff delete_idem)
  with None show ?thesis by (intro exI [of _ "''Missing: '' @ k"]) simp
next
  case (Some n)
  with assms(1) show ?thesis by (cases n) (auto simp: entry_sound_def)
qed

lemma verify_loop_issues: "iss \<noteq> [] \<Longrightarrow> fst (verify_loop env es (iss, fs, idx)) \<noteq> []"
  by (induction es arbitrary: iss fs idx) (auto split: option.splits node.splits if_splits)

lemma verify_loop_clean:
  "\<forall>p\<in>set es. ce_path (snd p) \<noteq> [] \<Longrightarrow>
   fst (verify_loop env es ([], fs, idx)) = [] \<longleftrightarrow> (\<forall>p\<in>set es. entry_sound env fs (snd p))"
proof (induction es)
  case Nil
  then show ?case by simp
next
  case (Cons p es)
  obtain k e where p: "p = (k, e)" by (cases p)
  show ?case
  proof (cases "entry_sound env fs e")
    case True
    with Cons p verify_step_sound [OF True] show ?thesis by simp
  next
    case False
    then obtain i where "verify_loop env ((k, e) # es) ([], fs, idx)
        = verify_loop env es ([i], fs_unlink (ce_path e) fs, ddel k idx)"
      using verify_step_unsound [OF False, of k es "[]" idx] Cons.prems p by auto
    with verify_loop_issues [of "[i]"] False p show ?thesis by simp
  qed
qed

lemma verify_loop_keeps:
  "dict_ok idx \<Longrightarrow> set es \<subseteq> set idx \<Longrightarrow> distinct (map (\<lambda>p. ce_path (snd p)) es) \<Longrightarrow>
   \<forall>p\<in>set es. ce_path (snd p) \<noteq> [] \<Longrightarrow> verify_loop env es (iss, fs, idx) = (iss', fs', idx') \<Longrightarrow>
   set idx' = {p \<in> set idx. p \<notin> set es \<or> entry_sound env fs (snd p)} \<and>
   (\<forall>q. q \<notin> (\<lambda>p. ce_path (snd p)) ` {p\<in>set es. \<not> entry_sound env fs (snd p)}
      \<longrightarrow> fs_node fs' q = fs_node fs q)"
proof (induction es arbitrary: iss fs idx)
  case Nil
  then show ?case by simp
next
  case (Cons p es)
  obtain k e where p: "p = (k, e)" by (cases p)
  show ?case
  proof (cases "entry_sound env fs e")
    case True
    have "verify_loop env es (iss, fs, idx) = (iss', fs', idx')"
      using Cons.prems(5) p verify_step_sound [OF True, of k es iss idx] by simp
    with Cons.IH [OF Cons.prems(1), of iss fs] Cons.prems(2-4) True p show ?thesis by auto
  next
    case False
    let ?fs = "fs_unlink (ce_path e) fs" and ?idx = "ddel k idx"
    have ne: "ce_path e \<noteq> []" using Cons.prems(4) p by simp
    from verify_step_unsound [OF False ne, of k es iss idx] Cons.prems(5) p
    obtain i where run: "verify_loop env es (iss @ [i], ?fs, ?idx) = (iss', fs', idx')" by auto
    have mem: "p \<in> set idx" using Cons.prems(2) by simp
    have idx1: "set ?idx = set idx - {p}" using set_ddel [OF Cons.prems(1) mem] p by simp
    have pes: "p \<notin> set es" using Cons.prems(3) by auto
    have same: "entry_sound env ?fs (snd r) = entry_sound env fs (snd r)" if "r \<in> set es" for r
    proof -
      have "ce_path (snd r) \<noteq> ce_path e" using Cons.prems(3) that p by force
      then show ?thesis by (simp add: entry_sound_def fs_node_unlink ne)
    qed
    have "set es \<subseteq> set ?idx" using Cons.prems(2) pes idx1 by auto
    with Cons.IH [OF _ this _ _ run] Cons.prems(1,3,4)
    have ih1: "set idx' = {r \<in> set ?idx. r \<notin> set es \<or> entry_sound env ?fs (snd r)}"
      and ih2: "\<forall>q. q \<notin> (\<lambda>p. ce_path (snd p)) ` {r\<in>set es. \<not> entry_sound env ?fs (snd r)}
        \<longrightarrow> fs_node fs' q = fs_node ?fs q" by auto
    have "set idx' = {r \<in> set idx. r \<notin> set (p # es) \<or> entry_sound env fs (snd r)}"
      unfolding ih1 idx1 using same False p by auto
    moreover have "fs_node fs' q = fs_node fs q"
      if "q \<notin> (\<lambda>p. ce_path (snd p)) ` {r\<in>set (p # es). \<not> entry_sound env fs (snd r)}" for q
    proof -
      have "q \<noteq> ce_path e" using that False p by force
      moreover have "q \<notin> (\<lambda>p. ce_path (snd p)) ` {r\<in>set es. \<not> entry_sound env ?fs (snd r)}"
        using that same by force
      ultimately show ?thesis using ih2 ne by (simp add: fs_node_unlink)
    qed
    ultimately show ?thesis by blast
  qed
qed

lemma verify_repairs:
  assumes ok: "dict_ok (ca_index s)"
    and paths: "distinct (map (\<lambda>p. ce_path (snd p)) (ca_index s))"
    and root: "\<forall>p\<in>set (ca_index s). ce_path (snd p) \<noteq> []"
  shows "set (ca_index (snd (verify_integrity env s)))
           = {p \<in> set (ca_index s). entry_sound env (ca_fs s) (snd p)} \<and>
         (fst (verify_integrity env s) = [] \<longleftrightarrow>
           (\<forall>p\<in>set (ca_index s). entry_sound env (ca_fs s) (snd p))) \<and>
         fst (verify_integrity env (snd (verify_integrity env s))) = []"
proof -
  obtain iss fs' idx' where run: "verify_loop env (ca_index s) ([], ca_fs s, ca_index s) = (iss, fs', idx')"
    by (metis prod_cases3)
  let ?s' = "snd (verify_integrity env s)"
  have s': "ca_index ?s' = idx'" "ca_fs ?s' = fs'" and iss: "fst (verify_integrity env s) = iss"
    by (simp_all add: verify_integrity_def run Let_def)
  from verify_loop_keeps [OF ok subset_refl paths root run]
  have idx': "set idx' = {p \<in> set (ca_index s). entry_sound env (ca_fs s) (snd p)}"
    and same: "\<forall>q. q \<notin> (\<lambda>p. ce_path (snd p)) ` {p\<in>set (ca_index s). \<not> entry_sound env (ca_fs s) (snd p)}
      \<longrightarrow> fs_node fs' q = fs_node (ca_fs s) q" by auto
  have inj: "p = r" if "p \<in> set (ca_index s)" "r \<in> set (ca_index s)" "ce_path (snd p) = ce_path (snd r)"
    for p r using paths that by (auto simp: distinct_map inj_on_def)
  have "entry_sound env fs' (snd p)" if "p \<in> set idx'" for p
  proof -
    have p: "p \<in> set (ca_index s)" "entry_sound env (ca_fs s) (snd p)" using that idx' by auto
    have "ce_path (snd p) \<notin> (\<lambda>p. ce_path (snd p)) ` {p\<in>set (ca_index s). \<not> entry_sound env (ca_fs s) (snd p)}"
    proof
      assume "ce_path (snd p) \<in> (\<lambda>p. ce_path (snd p)) ` {p\<in>set (ca_index s). \<not> entry_sound env (ca_fs s) (snd p)}"
      then obtain r where "r \<in> set (ca_index s)" "\<not> entry_sound env (ca_fs s) (snd r)"
        "ce_path (snd p) = ce_path (snd r)" by blast
      with inj [OF p(1)] p(2) show False by blast
    qed
    with same have "fs_node fs' (ce_path (snd p)) = fs_node (ca_fs s) (ce_path (snd p))" by blast
    with p(2) show ?thesis by (simp add: entry_sound_def)
  qed
  moreover have "\<forall>p\<in>set idx'. ce_path (snd p) \<noteq> []" using idx' root by auto
  ultimately have "fst (verify_loop env idx' ([], fs', idx')) = []"
    by (subst verify_loop_clean) auto
  then have "fst (verify_integrity env ?s') = []"
    unfolding verify_integrity_def [of env ?s'] s' by (auto split: prod.splits simp: Let_def)
  moreover have "iss = [] \<longleftrightarrow> (\<forall>p\<in>set (ca_index s). entry_sound env (ca_fs s) (snd p))"
    using verify_loop_clean [OF root, of env "ca_fs s" "ca_index s"] run by simp
  ultimately show ?thesis unfolding s' iss using idx' by blast
qed

text \<open>When no two entries share a file, \<open>verify_integrity\<close> keeps exactly the entries whose
  file exists and hashes to the recorded value, reports nothing if and only if all are, and
  a second run reports nothing.\<close>

theorem verify_integrity_repairs:
  assumes ok: "dict_ok (ca_index s)"
    and paths: "distinct (map (\<lambda>p. ce_path (snd p)) (ca_index s))"
    and root: "\<forall>p\<in>set (ca_index s). ce_path (snd p) \<noteq> []"
  shows "set (ca_index (snd (verify_integrity env s)))
           = {p \<in> set (ca_index s). entry_sound env (ca_fs s) (snd p)} \<and>
         (fst (verify_integrity env s) = [] \<longleftrightarrow>
           (\<forall>p\<in>set (ca_index s). entry_sound env (ca_fs s) (snd p))) \<and>
         fst (verify_integrity env (snd (verify_integrity env s))) = []"
  by (rule verify_repairs [OF assms])

theorem verify_integrity_repairs_witness:
  "distinct (map (\<lambda>p. ce_path (snd p)) (ca_index demo_cache)) \<and>
   fst (verify_integrity text_env (snd (verify_integrity text_env demo_cache))) = []"
proof -
  have "dict_ok (ca_index demo_cache)" "distinct (map (\<lambda>p. ce_path (snd p)) (ca_index demo_cache))"
    "\<forall>p\<in>set (ca_index demo_cache). ce_path (snd p) \<noteq> []"
    by (simp_all add: demo_cache_def demo_entry_def dict_ok_def)
  with verify_integrity_repairs [OF this, of text_env] show ?thesis by blast
qed

definition shared_cache :: cache where
  "shared_cache = demo_cache\<lparr>ca_index :=
     [(''wheel:a:1'', demo_entry ''a'' ''A'' 5), (''wheel:a:2'', demo_entry ''a'' ''X'' 3)]\<rparr>"

text \<open>Entries that share a file defeat the check: a file stored under two versions with
  different recorded hashes is deleted when the second is found corrupt, and the first stays
  in the index pointing at nothing until the next run.\<close>

theorem verify_leaves_dangling_entry:
  "fst (verify_integrity text_env shared_cache) = [''Corrupt: wheel:a:2 (hash mismatch)''] \<and>
   fst (verify_integrity text_env (snd (verify_integrity text_env shared_cache)))
     = [''Missing: wheel:a:1'']"
  by (simp add: verify_integrity_def shared_cache_def demo_cache_def demo_entry_def text_env_def
      fs_node_def fs_unlink_def Let_def save_index_def)

section \<open>Metadata\<close>

lemma canonical_dset:
  assumes "canonical (VDict md)" and "canonical v"
  shows "canonical (VDict (dset (VStr k) v md))"
proof -
  have "is_str (fst kv) \<and> canonical (snd kv)" if "kv \<in> set (dset (VStr k) v md)" for kv
    using that set_dset_subset [of "VStr k" v md] assms by (auto simp: list_all_iff)
  moreover have "distinct (dkeys (dset (VStr k) v md))"
    using assms(1) by (simp add: distinct_update)
  ultimately show ?thesis by (simp add: list_all_iff)
qed

text \<open>Metadata is served unchanged, with its time of caching, for 24 hours and not after.\<close>

theorem metadata_lives_a_day:
  assumes "store_metadata str now package md s = (None, s')" and "canonical (VDict md)"
  shows "fst (get_metadata later package s') =
    Inr (if 86400 < later - now then None
         else Some (VDict (dset (VStr ''_cached_at'') (VFloat now) md)))"
proof -
  let ?d = "VDict (dset (VStr ''_cached_at'') (VFloat now) md)"
  have "canonical ?d" by (rule canonical_dset [OF assms(2)]) simp
  then have "json_dumps str ?d = Inr (JsonText ?d)" by (rule json_dumps_canonical)
  with assms(1) obtain fs where w: "fs_write (meta_file package s) (JsonText ?d) (ca_fs s) = Inr fs"
    and s': "s' = s\<lparr>ca_fs := fs\<rparr>" by (auto simp: store_metadata_def split: sum.splits)
  have "fs_node fs (meta_file package s) = Some (File (JsonText ?d))"
    using fs_write_node [OF w] by simp
  then show ?thesis
    by (simp add: s' get_metadata_def meta_file_def Let_def fs_exists_def fs_read_def json_loads_def
        py_get_def dget_dset)
qed

theorem metadata_lives_a_day_witness:
  "let s = fresh_cache\<lparr>ca_fs := [([''cache''], Dir), ([''cache'', ''metadata''], Dir)]\<rparr>;
       s' = snd (store_metadata (\<lambda>v. []) 0 ''p'' [] s)
   in fst (get_metadata 86400 ''p'' s') = Inr (Some (VDict [(VStr ''_cached_at'', VFloat 0)])) \<and>
      fst (get_metadata 86401 ''p'' s') = Inr None"
proof -
  define s where "s = fresh_cache\<lparr>ca_fs := [([''cache''], Dir), ([''cache'', ''metadata''], Dir)]\<rparr>"
  obtain s' where st: "store_metadata (\<lambda>v. []) 0 ''p'' [] s = (None, s')"
    by (simp add: store_metadata_def json_dumps_def s_def fresh_cache_def meta_file_def
        metadata_dir_def path_join_def path_parts_def fs_write_def fs_is_dir_def fs_node_def)
  show ?thesis
    unfolding s_def [symmetric] Let_def st snd_conv by (simp add: metadata_lives_a_day [OF st])
qed

section \<open>The index on disk\<close>

datatype cache_event =
    GetWheel real string string | StoreWheel real real string string path string
  | GetLayer real string | StoreLayer real real string path string
  | GetMeta real string | StoreMeta real string "(pyval \<times> pyval) list"
  | Clear | Verify

fun cache_step :: "file_env \<Rightarrow> (pyval \<Rightarrow> string) \<Rightarrow> cache_event \<Rightarrow> cache \<Rightarrow> cache" where
  "cache_step env str (GetWheel t p v) s = snd (get_wheel env t p v s)"
| "cache_step env str (StoreWheel t u p v src sha) s = snd (store_wheel env t u p v src sha s)"
| "cache_step env str (GetLayer t l) s = snd (get_layer t l s)"
| "cache_step env str (StoreLayer t u l src sha) s = snd (store_layer env t u l src sha s)"
| "cache_step env str (GetMeta t p) s = snd (get_metadata t p s)"
| "cache_step env str (StoreMeta t p md) s = snd (store_metadata str t p md s)"
| "cache_step env str Clear s = snd (clear_cache s)"
| "cache_step env str Verify s = snd (verify_integrity env s)"

definition cache_inv :: "cache \<Rightarrow> bool" where
  "cache_inv s \<longleftrightarrow> dict_ok (ca_index s) \<and> ca_writable s \<and> load_index (ca_disk s) = ca_index s"

lemma cache_inv_fs [inv_intros]: "cache_inv s \<Longrightarrow> cache_inv (s\<lparr>ca_fs := fs\<rparr>)"
  by (simp add: cache_inv_def)

lemma cache_inv_save [inv_intros]: "ca_writable s \<Longrightarrow> dict_ok (ca_index s) \<Longrightarrow> cache_inv (save_index s)"
  by (simp add: cache_inv_def save_index_def load_index_def)

lemma cache_inv_ok: "cache_inv s \<Longrightarrow> dict_ok (ca_index s)" "cache_inv s \<Longrightarrow> ca_writable s"
  by (simp_all add: cache_inv_def)

lemma cache_inv_drop [inv_intros]: "cache_inv s \<Longrightarrow> cache_inv (drop_entry k s)"
  unfolding drop_entry_def by (rule cache_inv_save) (simp_all add: cache_inv_ok)

lemma cache_inv_touch [inv_intros]: "cache_inv s \<Longrightarrow> cache_inv (touch_entry t k e s)"
  unfolding touch_entry_def by (rule cache_inv_save) (simp_all add: cache_inv_ok)

lemma cache_inv_put [inv_intros]: "cache_inv s \<Longrightarrow> cache_inv (put_entry k e s)"
  unfolding put_entry_def by (rule cache_inv_save) (simp_all add: cache_inv_ok)

lemma cache_inv_evict [inv_intros]: "cache_inv s \<Longrightarrow> cache_inv (maybe_evict s)"
  using evict_loop_ok [OF cache_inv_ok(1), of s "evict_limit s" "ca_fs s"]
  by (auto simp: maybe_evict_def evicted_ok_def split: prod.splits intro!: cache_inv_save dest: cache_inv_ok)

lemma verify_loop_ok:
  "dict_ok idx \<Longrightarrow> verify_loop env es (iss, fs, idx) = (iss', fs', idx') \<Longrightarrow>
   dict_ok idx' \<and> (iss' = [] \<longrightarrow> idx' = idx)"
proof (induction es arbitrary: iss fs idx)
  case Nil
  then show ?case by simp
next
  case (Cons p es)
  obtain k e where p: "p = (k, e)" by (cases p)
  have drop: "dict_ok idx'" and ne: "iss' \<noteq> []"
    if "verify_loop env es (iss @ [i], fs1, ddel k idx) = (iss', fs', idx')" for i fs1
    using Cons.IH [OF dict_ok_ddel [OF Cons.prems(1)] that] verify_loop_issues [of "iss @ [i]" env es] that
    by (auto dest: arg_cong [of _ _ fst])
  from Cons.prems(2) p show ?case
    using Cons.IH [OF Cons.prems(1)] drop ne
    by (auto split: option.splits node.splits if_splits)
qed

lemma cache_inv_verify [inv_intros]: "cache_inv s \<Longrightarrow> cache_inv (snd (verify_integrity env s))"
proof -
  assume inv: "cache_inv s"
  obtain iss fs' idx' where run: "verify_loop env (ca_index s) ([], ca_fs s, ca_index s) = (iss, fs', idx')"
    by (metis prod_cases3)
  from verify_loop_ok [OF cache_inv_ok(1) [OF inv] run]
  have "dict_ok idx'" "iss = [] \<longrightarrow> idx' = ca_index s" by auto
  with inv show ?thesis
    by (auto simp: verify_integrity_def run Let_def cache_inv_def save_index_def load_index_def)
qed

lemma cache_inv_get_wheel [inv_intros]: "cache_inv s \<Longrightarrow> cache_inv (snd (get_wheel env t p v s))"
  unfolding get_wheel_def Let_def by (auto intro: inv_intros split: option.split sum.split)

lemma cache_inv_store_wheel [inv_intros]:
  "cache_inv s \<Longrightarrow> cache_inv (snd (store_wheel env t u p v src sha s))"
  unfolding store_wheel_def Let_def by (auto intro: inv_intros split: option.split sum.split)

lemma cache_inv_get_layer [inv_intros]: "cache_inv s \<Longrightarrow> cache_inv (snd (get_layer t l s))"
  unfolding get_layer_def by (auto intro: inv_intros split: option.split)

lemma cache_inv_store_layer [inv_intros]:
  "cache_inv s \<Longrightarrow> cache_inv (snd (store_layer env t u l src sha s))"
  unfolding store_layer_def Let_def by (auto intro: inv_intros split: option.split prod.split)

lemma cache_inv_get_metadata [inv_intros]: "cache_inv s \<Longrightarrow> cache_inv (snd (get_metadata t p s))"
  unfolding get_metadata_def Let_def by (auto intro: inv_intros split: option.split sum.split)

lemma cache_inv_store_metadata [inv_intros]:
  "cache_inv s \<Longrightarrow> cache_inv (snd (store_metadata str t p md s))"
  unfolding store_metadata_def by (auto intro: inv_intros split: sum.split)

lemma cache_inv_clear [inv_intros]: "cache_inv s \<Longrightarrow> cache_inv (snd (clear_cache s))"
  unfolding clear_cache_def
  by (auto simp del: reset_dirs.simps simp: cache_inv_ok intro!: inv_intros split: option.split prod.split)

interpretation caches: step_system "cache_step env str" cache_inv
proof unfold_locales
  fix s e
  assume "cache_inv s"
  then show "cache_inv (cache_step env str e s)" by (cases e) (auto intro: inv_intros)
qed

text \<open>Restarting loses nothing: after any sequence of operations on a cache whose index file
  can be written, a manager started on that directory loads the same index.\<close>

theorem cache_index_survives_restart:
  assumes "new_cache max_mb home fs disk True = Inr s0" and "dict_ok (load_index disk)"
    and "s = fold (cache_step env str) events s0"
    and "new_cache max_mb' home (ca_fs s) (ca_disk s) True = Inr s'"
  shows "ca_index s' = ca_index s"
proof -
  have "cache_inv s0" using assms(1,2)
    by (auto simp: new_cache_def cache_inv_def map_result_def split: sum.splits)
  then have "cache_inv s" unfolding assms(3) by (rule caches.inv_run)
  with assms(4) show ?thesis
    by (auto simp: new_cache_def cache_inv_def map_result_def split: sum.splits)
qed

theorem cache_index_survives_restart_witness:
  "\<exists>s0 s s'. new_cache 1 [] [] None True = Inr s0 \<and>
     s = fold (cache_step text_env (\<lambda>v. [])) [Verify, Clear] s0 \<and>
     new_cache 1 [] (ca_fs s) (ca_disk s) True = Inr s' \<and> ca_index s' = ca_index s"
proof -
  obtain s0 where s0: "new_cache 1 [] [] None True = Inr s0"
    by (simp add: new_cache_def make_dirs_def wheels_dir_def layers_dir_def metadata_dir_def
        fs_mkdirs_def fs_node_def)
  define s where "s = fold (cache_step text_env (\<lambda>v. [])) [Verify, Clear] s0"
  have "\<exists>s'. new_cache 1 [] (ca_fs s) (ca_disk s) True = Inr s'"
    using s0 by (auto simp: s_def new_cache_def make_dirs_def wheels_dir_def layers_dir_def metadata_dir_def
        fs_mkdirs_def fs_node_def load_index_def verify_integrity_def clear_cache_def Let_def
        fs_is_dir_def fs_rmtree_def under_def save_index_def)
  then obtain s' where s': "new_cache 1 [] (ca_fs s) (ca_disk s) True = Inr s'" ..
  have "dict_ok (load_index None)" by (simp add: load_index_def)
  from cache_index_survives_restart [OF s0 this s_def s'] s0 s' s_def show ?thesis by blast
qed

end
