(* ===== verification/Models.thy ===== *)
theory Models
  imports PyVal Interfaces
begin

text \<open>
  \<open>shared/models.py\<close> and the limits of \<open>shared/constants.py\<close>: the enumerations with their wire
  values, and the records that travel between client and server. Default factories (fresh
  uuids, the clock) are arguments of the functions that build a record.
\<close>

section \<open>Enumerations\<close>

datatype package_strategy = LOCAL_INSTALL | TERMUX_PKG | CLOUD_WHEEL | CLOUD_BUILD | CLOUD_EXEC | HYBRID

fun strategy_value :: "package_strategy \<Rightarrow> string" where
  "strategy_value LOCAL_INSTALL = ''local_install''"
| "strategy_value TERMUX_PKG = ''termux_pkg''"
| "strategy_value CLOUD_WHEEL = ''cloud_wheel''"
| "strategy_value CLOUD_BUILD = ''cloud_build''"
| "strategy_value CLOUD_EXEC = ''cloud_exec''"
| "strategy_value HYBRID = ''hybrid''"

datatype build_status = B_QUEUED | B_BUILDING | B_SUCCEEDED | B_FAILED | B_CANCELLED

fun build_status_value :: "build_status \<Rightarrow> string" where
  "build_status_value B_QUEUED = ''queued''"
| "build_status_value B_BUILDING = ''building''"
| "build_status_value B_SUCCEEDED = ''succeeded''"
| "build_status_value B_FAILED = ''failed''"
| "build_status_value B_CANCELLED = ''cancelled''"

datatype execution_status = E_PENDING | E_RUNNING | E_COMPLETED | E_FAILED | E_TIMEOUT | E_CANCELLED

fun execution_status_value :: "execution_status \<Rightarrow> string" where
  "execution_status_value E_PENDING = ''pending''"
| "execution_status_value E_RUNNING = ''running''"
| "execution_status_value E_COMPLETED = ''completed''"
| "execution_status_value E_FAILED = ''failed''"
| "execution_status_value E_TIMEOUT = ''timeout''"
| "execution_status_value E_CANCELLED = ''cancelled''"

datatype execution_mode = M_LOCAL | M_CLOUD | M_HYBRID | M_GPU | M_BROWSER

fun execution_mode_value :: "execution_mode \<Rightarrow> string" where
  "execution_mode_value M_LOCAL = ''local''"
| "execution_mode_value M_CLOUD = ''cloud''"
| "execution_mode_value M_HYBRID = ''hybrid''"
| "execution_mode_value M_GPU = ''gpu''"
| "execution_mode_value M_BROWSER = ''browser''"

text \<open>\<open>PackageStrategy(x)\<close>, \<open>ExecutionMode(x)\<close>: lookup by value.\<close>

definition parse_strategy :: "string \<Rightarrow> package_strategy option" where
  "parse_strategy v = find (\<lambda>s. strategy_value s = v)
     [LOCAL_INSTALL, TERMUX_PKG, CLOUD_WHEEL, CLOUD_BUILD, CLOUD_EXEC, HYBRID]"

definition parse_mode :: "string \<Rightarrow> execution_mode option" where
  "parse_mode v = find (\<lambda>m. execution_mode_value m = v) [M_LOCAL, M_CLOUD, M_HYBRID, M_GPU, M_BROWSER]"

interpretation strategy: codec strategy_value parse_strategy "\<lambda>_. True"
proof unfold_locales
  show "parse_strategy (strategy_value s) = Some s" for s
    by (cases s) (simp_all add: parse_strategy_def)
qed

interpretation exec_mode: codec execution_mode_value parse_mode "\<lambda>_. True"
proof unfold_locales
  show "parse_mode (execution_mode_value m) = Some m" for m
    by (cases m) (simp_all add: parse_mode_def)
qed

section \<open>Records\<close>

record device_info =
  di_device_id :: string
  di_architecture :: string
  di_platform_tag :: string
  di_python_version :: string
  di_cpu_count :: int
  di_total_memory_mb :: int
  di_available_disk_mb :: int
  di_is_termux :: bool
  di_is_android :: bool
  di_has_gpu :: bool
  di_cpip_version :: string

record layer_info =
  li_layer_id :: string
  li_url :: string
  li_sha256 :: string
  li_size :: int
  li_content_type :: string
  li_compressed :: bool

record package_info =
  pi_name :: string
  pi_version :: string
  pi_description :: string
  pi_strategy :: package_strategy
  pi_wheel_url :: "string option"
  pi_wheel_hash :: "string option"
  pi_wheel_size :: int
  pi_layers :: "layer_info list"
  pi_dependencies :: "string list"
  pi_supported_architectures :: "string list"
  pi_requires_gpu :: bool
  pi_cloud_only :: bool
  pi_metadata :: "(string, pyval) dict"

record package_resolution =
  pr_package :: string
  pr_version :: string
  pr_strategy :: package_strategy
  pr_info :: "package_info option"
  pr_fallback_strategies :: "package_strategy list"
  pr_reason :: string

record build_request =
  br_request_id :: string
  br_package_name :: string
  br_package_version :: string
  br_target_architecture :: string
  br_python_version :: string
  br_build_options :: "(string, pyval) dict"
  br_priority :: int
  br_created_at :: real

record build_result =
  bres_request_id :: string
  bres_status :: build_status
  bres_package_name :: string
  bres_package_version :: string
  bres_wheel_url :: "string option"
  bres_wheel_hash :: "string option"
  bres_wheel_size :: int
  bres_build_log :: string
  bres_duration_seconds :: real
  bres_error :: "string option"

record execution_request =
  er_request_id :: string
  er_method :: string
  er_args :: "pyval list"
  er_kwargs :: "(string, pyval) dict"
  er_mode :: execution_mode
  er_timeout :: int
  er_session_id :: "string option"
  er_requires_gpu :: bool

record execution_result =
  eres_request_id :: string
  eres_status :: execution_status
  eres_result :: pyval
  eres_result_type :: string
  eres_result_metadata :: "(string, pyval) dict"
  eres_duration_ms :: real
  eres_error :: "string option"
  eres_traceback :: "string option"

record session_info =
  si_session_id :: string
  si_device_id :: string
  si_created_at :: real
  si_last_active :: real
  si_execution_mode :: execution_mode
  si_active_packages :: "string list"
  si_cloud_modules :: "string list"

record auth_token =
  at_access_token :: string
  at_refresh_token :: string
  at_token_type :: string
  at_expires_in :: int

record user_info =
  ui_user_id :: string
  ui_email :: "string option"
  ui_api_key :: "string option"
  ui_devices :: "string list"
  ui_tier :: string

definition new_user_info :: "string \<Rightarrow> user_info" where
  "new_user_info user_id = \<lparr>ui_user_id = user_id, ui_email = None, ui_api_key = None, ui_devices = [], ui_tier = ''free''\<rparr>"

record health_status =
  hs_status :: string
  hs_version :: string
  hs_uptime_seconds :: real
  hs_services :: "(string, string) dict"
  hs_build_queue_size :: nat
  hs_active_executions :: nat
  hs_connected_devices :: nat

text \<open>Records with the defaults of the models, for the fields a caller leaves out.\<close>

definition new_build_request :: "string \<Rightarrow> real \<Rightarrow> string \<Rightarrow> build_request" where
  "new_build_request uuid now name = \<lparr>br_request_id = uuid, br_package_name = name,
     br_package_version = ''latest'', br_target_architecture = ''aarch64'',
     br_python_version = ''3.11'', br_build_options = [], br_priority = 5, br_created_at = now\<rparr>"

definition new_build_result :: "string \<Rightarrow> build_status \<Rightarrow> string \<Rightarrow> string \<Rightarrow> build_result" where
  "new_build_result request_id status name version = \<lparr>bres_request_id = request_id,
     bres_status = status, bres_package_name = name, bres_package_version = version,
     bres_wheel_url = None, bres_wheel_hash = None, bres_wheel_size = 0, bres_build_log = [],
     bres_duration_seconds = 0, bres_error = None\<rparr>"

definition new_package_info :: "string \<Rightarrow> string \<Rightarrow> package_info" where
  "new_package_info name version = \<lparr>pi_name = name, pi_version = version, pi_description = [],
     pi_strategy = LOCAL_INSTALL, pi_wheel_url = None, pi_wheel_hash = None, pi_wheel_size = 0,
     pi_layers = [], pi_dependencies = [], pi_supported_architectures = [],
     pi_requires_gpu = False, pi_cloud_only = False, pi_metadata = []\<rparr>"

definition new_execution_result :: "string \<Rightarrow> execution_status \<Rightarrow> execution_result" where
  "new_execution_result request_id status = \<lparr>eres_request_id = request_id, eres_status = status,
     eres_result = VNone, eres_result_type = ''python'', eres_result_metadata = [],
     eres_duration_ms = 0, eres_error = None, eres_traceback = None\<rparr>"

definition new_session_info :: "string \<Rightarrow> real \<Rightarrow> real \<Rightarrow> string \<Rightarrow> session_info" where
  "new_session_info uuid t1 t2 device_id = \<lparr>si_session_id = uuid, si_device_id = device_id,
     si_created_at = t1, si_last_active = t2, si_execution_mode = M_LOCAL,
     si_active_packages = [], si_cloud_modules = []\<rparr>"

section \<open>Constants\<close>

definition VERSION :: string where "VERSION = ''0.1.0''"
definition CODENAME :: string where "CODENAME = ''nebula''"
definition API_V1_PREFIX :: string where "API_V1_PREFIX = ''/api/v1''"
definition WS_ENDPOINT :: string where "WS_ENDPOINT = ''/ws''"
definition HEALTH_ENDPOINT :: string where "HEALTH_ENDPOINT = ''/health''"
definition TERMUX_PREFIX :: string where "TERMUX_PREFIX = ''/data/data/com.termux/files/usr''"
definition STRATEGY_CONSTANTS :: "string list" where
  "STRATEGY_CONSTANTS = [''local_install'', ''termux_pkg'', ''cloud_wheel'', ''cloud_build'', ''cloud_exec'', ''hybrid'']"
definition WS_HEARTBEAT_INTERVAL :: int where "WS_HEARTBEAT_INTERVAL = 30"
definition WS_MAX_MESSAGE_SIZE :: int where "WS_MAX_MESSAGE_SIZE = 64 * 1024 * 1024"
definition DEFAULT_CACHE_MAX_MB :: int where "DEFAULT_CACHE_MAX_MB = 2048"
definition DEFAULT_WHEEL_TTL_DAYS :: int where "DEFAULT_WHEEL_TTL_DAYS = 30"
definition DEFAULT_METADATA_TTL_HOURS :: int where "DEFAULT_METADATA_TTL_HOURS = 24"
definition BUILD_TIMEOUT :: int where "BUILD_TIMEOUT = 3600"
definition BUILDER_IMAGES :: "string list" where
  "BUILDER_IMAGES = [''cpip/builder:latest'', ''cpip/builder-arm64:latest'']"
definition RUNTIME_IMAGES :: "string list" where
  "RUNTIME_IMAGES = [''cpip/gpu-runtime:latest'', ''cpip/browser-runtime:latest'']"
definition JWT_ALGORITHM :: string where "JWT_ALGORITHM = ''HS256''"
definition JWT_ACCESS_TOKEN_EXPIRE_MINUTES :: int where "JWT_ACCESS_TOKEN_EXPIRE_MINUTES = 60"
definition JWT_REFRESH_TOKEN_EXPIRE_DAYS :: int where "JWT_REFRESH_TOKEN_EXPIRE_DAYS = 30"
definition RATE_LIMIT_DEFAULT :: string where "RATE_LIMIT_DEFAULT = ''100/minute''"
definition PACKAGE_SIGN_ALGORITHM :: string where "PACKAGE_SIGN_ALGORITHM = ''ed25519''"

text \<open>The constants that definitions of the components use unfold by themselves.\<close>

declare VERSION_def [simp] CODENAME_def [simp] API_V1_PREFIX_def [simp] DEFAULT_CACHE_MAX_MB_def [simp]
  DEFAULT_WHEEL_TTL_DAYS_def [simp] DEFAULT_METADATA_TTL_HOURS_def [simp]
  JWT_ACCESS_TOKEN_EXPIRE_MINUTES_def [simp] JWT_REFRESH_TOKEN_EXPIRE_DAYS_def [simp]

text \<open>The strategies are written a second time as constants, which nothing reads; they agree.\<close>

lemma strategy_constants_agree:
  "STRATEGY_CONSTANTS = map strategy_value [LOCAL_INSTALL, TERMUX_PKG, CLOUD_WHEEL, CLOUD_BUILD, CLOUD_EXEC, HYBRID]"
  by (simp add: STRATEGY_CONSTANTS_def)

definition BUILD_MAX_RETRIES :: nat where "BUILD_MAX_RETRIES = 3"
definition RPC_TIMEOUT :: int where "RPC_TIMEOUT = 300"
definition WS_RECONNECT_BASE_DELAY :: int where "WS_RECONNECT_BASE_DELAY = 1"
definition WS_RECONNECT_MAX_DELAY :: int where "WS_RECONNECT_MAX_DELAY = 60"
definition EXEC_TIMEOUT :: int where "EXEC_TIMEOUT = 600"
definition EXEC_MAX_MEMORY_MB :: int where "EXEC_MAX_MEMORY_MB = 4096"
definition EXEC_MAX_CPU_CORES :: int where "EXEC_MAX_CPU_CORES = 4"
definition SUPPORTED_ARCHITECTURES :: "string list" where
  "SUPPORTED_ARCHITECTURES = [''aarch64'', ''armv7l'', ''x86_64'', ''arm64'']"

definition CLOUD_PREFERRED_PACKAGES :: "string list" where
  "CLOUD_PREFERRED_PACKAGES =
     [''torch'', ''torchvision'', ''torchaudio'', ''tensorflow'', ''tensorflow-gpu'', ''jax'', ''jaxlib'',
      ''opencv-python'', ''opencv-contrib-python'', ''scipy'', ''playwright'', ''chromium'',
      ''llama-cpp-python'', ''transformers'', ''diffusers'', ''triton'', ''cupy'', ''dlib'', ''mediapipe'',
      ''onnxruntime'', ''paddlepaddle'']"

end
