(* ===== verification/BuildFarm.thy ===== *)
theory BuildFarm
  imports Models FileSystem
begin

text \<open>
  The build farm: \<open>builder/queue.py\<close> (priority queue with a table of the jobs in work),
  \<open>builder/scanner.py\<close>, \<open>builder/compiler.py\<close> and \<open>builder/worker.py\<close>, which ties them together.
  What the compiler process, the zip reader and the signer did are arguments.
\<close>

section \<open>Queue\<close>

text \<open>\<open>sort(key=lambda x: (x[0], x[1]))\<close>: priority first, then time of arrival.\<close>

datatype qkey = QKey (qk_priority: int) (qk_time: real)

instantiation qkey :: linorder
begin

definition less_eq_qkey :: "qkey \<Rightarrow> qkey \<Rightarrow> bool" where
  "less_eq_qkey a b = (qk_priority a < qk_priority b \<or>
     qk_priority a = qk_priority b \<and> qk_time a \<le> qk_time b)"

definition less_qkey :: "qkey \<Rightarrow> qkey \<Rightarrow> bool" where
  "less_qkey a b = (qk_priority a < qk_priority b \<or>
     qk_priority a = qk_priority b \<and> qk_time a < qk_time b)"

instance
proof
  fix x y z :: qkey
  show "(x < y) = (x \<le> y \<and> \<not> y \<le> x)" by (auto simp: less_eq_qkey_def less_qkey_def)
  show "x \<le> x" by (simp add: less_eq_qkey_def)
  show "x \<le> y \<Longrightarrow> y \<le> z \<Longrightarrow> x \<le> z" by (auto simp: less_eq_qkey_def)
  show "x \<le> y \<Longrightarrow> y \<le> x \<Longrightarrow> x = y" by (auto simp: less_eq_qkey_def intro: qkey.expand)
  show "x \<le> y \<or> y \<le> x" by (auto simp: less_eq_qkey_def)
qed

end

type_synonym queue_item = "int \<times> real \<times> build_request"

fun item_key :: "queue_item \<Rightarrow> qkey" where
  "item_key (p, t, r) = QKey p t"

fun item_request :: "queue_item \<Rightarrow> build_request" where
  "item_request (p, t, r) = r"

record build_queue =
  bq_queue :: "queue_item list"
  bq_processing :: "(string, build_request) dict"

definition new_queue :: build_queue where
  "new_queue = \<lparr>bq_queue = [], bq_processing = []\<rparr>"

definition bq_insert :: "queue_item \<Rightarrow> build_queue \<Rightarrow> build_queue" where
  "bq_insert x q = q\<lparr>bq_queue := sort_key item_key (bq_queue q @ [x])\<rparr>"

definition bq_push :: "real \<Rightarrow> build_request \<Rightarrow> build_queue \<Rightarrow> build_queue" where
  "bq_push now req q = bq_insert (br_priority req, now, req) q"

definition bq_take :: "build_queue \<Rightarrow> (queue_item \<times> build_queue) option" where
  "bq_take q = (case bq_queue q of [] \<Rightarrow> None
     | x # xs \<Rightarrow> Some (x, q\<lparr>bq_queue := xs,
         bq_processing := dset (br_request_id (item_request x)) (item_request x) (bq_processing q)\<rparr>))"

definition bq_pop :: "build_queue \<Rightarrow> build_request option \<times> build_queue" where
  "bq_pop q = (case bq_take q of None \<Rightarrow> (None, q) | Some (x, q') \<Rightarrow> (Some (item_request x), q'))"

definition bq_complete :: "string \<Rightarrow> build_queue \<Rightarrow> build_queue" where
  "bq_complete request_id q = q\<lparr>bq_processing := ddel request_id (bq_processing q)\<rparr>"

definition bq_fail :: "real \<Rightarrow> string \<Rightarrow> build_queue \<Rightarrow> build_queue" where
  "bq_fail now request_id q = (case dget (bq_processing q) request_id of
       None \<Rightarrow> q
     | Some req \<Rightarrow> bq_push now (req\<lparr>br_priority := min (br_priority req + 1) 10\<rparr>)
         (q\<lparr>bq_processing := ddel request_id (bq_processing q)\<rparr>))"

definition bq_size :: "build_queue \<Rightarrow> nat" where
  "bq_size q = length (bq_queue q)"

definition bq_processing_count :: "build_queue \<Rightarrow> nat" where
  "bq_processing_count q = length (bq_processing q)"

definition bq_ok :: "build_queue \<Rightarrow> bool" where
  "bq_ok q \<longleftrightarrow> sorted (map item_key (bq_queue q)) \<and> dict_ok (bq_processing q)"

lemma bq_ok_new [inv_intros]: "bq_ok new_queue"
  by (simp add: bq_ok_def new_queue_def)

lemma bq_ok_insert [inv_intros]: "bq_ok q \<Longrightarrow> bq_ok (bq_insert x q)"
  by (simp add: bq_ok_def bq_insert_def)

lemma bq_ok_complete [inv_intros]: "bq_ok q \<Longrightarrow> bq_ok (bq_complete i q)"
  by (simp add: bq_ok_def bq_complete_def)

lemma bq_ok_push [inv_intros]: "bq_ok q \<Longrightarrow> bq_ok (bq_push now r q)"
  by (simp add: bq_push_def bq_ok_insert)

lemma bq_ok_fail [inv_intros]: "bq_ok q \<Longrightarrow> bq_ok (bq_fail now i q)"
  by (auto simp: bq_fail_def intro!: bq_ok_push split: option.split) (simp add: bq_ok_def)

lemma bq_ok_take: "bq_ok q \<Longrightarrow> bq_take q = Some (x, q') \<Longrightarrow> bq_ok q'"
  by (auto simp: bq_ok_def bq_take_def split: list.splits)

interpretation bq: priority_queue bq_insert bq_take "\<lambda>q. mset (bq_queue q)" item_key bq_ok
proof unfold_locales
  fix q x q' and y :: queue_item
  assume ok: "bq_ok q"
  show "mset (bq_queue (bq_insert x q)) = add_mset x (mset (bq_queue q))"
    by (simp add: bq_insert_def)
  show "bq_ok (bq_insert x q)" using ok by (rule bq_ok_insert)
  show "(bq_take q = None) = (mset (bq_queue q) = {#})"
    by (auto simp: bq_take_def split: list.splits)
  assume take: "bq_take q = Some (x, q')"
  show "mset (bq_queue q) = add_mset x (mset (bq_queue q'))"
    using take by (auto simp: bq_take_def split: list.splits)
  show "bq_ok q'" using ok take by (rule bq_ok_take)
  assume "y \<in># mset (bq_queue q)"
  then show "item_key x \<le> item_key y"
    using ok take by (auto simp: bq_take_def bq_ok_def split: list.splits)
qed

text \<open>The requests a client that only pops receives, at most \<open>n\<close> of them.\<close>

fun serve :: "nat \<Rightarrow> build_queue \<Rightarrow> build_request list" where
  "serve 0 q = []"
| "serve (Suc n) q = (case bq_pop q of (None, q') \<Rightarrow> [] | (Some r, q') \<Rightarrow> r # serve n q')"

lemma serve_queue: "serve n q = map item_request (take n (bq_queue q))"
proof (induction n arbitrary: q)
  case 0
  then show ?case by simp
next
  case (Suc n)
  then show ?case by (cases "bq_queue q") (auto simp: bq_pop_def bq_take_def)
qed

lemma serve_drain: "serve n q = map item_request (bq.drain n q)"
  by (induction n arbitrary: q) (auto simp: bq_pop_def split: option.splits)

text \<open>Pushing one at a time sorts stably.\<close>

definition push_all :: "(real \<times> build_request) list \<Rightarrow> build_queue \<Rightarrow> build_queue" where
  "push_all rs q = fold (\<lambda>(t, r). bq_push t r) rs q"

definition arrival :: "real \<times> build_request \<Rightarrow> queue_item" where
  "arrival p = (br_priority (snd p), fst p, snd p)"

lemma sort_stable: "filter (\<lambda>y. k = f y) (sort_key f xs) = filter (\<lambda>y. k = f y) xs"
  using sort_key_stable [of f k xs] by (simp only: eq_commute)

lemma item_request_arrival [simp]: "item_request (arrival p) = snd p"
  by (cases p) (simp add: arrival_def)

lemma sort_key_snoc: "sort_key f (sort_key f xs @ [x]) = sort_key f (xs @ [x])"
  by (rule properties_for_sort_key [symmetric])
    (auto simp: sort_stable)

lemma push_all_queue:
  "bq_queue (push_all rs q) = (if rs = [] then bq_queue q
     else sort_key item_key (bq_queue q @ map arrival rs))"
proof (induction rs rule: rev_induct)
  case Nil
  then show ?case by (simp add: push_all_def)
next
  case (snoc p rs)
  have "bq_queue (push_all (rs @ [p]) q) = sort_key item_key (bq_queue (push_all rs q) @ [arrival p])"
    by (cases p) (simp add: push_all_def bq_push_def bq_insert_def arrival_def)
  with snoc show ?case by (auto simp: sort_key_snoc simp flip: append_assoc)
qed

lemma sorted_within:
  assumes "\<forall>k. sorted_wrt Q (filter (\<lambda>x. f x = k) ys)" and "sorted (map f ys)"
  shows "sorted_wrt (\<lambda>a b. f a < f b \<or> f a = f b \<and> Q a b) ys"
  using assms
proof (induction ys)
  case Nil
  then show ?case by simp
next
  case (Cons a ys)
  have "sorted_wrt Q (filter (\<lambda>x. f x = k) ys)" for k
    using spec [OF Cons.prems(1), of k] by (auto split: if_splits)
  moreover have "f a < f b \<or> f a = f b \<and> Q a b" if "b \<in> set ys" for b
    using Cons.prems(2) spec [OF Cons.prems(1), of "f a"] that by force
  ultimately show ?case using Cons by auto
qed

lemma sort_by_arrival:
  assumes "sorted (map (\<lambda>(p, t, r). t) xs)"
  shows "sort_key item_key xs = sort_key (\<lambda>(p, t, r). p) xs"
proof (rule properties_for_sort_key)
  let ?p = "\<lambda>(p, t, r). p" and ?t = "\<lambda>(p, t, r). t"
  let ?ys = "sort_key ?p xs"
  show "mset ?ys = mset xs" by simp
  have split: "filter (\<lambda>x. item_key k = item_key x) zs
      = filter (\<lambda>x. item_key k = item_key x) (filter (\<lambda>x. ?p x = ?p k) zs)" for k and zs :: "queue_item list"
    by (rule filter_cong [OF refl, THEN trans, OF _ filter_filter [symmetric]])
      (auto split: prod.splits)
  show "filter (\<lambda>x. item_key k = item_key x) ?ys = filter (\<lambda>x. item_key k = item_key x) xs" for k
    by (subst (1 2) split) (simp only: sort_key_stable)
  have "sorted_wrt (\<lambda>a b. ?t a \<le> ?t b) (filter (\<lambda>x. ?p x = k) ?ys)" for k
    using assms by (simp only: sort_key_stable) (simp add: sorted_wrt_filter sorted_map)
  then have "sorted_wrt (\<lambda>a b. ?p a < ?p b \<or> ?p a = ?p b \<and> ?t a \<le> ?t b) ?ys"
    by (intro sorted_within) auto
  then show "sorted (map item_key ?ys)"
    unfolding sorted_map by (rule sorted_wrt_mono_rel [rotated]) (auto simp: less_eq_qkey_def)
qed

lemma insort_key_map: "insort_key f (g x) (map g ys) = map g (insort_key (\<lambda>x. f (g x)) x ys)"
  by (induction ys) auto

lemma sort_key_map: "sort_key f (map g xs) = map g (sort_key (\<lambda>x. f (g x)) xs)"
  by (induction xs) (auto simp: insort_key_map)

text \<open>C28: Builds are served by priority, and first come first served within a priority: whatever is
  pushed on an empty queue while the clock does not go back, popping yields the requests in
  the stable order of their priorities, all of them.\<close>

theorem builds_served_by_priority_then_arrival:
  assumes "sorted (map fst rs)"
  shows "serve n (push_all rs new_queue) = take n (sort_key br_priority (map snd rs))"
proof -
  have "sorted (map (\<lambda>(p, t, r). t) (map arrival rs))"
    using assms by (simp add: arrival_def comp_def case_prod_beta')
  then have "sort_key item_key (map arrival rs) = sort_key (\<lambda>(p, t, r). p) (map arrival rs)"
    by (rule sort_by_arrival)
  also have "\<dots> = map arrival (sort_key (\<lambda>p. br_priority (snd p)) rs)"
    by (simp add: sort_key_map arrival_def)
  finally have "map item_request (sort_key item_key (map arrival rs))
      = map snd (sort_key (\<lambda>p. br_priority (snd p)) rs)"
    by (simp add: comp_def)
  then show ?thesis
    by (simp add: serve_queue push_all_queue new_queue_def sort_key_map flip: take_map)
qed

definition demo_request :: "string \<Rightarrow> int \<Rightarrow> build_request" where
  "demo_request name p = (new_build_request name 0 name)\<lparr>br_priority := p\<rparr>"

theorem builds_served_by_priority_then_arrival_witness:
  "serve 3 (push_all [(1, demo_request ''a'' 5), (2, demo_request ''b'' 1), (3, demo_request ''c'' 5)] new_queue)
   = [demo_request ''b'' 1, demo_request ''a'' 5, demo_request ''c'' 5]"
  by (subst builds_served_by_priority_then_arrival)
    (simp_all add: demo_request_def new_build_request_def)

section \<open>Scanner\<close>

record wheel_file =
  wf_sha256 :: string
  wf_is_zip :: bool
  wf_entries :: "(string \<times> nat) list"

record scan_result =
  sc_package :: string
  sc_clean :: bool
  sc_issues :: "string list"
  sc_sha256 :: string
  sc_file_count :: nat
  sc_total_size :: nat

definition traversal :: "string \<Rightarrow> bool" where
  "traversal name = (py_startswith name ''/'' \<or> py_contains name ''..'')"

definition is_script :: "string \<Rightarrow> bool" where
  "is_script name = (\<exists>x\<in>set [''.sh'', ''.bat'', ''.cmd'', ''.ps1'']. py_endswith name x)"

text \<open>\<open>zf.getinfo(name)\<close> is the last entry of that name.\<close>

definition entry_size :: "(string \<times> nat) list \<Rightarrow> string \<Rightarrow> nat" where
  "entry_size es name = the (map_of (rev es) name)"

definition name_issues :: "(string \<times> nat) list \<Rightarrow> string \<Rightarrow> string list" where
  "name_issues es name =
     (if traversal name then [''Path traversal: '' @ name] else []) @
     (if is_script name then [''Script file: '' @ name] else []) @
     (if 500 * 1024 * 1024 < entry_size es name
      then [''Oversized file: '' @ name @ '' ('' @ nat_str (entry_size es name) @ '' bytes)''] else [])"

definition scan_wheel :: "string \<Rightarrow> exn + wheel_file \<Rightarrow> exn + scan_result" where
  "scan_wheel wheel_path file = map_result (\<lambda>w.
     let r = \<lparr>sc_package = path_name (path_parts wheel_path), sc_clean = True, sc_issues = [],
              sc_sha256 = wf_sha256 w, sc_file_count = 0, sc_total_size = 0\<rparr>;
         es = wf_entries w in
     if \<not> wf_is_zip w then r\<lparr>sc_clean := False, sc_issues := [''Not a valid zip/wheel file'']\<rparr>
     else r\<lparr>sc_file_count := length es, sc_total_size := sum_list (map snd es),
            sc_clean := \<not> (\<exists>n\<in>set (map fst es). traversal n),
            sc_issues := concat (map (name_issues es) (map fst es))\<rparr>) file"

lemma py_split_contains: "w \<in> set (py_split c s) \<Longrightarrow> \<exists>a b. s = a @ w @ b"
proof (induction s arbitrary: w)
  case Nil
  then show ?case by simp
next
  case (Cons x s)
  obtain v vs where vs: "py_split c s = v # vs" by (metis list.exhaust py_split_nonempty)
  have v: "\<exists>b. s = v @ b"
    using hd_py_split [of c s] vs takeWhile_dropWhile_id [of "\<lambda>x. x \<noteq> c" s] by (metis list.sel(1))
  show ?case
  proof (cases "w \<in> set (py_split c s)")
    case True
    with Cons.IH obtain a b where "s = a @ w @ b" by blast
    then have "x # s = (x # a) @ w @ b" by simp
    then show ?thesis by blast
  next
    case False
    then have "w = [] \<or> w = x # v" using Cons.prems vs by (auto split: if_splits)
    moreover have "\<exists>a b. x # s = a @ [] @ b" by auto
    moreover have "\<exists>a b. x # s = a @ (x # v) @ b" using v by (metis append_Cons append_Nil)
    ultimately show ?thesis by blast
  qed
qed

text \<open>A scan comes out clean exactly for a zip file in which no name starts with a slash or
  holds two dots in a row; then extracting any of its names below a directory stays below it.
  Script files and oversized files are reported without making the scan unclean.\<close>

theorem clean_scan_means_contained:
  assumes "scan_wheel wheel_path (Inr w) = Inr r"
  shows "(sc_clean r \<longleftrightarrow> wf_is_zip w \<and> (\<forall>n\<in>set (map fst (wf_entries w)). \<not> traversal n)) \<and>
    (sc_clean r \<longrightarrow> (\<forall>n\<in>set (map fst (wf_entries w)).
       under dest (path_join dest n) \<and> ''..'' \<notin> set (drop (length dest) (path_join dest n)))) \<and>
    (sc_issues r = [] \<longleftrightarrow> sc_clean r \<and>
       (\<forall>n\<in>set (map fst (wf_entries w)). \<not> is_script n \<and> entry_size (wf_entries w) n \<le> 500 * 1024 * 1024))"
proof -
  define names where "names = map fst (wf_entries w)"
  from assms have r: "sc_clean r = (wf_is_zip w \<and> \<not> (\<exists>n\<in>set names. traversal n))"
    "sc_issues r = (if wf_is_zip w then concat (map (name_issues (wf_entries w)) names)
       else [''Not a valid zip/wheel file''])"
    by (auto simp only: scan_wheel_def Let_def map_result_simps sum.inject names_def
        scan_result.select_convs scan_result.update_convs simp_thms split: if_splits)
  then have clean: "sc_clean r \<longleftrightarrow> wf_is_zip w \<and> (\<forall>n\<in>set names. \<not> traversal n)" by blast
  have "''..'' \<notin> set (py_split CHR ''/'' n)" if "\<not> traversal n" for n
    using that py_split_contains [of "''..''" "CHR ''/''" n] unfolding traversal_def py_contains_iff by blast
  then have "\<not> traversal n \<longrightarrow> under dest (path_join dest n) \<and>
      ''..'' \<notin> set (drop (length dest) (path_join dest n))" for n
    by (auto simp: under_def path_join_def path_parts_def traversal_def)
  moreover have "name_issues es n = [] \<longleftrightarrow>
      \<not> traversal n \<and> \<not> is_script n \<and> entry_size es n \<le> 500 * 1024 * 1024" for es n
    by (simp add: name_issues_def)
  then have "sc_issues r = [] \<longleftrightarrow> wf_is_zip w \<and> (\<forall>n\<in>set names.
      \<not> traversal n \<and> \<not> is_script n \<and> entry_size (wf_entries w) n \<le> 500 * 1024 * 1024)"
    unfolding r(2) by auto
  ultimately show ?thesis unfolding clean names_def [symmetric] by blast
qed

theorem clean_scan_means_contained_witness:
  "\<exists>r. scan_wheel ''/tmp/p.whl'' (Inr \<lparr>wf_sha256 = [], wf_is_zip = True, wf_entries = [(''p/a.py'', 3)]\<rparr>) = Inr r \<and>
     sc_clean r \<and> under [''d''] (path_join [''d''] ''p/a.py'')"
proof -
  let ?w = "\<lparr>wf_sha256 = [], wf_is_zip = True, wf_entries = [(''p/a.py'', 3)]\<rparr>"
  obtain r where r: "scan_wheel ''/tmp/p.whl'' (Inr ?w) = Inr r" by (simp add: scan_wheel_def)
  have "\<not> traversal ''p/a.py''" by (simp add: traversal_def)
  with clean_scan_means_contained [OF r, of "[''d'']"] r show ?thesis by auto
qed

section \<open>Compiler\<close>

record compile_result =
  cr_success :: bool
  cr_wheel_path :: "string option"
  cr_log :: string
  cr_error :: string
  cr_duration :: real

datatype proc_outcome = Finished int string string | TimedOut | Crashed exn

definition use_docker :: "string option \<Rightarrow> bool" where
  "use_docker var = (py_lower (case var of None \<Rightarrow> ''true'' | Some v \<Rightarrow> v) = ''true'')"

definition version_spec :: "string \<Rightarrow> string" where
  "version_spec version = (if version \<noteq> ''latest'' then ''=='' @ version else [])"

definition compile_cmd :: "string \<Rightarrow> bool \<Rightarrow> string \<Rightarrow> string \<Rightarrow> string \<Rightarrow> string \<Rightarrow> string list" where
  "compile_cmd docker_image docker package version python_version target_arch =
     (if docker then
        [''docker'', ''run'', ''--rm'',
         ''-e'', ''PACKAGE='' @ package @ version_spec version,
         ''-e'', ''PYTHON_VERSION='' @ python_version,
         ''-e'', ''TARGET_ARCH='' @ target_arch,
         ''-v'', ''/tmp/cpip-builds:/output'',
         docker_image, ''build'']
      else [''pip'', ''wheel'', package @ version_spec version, ''--no-deps'', ''-w'', ''/tmp/cpip-builds''])"

text \<open>\<open>glob(package.replace('-', '_') + "*.whl")\<close> over the names in the output directory, in the
  order the directory lists them, for package names without wildcards.\<close>

definition matching_wheels :: "string \<Rightarrow> string list \<Rightarrow> string list" where
  "matching_wheels package names = filter (\<lambda>n.
     let p = py_replace1 CHR ''-'' CHR ''_'' package in
     py_startswith n p \<and> py_endswith (drop (length p) n) ''.whl'') names"

definition compile_package :: "real \<Rightarrow> real \<Rightarrow> string \<Rightarrow> string list \<Rightarrow> proc_outcome \<Rightarrow> compile_result" where
  "compile_package start end_time package names outcome = (case outcome of
       Finished code out err \<Rightarrow>
         (if code = 0 then
            \<lparr>cr_success = True,
             cr_wheel_path = (case matching_wheels package names of [] \<Rightarrow> None
               | w # ws \<Rightarrow> Some (''/tmp/cpip-builds/'' @ w)),
             cr_log = out, cr_error = [], cr_duration = end_time - start\<rparr>
          else \<lparr>cr_success = False, cr_wheel_path = None, cr_log = out, cr_error = err,
                cr_duration = end_time - start\<rparr>)
     | TimedOut \<Rightarrow> \<lparr>cr_success = False, cr_wheel_path = None, cr_log = [],
         cr_error = ''Build timed out (1hr limit)'', cr_duration = 3600\<rparr>
     | Crashed e \<Rightarrow> \<lparr>cr_success = False, cr_wheel_path = None, cr_log = [],
         cr_error = exn_message e, cr_duration = end_time - start\<rparr>)"

section \<open>Worker\<close>

text \<open>What happened to a job in one round: the compiler's result, the scan and the signature of a
  wheel; each may raise.\<close>

record build_run =
  run_compiled :: "exn + compile_result"
  run_scan :: "string \<Rightarrow> exn + scan_result"
  run_sign :: "string \<Rightarrow> exn + string"
  run_time :: real

definition process_build :: "build_run \<Rightarrow> build_request \<Rightarrow> build_queue \<Rightarrow> build_queue" where
  "process_build run req q =
     (let failed = bq_fail (run_time run) (br_request_id req) q in
      case run_compiled run of
        Inl e \<Rightarrow> failed
      | Inr result \<Rightarrow>
          (case (cr_success result, cr_wheel_path result) of
             (True, Some wheel) \<Rightarrow>
               (if wheel = [] then failed
                else case run_scan run wheel of
                    Inl e \<Rightarrow> failed
                  | Inr scan \<Rightarrow>
                      (if \<not> sc_clean scan then failed
                       else case run_sign run wheel of
                           Inl e \<Rightarrow> failed
                         | Inr signature \<Rightarrow> bq_complete (br_request_id req) q))
           | _ \<Rightarrow> failed))"

text \<open>One turn of the loop in \<open>start\<close>\<close>

definition worker_round :: "build_run \<Rightarrow> build_queue \<Rightarrow> build_queue" where
  "worker_round run q = (case bq_pop q of
       (None, q') \<Rightarrow> q'
     | (Some req, q') \<Rightarrow> process_build run req q')"

lemma bq_ok_pop [inv_intros]: "bq_ok q \<Longrightarrow> bq_ok (snd (bq_pop q))"
  by (auto simp: bq_pop_def intro: bq_ok_take split: option.split)

lemma bq_ok_process [inv_intros]: "bq_ok q \<Longrightarrow> bq_ok (process_build run req q)"
  unfolding process_build_def Let_def
  by (auto intro: inv_intros split: sum.split option.split bool.split)

lemma bq_ok_round [inv_intros]: "bq_ok q \<Longrightarrow> bq_ok (worker_round run q)"
  using bq_ok_pop [of q] by (auto simp: worker_round_def intro: bq_ok_process split: prod.split option.split)

interpretation worker: step_system worker_round bq_ok
  by unfold_locales (rule bq_ok_round)

definition published :: "build_run \<Rightarrow> bool" where
  "published run = (case run_compiled run of
       Inl e \<Rightarrow> False
     | Inr r \<Rightarrow> cr_success r \<and> (case cr_wheel_path r of None \<Rightarrow> False | Some w \<Rightarrow>
         w \<noteq> [] \<and> (case run_scan run w of Inl e \<Rightarrow> False | Inr s \<Rightarrow> sc_clean s) \<and>
         (case run_sign run w of Inl e \<Rightarrow> False | Inr g \<Rightarrow> True)))"

lemma process_build_cases:
  "process_build run req q = (if published run then bq_complete (br_request_id req) q
     else bq_fail (run_time run) (br_request_id req) q)"
  by (auto simp: process_build_def published_def Let_def split: sum.split option.split bool.split)

definition requeued :: "real \<Rightarrow> build_request \<Rightarrow> queue_item" where
  "requeued now r = (let p = min (br_priority r + 1) 10 in (p, now, r\<lparr>br_priority := p\<rparr>))"

text \<open>A round of the worker loses no job: the first request in the queue is taken; it is
  dropped if it compiled to a wheel that scanned clean and was signed, and in every other
  case, exceptions included, it is back in the queue one priority step lower (at most 10);
  it is never left in the table of jobs in work, and no other job moves.\<close>

theorem worker_round_conserves_jobs:
  assumes "bq_queue q = (p, t, r) # rest"
  shows "mset (bq_queue (worker_round run q)) =
           (if published run then mset rest else add_mset (requeued (run_time run) r) (mset rest)) \<and>
         dget (bq_processing (worker_round run q)) = (dget (bq_processing q))(br_request_id r := None)"
  using assms
  by (simp add: worker_round_def bq_pop_def bq_take_def process_build_cases bq_complete_def bq_fail_def
      bq_push_def bq_insert_def requeued_def Let_def dict_simps)

theorem worker_round_conserves_jobs_witness:
  "let q = bq_push 1 (demo_request ''a'' 10) new_queue;
       run = \<lparr>run_compiled = Inl (OSError []), run_scan = (\<lambda>w. Inl (OSError [])),
              run_sign = (\<lambda>w. Inl (OSError [])), run_time = 7\<rparr>
   in mset (bq_queue (worker_round run q)) = {#(10, 7, demo_request ''a'' 10)#} \<and>
      dget (bq_processing (worker_round run q)) ''a'' = None"
proof -
  define run where "run = \<lparr>run_compiled = Inl (OSError []), run_scan = (\<lambda>w. Inl (OSError [])),
      run_sign = (\<lambda>w. Inl (OSError [])), run_time = (7::real)\<rparr>"
  define q where "q = bq_push 1 (demo_request ''a'' 10) new_queue"
  have "bq_queue q = (10, 1, demo_request ''a'' 10) # []"
    by (simp add: q_def bq_push_def bq_insert_def new_queue_def demo_request_def)
  from worker_round_conserves_jobs [OF this, of run] show ?thesis
    unfolding q_def [symmetric] run_def [symmetric] Let_def
    by (simp add: published_def run_def requeued_def demo_request_def new_build_request_def)
qed

text \<open>A build that keeps failing is retried without end: however many rounds fail, and in
  particular after more than \<open>BUILD_MAX_RETRIES\<close> of them, the job is in the queue again, at
  priority \<open>min (p + rounds) 10\<close>.\<close>

theorem failing_build_is_retried_forever:
  assumes "bq_queue q = [(p, t, r)]" and "br_priority r = p" and "p \<le> 10"
    and "\<forall>run\<in>set runs. \<not> published run"
  shows "\<exists>t'. bq_queue (fold worker_round runs q) =
    [(min (p + int (length runs)) 10, t', r\<lparr>br_priority := min (p + int (length runs)) 10\<rparr>)]"
  using assms
proof (induction runs arbitrary: q p t r)
  case Nil
  then show ?case by simp
next
  case (Cons run runs)
  let ?r = "r\<lparr>br_priority := min (p + 1) 10\<rparr>"
  have "bq_queue (worker_round run q) = [(min (p + 1) 10, run_time run, ?r)]"
    using Cons.prems by (simp add: worker_round_def bq_pop_def bq_take_def process_build_cases
        bq_fail_def bq_push_def bq_insert_def dict_simps)
  from Cons.IH [OF this] Cons.prems(3,4) obtain t'
    where "bq_queue (fold worker_round runs (worker_round run q)) =
      [(min (min (p + 1) 10 + int (length runs)) 10, t',
        ?r\<lparr>br_priority := min (min (p + 1) 10 + int (length runs)) 10\<rparr>)]" by auto
  moreover have "min (min (p + 1) 10 + int (length runs)) 10 = min (p + int (length (run # runs))) 10"
    by simp
  ultimately show ?case by simp
qed

theorem failing_build_is_retried_forever_witness:
  "let q = bq_push 1 (demo_request ''a'' 5) new_queue;
       run = \<lparr>run_compiled = Inl (OSError []), run_scan = (\<lambda>w. Inl (OSError [])),
              run_sign = (\<lambda>w. Inl (OSError [])), run_time = 7\<rparr>
   in BUILD_MAX_RETRIES < length (replicate 4 run) \<and>
      (\<exists>t. bq_queue (fold worker_round (replicate 4 run) q) = [(9, t, demo_request ''a'' 9)])"
proof -
  define run where "run = \<lparr>run_compiled = Inl (OSError []), run_scan = (\<lambda>w. Inl (OSError [])),
      run_sign = (\<lambda>w. Inl (OSError [])), run_time = (7::real)\<rparr>"
  define q where "q = bq_push 1 (demo_request ''a'' 5) new_queue"
  have q: "bq_queue q = [(5, 1, demo_request ''a'' 5)]"
    by (simp add: q_def bq_push_def bq_insert_def new_queue_def demo_request_def)
  have "\<forall>x\<in>set (replicate 4 run). \<not> published x" by (simp add: published_def run_def)
  from failing_build_is_retried_forever [OF q _ _ this]
  obtain t' where "bq_queue (fold worker_round (replicate 4 run) q) =
      [(9, t', (demo_request ''a'' 5)\<lparr>br_priority := 9\<rparr>)]"
    by (auto simp: demo_request_def)
  then show ?thesis
    unfolding q_def [symmetric] run_def [symmetric] Let_def
    by (simp add: BUILD_MAX_RETRIES_def demo_request_def new_build_request_def)
qed

end
