(* ===== verification/Auth.thy ===== *)
theory Auth
  imports Serialization Models
begin

text \<open>
  \<open>server/auth/\<close> and \<open>server/api/auth.py\<close>: the sliding-window rate limiter, JWT tokens, the
  dependencies that authenticate a request, and the endpoints that issue tokens. The
  signing library (\<open>jose\<close>) is the record \<open>jwt_lib\<close>: its encoder, and its decoder, which
  returns no claims for anything the encoder did not sign with that secret or that expired.
\<close>

section \<open>Rate limiter\<close>

record rate_limit =
  rl_requests :: int
  rl_window_seconds :: int

definition DEFAULT_LIMIT :: rate_limit where
  "DEFAULT_LIMIT = \<lparr>rl_requests = 100, rl_window_seconds = 60\<rparr>"

definition BUILD_LIMIT :: rate_limit where
  "BUILD_LIMIT = \<lparr>rl_requests = 10, rl_window_seconds = 60\<rparr>"

definition EXEC_LIMIT :: rate_limit where
  "EXEC_LIMIT = \<lparr>rl_requests = 50, rl_window_seconds = 60\<rparr>"

type_synonym windows = "(string, real list) dict"

text \<open>What the limiter reads of a request: the forwarding header and the peer address.\<close>

record http_request =
  rq_forwarded :: "string option"
  rq_client_host :: "string option"

definition client_key :: "http_request \<Rightarrow> string" where
  "client_key r = ''rate:'' @ (case rq_forwarded r of
       Some (c # cs) \<Rightarrow> py_strip (hd (py_split CHR '','' (c # cs)))
     | _ \<Rightarrow> (case rq_client_host r of Some h \<Rightarrow> h | None \<Rightarrow> ''unknown''))"

definition window_of :: "windows \<Rightarrow> string \<Rightarrow> real list" where
  "window_of ws key = (case dget ws key of None \<Rightarrow> [] | Some ts \<Rightarrow> ts)"

definition recent :: "real \<Rightarrow> rate_limit \<Rightarrow> real list \<Rightarrow> real list" where
  "recent now limit ts = filter (\<lambda>t. now - real_of_int (rl_window_seconds limit) < t) ts"

definition rl_check :: "real \<Rightarrow> string \<Rightarrow> rate_limit \<Rightarrow> windows \<Rightarrow> bool \<times> windows" where
  "rl_check now key limit ws =
     (let ts = recent now limit (window_of ws key) in
      if rl_requests limit \<le> int (length ts) then (False, dset key ts ws)
      else (True, dset key (ts @ [now]) ws))"

definition rl_remaining :: "real \<Rightarrow> string \<Rightarrow> rate_limit \<Rightarrow> windows \<Rightarrow> int" where
  "rl_remaining now key limit ws =
     max 0 (rl_requests limit - int (length (recent now limit (window_of ws key))))"

text \<open>Answers of an endpoint: a value, an \<open>HTTPException\<close>, or another exception (a 500).\<close>

datatype http_error = HTTPError int string "(string \<times> string) list" | Raised exn

definition check_rate_limit :: "real \<Rightarrow> http_request \<Rightarrow> rate_limit \<Rightarrow> windows \<Rightarrow> http_error option \<times> windows" where
  "check_rate_limit now request limit ws = (case rl_check now (client_key request) limit ws of
       (True, ws') \<Rightarrow> (None, ws')
     | (False, ws') \<Rightarrow>
         (let s = int_str (rl_window_seconds limit) in
          (Some (HTTPError 429 (''Rate limit exceeded. Retry after '' @ s @ ''s'')
             [(''Retry-After'', s)]), ws')))"

lemma window_of_dset [dict_simps]: "window_of (dset k ts ws) k' = (if k' = k then ts else window_of ws k')"
  by (simp add: window_of_def dget_dset)

lemma recent_Nil [simp]: "recent now limit [] = []"
  by (simp add: recent_def)

lemma check_ok_iff: "fst (rl_check now key limit ws) \<longleftrightarrow>
    int (length (recent now limit (window_of ws key))) < rl_requests limit"
  by (simp add: rl_check_def Let_def)

lemma window_after_check:
  "window_of (snd (rl_check now key limit ws)) k =
     (if k = key then recent now limit (window_of ws k) @ (if fst (rl_check now key limit ws) then [now] else [])
      else window_of ws k)"
  by (auto simp: rl_check_def Let_def window_of_dset)

text \<open>A run of checks by several clients, with the answer to each.\<close>

fun rl_trace :: "rate_limit \<Rightarrow> (real \<times> string) list \<Rightarrow> windows \<Rightarrow> (real \<times> string \<times> bool) list" where
  "rl_trace limit [] ws = []"
| "rl_trace limit ((now, key) # es) ws = (case rl_check now key limit ws of
     (ok, ws') \<Rightarrow> (now, key, ok) # rl_trace limit es ws')"

definition granted :: "string \<Rightarrow> (real \<times> string \<times> bool) list \<Rightarrow> real list" where
  "granted k tr = map fst (filter (\<lambda>(t, k', ok). k' = k \<and> ok) tr)"

text \<open>\<open>past\<close> lists what was granted before; the window holds all of it that is still recent.\<close>

definition windows_agree :: "rate_limit \<Rightarrow> real \<Rightarrow> real list \<Rightarrow> real list \<Rightarrow> bool" where
  "windows_agree limit c past ts \<longleftrightarrow> (\<forall>now\<ge>c. recent now limit ts = recent now limit past)"

definition within_limit :: "rate_limit \<Rightarrow> real list \<Rightarrow> bool" where
  "within_limit limit ts \<longleftrightarrow>
     (\<forall>p x s. ts = p @ x # s \<longrightarrow> int (length (recent x limit (p @ [x]))) \<le> rl_requests limit)"

lemma recent_recent: "now \<le> now' \<Longrightarrow> recent now' limit (recent now limit ts) = recent now' limit ts"
  unfolding recent_def filter_filter by (rule filter_cong) auto

lemma recent_append: "recent now limit (xs @ ys) = recent now limit xs @ recent now limit ys"
  by (simp add: recent_def)

lemma within_snoc:
  "within_limit limit ts \<Longrightarrow> int (length (recent x limit (ts @ [x]))) \<le> rl_requests limit \<Longrightarrow>
   within_limit limit (ts @ [x])"
  unfolding within_limit_def
  by (metis append.assoc append_Cons append_Nil append_butlast_last_id butlast.simps(2) butlast_append
      last_snoc list.distinct(1) snoc_eq_iff_butlast)

lemma trace_within:
  assumes "sorted (map fst es)" and "\<forall>e\<in>set es. c \<le> fst e"
    and "windows_agree limit c past (window_of ws k)" and "within_limit limit past"
    and "0 < rl_window_seconds limit"
  shows "within_limit limit (past @ granted k (rl_trace limit es ws))"
  using assms
proof (induction es arbitrary: c past ws)
  case Nil
  then show ?case by (simp add: granted_def)
next
  case (Cons e es)
  obtain now key where e: "e = (now, key)" by (cases e)
  obtain ok ws' where chk: "rl_check now key limit ws = (ok, ws')" by (metis surj_pair)
  let ?past = "past @ (if key = k \<and> ok then [now] else [])"
  have now: "c \<le> now" using Cons.prems(2) e by simp
  have rec: "recent now limit (window_of ws k) = recent now limit past"
    using Cons.prems(3) now by (simp add: windows_agree_def)
  have agree: "windows_agree limit now ?past (window_of ws' k)"
    using Cons.prems(3) now window_after_check [of now key limit ws k] chk
    by (auto simp: windows_agree_def recent_append recent_recent)
  have "within_limit limit ?past"
  proof (cases "key = k \<and> ok")
    case True
    then have "int (length (recent now limit past)) < rl_requests limit"
      using chk rec by (auto simp: rl_check_def Let_def split: if_splits)
    then have "int (length (recent now limit (past @ [now]))) \<le> rl_requests limit"
      by (simp add: recent_def)
    with True Cons.prems(4) show ?thesis by (simp add: within_snoc)
  next
    case False
    with Cons.prems(4) show ?thesis by auto
  qed
  moreover have "sorted (map fst es)" "\<forall>e\<in>set es. now \<le> fst e" using Cons.prems(1) e by auto
  ultimately have "within_limit limit (?past @ granted k (rl_trace limit es ws'))"
    using Cons.IH agree Cons.prems(5) by blast
  moreover have "past @ granted k (rl_trace limit (e # es) ws)
      = ?past @ granted k (rl_trace limit es ws')"
    by (simp add: e chk granted_def)
  ultimately show ?case by simp
qed

lemma within_window:
  fixes t :: real
  assumes "within_limit limit ts" and "0 \<le> rl_requests limit" and "sorted ts"
  shows "int (length (filter (\<lambda>x. t - real_of_int (rl_window_seconds limit) < x \<and> x \<le> t) ts)) \<le> rl_requests limit"
  using assms
proof (induction ts rule: rev_induct)
  case Nil
  then show ?case by simp
next
  case (snoc x ts)
  have "within_limit limit ts"
    using snoc.prems(1) unfolding within_limit_def by (metis append.assoc append_Cons)
  then have ih: "int (length (filter (\<lambda>x. t - real_of_int (rl_window_seconds limit) < x \<and> x \<le> t) ts)) \<le> rl_requests limit"
    using snoc by (simp add: sorted_append)
  show ?case
  proof (cases "t - real_of_int (rl_window_seconds limit) < x \<and> x \<le> t")
    case False
    with ih show ?thesis by auto
  next
    case True
    have "filter (\<lambda>y. t - real_of_int (rl_window_seconds limit) < y \<and> y \<le> t) (ts @ [x])
        = filter (\<lambda>y. t - real_of_int (rl_window_seconds limit) < y \<and> y \<le> t) (recent x limit (ts @ [x]))"
      unfolding recent_def filter_filter using True by (intro filter_cong) auto
    then have "length (filter (\<lambda>y. t - real_of_int (rl_window_seconds limit) < y \<and> y \<le> t) (ts @ [x]))
        \<le> length (recent x limit (ts @ [x]))" by simp
    moreover have "int (length (recent x limit (ts @ [x]))) \<le> rl_requests limit"
      using snoc.prems(1) unfolding within_limit_def by blast
    ultimately show ?thesis by linarith
  qed
qed

lemma granted_times: "set (granted k (rl_trace limit es ws)) \<subseteq> fst ` set es"
proof (induction limit es ws rule: rl_trace.induct)
  case (1 limit ws)
  then show ?case by (simp add: granted_def)
next
  case (2 limit now key es ws)
  obtain ok ws' where chk: "rl_check now key limit ws = (ok, ws')" by (metis surj_pair)
  have "set (granted k (rl_trace limit ((now, key) # es) ws))
      \<subseteq> insert now (set (granted k (rl_trace limit es ws')))" by (auto simp: granted_def chk)
  with 2 [OF chk [symmetric]] show ?case by auto
qed

lemma granted_sorted: "sorted (map fst es) \<Longrightarrow> sorted (granted k (rl_trace limit es ws))"
proof (induction limit es ws rule: rl_trace.induct)
  case (1 limit ws)
  then show ?case by (simp add: granted_def)
next
  case (2 limit now key es ws)
  obtain ok ws' where chk: "rl_check now key limit ws = (ok, ws')" by (metis surj_pair)
  have "\<forall>x\<in>set (granted k (rl_trace limit es ws')). now \<le> x"
    using 2(2) granted_times [of k limit es ws'] by auto
  then show ?case using 2 chk by (auto simp: granted_def)
qed

text \<open>The limiter keeps its promise over every window: while the clock does not go back, the
  requests of a client it lets through in any span of \<open>window_seconds\<close> are at most
  \<open>requests\<close>, whatever other clients do.\<close>

theorem rate_limit_holds_in_every_window:
  fixes t :: real
  assumes "sorted (map fst es)" and "0 \<le> rl_requests limit" and "0 < rl_window_seconds limit"
  shows "int (length (filter (\<lambda>x. t - real_of_int (rl_window_seconds limit) < x \<and> x \<le> t)
           (granted k (rl_trace limit es [])))) \<le> rl_requests limit"
proof -
  define c where "c = (case es of [] \<Rightarrow> 0 | e # _ \<Rightarrow> fst e)"
  have "\<forall>e\<in>set es. c \<le> fst e" using assms(1) by (cases es) (auto simp: c_def)
  then have "within_limit limit ([] @ granted k (rl_trace limit es []))"
    using assms(1,3) by (intro trace_within [of es c])
      (auto simp: windows_agree_def window_of_def within_limit_def)
  with assms(2) granted_sorted [OF assms(1)] show ?thesis by (intro within_window) auto
qed

theorem rate_limit_holds_in_every_window_witness:
  "let lim = \<lparr>rl_requests = 1, rl_window_seconds = 60\<rparr>; es = [(0, ''a''), (10, ''a''), (70, ''a'')]
   in granted ''a'' (rl_trace lim es []) = [0, 70] \<and>
      int (length (filter (\<lambda>x. 50 - 60 < x \<and> x \<le> 50) (granted ''a'' (rl_trace lim es [])))) \<le> 1"
proof -
  let ?lim = "\<lparr>rl_requests = 1, rl_window_seconds = 60\<rparr>"
  let ?es = "[(0, ''a''), (10, ''a''), (70, ''a'')] :: (real \<times> string) list"
  have "granted ''a'' (rl_trace ?lim ?es []) = [0, 70]"
    by (simp add: granted_def rl_check_def Let_def recent_def window_of_def)
  with rate_limit_holds_in_every_window [of ?es ?lim 50 "''a''"] show ?thesis by simp
qed

text \<open>\<open>remaining\<close> and \<open>check\<close> agree: a check succeeds exactly when \<open>remaining\<close> is positive, and
  uses up one; a refused check uses up none.\<close>

theorem remaining_predicts_check:
  assumes "0 < rl_window_seconds limit"
  shows "(fst (rl_check now key limit ws) \<longleftrightarrow> 0 < rl_remaining now key limit ws) \<and>
    rl_remaining now key limit (snd (rl_check now key limit ws))
      = max 0 (rl_remaining now key limit ws - 1)"
  using assms
  by (auto simp: rl_check_def rl_remaining_def Let_def window_of_dset recent_recent recent_append)
    (simp_all add: recent_def)

theorem remaining_predicts_check_witness:
  "fst (rl_check 0 ''k'' BUILD_LIMIT []) \<and> rl_remaining 0 ''k'' BUILD_LIMIT (snd (rl_check 0 ''k'' BUILD_LIMIT [])) = 9"
  using remaining_predicts_check [of BUILD_LIMIT 0 "''k''" "[]"]
  by (simp add: BUILD_LIMIT_def rl_remaining_def window_of_def recent_def)

text \<open>One window serves all limits: a client that made ten requests of any kind in the last
  minute cannot submit a build, though it never submitted one.\<close>

theorem build_limit_counts_every_request:
  assumes "10 \<le> n" and "n \<le> 100" and "t \<le> now" and "now < t + 60"
  shows "\<not> fst (rl_check now key BUILD_LIMIT
    (((\<lambda>ws. snd (rl_check t key DEFAULT_LIMIT ws)) ^^ n) []))"
proof -
  have "m \<le> 100 \<Longrightarrow> window_of (((\<lambda>ws. snd (rl_check t key DEFAULT_LIMIT ws)) ^^ m) []) key = replicate m t" for m
  proof (induction m)
    case 0
    then show ?case by (simp add: window_of_def)
  next
    case (Suc m)
    let ?ws = "((\<lambda>ws. snd (rl_check t key DEFAULT_LIMIT ws)) ^^ m) []"
    have w: "window_of ?ws key = replicate m t" using Suc by simp
    then show ?case using Suc.prems
      by (simp add: rl_check_def Let_def window_of_dset recent_def DEFAULT_LIMIT_def replicate_append_same)
  qed
  note past = this [OF assms(2)]
  show ?thesis using assms by (simp only: check_ok_iff past) (simp add: recent_def BUILD_LIMIT_def)
qed

theorem build_limit_counts_every_request_witness:
  "\<not> fst (rl_check 30 ''rate:1.2.3.4'' BUILD_LIMIT
    (((\<lambda>ws. snd (rl_check 0 ''rate:1.2.3.4'' DEFAULT_LIMIT ws)) ^^ 10) []))"
  by (rule build_limit_counts_every_request) simp_all

section \<open>Tokens\<close>

type_synonym claims = "(string, pyval) dict"

record jwt_lib =
  jl_encode :: "claims \<Rightarrow> string \<Rightarrow> string"
  jl_decode :: "real \<Rightarrow> string \<Rightarrow> string \<Rightarrow> claims option"

definition create_access_token ::
  "jwt_lib \<Rightarrow> string \<Rightarrow> real \<Rightarrow> claims \<Rightarrow> real option \<Rightarrow> string" where
  "create_access_token lib secret now data delta =
     (let d = (case delta of None \<Rightarrow> real_of_int JWT_ACCESS_TOKEN_EXPIRE_MINUTES * 60
        | Some d \<Rightarrow> if d = 0 then real_of_int JWT_ACCESS_TOKEN_EXPIRE_MINUTES * 60 else d) in
      jl_encode lib (dset ''type'' (VStr ''access'') (dset ''exp'' (VInt \<lfloor>now + d\<rfloor>) data)) secret)"

definition create_refresh_token :: "jwt_lib \<Rightarrow> string \<Rightarrow> real \<Rightarrow> claims \<Rightarrow> string" where
  "create_refresh_token lib secret now data =
     jl_encode lib (dset ''type'' (VStr ''refresh'')
       (dset ''exp'' (VInt \<lfloor>now + real_of_int JWT_REFRESH_TOKEN_EXPIRE_DAYS * 24 * 60 * 60\<rfloor>) data)) secret"

definition decode_token :: "jwt_lib \<Rightarrow> string \<Rightarrow> real \<Rightarrow> string \<Rightarrow> claims option" where
  "decode_token lib secret now token = jl_decode lib now token secret"

definition identity :: "pyval \<Rightarrow> pyval \<Rightarrow> claims" where
  "identity user_id device_id = [(''sub'', user_id), (''device_id'', device_id)]"

definition create_token_pair :: "jwt_lib \<Rightarrow> string \<Rightarrow> real \<Rightarrow> pyval \<Rightarrow> pyval \<Rightarrow> claims" where
  "create_token_pair lib secret now user_id device_id =
     [(''access_token'', VStr (create_access_token lib secret now (identity user_id device_id) None)),
      (''refresh_token'', VStr (create_refresh_token lib secret now (identity user_id device_id))),
      (''token_type'', VStr ''bearer''),
      (''expires_in'', VInt (JWT_ACCESS_TOKEN_EXPIRE_MINUTES * 60))]"

text \<open>The claims of the tokens issued here, and the documented behaviour relied on: a token issued
  for a user and a device decodes, with the secret that signed it, to its claims until the
  second its \<open>exp\<close> names has passed. (The library writes \<open>exp\<close> in whole seconds.)\<close>

definition token_claims :: "bool \<Rightarrow> int \<Rightarrow> pyval \<Rightarrow> pyval \<Rightarrow> claims" where
  "token_claims refr expires user_id device_id = identity user_id device_id @
     [(''exp'', VInt expires), (''type'', VStr (if refr then ''refresh'' else ''access''))]"

definition jwt_law :: "jwt_lib \<Rightarrow> string \<Rightarrow> pyval \<Rightarrow> pyval \<Rightarrow> bool" where
  "jwt_law lib secret u d \<longleftrightarrow> (\<forall>now refr t.
     jl_decode lib now (jl_encode lib (token_claims refr t u d) secret) secret
       = (if t < \<lfloor>now\<rfloor> then None else Some (token_claims refr t u d)))"

section \<open>Dependencies\<close>

definition get_current_user :: "jwt_lib \<Rightarrow> bool \<Rightarrow> string \<Rightarrow> real \<Rightarrow> string option \<Rightarrow> http_error + claims" where
  "get_current_user lib debug secret now credentials =
     (let checked = (case credentials of
          None \<Rightarrow> Inl (HTTPError 401 ''Not authenticated'' [])
        | Some c \<Rightarrow> (case decode_token lib secret now c of
            Some (p # ps) \<Rightarrow> Inr (p # ps)
          | _ \<Rightarrow> Inl (HTTPError 401 ''Invalid token'' []))) in
      if debug then
        (case credentials of
           Some c \<Rightarrow> (if py_startswith c ''dev_'' then
             Inr [(''sub'', VStr ''dev-user''), (''device_id'', VStr (drop 4 c)), (''tier'', VStr ''dev'')]
             else checked)
         | None \<Rightarrow> Inr [(''sub'', VStr ''anonymous''), (''device_id'', VStr ''local''), (''tier'', VStr ''dev'')])
      else checked)"

definition require_auth :: "claims \<Rightarrow> http_error + claims" where
  "require_auth user =
     (if dget user ''sub'' = Some (VStr ''anonymous'')
      then Inl (HTTPError 401 ''Authentication required'' []) else Inr user)"

text \<open>The two dependencies in a row\<close>

definition authenticate :: "jwt_lib \<Rightarrow> bool \<Rightarrow> string \<Rightarrow> real \<Rightarrow> string option \<Rightarrow> http_error + claims" where
  "authenticate lib debug secret now credentials =
     (case get_current_user lib debug secret now credentials of
        Inl e \<Rightarrow> Inl e | Inr user \<Rightarrow> require_auth user)"

section \<open>Endpoints\<close>

definition login :: "jwt_lib \<Rightarrow> string \<Rightarrow> real \<Rightarrow> string \<Rightarrow> string \<Rightarrow> string \<Rightarrow> string \<Rightarrow> claims" where
  "login lib secret now uuid hex api_key device_id =
     (let dev = VStr (if device_id \<noteq> [] then device_id else uuid);
          user_id = VStr (''user_'' @ take 8 hex) in
      dset ''device_id'' dev (create_token_pair lib secret now user_id dev))"

definition register :: "jwt_lib \<Rightarrow> string \<Rightarrow> real \<Rightarrow> string \<Rightarrow> string \<Rightarrow> string \<Rightarrow> claims" where
  "register lib secret now uuid1 hex uuid2 =
     create_token_pair lib secret now (VStr uuid1) (VStr uuid2) @
       [(''user_id'', VStr uuid1), (''api_key'', VStr (''cpip_'' @ hex)), (''device_id'', VStr uuid2)]"

definition refresh :: "jwt_lib \<Rightarrow> string \<Rightarrow> real \<Rightarrow> string \<Rightarrow> http_error + claims" where
  "refresh lib secret now token = (case decode_token lib secret now token of
       Some (p # ps) \<Rightarrow>
         (if dget (p # ps) ''type'' \<noteq> Some (VStr ''refresh'')
          then Inl (HTTPError 401 ''Invalid refresh token'' [])
          else (case dget (p # ps) ''sub'' of
              None \<Rightarrow> Inl (Raised (KeyError ''sub''))
            | Some sub \<Rightarrow> Inr (create_token_pair lib secret now sub
                (case dget (p # ps) ''device_id'' of None \<Rightarrow> VStr [] | Some d \<Rightarrow> d))))
     | _ \<Rightarrow> Inl (HTTPError 401 ''Invalid refresh token'' []))"

definition get_me :: "claims \<Rightarrow> claims" where
  "get_me user = (let get = (\<lambda>k d. case dget user k of None \<Rightarrow> d | Some v \<Rightarrow> v) in
     [(''user_id'', get ''sub'' VNone), (''device_id'', get ''device_id'' VNone),
      (''tier'', get ''tier'' (VStr ''free''))])"

section \<open>Token lifecycle\<close>

lemma decode_own_tokens:
  assumes "jwt_law lib secret u d"
  shows "decode_token lib secret later (create_access_token lib secret now (identity u d) None)
      = (if \<lfloor>now + 3600\<rfloor> < \<lfloor>later\<rfloor> then None else Some (token_claims False \<lfloor>now + 3600\<rfloor> u d))"
    and "decode_token lib secret later (create_refresh_token lib secret now (identity u d))
      = (if \<lfloor>now + 2592000\<rfloor> < \<lfloor>later\<rfloor> then None else Some (token_claims True \<lfloor>now + 2592000\<rfloor> u d))"
proof -
  have "create_access_token lib secret now (identity u d) None
      = jl_encode lib (token_claims False \<lfloor>now + 3600\<rfloor> u d) secret"
    "create_refresh_token lib secret now (identity u d)
      = jl_encode lib (token_claims True \<lfloor>now + 2592000\<rfloor> u d) secret"
    by (simp_all add: create_access_token_def create_refresh_token_def identity_def token_claims_def)
  with assms show
    "decode_token lib secret later (create_access_token lib secret now (identity u d) None)
      = (if \<lfloor>now + 3600\<rfloor> < \<lfloor>later\<rfloor> then None else Some (token_claims False \<lfloor>now + 3600\<rfloor> u d))"
    "decode_token lib secret later (create_refresh_token lib secret now (identity u d))
      = (if \<lfloor>now + 2592000\<rfloor> < \<lfloor>later\<rfloor> then None else Some (token_claims True \<lfloor>now + 2592000\<rfloor> u d))"
    by (simp_all only: jwt_law_def decode_token_def)
qed

lemma token_claims_get [simp]:
  "dget (token_claims r e u d) ''sub'' = Some u" "dget (token_claims r e u d) ''device_id'' = Some d"
  by (simp_all add: token_claims_def identity_def)

lemma token_claims_Cons: "token_claims r e u d =
  (''sub'', u) # [(''device_id'', d), (''exp'', VInt e),
     (''type'', VStr (if r then ''refresh'' else ''access''))]"
  by (simp add: token_claims_def identity_def)

lemma authenticate_own:
  "decode_token lib secret now tok = Some (token_claims r e u d) \<Longrightarrow> u \<noteq> VStr ''anonymous'' \<Longrightarrow>
   authenticate lib False secret now (Some tok) = Inr (token_claims r e u d)"
  by (simp add: authenticate_def get_current_user_def Let_def require_auth_def token_claims_Cons)

lemma refresh_own:
  assumes "decode_token lib secret now tok = Some (token_claims r e u d)"
  shows "refresh lib secret now tok = (if r then Inr (create_token_pair lib secret now u d)
    else Inl (HTTPError 401 ''Invalid refresh token'' []))"
  using assms by (simp add: refresh_def token_claims_Cons)

text \<open>Logging in and refreshing keep the identity: within its hour the access token of a login
  authenticates as the new user and the given device; within 30 days the refresh token buys
  a pair whose access token authenticates as the same user and device; an access token
  never buys one.\<close>

theorem login_then_refresh_keeps_identity:
  assumes law: "jwt_law lib secret (VStr (''user_'' @ take 8 hex)) (VStr device_id)" and dev: "device_id \<noteq> []"
    and t1: "\<lfloor>t1\<rfloor> \<le> \<lfloor>t0 + 3600\<rfloor>" and t2: "\<lfloor>t2\<rfloor> \<le> \<lfloor>t0 + 2592000\<rfloor>"
    and tok: "dget (login lib secret t0 uuid hex api_key device_id) ''access_token'' = Some (VStr access)"
      "dget (login lib secret t0 uuid hex api_key device_id) ''refresh_token'' = Some (VStr refr)"
  shows "(\<exists>u1. authenticate lib False secret t1 (Some access) = Inr u1 \<and>
      dget u1 ''sub'' = Some (VStr (''user_'' @ take 8 hex)) \<and> dget u1 ''device_id'' = Some (VStr device_id)) \<and>
    (\<exists>pair access2 u2. refresh lib secret t2 refr = Inr pair \<and>
      dget pair ''access_token'' = Some (VStr access2) \<and>
      authenticate lib False secret t2 (Some access2) = Inr u2 \<and>
      dget u2 ''sub'' = Some (VStr (''user_'' @ take 8 hex)) \<and> dget u2 ''device_id'' = Some (VStr device_id)) \<and>
    (\<exists>e. refresh lib secret t1 access = Inl e)"
proof -
  let ?u = "VStr (''user_'' @ take 8 hex)" and ?d = "VStr device_id"
  have access: "access = create_access_token lib secret t0 (identity ?u ?d) None"
    and refr: "refr = create_refresh_token lib secret t0 (identity ?u ?d)"
    using tok dev by (simp_all add: login_def Let_def create_token_pair_def)
  have a1: "decode_token lib secret t1 access = Some (token_claims False \<lfloor>t0 + 3600\<rfloor> ?u ?d)"
    unfolding access decode_own_tokens [OF law] using t1 by simp
  have r2: "decode_token lib secret t2 refr = Some (token_claims True \<lfloor>t0 + 2592000\<rfloor> ?u ?d)"
    unfolding refr decode_own_tokens [OF law] using t2 by simp
  have part1: "\<exists>u1. authenticate lib False secret t1 (Some access) = Inr u1 \<and>
      dget u1 ''sub'' = Some ?u \<and> dget u1 ''device_id'' = Some ?d"
    using authenticate_own [OF a1] by simp
  have part3: "\<exists>e. refresh lib secret t1 access = Inl e"
    using refresh_own [OF a1] by simp
  let ?a2 = "create_access_token lib secret t2 (identity ?u ?d) None"
  have "\<lfloor>t2\<rfloor> \<le> \<lfloor>t2 + 3600\<rfloor>" by (rule floor_mono) simp
  then have "decode_token lib secret t2 ?a2 = Some (token_claims False \<lfloor>t2 + 3600\<rfloor> ?u ?d)"
    unfolding decode_own_tokens [OF law] by simp
  then have "authenticate lib False secret t2 (Some ?a2) = Inr (token_claims False \<lfloor>t2 + 3600\<rfloor> ?u ?d)"
    by (rule authenticate_own) simp
  moreover have "refresh lib secret t2 refr = Inr (create_token_pair lib secret t2 ?u ?d)"
    using refresh_own [OF r2] by simp
  moreover have "dget (create_token_pair lib secret t2 ?u ?d) ''access_token'' = Some (VStr ?a2)"
    by (simp add: create_token_pair_def)
  ultimately show ?thesis using part1 part3 token_claims_get(1,2) by blast
qed

text \<open>A library whose tokens spell out kind and expiry, for one user and device, obeys the law.\<close>

definition demo_jwt :: jwt_lib where
  "demo_jwt = \<lparr>jl_encode = (\<lambda>c secret.
       (if dget c ''type'' = Some (VStr ''refresh'') then CHR ''R'' else CHR ''A'') #
       (case dget c ''exp'' of Some (VInt t) \<Rightarrow> int_str t | _ \<Rightarrow> [])),
     jl_decode = (\<lambda>now tok secret. case tok of [] \<Rightarrow> None
       | k # s \<Rightarrow> (case py_int s of None \<Rightarrow> None
         | Some t \<Rightarrow> if t < \<lfloor>now\<rfloor> then None
             else Some (token_claims (k = CHR ''R'') t (VStr ''user_0123'') (VStr ''phone''))))\<rparr>"

lemma demo_jwt_law: "jwt_law demo_jwt secret (VStr ''user_0123'') (VStr ''phone'')"
  by (simp add: jwt_law_def demo_jwt_def token_claims_def identity_def py_int_int_str)

theorem login_then_refresh_keeps_identity_witness:
  "\<exists>access refr u1.
     dget (login demo_jwt ''s'' 0 ''u'' ''0123'' [] ''phone'') ''access_token'' = Some (VStr access) \<and>
     dget (login demo_jwt ''s'' 0 ''u'' ''0123'' [] ''phone'') ''refresh_token'' = Some (VStr refr) \<and>
     authenticate demo_jwt False ''s'' 60 (Some access) = Inr u1 \<and>
     dget u1 ''device_id'' = Some (VStr ''phone'')"
proof -
  let ?tokens = "login demo_jwt ''s'' 0 ''u'' ''0123'' [] ''phone''"
  obtain access refr where tok: "dget ?tokens ''access_token'' = Some (VStr access)"
    "dget ?tokens ''refresh_token'' = Some (VStr refr)"
    by (simp add: login_def create_token_pair_def Let_def)
  have "jwt_law demo_jwt ''s'' (VStr (''user_'' @ take 8 ''0123'')) (VStr ''phone'')"
    using demo_jwt_law by simp
  from login_then_refresh_keeps_identity [OF this _ _ _ tok, of 60 60] tok show ?thesis by auto
qed

text \<open>A refresh token opens everything an access token opens: no endpoint looks at the type of
  the token it is given, so for 30 days the refresh token itself authenticates requests.\<close>

theorem refresh_token_authenticates:
  assumes "jwt_law lib secret u d" and "u \<noteq> VStr ''anonymous''" and "later \<le> now + 30 * 24 * 60 * 60"
    and "dget (create_token_pair lib secret now u d) ''refresh_token'' = Some (VStr refr)"
  shows "\<exists>user. authenticate lib False secret later (Some refr) = Inr user \<and> dget user ''sub'' = Some u"
proof -
  have "refr = create_refresh_token lib secret now (identity u d)"
    using assms(4) by (simp add: create_token_pair_def)
  moreover have "\<lfloor>later\<rfloor> \<le> \<lfloor>now + 2592000\<rfloor>" using assms(3) by (intro floor_mono) simp
  ultimately have "decode_token lib secret later refr = Some (token_claims True \<lfloor>now + 2592000\<rfloor> u d)"
    by (simp add: decode_own_tokens [OF assms(1)])
  from authenticate_own [OF this assms(2)] show ?thesis by simp
qed

theorem refresh_token_authenticates_witness:
  "\<exists>refr user. dget (create_token_pair demo_jwt ''s'' 0 (VStr ''user_0123'') (VStr ''phone'')) ''refresh_token''
       = Some (VStr refr) \<and>
     authenticate demo_jwt False ''s'' 86400 (Some refr) = Inr user \<and> dget user ''sub'' = Some (VStr ''user_0123'')"
proof -
  obtain refr where r: "dget (create_token_pair demo_jwt ''s'' 0 (VStr ''user_0123'') (VStr ''phone'')) ''refresh_token''
      = Some (VStr refr)" by (simp add: create_token_pair_def)
  from refresh_token_authenticates [OF demo_jwt_law _ _ r, of 86400] r show ?thesis by auto
qed

end
