(* ===== verification/Services.thy ===== *)
theory Services
  imports Auth Models
begin

text \<open>
  \<open>server/services/\<close> and the HTTP endpoints over them (\<open>server/api/builds.py\<close>, \<open>execution.py\<close>,
  \<open>packages.py\<close>, \<open>health.py\<close>): build jobs, remote execution, the package registry. The modules an
  execution reaches are the record \<open>py_runtime\<close>.
\<close>

section \<open>Build service\<close>

record build_service =
  bs_builds :: "(string, build_result) dict"
  bs_queue :: "string list"

definition new_build_service :: build_service where
  "new_build_service = \<lparr>bs_builds = [], bs_queue = []\<rparr>"

definition submit_build :: "build_request \<Rightarrow> build_service \<Rightarrow> build_result \<times> build_service" where
  "submit_build req s =
     (let result = new_build_result (br_request_id req) B_QUEUED (br_package_name req) (br_package_version req)
      in (result, \<lparr>bs_builds = dset (br_request_id req) result (bs_builds s),
                   bs_queue = bs_queue s @ [br_request_id req]\<rparr>))"

definition get_build :: "build_service \<Rightarrow> string \<Rightarrow> build_result option" where
  "get_build s build_id = dget (bs_builds s) build_id"

definition list_builds :: "int \<Rightarrow> build_service \<Rightarrow> build_result list" where
  "list_builds limit s = slice_from (dvalues (bs_builds s)) (- limit)"

definition cancel_build :: "string \<Rightarrow> build_service \<Rightarrow> bool \<times> build_service" where
  "cancel_build build_id s = (case dget (bs_builds s) build_id of
       None \<Rightarrow> (False, s)
     | Some b \<Rightarrow>
         (if bres_status b = B_SUCCEEDED \<or> bres_status b = B_FAILED then (False, s)
          else (True, \<lparr>bs_builds = dset build_id (b\<lparr>bres_status := B_CANCELLED\<rparr>) (bs_builds s),
                       bs_queue = remove1 build_id (bs_queue s)\<rparr>)))"

definition bs_queue_size :: "build_service \<Rightarrow> nat" where
  "bs_queue_size s = length (bs_queue s)"

datatype bs_event = Submit build_request | Cancel string

fun bs_step :: "bs_event \<Rightarrow> build_service \<Rightarrow> build_service" where
  "bs_step (Submit req) s = snd (submit_build req s)"
| "bs_step (Cancel i) s = snd (cancel_build i s)"

definition waiting :: "(string, build_result) dict \<Rightarrow> string list" where
  "waiting bs = map fst (filter (\<lambda>p. bres_status (snd p) = B_QUEUED) bs)"

definition bs_inv :: "build_service \<Rightarrow> bool" where
  "bs_inv s \<longleftrightarrow> dict_ok (bs_builds s) \<and>
     (\<forall>p\<in>set (bs_builds s). bres_status (snd p) = B_QUEUED \<or> bres_status (snd p) = B_CANCELLED)"

lemma bs_inv_step [inv_intros]: "bs_inv s \<Longrightarrow> bs_inv (bs_step e s)"
proof (cases e)
  case (Submit req)
  assume "bs_inv s"
  with Submit show ?thesis
    using set_dset_subset [of "br_request_id req" "fst (submit_build req s)" "bs_builds s"]
    by (auto simp: bs_inv_def submit_build_def Let_def new_build_result_def)
next
  case (Cancel i)
  assume inv: "bs_inv s"
  show ?thesis
  proof (cases "dget (bs_builds s) i")
    case None
    with inv Cancel show ?thesis by (simp add: cancel_build_def)
  next
    case (Some b)
    with inv Cancel show ?thesis
      using set_dset_subset [of i "b\<lparr>bres_status := B_CANCELLED\<rparr>" "bs_builds s"]
      by (auto simp: bs_inv_def cancel_build_def)
  qed
qed

interpretation builds: step_system bs_step bs_inv
  by unfold_locales (rule bs_inv_step)

text \<open>The queue mirrors the queued builds as long as no request id is submitted twice.\<close>

lemma dset_present: "dict_ok d \<Longrightarrow> dhas d k \<Longrightarrow>
  dset k v d = map (\<lambda>p. if fst p = k then (k, v) else p) d"
proof (induction d)
  case Nil
  then show ?case by (simp add: dhas_def)
next
  case (Cons p d)
  obtain a b where p: "p = (a, b)" by (cases p)
  show ?case
  proof (cases "a = k")
    case True
    with Cons.prems p have "k \<notin> fst ` set d" by (simp add: dict_ok_def)
    then have "map (\<lambda>p. if fst p = k then (k, v) else p) d = d"
      by (intro map_idI) (auto simp: rev_image_eqI)
    with True p show ?thesis by simp
  next
    case False
    with Cons p show ?thesis by (simp add: dict_ok_def dhas_def)
  qed
qed

lemma waiting_replaced:
  "bres_status b \<noteq> B_QUEUED \<Longrightarrow>
   waiting (map (\<lambda>p. if fst p = i then (i, b) else p) d) = filter (\<lambda>k. k \<noteq> i) (waiting d)"
  by (induction d) (auto simp: waiting_def)

lemma waiting_cancel:
  assumes "dict_ok d" and "dget d i = Some b"
  shows "waiting (dset i (b\<lparr>bres_status := B_CANCELLED\<rparr>) d) = remove1 i (waiting d)"
proof -
  have di: "distinct (waiting d)" using assms(1) by (simp add: waiting_def dict_ok_def distinct_map inj_on_def)
  have "dhas d i" using assms(2) by (simp add: dhas_def)
  then have "waiting (dset i (b\<lparr>bres_status := B_CANCELLED\<rparr>) d) = filter (\<lambda>k. k \<noteq> i) (waiting d)"
    by (simp add: dset_present [OF assms(1)] waiting_replaced)
  also have "\<dots> = remove1 i (waiting d)" using di by (simp add: distinct_remove1_removeAll removeAll_filter_not_eq eq_commute)
  finally show ?thesis .
qed

fun submitted :: "bs_event list \<Rightarrow> string list" where
  "submitted [] = []"
| "submitted (Submit r # es) = br_request_id r # submitted es"
| "submitted (Cancel i # es) = submitted es"

lemma queue_mirrors:
  assumes "bs_inv s" and "bs_queue s = waiting (bs_builds s)"
    and "distinct (submitted es)" and "set (submitted es) \<inter> set (dkeys (bs_builds s)) = {}"
  shows "bs_queue (fold bs_step es s) = waiting (bs_builds (fold bs_step es s))"
  using assms
proof (induction es arbitrary: s)
  case Nil
  then show ?case by simp
next
  case (Cons e es)
  have inv: "bs_inv (bs_step e s)" by (rule bs_inv_step [OF Cons.prems(1)])
  show ?case
  proof (cases e)
    case (Submit r)
    with Cons.prems(4) have new: "\<not> dhas (bs_builds s) (br_request_id r)" by (simp add: dhas_keys)
    then have "bs_queue (bs_step e s) = waiting (bs_builds (bs_step e s))"
      and "set (submitted es) \<inter> set (dkeys (bs_builds (bs_step e s))) = {}"
      using Cons.prems Submit
      by (auto simp: submit_build_def Let_def dkeys_dset_new waiting_def new_build_result_def)
    with Cons.IH [OF inv] Cons.prems(3) Submit show ?thesis by simp
  next
    case (Cancel i)
    have ok: "dict_ok (bs_builds s)" using Cons.prems(1) by (simp add: bs_inv_def)
    have "dkeys (bs_builds (bs_step e s)) = dkeys (bs_builds s)"
      using ok Cancel by (auto simp: cancel_build_def dset_present dhas_def comp_def split: option.split)
    moreover have "bs_queue (bs_step e s) = waiting (bs_builds (bs_step e s))"
      using Cons.prems(2) Cancel by (auto simp: cancel_build_def waiting_cancel [OF ok] split: option.split)
    ultimately show ?thesis using Cons.IH [OF inv] Cons.prems(3,4) Cancel by simp
  qed
qed

text \<open>While every request id is submitted once, the queue of the build service lists exactly
  the builds with status queued, in the order of submission; and whatever is submitted and
  cancelled, every build is queued or cancelled: the service never starts one.\<close>

theorem build_queue_mirrors_queued_builds:
  assumes "distinct (submitted es)"
  shows "let s = fold bs_step es new_build_service in
     bs_queue s = waiting (bs_builds s) \<and>
     (\<forall>i b. get_build s i = Some b \<longrightarrow> bres_status b = B_QUEUED \<or> bres_status b = B_CANCELLED)"
proof -
  have init: "bs_inv new_build_service" by (simp add: bs_inv_def new_build_service_def)
  have "bs_queue (fold bs_step es new_build_service) = waiting (bs_builds (fold bs_step es new_build_service))"
    by (rule queue_mirrors [OF init _ assms]) (simp_all add: new_build_service_def waiting_def)
  moreover have "bs_inv (fold bs_step es new_build_service)" by (rule builds.inv_run [OF init])
  ultimately show ?thesis
    by (auto simp: Let_def bs_inv_def get_build_def dest!: dget_SomeD)
qed

theorem build_queue_mirrors_queued_builds_witness:
  "let r1 = new_build_request ''1'' 0 ''a''; r2 = new_build_request ''2'' 0 ''b'';
       es = [Submit r1, Submit r2, Cancel ''1''] in
   distinct (submitted es) \<and> bs_queue (fold bs_step es new_build_service) = [''2'']"
proof -
  define es where "es = [Submit (new_build_request ''1'' 0 ''a''), Submit (new_build_request ''2'' 0 ''b''), Cancel ''1'']"
  have d: "distinct (submitted es)" by (simp add: es_def new_build_request_def)
  have "waiting (bs_builds (fold bs_step es new_build_service)) = [''2'']"
    by (simp add: es_def new_build_service_def submit_build_def cancel_build_def waiting_def Let_def
        new_build_request_def new_build_result_def)
  with d build_queue_mirrors_queued_builds [OF d] show ?thesis by (simp add: es_def Let_def)
qed

text \<open>A request id submitted twice outlives its cancellation: the build is cancelled, but its
  id is still in the queue.\<close>

theorem duplicate_submission_survives_cancel:
  "let s = snd (cancel_build (br_request_id r) (snd (submit_build r (snd (submit_build r new_build_service))))) in
   map_option bres_status (get_build s (br_request_id r)) = Some B_CANCELLED \<and>
   br_request_id r \<in> set (bs_queue s)"
  by (simp add: submit_build_def cancel_build_def new_build_service_def new_build_result_def Let_def get_build_def)

text \<open>\<open>list_builds\<close> returns the last \<open>limit\<close> builds, but all of them when the limit is 0 (and
  drops the first \<open>k\<close> when the limit is \<open>-k\<close>).\<close>

theorem list_builds_limit_zero_lists_all:
  "list_builds limit s =
     (let all = dvalues (bs_builds s) in
      if 0 < limit then drop (length all - nat limit) all
      else if limit = 0 then all else drop (nat (- limit)) all)"
  by (auto simp: list_builds_def Let_def slice_from_neg)
    (auto simp: slice_from_def py_clamp_def min_def)

section \<open>Execution service\<close>

record 'o py_runtime =
  rt_import :: "string \<Rightarrow> exn + 'o"
  rt_getattr :: "string \<Rightarrow> 'o \<Rightarrow> exn + 'o"
  rt_callable :: "'o \<Rightarrow> bool"
  rt_call :: "'o \<Rightarrow> pyval list \<Rightarrow> (string, pyval) dict \<Rightarrow> exn + pyval"
  rt_value :: "'o \<Rightarrow> pyval"
  rt_format_exc :: "exn \<Rightarrow> string"

fun getattrs :: "'o py_runtime \<Rightarrow> string list \<Rightarrow> 'o \<Rightarrow> exn + 'o" where
  "getattrs rt [] obj = Inr obj"
| "getattrs rt (a # as) obj = bind_result (rt_getattr rt a obj) (getattrs rt as)"

definition execute_sandboxed :: "'o py_runtime \<Rightarrow> execution_request \<Rightarrow> exn + pyval" where
  "execute_sandboxed rt req =
     (let parts = py_split CHR ''.'' (er_method req) in
      if length parts < 2 then Inl (ValueError (''Invalid method: '' @ er_method req))
      else bind_result (rt_import rt (hd parts)) (\<lambda>m.
        bind_result (getattrs rt (tl parts) m) (\<lambda>obj.
          if rt_callable rt obj then rt_call rt obj (er_args req) (er_kwargs req)
          else Inr (rt_value rt obj))))"

type_synonym results = "(string, execution_result) dict"

definition execute :: "'o py_runtime \<Rightarrow> real \<Rightarrow> real \<Rightarrow> execution_request \<Rightarrow> results \<Rightarrow> execution_result \<times> results" where
  "execute rt start end_time req rs =
     (let duration = py_round 2 ((end_time - start) * 1000);
          r = (case execute_sandboxed rt req of
                 Inr v \<Rightarrow> (new_execution_result (er_request_id req) E_COMPLETED)
                   \<lparr>eres_result := v, eres_duration_ms := duration\<rparr>
               | Inl e \<Rightarrow> (new_execution_result (er_request_id req) E_FAILED)
                   \<lparr>eres_error := Some (exn_message e), eres_traceback := Some (rt_format_exc rt e),
                    eres_duration_ms := duration\<rparr>)
      in (r, dset (er_request_id req) r rs))"

definition get_result :: "results \<Rightarrow> string \<Rightarrow> execution_result option" where
  "get_result rs execution_id = dget rs execution_id"

definition cancel_execution :: "string \<Rightarrow> results \<Rightarrow> results" where
  "cancel_execution execution_id rs = (case dget rs execution_id of
       None \<Rightarrow> rs
     | Some r \<Rightarrow> (if eres_status r = E_PENDING \<or> eres_status r = E_RUNNING
         then dset execution_id (r\<lparr>eres_status := E_CANCELLED\<rparr>) rs else rs))"

text \<open>Results of any history of executions and cancellations\<close>

datatype 'o exec_event = Execute "'o py_runtime" real real execution_request | CancelExec string

fun exec_step :: "'o exec_event \<Rightarrow> results \<Rightarrow> results" where
  "exec_step (Execute rt a b req) rs = snd (execute rt a b req rs)"
| "exec_step (CancelExec i) rs = cancel_execution i rs"

definition results_final :: "results \<Rightarrow> bool" where
  "results_final rs \<longleftrightarrow> (\<forall>i r. dget rs i = Some r \<longrightarrow> eres_status r = E_COMPLETED \<or> eres_status r = E_FAILED)"

lemma results_final_execute [inv_intros]: "results_final rs \<Longrightarrow> results_final (snd (execute rt a b req rs))"
  by (auto simp: results_final_def execute_def Let_def dget_dset new_execution_result_def split: sum.splits)

lemma cancel_final: "results_final rs \<Longrightarrow> cancel_execution i rs = rs"
proof (cases "dget rs i")
  case (Some r)
  moreover assume "results_final rs"
  ultimately have "eres_status r = E_COMPLETED \<or> eres_status r = E_FAILED"
    unfolding results_final_def by blast
  with Some show ?thesis by (auto simp: cancel_execution_def)
qed (simp add: cancel_execution_def)

interpretation executions: step_system exec_step results_final
proof unfold_locales
  show "results_final rs \<Longrightarrow> results_final (exec_step e rs)" for e :: "'a exec_event" and rs
    by (cases e) (auto intro: inv_intros simp: cancel_final)
qed

text \<open>An execution never raises and its answer is what is stored under its id: completed with
  the value when the call returned, failed with the error's message otherwise, and failed
  without touching any module when the method has no dot.\<close>

theorem execute_outcome_is_stored:
  "get_result (snd (execute rt start end_time req rs)) (er_request_id req) = Some (fst (execute rt start end_time req rs)) \<and>
   (case execute_sandboxed rt req of
      Inr v \<Rightarrow> eres_status (fst (execute rt start end_time req rs)) = E_COMPLETED \<and>
        eres_result (fst (execute rt start end_time req rs)) = v
    | Inl e \<Rightarrow> eres_status (fst (execute rt start end_time req rs)) = E_FAILED \<and>
        eres_error (fst (execute rt start end_time req rs)) = Some (exn_message e)) \<and>
   (CHR ''.'' \<in> set (er_method req) \<or>
    execute_sandboxed rt req = Inl (ValueError (''Invalid method: '' @ er_method req)))"
proof -
  have "CHR ''.'' \<in> set (er_method req) \<or>
      execute_sandboxed rt req = Inl (ValueError (''Invalid method: '' @ er_method req))"
    by (cases "CHR ''.'' \<in> set (er_method req)") (simp_all add: execute_sandboxed_def py_split_single)
  moreover have "get_result (snd (execute rt start end_time req rs)) (er_request_id req)
      = Some (fst (execute rt start end_time req rs))"
    by (simp add: execute_def get_result_def Let_def dget_dset)
  ultimately show ?thesis
    by (simp add: execute_def Let_def new_execution_result_def split: sum.split)
qed

text \<open>Cancelling an execution has no effect, ever: after any history every stored result is
  completed or failed, so the test for pending or running never succeeds.\<close>

theorem cancel_execution_never_acts:
  "cancel_execution i (fold exec_step es []) = fold exec_step es []"
  by (rule cancel_final, rule executions.inv_run) (simp add: results_final_def)

section \<open>Package service\<close>

type_synonym package_registry = "(string, package_info) dict"

definition seed :: "string \<Rightarrow> string \<Rightarrow> string \<Rightarrow> package_strategy \<Rightarrow> bool \<Rightarrow> bool \<Rightarrow> string list \<Rightarrow> string list
    \<Rightarrow> string \<times> package_info" where
  "seed name version description strategy gpu cloud_only archs deps =
     (name, (new_package_info name version)\<lparr>pi_description := description, pi_strategy := strategy,
        pi_requires_gpu := gpu, pi_cloud_only := cloud_only, pi_supported_architectures := archs,
        pi_dependencies := deps\<rparr>)"

definition REGISTRY :: package_registry where
  "REGISTRY =
     [seed ''torch'' ''2.4.0'' ''PyTorch deep learning framework'' HYBRID True False
        [''aarch64'', ''x86_64''] [''numpy'', ''typing_extensions''],
      seed ''tensorflow'' ''2.16.0'' ''TensorFlow ML framework'' CLOUD_EXEC True True
        [''x86_64''] [''numpy'', ''protobuf'', ''grpcio''],
      seed ''opencv-python'' ''4.9.0'' ''OpenCV computer vision library'' CLOUD_WHEEL False False
        [''aarch64'', ''x86_64''] [''numpy''],
      seed ''scipy'' ''1.13.0'' ''Scientific computing library'' CLOUD_WHEEL False False
        [''aarch64'', ''x86_64''] [''numpy''],
      seed ''playwright'' ''1.44.0'' ''Browser automation'' CLOUD_EXEC False True [''x86_64''] [],
      seed ''numpy'' ''1.26.4'' ''Numerical computing'' LOCAL_INSTALL False False
        [''aarch64'', ''x86_64''] []]"

definition get_package :: "package_registry \<Rightarrow> string \<Rightarrow> string \<Rightarrow> package_info option" where
  "get_package reg name arch = (case dget reg name of
       Some info \<Rightarrow>
         Some (if arch \<notin> set (pi_supported_architectures info) then info\<lparr>pi_strategy := CLOUD_EXEC\<rparr> else info)
     | None \<Rightarrow>
         (if name \<notin> set CLOUD_PREFERRED_PACKAGES
          then Some (new_package_info name ''latest'')
          else Some ((new_package_info name ''latest'')\<lparr>pi_strategy := CLOUD_EXEC, pi_cloud_only := True\<rparr>)))"

definition get_wheel_url :: "package_registry \<Rightarrow> string \<Rightarrow> string option" where
  "get_wheel_url reg name = (case dget reg name of
       None \<Rightarrow> None
     | Some info \<Rightarrow> (case pi_wheel_url info of Some (c # cs) \<Rightarrow> Some (c # cs) | _ \<Rightarrow> None))"

definition get_layers :: "package_registry \<Rightarrow> string \<Rightarrow> layer_info list" where
  "get_layers reg name = (case dget reg name of None \<Rightarrow> [] | Some info \<Rightarrow> pi_layers info)"

type_synonym search_result = "string \<times> string \<times> string"

definition search_row :: "string \<times> package_info \<Rightarrow> search_result" where
  "search_row p = (fst p, pi_version (snd p), strategy_value (pi_strategy (snd p)))"

definition name_matches :: "string \<Rightarrow> string \<Rightarrow> bool" where
  "name_matches query name = (py_contains (py_lower name) (py_lower query) \<or> query = [])"

fun search_loop :: "string \<Rightarrow> int \<Rightarrow> package_registry \<Rightarrow> search_result list \<Rightarrow> search_result list" where
  "search_loop query limit [] results = results"
| "search_loop query limit (p # ps) results =
     (if name_matches query (fst p) then
        (let results' = results @ [search_row p] in
         if limit \<le> int (length results') then results' else search_loop query limit ps results')
      else search_loop query limit ps results)"

definition search_packages :: "package_registry \<Rightarrow> string \<Rightarrow> int \<Rightarrow> search_result list" where
  "search_packages reg query limit = search_loop query limit reg []"

definition get_catalog :: "package_registry \<Rightarrow> search_result list" where
  "get_catalog reg = map search_row reg"

lemma search_loop_take:
  "int (length acc) < limit \<or> limit \<le> 0 \<and> acc = [] \<Longrightarrow>
   search_loop q limit reg acc =
     take (nat (max 1 limit)) (acc @ map search_row (filter (\<lambda>p. name_matches q (fst p)) reg))"
proof (induction reg arbitrary: acc)
  case Nil
  then show ?case by auto
next
  case (Cons p reg)
  show ?case
  proof (cases "name_matches q (fst p) \<and> limit \<le> int (length (acc @ [search_row p]))")
    case True
    then have "nat (max 1 limit) = Suc (length acc)" using Cons.prems by auto
    with True show ?thesis by (simp add: Let_def)
  next
    case False
    with Cons.prems have "name_matches q (fst p) \<Longrightarrow> int (length (acc @ [search_row p])) < limit" by auto
    with False Cons.IH [of "acc @ [search_row p]"] Cons.IH [of acc] Cons.prems show ?thesis
      by (auto simp: Let_def)
  qed
qed

text \<open>A search returns, in the order of the registry, the first \<open>limit\<close> packages whose name
  contains the query, ignoring case (all of them when there are fewer); a limit of zero or
  less still returns one.\<close>

theorem search_returns_first_matches:
  "search_packages reg query limit =
     take (nat (max 1 limit)) (map search_row (filter (\<lambda>p. name_matches query (fst p)) reg))"
  unfolding search_packages_def by (subst search_loop_take) auto

text \<open>The registry has an answer for every name: a package it does not hold is a local install,
  or cloud execution when it is on the list of cloud-preferred packages, and a package on an
  architecture it does not support is always cloud execution; so the endpoint's 404 is
  unreachable.\<close>

theorem every_package_is_found:
  "\<exists>info. get_package reg name arch = Some info \<and>
     pi_strategy info = (case dget reg name of
         Some i \<Rightarrow> if arch \<in> set (pi_supported_architectures i) then pi_strategy i else CLOUD_EXEC
       | None \<Rightarrow> if name \<in> set CLOUD_PREFERRED_PACKAGES then CLOUD_EXEC else LOCAL_INSTALL)"
  by (auto simp: get_package_def new_package_info_def split: option.split)

section \<open>Endpoints\<close>

record api_state =
  as_windows :: windows
  as_builds :: build_service
  as_results :: results

record api_env =
  ae_jwt :: jwt_lib
  ae_debug :: bool
  ae_secret :: string

definition limited :: "real \<Rightarrow> http_request \<Rightarrow> rate_limit \<Rightarrow> (api_state \<Rightarrow> (http_error + 'a) \<times> api_state)
    \<Rightarrow> api_state \<Rightarrow> (http_error + 'a) \<times> api_state" where
  "limited now request limit body s = (case check_rate_limit now request limit (as_windows s) of
       (Some e, ws) \<Rightarrow> (Inl e, s\<lparr>as_windows := ws\<rparr>)
     | (None, ws) \<Rightarrow> body (s\<lparr>as_windows := ws\<rparr>))"

definition with_user :: "api_env \<Rightarrow> real \<Rightarrow> string option \<Rightarrow> (api_state \<Rightarrow> (http_error + 'a) \<times> api_state)
    \<Rightarrow> api_state \<Rightarrow> (http_error + 'a) \<times> api_state" where
  "with_user env now credentials body s =
     (case authenticate (ae_jwt env) (ae_debug env) (ae_secret env) now credentials of
        Inl e \<Rightarrow> (Inl e, s) | Inr user \<Rightarrow> body s)"

definition api_create_build ::
  "api_env \<Rightarrow> real \<Rightarrow> http_request \<Rightarrow> string option \<Rightarrow> build_request \<Rightarrow> api_state \<Rightarrow> (http_error + build_result) \<times> api_state" where
  "api_create_build env now request credentials req = with_user env now credentials
     (limited now request BUILD_LIMIT (\<lambda>s. case submit_build req (as_builds s) of
        (r, b) \<Rightarrow> (Inr r, s\<lparr>as_builds := b\<rparr>)))"

definition api_get_build :: "string \<Rightarrow> api_state \<Rightarrow> http_error + build_result" where
  "api_get_build build_id s = (case get_build (as_builds s) build_id of
       None \<Rightarrow> Inl (HTTPError 404 ''Build not found'' []) | Some r \<Rightarrow> Inr r)"

definition api_list_builds :: "int \<Rightarrow> api_state \<Rightarrow> build_result list" where
  "api_list_builds limit s = list_builds limit (as_builds s)"

definition api_cancel_build ::
  "api_env \<Rightarrow> real \<Rightarrow> string option \<Rightarrow> string \<Rightarrow> api_state \<Rightarrow> (http_error + string) \<times> api_state" where
  "api_cancel_build env now credentials build_id = with_user env now credentials
     (\<lambda>s. case cancel_build build_id (as_builds s) of
        (True, b) \<Rightarrow> (Inr ''cancelled'', s\<lparr>as_builds := b\<rparr>)
      | (False, b) \<Rightarrow> (Inl (HTTPError 404 ''Build not found or already completed'' []), s\<lparr>as_builds := b\<rparr>))"

definition api_submit_execution ::
  "api_env \<Rightarrow> 'o py_runtime \<Rightarrow> real \<Rightarrow> real \<Rightarrow> real \<Rightarrow> http_request \<Rightarrow> string option \<Rightarrow> execution_request
    \<Rightarrow> api_state \<Rightarrow> (http_error + execution_result) \<times> api_state" where
  "api_submit_execution env rt now start end_time request credentials req = with_user env now credentials
     (limited now request EXEC_LIMIT (\<lambda>s. case execute rt start end_time req (as_results s) of
        (r, rs) \<Rightarrow> (Inr r, s\<lparr>as_results := rs\<rparr>)))"

definition api_get_execution :: "string \<Rightarrow> api_state \<Rightarrow> http_error + execution_result" where
  "api_get_execution execution_id s = (case get_result (as_results s) execution_id of
       None \<Rightarrow> Inl (HTTPError 404 ''Execution not found'' []) | Some r \<Rightarrow> Inr r)"

definition api_cancel_execution ::
  "api_env \<Rightarrow> real \<Rightarrow> string option \<Rightarrow> string \<Rightarrow> api_state \<Rightarrow> (http_error + string) \<times> api_state" where
  "api_cancel_execution env now credentials execution_id = with_user env now credentials
     (\<lambda>s. (Inr ''cancelled'', s\<lparr>as_results := cancel_execution execution_id (as_results s)\<rparr>))"

definition api_get_package ::
  "package_registry \<Rightarrow> real \<Rightarrow> http_request \<Rightarrow> string \<Rightarrow> string \<Rightarrow> api_state \<Rightarrow> (http_error + package_info) \<times> api_state" where
  "api_get_package reg now request name arch = limited now request DEFAULT_LIMIT
     (\<lambda>s. (case get_package reg name arch of
        None \<Rightarrow> Inl (HTTPError 404 (''Package '' @ [CHR 0x27] @ name @ [CHR 0x27] @ '' not found'') [])
      | Some info \<Rightarrow> Inr info, s))"

definition api_get_wheel ::
  "package_registry \<Rightarrow> real \<Rightarrow> http_request \<Rightarrow> string \<Rightarrow> api_state \<Rightarrow> (http_error + string \<times> string) \<times> api_state" where
  "api_get_wheel reg now request name = limited now request DEFAULT_LIMIT
     (\<lambda>s. (case get_wheel_url reg name of
        None \<Rightarrow> Inl (HTTPError 404 ''No wheel available'' []) | Some url \<Rightarrow> Inr (url, name), s))"

definition api_get_layers ::
  "package_registry \<Rightarrow> real \<Rightarrow> http_request \<Rightarrow> string \<Rightarrow> api_state \<Rightarrow> (http_error + string \<times> layer_info list) \<times> api_state" where
  "api_get_layers reg now request name = limited now request DEFAULT_LIMIT
     (\<lambda>s. (Inr (name, get_layers reg name), s))"

definition api_search_packages ::
  "package_registry \<Rightarrow> real \<Rightarrow> http_request \<Rightarrow> string \<Rightarrow> int \<Rightarrow> api_state \<Rightarrow> (http_error + search_result list \<times> nat) \<times> api_state" where
  "api_search_packages reg now request q limit = limited now request DEFAULT_LIMIT
     (\<lambda>s. let results = search_packages reg q limit in (Inr (results, length results), s))"

definition api_get_catalog ::
  "package_registry \<Rightarrow> real \<Rightarrow> http_request \<Rightarrow> api_state \<Rightarrow> (http_error + search_result list) \<times> api_state" where
  "api_get_catalog reg now request = limited now request DEFAULT_LIMIT (\<lambda>s. (Inr (get_catalog reg), s))"

text \<open>The routes of \<open>packages.py\<close> in the order they are declared; the first that matches the path
  below \<open>/api/v1/packages\<close>, split at its slashes, serves the request. A parameter matches one
  non-empty segment.\<close>

datatype package_route = RGetPackage string | RGetWheel string | RGetLayers string | RSearch | RCatalog

definition route_packages :: "string list \<Rightarrow> package_route option" where
  "route_packages segments = (case segments of
       [n] \<Rightarrow>
         (if n \<noteq> [] then Some (RGetPackage n)
          else if n = [] then Some RSearch
          else if n = ''catalog'' then Some RCatalog else None)
     | [n, x] \<Rightarrow>
         (if n \<noteq> [] \<and> x = ''wheel'' then Some (RGetWheel n)
          else if n \<noteq> [] \<and> x = ''layers'' then Some (RGetLayers n) else None)
     | _ \<Rightarrow> None)"

text \<open>The catalog cannot be reached: the path \<open>/catalog\<close> is served as the package named
  catalog, and no path is served as the catalog.\<close>

theorem catalog_route_is_shadowed:
  "route_packages [''catalog''] = Some (RGetPackage ''catalog'') \<and>
   (\<forall>segments. route_packages segments \<noteq> Some RCatalog)"
  by (auto simp: route_packages_def split: list.splits if_splits)

end
