(* ===== verification/Hub.thy ===== *)
theory Hub
  imports Protocol Interfaces
begin

text \<open>
  \<open>server/ws/hub.py\<close>: the registry of device connections. A connection object is shared by the
  hub and the handler that serves its socket, so objects live in a store and both sides hold
  the index. Every operation on a socket goes to the network: \<open>net\<close> says, from all that was
  done to the sockets before, whether the call returns or raises; what was done is the log.
  Here each method of the hub runs without interleaving with others; \<open>HubTasks\<close> has them interleave.
\<close>

datatype sock_event = SAccept nat | SClose nat | SSend nat pyval

type_synonym sock_log = "(sock_event \<times> bool) list"
type_synonym net = "sock_log \<Rightarrow> sock_event \<Rightarrow> bool"

record device_connection =
  dc_device_id :: pyval
  dc_socket :: nat
  dc_connected_at :: real
  dc_last_heartbeat :: real
  dc_metadata :: pyval

record hub =
  hb_objs :: "device_connection list"
  hb_conns :: "(pyval, nat) dict"
  hb_log :: sock_log

definition new_hub :: hub where
  "new_hub = \<lparr>hb_objs = [], hb_conns = [], hb_log = []\<rparr>"

definition sock_op :: "net \<Rightarrow> sock_event \<Rightarrow> hub \<Rightarrow> bool \<times> hub" where
  "sock_op net ev h = (let ok = net (hb_log h) ev in (ok, h\<lparr>hb_log := hb_log h @ [(ev, ok)]\<rparr>))"

definition socket_of :: "hub \<Rightarrow> nat \<Rightarrow> nat" where
  "socket_of h ref = dc_socket (hb_objs h ! ref)"

definition accept_failed :: exn where
  "accept_failed = OtherError ''WebSocketError'' ''Failed to accept connection''"

definition hub_connect :: "net \<Rightarrow> real \<Rightarrow> real \<Rightarrow> pyval \<Rightarrow> nat \<Rightarrow> pyval \<Rightarrow> hub \<Rightarrow> (exn + nat) \<times> hub" where
  "hub_connect net t1 t2 device_id w metadata h = (case sock_op net (SAccept w) h of
       (False, h1) \<Rightarrow> (Inl accept_failed, h1)
     | (True, h1) \<Rightarrow>
         (if \<not> hashable device_id then (Inl (TypeError ''unhashable type''), h1)
          else
            let ref = length (hb_objs h1);
                conn = \<lparr>dc_device_id = device_id, dc_socket = w, dc_connected_at = t1,
                        dc_last_heartbeat = t2, dc_metadata = py_or metadata (VDict [])\<rparr>;
                h2 = (case dget (hb_conns h1) device_id of
                        None \<Rightarrow> h1
                      | Some old \<Rightarrow> snd (sock_op net (SClose (socket_of h1 old)) h1))
            in (Inr ref, h2\<lparr>hb_objs := hb_objs h2 @ [conn],
                            hb_conns := dset device_id ref (hb_conns h2)\<rparr>)))"

definition hub_disconnect :: "net \<Rightarrow> pyval \<Rightarrow> hub \<Rightarrow> hub" where
  "hub_disconnect net device_id h = (case dget (hb_conns h) device_id of
       None \<Rightarrow> h
     | Some ref \<Rightarrow> snd (sock_op net (SClose (socket_of h ref))
         (h\<lparr>hb_conns := ddel device_id (hb_conns h)\<rparr>)))"

text \<open>\<open>payload\<close> is what \<open>message.to_json()\<close> gives.\<close>

definition send_to_device :: "net \<Rightarrow> exn + pyval \<Rightarrow> pyval \<Rightarrow> hub \<Rightarrow> bool \<times> hub" where
  "send_to_device net payload device_id h = (case dget (hb_conns h) device_id of
       None \<Rightarrow> (False, h)
     | Some ref \<Rightarrow> (case payload of
           Inl e \<Rightarrow> (False, hub_disconnect net device_id h)
         | Inr j \<Rightarrow> (case sock_op net (SSend (socket_of h ref) j) h of
               (True, h1) \<Rightarrow> (True, h1)
             | (False, h1) \<Rightarrow> (False, hub_disconnect net device_id h1))))"

fun broadcast_loop :: "net \<Rightarrow> exn + pyval \<Rightarrow> pyval list \<Rightarrow> hub \<Rightarrow> nat \<times> hub" where
  "broadcast_loop net payload [] h = (0, h)"
| "broadcast_loop net payload (d # ds) h = (case send_to_device net payload d h of
     (ok, h1) \<Rightarrow> (case broadcast_loop net payload ds h1 of
        (n, h2) \<Rightarrow> (if ok then Suc n else n, h2)))"

definition hub_broadcast :: "net \<Rightarrow> exn + pyval \<Rightarrow> hub \<Rightarrow> nat \<times> hub" where
  "hub_broadcast net payload h = broadcast_loop net payload (dkeys (hb_conns h)) h"

definition get_connection :: "hub \<Rightarrow> pyval \<Rightarrow> device_connection option" where
  "get_connection h device_id = map_option (\<lambda>ref. hb_objs h ! ref) (dget (hb_conns h) device_id)"

definition connected_count :: "hub \<Rightarrow> nat" where
  "connected_count h = length (hb_conns h)"

definition list_devices :: "hub \<Rightarrow> pyval list" where
  "list_devices h = dkeys (hb_conns h)"

text \<open>One turn of the heartbeat loop: \<open>payload d\<close> is the heartbeat message sent to device \<open>d\<close>.\<close>

fun heartbeat_scan :: "net \<Rightarrow> real \<Rightarrow> int \<Rightarrow> (pyval \<Rightarrow> pyval) \<Rightarrow> pyval list \<Rightarrow> hub \<Rightarrow> pyval list \<times> hub" where
  "heartbeat_scan net now interval payload [] h = ([], h)"
| "heartbeat_scan net now interval payload (d # ds) h = (case dget (hb_conns h) d of
     None \<Rightarrow> heartbeat_scan net now interval payload ds h
   | Some ref \<Rightarrow>
       (if of_int (interval * 3) < now - dc_last_heartbeat (hb_objs h ! ref) then
          (case heartbeat_scan net now interval payload ds h of (dead, h') \<Rightarrow> (d # dead, h'))
        else (case sock_op net (SSend (socket_of h ref) (payload d)) h of
            (ok, h1) \<Rightarrow> (case heartbeat_scan net now interval payload ds h1 of
               (dead, h2) \<Rightarrow> (if ok then dead else d # dead, h2)))))"

definition heartbeat_round :: "net \<Rightarrow> real \<Rightarrow> int \<Rightarrow> (pyval \<Rightarrow> pyval) \<Rightarrow> hub \<Rightarrow> hub" where
  "heartbeat_round net now interval payload h =
     (case heartbeat_scan net now interval payload (dkeys (hb_conns h)) h of
        (dead, h') \<Rightarrow> fold (hub_disconnect net) dead h')"

text \<open>The loop, for any rounds: the time of each and the heartbeat sent\<close>

definition heartbeat_loop :: "net \<Rightarrow> int \<Rightarrow> (real \<times> (pyval \<Rightarrow> pyval)) list \<Rightarrow> hub \<Rightarrow> hub" where
  "heartbeat_loop net interval rounds = fold (\<lambda>(now, payload). heartbeat_round net now interval payload) rounds"

text \<open>What a handler does to its connection object\<close>

definition conn_heartbeat :: "real \<Rightarrow> nat \<Rightarrow> hub \<Rightarrow> hub" where
  "conn_heartbeat now ref h = h\<lparr>hb_objs := (hb_objs h)[ref := (hb_objs h ! ref)\<lparr>dc_last_heartbeat := now\<rparr>]\<rparr>"

definition conn_set_metadata :: "pyval \<Rightarrow> nat \<Rightarrow> hub \<Rightarrow> hub" where
  "conn_set_metadata md ref h = h\<lparr>hb_objs := (hb_objs h)[ref := (hb_objs h ! ref)\<lparr>dc_metadata := md\<rparr>]\<rparr>"

section \<open>Invariant\<close>

text \<open>A registered device has one connection object, made for it, and shares it with no other.\<close>

definition hub_ok :: "hub \<Rightarrow> bool" where
  "hub_ok h \<longleftrightarrow> dict_ok (hb_conns h) \<and>
     (\<forall>d ref. dget (hb_conns h) d = Some ref \<longrightarrow>
        ref < length (hb_objs h) \<and> dc_device_id (hb_objs h ! ref) = d)"

lemma sock_op_simps [simp]:
  "hb_objs (snd (sock_op net ev h)) = hb_objs h" "hb_conns (snd (sock_op net ev h)) = hb_conns h"
  "hb_log (snd (sock_op net ev h)) = hb_log h @ [(ev, net (hb_log h) ev)]"
  "fst (sock_op net ev h) = net (hb_log h) ev"
  by (simp_all add: sock_op_def Let_def)

lemma sock_op_eq: "sock_op net ev h = (net (hb_log h) ev, h\<lparr>hb_log := hb_log h @ [(ev, net (hb_log h) ev)]\<rparr>)"
  by (simp add: sock_op_def Let_def)

lemma hub_ok_log [inv_intros]: "hub_ok h \<Longrightarrow> hub_ok (h\<lparr>hb_log := l\<rparr>)"
  by (simp add: hub_ok_def)

lemma hub_disconnect_simps:
  "hb_objs (hub_disconnect net d h) = hb_objs h"
  "dget (hb_conns (hub_disconnect net d h)) = (dget (hb_conns h))(d := None)"
  "dict_ok (hb_conns h) \<Longrightarrow> dict_ok (hb_conns (hub_disconnect net d h))"
  by (auto simp: hub_disconnect_def dict_simps split: option.split)

lemma hub_disconnect_log:
  "hb_log (hub_disconnect net d h) = hb_log h @ (case dget (hb_conns h) d of None \<Rightarrow> []
     | Some ref \<Rightarrow> [(SClose (socket_of h ref), net (hb_log h) (SClose (socket_of h ref)))])"
  by (auto simp: hub_disconnect_def split: option.split)

lemma hub_ok_disconnect [inv_intros]: "hub_ok h \<Longrightarrow> hub_ok (hub_disconnect net d h)"
  by (simp add: hub_ok_def hub_disconnect_simps)

lemma hub_ok_register:
  "hub_ok h \<Longrightarrow> dc_device_id c = d \<Longrightarrow>
   hub_ok (h\<lparr>hb_objs := hb_objs h @ [c], hb_conns := dset d (length (hb_objs h)) (hb_conns h)\<rparr>)"
  by (auto simp: hub_ok_def dict_simps nth_append less_Suc_eq split: if_splits)

lemma hub_ok_connect [inv_intros]: "hub_ok h \<Longrightarrow> hub_ok (snd (hub_connect net t1 t2 d w md h))"
proof -
  assume ok: "hub_ok h"
  let ?c = "\<lparr>dc_device_id = d, dc_socket = w, dc_connected_at = t1, dc_last_heartbeat = t2,
    dc_metadata = py_or md (VDict [])\<rparr>"
  have "hub_ok (h\<lparr>hb_log := l, hb_objs := hb_objs h @ [?c], hb_conns := dset d (length (hb_objs h)) (hb_conns h)\<rparr>)" for l
    using hub_ok_register [OF hub_ok_log [OF ok], of ?c d l] by simp
  with ok hub_ok_log [OF ok] show ?thesis
    by (auto simp: hub_connect_def sock_op_eq Let_def split: bool.split option.split)
qed

lemma hub_ok_send [inv_intros]: "hub_ok h \<Longrightarrow> hub_ok (snd (send_to_device net payload d h))"
  by (auto simp: send_to_device_def sock_op_eq intro: inv_intros split: option.split sum.split bool.split)

lemma hub_ok_broadcast_loop: "hub_ok h \<Longrightarrow> hub_ok (snd (broadcast_loop net payload ds h))"
proof (induction ds arbitrary: h)
  case Nil
  then show ?case by simp
next
  case (Cons d ds)
  from Cons.IH [OF hub_ok_send [OF Cons.prems, of net payload d]] show ?case by (simp add: case_prod_beta)
qed

lemma heartbeat_scan_frame:
  "hb_objs (snd (heartbeat_scan net now i payload ds h)) = hb_objs h \<and>
   hb_conns (snd (heartbeat_scan net now i payload ds h)) = hb_conns h"
proof (induction ds arbitrary: h)
  case Nil
  then show ?case by simp
next
  case (Cons d ds)
  then show ?case by (simp add: sock_op_eq case_prod_beta split: option.split)
qed

lemma hub_ok_scan: "hub_ok h \<Longrightarrow> hub_ok (snd (heartbeat_scan net now i payload ds h))"
  using heartbeat_scan_frame [of net now i payload ds h] by (simp add: hub_ok_def)

lemma hub_ok_disconnects: "hub_ok h \<Longrightarrow> hub_ok (fold (hub_disconnect net) ds h)"
  by (induction ds arbitrary: h) (auto intro: hub_ok_disconnect)

lemma hub_ok_round [inv_intros]: "hub_ok h \<Longrightarrow> hub_ok (heartbeat_round net now i payload h)"
  using hub_ok_scan [of h net now i payload "dkeys (hb_conns h)"]
  by (auto simp: heartbeat_round_def intro: hub_ok_disconnects split: prod.split)

lemma hub_ok_update:
  "hub_ok h \<Longrightarrow> dc_device_id c = dc_device_id (hb_objs h ! ref) \<Longrightarrow> hub_ok (h\<lparr>hb_objs := (hb_objs h)[ref := c]\<rparr>)"
proof -
  assume ok: "hub_ok h" and c: "dc_device_id c = dc_device_id (hb_objs h ! ref)"
  have "dc_device_id ((hb_objs h)[ref := c] ! r) = dc_device_id (hb_objs h ! r)" if "r < length (hb_objs h)" for r
    using c that by (cases "r = ref") simp_all
  with ok show ?thesis unfolding hub_ok_def by simp
qed

datatype hub_event =
    HConnect real real pyval nat pyval | HDisconnect pyval | HSend "exn + pyval" pyval
  | HBroadcast "exn + pyval" | HHeartbeat real int "pyval \<Rightarrow> pyval" | HAck real nat | HMetadata pyval nat

fun hub_step :: "net \<Rightarrow> hub_event \<Rightarrow> hub \<Rightarrow> hub" where
  "hub_step net (HConnect t u d w md) h = snd (hub_connect net t u d w md h)"
| "hub_step net (HDisconnect d) h = hub_disconnect net d h"
| "hub_step net (HSend payload d) h = snd (send_to_device net payload d h)"
| "hub_step net (HBroadcast payload) h = snd (hub_broadcast net payload h)"
| "hub_step net (HHeartbeat now i payload) h = heartbeat_round net now i payload h"
| "hub_step net (HAck now ref) h = conn_heartbeat now ref h"
| "hub_step net (HMetadata md ref) h = conn_set_metadata md ref h"

interpretation hubs: step_system "hub_step net" hub_ok
proof unfold_locales
  fix h e assume "hub_ok h"
  then show "hub_ok (hub_step net e h)"
    by (cases e) (auto simp: hub_broadcast_def conn_heartbeat_def conn_set_metadata_def
        intro: inv_intros hub_ok_broadcast_loop hub_ok_update)
qed

lemma hub_ok_new: "hub_ok new_hub"
  by (simp add: hub_ok_def new_hub_def)

section \<open>Broadcast\<close>

text \<open>What became of a device that a message was sent to.\<close>

definition reached :: "hub \<Rightarrow> hub \<Rightarrow> sock_log \<Rightarrow> pyval \<Rightarrow> pyval \<Rightarrow> bool" where
  "reached h h' new j d = (case dget (hb_conns h) d of
       None \<Rightarrow> dget (hb_conns h') d = None
     | Some ref \<Rightarrow>
         dget (hb_conns h') d = Some ref \<and> (SSend (socket_of h ref) j, True) \<in> set new \<or>
         dget (hb_conns h') d = None \<and> (SSend (socket_of h ref) j, False) \<in> set new \<and>
           (\<exists>b. (SClose (socket_of h ref), b) \<in> set new))"

lemma send_reached:
  assumes "send_to_device net (Inr j) d h = (ok, h')"
  shows "\<exists>new. hb_log h' = hb_log h @ new \<and> hb_objs h' = hb_objs h \<and> reached h h' new j d \<and>
    (ok \<longleftrightarrow> dget (hb_conns h') d \<noteq> None) \<and> (\<forall>d'. d' \<noteq> d \<longrightarrow> dget (hb_conns h') d' = dget (hb_conns h) d')"
proof (cases "dget (hb_conns h) d")
  case None
  with assms show ?thesis by (simp add: send_to_device_def reached_def)
next
  case (Some ref)
  let ?ev = "SSend (socket_of h ref) j"
  show ?thesis
  proof (cases "net (hb_log h) ?ev")
    case True
    with assms Some show ?thesis
      by (intro exI [of _ "[(?ev, True)]"]) (auto simp: send_to_device_def sock_op_eq reached_def)
  next
    case False
    let ?h1 = "h\<lparr>hb_log := hb_log h @ [(?ev, False)]\<rparr>"
    have h': "ok = False" "h' = hub_disconnect net d ?h1"
      using assms Some False by (auto simp: send_to_device_def sock_op_eq)
    have sock: "socket_of ?h1 ref = socket_of h ref" by (simp add: socket_of_def)
    show ?thesis
      using Some by (intro exI [of _ "[(?ev, False), (SClose (socket_of h ref),
            net (hb_log ?h1) (SClose (socket_of h ref)))]"])
        (auto simp: h' hub_disconnect_simps hub_disconnect_log sock reached_def)
  qed
qed

lemma broadcast_loop_reached:
  assumes "distinct ds" and "broadcast_loop net (Inr j) ds h = (n, h')"
  shows "\<exists>new. hb_log h' = hb_log h @ new \<and> hb_objs h' = hb_objs h \<and>
    (\<forall>d\<in>set ds. reached h h' new j d) \<and> n = card {d\<in>set ds. dget (hb_conns h') d \<noteq> None} \<and>
    (\<forall>d. d \<notin> set ds \<longrightarrow> dget (hb_conns h') d = dget (hb_conns h) d)"
  using assms
proof (induction ds arbitrary: h n h')
  case Nil
  then show ?case by simp
next
  case (Cons d ds)
  obtain ok h1 where s: "send_to_device net (Inr j) d h = (ok, h1)" by (metis surj_pair)
  obtain m h2 where l: "broadcast_loop net (Inr j) ds h1 = (m, h2)" by (metis surj_pair)
  from Cons.prems(2) s l have n: "n = (if ok then Suc m else m)" and h': "h' = h2" by auto
  from send_reached [OF s] obtain a where a: "hb_log h1 = hb_log h @ a" "hb_objs h1 = hb_objs h"
    "reached h h1 a j d" "ok \<longleftrightarrow> dget (hb_conns h1) d \<noteq> None"
    "\<forall>d'. d' \<noteq> d \<longrightarrow> dget (hb_conns h1) d' = dget (hb_conns h) d'" by blast
  from Cons.IH [OF _ l] Cons.prems(1) obtain b where b: "hb_log h2 = hb_log h1 @ b" "hb_objs h2 = hb_objs h1"
    "\<forall>d\<in>set ds. reached h1 h2 b j d" "m = card {d\<in>set ds. dget (hb_conns h2) d \<noteq> None}"
    "\<forall>d. d \<notin> set ds \<longrightarrow> dget (hb_conns h2) d = dget (hb_conns h1) d" by auto
  have d: "d \<notin> set ds" using Cons.prems(1) by simp
  have same: "dget (hb_conns h2) d = dget (hb_conns h1) d" using b(5) d by blast
  have sock: "socket_of h1 = socket_of h" by (simp add: fun_eq_iff socket_of_def a(2))
  have "reached h h2 (a @ b) j d" using a(3) same by (auto simp: reached_def split: option.splits)
  moreover have "reached h h2 (a @ b) j d'" if "d' \<in> set ds" for d'
  proof -
    have "d' \<noteq> d" using that d by auto
    then have "dget (hb_conns h1) d' = dget (hb_conns h) d'" using a(5) by blast
    with b(3) that show ?thesis by (fastforce simp: reached_def sock split: option.splits)
  qed
  moreover have "n = card {d'\<in>set (d # ds). dget (hb_conns h2) d' \<noteq> None}"
  proof -
    have "{d'\<in>set (d # ds). dget (hb_conns h2) d' \<noteq> None}
        = (if ok then {d} else {}) \<union> {d'\<in>set ds. dget (hb_conns h2) d' \<noteq> None}"
      using same a(4) by auto
    with d b(4) n show ?thesis by (auto simp: card_insert_if)
  qed
  moreover have "\<forall>d'. d' \<notin> set (d # ds) \<longrightarrow> dget (hb_conns h2) d' = dget (hb_conns h) d'"
    using a(5) b(5) by auto
  ultimately show ?case using a(1,2) b(1,2) h' by (intro exI [of _ "a @ b"]) auto
qed

lemma card_connected: "dict_ok d \<Longrightarrow> set ks = set (dkeys d) \<Longrightarrow> card {k\<in>set ks. dget d k \<noteq> None} = length d"
proof -
  assume ok: "dict_ok d" and ks: "set ks = set (dkeys d)"
  have "{k\<in>set ks. dget d k \<noteq> None} = set (dkeys d)" using ks by (auto simp: map_of_eq_None_iff)
  moreover have "card (set (dkeys d)) = length d"
    using distinct_card [of "dkeys d"] ok by (simp only: dict_ok_def length_map)
  ultimately show ?thesis by (simp only:)
qed

text \<open>C2: A broadcast reaches every device it leaves registered: the number it returns is the number
  of devices connected afterwards; each of them is on its old connection and its socket took
  the message; a device whose send failed is unregistered and its socket closed; nobody else
  is touched.\<close>

theorem broadcast_reaches_whoever_stays:
  assumes "hub_ok h" and "hub_broadcast net (Inr j) h = (n, h')"
  shows "n = connected_count h' \<and>
    (\<exists>new. hb_log h' = hb_log h @ new \<and>
      (\<forall>d ref. dget (hb_conns h) d = Some ref \<longrightarrow>
         (dget (hb_conns h') d = Some ref \<and> (SSend (socket_of h ref) j, True) \<in> set new) \<or>
         (dget (hb_conns h') d = None \<and> (SSend (socket_of h ref) j, False) \<in> set new \<and>
           (\<exists>b. (SClose (socket_of h ref), b) \<in> set new))) \<and>
      (\<forall>d. dget (hb_conns h) d = None \<longrightarrow> dget (hb_conns h') d = None))"
proof -
  let ?ds = "dkeys (hb_conns h)"
  have ok': "hub_ok h'" using hub_ok_broadcast_loop [OF assms(1), of net "Inr j" ?ds] assms(2)
    by (simp add: hub_broadcast_def)
  have d: "distinct ?ds" using assms(1) by (simp add: hub_ok_def dict_ok_def)
  from broadcast_loop_reached [OF d assms(2) [unfolded hub_broadcast_def]] obtain new
    where new: "hb_log h' = hb_log h @ new" "\<forall>d\<in>set ?ds. reached h h' new j d"
      "n = card {d\<in>set ?ds. dget (hb_conns h') d \<noteq> None}"
      "\<forall>d. d \<notin> set ?ds \<longrightarrow> dget (hb_conns h') d = dget (hb_conns h) d" by blast
  have keys: "d \<in> set ?ds \<longleftrightarrow> dget (hb_conns h) d \<noteq> None" for d
    by (metis dhas_def dhas_keys)
  have sub: "dget (hb_conns h) d = None \<Longrightarrow> dget (hb_conns h') d = None" for d
    using new(4) keys by metis
  have "{d\<in>set ?ds. dget (hb_conns h') d \<noteq> None} = {d\<in>set (dkeys (hb_conns h')). dget (hb_conns h') d \<noteq> None}"
    using sub keys dhas_keys [of "hb_conns h'"] unfolding dhas_def by blast
  then have "n = connected_count h'"
    using new(3) card_connected [of "hb_conns h'" "dkeys (hb_conns h')"] ok'
    by (simp add: hub_ok_def connected_count_def)
  moreover have "reached h h' new j d" if "dget (hb_conns h) d = Some ref" for d ref
  proof -
    have "d \<in> set ?ds" unfolding keys using that by simp
    with new(2) show ?thesis by blast
  qed
  then have "\<forall>d ref. dget (hb_conns h) d = Some ref \<longrightarrow>
         (dget (hb_conns h') d = Some ref \<and> (SSend (socket_of h ref) j, True) \<in> set new) \<or>
         (dget (hb_conns h') d = None \<and> (SSend (socket_of h ref) j, False) \<in> set new \<and>
           (\<exists>b. (SClose (socket_of h ref), b) \<in> set new))"
    by (fastforce simp: reached_def)
  ultimately show ?thesis using new(1) sub by blast
qed

definition demo_hub :: hub where
  "demo_hub = snd (hub_connect (\<lambda>l e. True) 0 0 (VStr ''a'') 1 VNone new_hub)"

lemma demo_hub_ok: "hub_ok demo_hub"
  unfolding demo_hub_def by (rule hub_ok_connect [OF hub_ok_new])

theorem broadcast_reaches_whoever_stays_witness:
  "\<exists>n h'. hub_broadcast (\<lambda>l e. True) (Inr (VInt 1)) demo_hub = (n, h') \<and> n = connected_count h'"
proof -
  obtain n h' where b: "hub_broadcast (\<lambda>l e. True) (Inr (VInt 1)) demo_hub = (n, h')" by (metis surj_pair)
  from broadcast_reaches_whoever_stays [OF demo_hub_ok b] b show ?thesis by blast
qed

section \<open>Heartbeat\<close>

definition stale :: "real \<Rightarrow> int \<Rightarrow> hub \<Rightarrow> nat \<Rightarrow> bool" where
  "stale now interval h ref = (of_int (interval * 3) < now - dc_last_heartbeat (hb_objs h ! ref))"

lemma stale_log [simp]: "stale now i (h\<lparr>hb_log := l\<rparr>) = stale now i h"
  "socket_of (h\<lparr>hb_log := l\<rparr>) = socket_of h"
  by (simp_all add: stale_def socket_of_def fun_eq_iff)

lemma heartbeat_scan_result:
  assumes "distinct ds" and "heartbeat_scan net now i payload ds h = (dead, h')"
  shows "\<exists>new. hb_log h' = hb_log h @ new \<and> set dead \<subseteq> set ds \<and>
    (\<forall>d ref. d \<in> set ds \<longrightarrow> dget (hb_conns h) d = Some ref \<longrightarrow>
       (d \<in> set dead \<and> (stale now i h ref \<or> (SSend (socket_of h ref) (payload d), False) \<in> set new)) \<or>
       (d \<notin> set dead \<and> \<not> stale now i h ref \<and> (SSend (socket_of h ref) (payload d), True) \<in> set new))"
  using assms
proof (induction ds arbitrary: h dead h')
  case Nil
  then show ?case by simp
next
  case (Cons d ds)
  have dis: "distinct ds" "d \<notin> set ds" using Cons.prems(1) by auto
  show ?case
  proof (cases "dget (hb_conns h) d")
    case None
    with Cons.prems(2) have "heartbeat_scan net now i payload ds h = (dead, h')" by simp
    from Cons.IH [OF dis(1) this] None show ?thesis by (metis (no_types, lifting) list.set_intros(2)
        option.distinct(1) set_ConsD subset_iff)
  next
    case (Some ref)
    show ?thesis
    proof (cases "stale now i h ref")
      case True
      with Cons.prems(2) Some obtain dead1
        where r: "heartbeat_scan net now i payload ds h = (dead1, h')" and dead: "dead = d # dead1"
        by (auto simp: stale_def split: prod.splits)
      from Cons.IH [OF dis(1) r] obtain new where new: "hb_log h' = hb_log h @ new" "set dead1 \<subseteq> set ds"
        "\<forall>d ref. d \<in> set ds \<longrightarrow> dget (hb_conns h) d = Some ref \<longrightarrow>
           (d \<in> set dead1 \<and> (stale now i h ref \<or> (SSend (socket_of h ref) (payload d), False) \<in> set new)) \<or>
           (d \<notin> set dead1 \<and> \<not> stale now i h ref \<and> (SSend (socket_of h ref) (payload d), True) \<in> set new)"
        by blast
      show ?thesis using new Some True dis(2) by (intro exI [of _ new]) (auto simp: dead)
    next
      case False
      let ?ev = "SSend (socket_of h ref) (payload d)"
      let ?ok = "net (hb_log h) ?ev"
      let ?h1 = "h\<lparr>hb_log := hb_log h @ [(?ev, ?ok)]\<rparr>"
      from False Cons.prems(2) Some obtain dead1
        where r: "heartbeat_scan net now i payload ds ?h1 = (dead1, h')"
          and dead: "dead = (if ?ok then dead1 else d # dead1)"
        by (auto simp: stale_def sock_op_eq split: prod.splits)
      from Cons.IH [OF dis(1) r] obtain new where new: "hb_log h' = hb_log ?h1 @ new" "set dead1 \<subseteq> set ds"
        "\<forall>d ref. d \<in> set ds \<longrightarrow> dget (hb_conns h) d = Some ref \<longrightarrow>
           (d \<in> set dead1 \<and> (stale now i h ref \<or> (SSend (socket_of h ref) (payload d), False) \<in> set new)) \<or>
           (d \<notin> set dead1 \<and> \<not> stale now i h ref \<and> (SSend (socket_of h ref) (payload d), True) \<in> set new)"
        by (auto simp del: heartbeat_scan.simps)
      show ?thesis using new Some False dis(2)
        by (intro exI [of _ "(?ev, ?ok) # new"]) (auto simp: dead)
    qed
  qed
qed

lemma disconnects_result:
  "\<exists>new. hb_log (fold (hub_disconnect net) ds h) = hb_log h @ new \<and>
     (\<forall>d. dget (hb_conns (fold (hub_disconnect net) ds h)) d = (if d \<in> set ds then None else dget (hb_conns h) d)) \<and>
     (\<forall>d ref. d \<in> set ds \<longrightarrow> dget (hb_conns h) d = Some ref \<longrightarrow> (\<exists>b. (SClose (socket_of h ref), b) \<in> set new))"
proof (induction ds arbitrary: h)
  case Nil
  then show ?case by simp
next
  case (Cons d ds)
  let ?h1 = "hub_disconnect net d h"
  obtain new where new: "hb_log (fold (hub_disconnect net) ds ?h1) = hb_log ?h1 @ new"
    "\<forall>d'. dget (hb_conns (fold (hub_disconnect net) ds ?h1)) d' = (if d' \<in> set ds then None else dget (hb_conns ?h1) d')"
    "\<forall>d' ref. d' \<in> set ds \<longrightarrow> dget (hb_conns ?h1) d' = Some ref \<longrightarrow> (\<exists>b. (SClose (socket_of ?h1 ref), b) \<in> set new)"
    using Cons.IH [of ?h1] by blast
  obtain l where l: "hb_log ?h1 = hb_log h @ l"
    "\<forall>ref. dget (hb_conns h) d = Some ref \<longrightarrow> (\<exists>b. (SClose (socket_of h ref), b) \<in> set l)"
    using hub_disconnect_log [of net d h] by (cases "dget (hb_conns h) d") auto
  have sock: "socket_of ?h1 = socket_of h" by (simp add: fun_eq_iff socket_of_def hub_disconnect_simps)
  have "\<exists>b. (SClose (socket_of h ref), b) \<in> set (l @ new)"
    if "d' \<in> set (d # ds)" "dget (hb_conns h) d' = Some ref" for d' ref
  proof (cases "d' = d")
    case True
    with l(2) that show ?thesis by auto
  next
    case False
    with that have "d' \<in> set ds" "dget (hb_conns ?h1) d' = Some ref" by (auto simp: hub_disconnect_simps)
    with new(3) sock show ?thesis by fastforce
  qed
  then show ?case using new(1,2) l(1)
    by (intro exI [of _ "l @ new"]) (auto simp: hub_disconnect_simps)
qed

text \<open>A heartbeat round keeps exactly the devices that answered within three intervals and took
  the heartbeat just sent; every other one is unregistered and its socket closed.\<close>

theorem heartbeat_keeps_live_devices:
  assumes "hub_ok h" and "h' = heartbeat_round net now interval payload h"
  shows "\<exists>new. hb_log h' = hb_log h @ new \<and>
    (\<forall>d ref. dget (hb_conns h) d = Some ref \<longrightarrow>
       (dget (hb_conns h') d = Some ref \<and> now - dc_last_heartbeat (hb_objs h ! ref) \<le> of_int (interval * 3) \<and>
          (SSend (socket_of h ref) (payload d), True) \<in> set new) \<or>
       (dget (hb_conns h') d = None \<and> (\<exists>b. (SClose (socket_of h ref), b) \<in> set new) \<and>
          (of_int (interval * 3) < now - dc_last_heartbeat (hb_objs h ! ref) \<or>
           (SSend (socket_of h ref) (payload d), False) \<in> set new)))"
proof -
  let ?ds = "dkeys (hb_conns h)"
  obtain dead h1 where scan: "heartbeat_scan net now interval payload ?ds h = (dead, h1)" by (metis surj_pair)
  have frame: "hb_conns h1 = hb_conns h" "hb_objs h1 = hb_objs h"
    using heartbeat_scan_frame [of net now interval payload ?ds h] scan by simp_all
  have sock: "socket_of h1 = socket_of h" by (simp add: fun_eq_iff socket_of_def frame)
  have h': "h' = fold (hub_disconnect net) dead h1" using assms(2) scan by (simp add: heartbeat_round_def)
  have dis: "distinct ?ds" using assms(1) by (simp add: hub_ok_def dict_ok_def)
  obtain a where a: "hb_log h1 = hb_log h @ a"
    "\<And>d ref. d \<in> set ?ds \<Longrightarrow> dget (hb_conns h) d = Some ref \<Longrightarrow>
       (d \<in> set dead \<and> (stale now interval h ref \<or> (SSend (socket_of h ref) (payload d), False) \<in> set a)) \<or>
       (d \<notin> set dead \<and> \<not> stale now interval h ref \<and> (SSend (socket_of h ref) (payload d), True) \<in> set a)"
    using heartbeat_scan_result [OF dis scan] by blast
  obtain b where b: "hb_log h' = hb_log h1 @ b"
    "\<And>d. dget (hb_conns h') d = (if d \<in> set dead then None else dget (hb_conns h) d)"
    "\<And>d ref. d \<in> set dead \<Longrightarrow> dget (hb_conns h) d = Some ref \<Longrightarrow> (\<exists>b'. (SClose (socket_of h ref), b') \<in> set b)"
    using disconnects_result [of net dead h1] unfolding h' frame sock by blast
  have "(dget (hb_conns h') d = Some ref \<and> now - dc_last_heartbeat (hb_objs h ! ref) \<le> of_int (interval * 3) \<and>
          (SSend (socket_of h ref) (payload d), True) \<in> set (a @ b)) \<or>
       (dget (hb_conns h') d = None \<and> (\<exists>b'. (SClose (socket_of h ref), b') \<in> set (a @ b)) \<and>
          (of_int (interval * 3) < now - dc_last_heartbeat (hb_objs h ! ref) \<or>
           (SSend (socket_of h ref) (payload d), False) \<in> set (a @ b)))"
    if reg: "dget (hb_conns h) d = Some ref" for d ref
  proof -
    have "d \<in> set ?ds" using reg by (metis dhas_def dhas_keys option.distinct(1))
    note cases = a(2) [OF this reg]
    show ?thesis
    proof (cases "d \<in> set dead")
      case True
      with cases b(2) b(3) [OF True reg] show ?thesis by (auto simp: stale_def)
    next
      case False
      with cases b(2) reg show ?thesis by (auto simp: stale_def)
    qed
  qed
  moreover have "hb_log h' = hb_log h @ (a @ b)" using a(1) b(1) by simp
  ultimately show ?thesis by blast
qed

theorem heartbeat_keeps_live_devices_witness:
  "dget (hb_conns (heartbeat_round (\<lambda>l e. True) 91 30 (\<lambda>d. VNone) demo_hub)) (VStr ''a'') = None \<and>
   dget (hb_conns demo_hub) (VStr ''a'') = Some 0"
proof -
  have reg: "dget (hb_conns demo_hub) (VStr ''a'') = Some 0" "dc_last_heartbeat (hb_objs demo_hub ! 0) = 0"
    by (simp_all add: demo_hub_def hub_connect_def sock_op_eq new_hub_def Let_def)
  from heartbeat_keeps_live_devices [OF demo_hub_ok refl, of "\<lambda>l e. True" 91 30 "\<lambda>d. VNone"] reg
  show ?thesis by fastforce
qed

end
