(* ===== verification/Sessions.thy ===== *)
theory Sessions
  imports Protocol Interfaces
begin

text \<open>
  \<open>server/ws/sessions.py\<close> (execution sessions with removal of idle ones) and \<open>server/ws/rpc.py\<close>
  (dispatch of a call to its handler). Handlers are functions of the parameters that may
  raise; their duration is measured by two readings of the clock.
\<close>

section \<open>Sessions\<close>

record exec_session =
  es_session_id :: string
  es_device_id :: string
  es_created_at :: real
  es_last_active :: real
  es_active_modules :: "string list"
  es_execution_count :: nat

type_synonym sessions = "(string, exec_session) dict"

definition new_session :: "string \<Rightarrow> string \<times> real \<times> real \<Rightarrow> exec_session" where
  "new_session session_id x = (case x of (device_id, t1, t2) \<Rightarrow>
     \<lparr>es_session_id = session_id, es_device_id = device_id, es_created_at = t1,
      es_last_active = t2, es_active_modules = [], es_execution_count = 0\<rparr>)"

definition sess_create :: "string \<Rightarrow> string \<times> real \<times> real \<Rightarrow> sessions \<Rightarrow> sessions" where
  "sess_create session_id x s = dset session_id (new_session session_id x) s"

definition sess_get :: "sessions \<Rightarrow> string \<Rightarrow> exec_session option" where
  "sess_get s session_id = dget s session_id"

definition sess_by_device :: "sessions \<Rightarrow> string \<Rightarrow> exec_session list" where
  "sess_by_device s device_id = filter (\<lambda>e. es_device_id e = device_id) (dvalues s)"

definition sess_update_activity :: "real \<Rightarrow> string \<Rightarrow> sessions \<Rightarrow> sessions" where
  "sess_update_activity now session_id s = (case dget s session_id of
       None \<Rightarrow> s
     | Some e \<Rightarrow> dset session_id
         (e\<lparr>es_last_active := now, es_execution_count := es_execution_count e + 1\<rparr>) s)"

definition sess_remove :: "string \<Rightarrow> sessions \<Rightarrow> sessions" where
  "sess_remove session_id s = ddel session_id s"

definition stale_sessions :: "real \<Rightarrow> int \<Rightarrow> sessions \<Rightarrow> (string \<times> exec_session) list" where
  "stale_sessions now max_idle s = filter (\<lambda>(sid, e). of_int max_idle < now - es_last_active e) s"

definition cleanup_stale :: "real \<Rightarrow> int \<Rightarrow> sessions \<Rightarrow> nat \<times> sessions" where
  "cleanup_stale now max_idle s =
     (let stale = stale_sessions now max_idle s in
      (length stale, fold (\<lambda>(sid, e). ddel sid) stale s))"

definition active_count :: "sessions \<Rightarrow> nat" where
  "active_count s = length s"

interpretation sessions: keyed_store sess_create sess_get sess_remove new_session dict_ok
  by unfold_locales (simp_all add: sess_create_def sess_get_def sess_remove_def dict_simps)

datatype session_event =
    Create string "string \<times> real \<times> real" | Touch real string | Remove string | Cleanup real int

fun session_step :: "session_event \<Rightarrow> sessions \<Rightarrow> sessions" where
  "session_step (Create i x) s = sess_create i x s"
| "session_step (Touch t i) s = sess_update_activity t i s"
| "session_step (Remove i) s = sess_remove i s"
| "session_step (Cleanup t m) s = snd (cleanup_stale t m s)"

lemma fold_ddel_filter:
  "fold (\<lambda>(sid, e). ddel sid) xs s = filter (\<lambda>p. fst p \<notin> fst ` set xs) s"
proof (induction xs arbitrary: s)
  case Nil
  then show ?case by simp
next
  case (Cons x xs)
  obtain k e where x: "x = (k, e)" by (cases x)
  have "fold (\<lambda>(sid, e). ddel sid) (x # xs) s = filter (\<lambda>p. fst p \<notin> fst ` set xs) (ddel k s)"
    by (simp add: x Cons)
  also have "\<dots> = filter (\<lambda>p. fst p \<notin> fst ` set (x # xs)) s"
    by (simp add: ddel_filter x conj_commute)
  finally show ?case .
qed

lemma cleanup_filter:
  assumes "dict_ok s"
  shows "snd (cleanup_stale now max_idle s) = filter (\<lambda>(sid, e). now - es_last_active e \<le> of_int max_idle) s"
proof -
  have "fst p \<notin> fst ` set (stale_sessions now max_idle s) \<longleftrightarrow> p \<notin> set (stale_sessions now max_idle s)"
    if "p \<in> set s" for p
    using assms that by (auto simp: stale_sessions_def dict_ok_def distinct_map inj_on_def)
  then show ?thesis
    unfolding cleanup_stale_def Let_def snd_conv fold_ddel_filter
    by (intro filter_cong refl) (auto simp: stale_sessions_def)
qed

text \<open>The background task of the server: a cleanup at each of the times \<open>nows\<close>. Undisturbed, all that counts
  is the last one.\<close>

definition session_cleanup_loop :: "int \<Rightarrow> real list \<Rightarrow> sessions \<Rightarrow> sessions" where
  "session_cleanup_loop max_idle_seconds nows = fold (\<lambda>now s. snd (cleanup_stale now max_idle_seconds s)) nows"

lemma cleanup_loop_last:
  assumes "dict_ok s" and "sorted (nows @ [now])"
  shows "session_cleanup_loop m (nows @ [now]) s = snd (cleanup_stale now m s)"
  using assms
proof (induction nows arbitrary: s)
  case Nil
  then show ?case by (simp add: session_cleanup_loop_def)
next
  case (Cons t nows)
  have ok: "dict_ok (snd (cleanup_stale t m s))" using Cons.prems by (simp add: cleanup_filter)
  have "session_cleanup_loop m ((t # nows) @ [now]) s = session_cleanup_loop m (nows @ [now]) (snd (cleanup_stale t m s))"
    by (simp add: session_cleanup_loop_def)
  also have "\<dots> = snd (cleanup_stale now m (snd (cleanup_stale t m s)))" using Cons ok by simp
  also have "\<dots> = snd (cleanup_stale now m s)"
    using Cons.prems ok by (auto simp: cleanup_filter intro!: filter_cong)
  finally show ?case .
qed

interpretation session_steps: step_system session_step dict_ok
proof unfold_locales
  show "dict_ok s \<Longrightarrow> dict_ok (session_step e s)" for e s
    by (cases e) (auto simp: sess_create_def sess_remove_def sess_update_activity_def cleanup_filter
        split: option.split)
qed

text \<open>The cleanup removes exactly the sessions idle for more than the limit and reports how
  many: after any history of creations, activity, removals and cleanups, a session is found
  after the cleanup if and only if it was there and is not stale, unchanged.\<close>

theorem cleanup_removes_exactly_stale_sessions:
  "let s = fold session_step es []; (n, s') = cleanup_stale now max_idle s in
   (\<forall>i. sess_get s' i = (case sess_get s i of None \<Rightarrow> None
       | Some e \<Rightarrow> if of_int max_idle < now - es_last_active e then None else Some e)) \<and>
   active_count s' + n = active_count s"
proof -
  let ?s = "fold session_step es []"
  have ok: "dict_ok ?s" by (rule session_steps.inv_run) simp
  have "sess_get (snd (cleanup_stale now max_idle ?s)) i = (case sess_get ?s i of None \<Rightarrow> None
       | Some e \<Rightarrow> if of_int max_idle < now - es_last_active e then None else Some e)" for i
    by (auto simp: sess_get_def cleanup_filter [OF ok] dget_filter [OF ok] split: option.split)
  moreover have "length (snd (cleanup_stale now max_idle ?s)) + fst (cleanup_stale now max_idle ?s) = length ?s"
  proof -
    have eq: "(\<lambda>(sid, e). now - es_last_active e \<le> of_int max_idle)
        = (\<lambda>p. \<not> (case p of (sid, e) \<Rightarrow> of_int max_idle < now - es_last_active e))"
      by (auto simp: fun_eq_iff)
    show ?thesis unfolding cleanup_filter [OF ok] eq
      by (simp add: cleanup_stale_def stale_sessions_def Let_def sum_length_filter_compl add.commute)
  qed
  ultimately show ?thesis
    by (cases "cleanup_stale now max_idle ?s") (simp add: Let_def active_count_def)
qed

section \<open>Dispatch\<close>

type_synonym handlers = "(pyval, pyval \<Rightarrow> exn + pyval) dict"

text \<open>One call: the clock at its start and end, the trace of an exception, and what the message
  constructor takes (a fresh uuid and the time).\<close>

record call_env =
  cl_start :: real
  cl_end :: real
  cl_uuid :: string
  cl_now :: real
  cl_format_exc :: "exn \<Rightarrow> string"

definition dispatch :: "handlers \<Rightarrow> (pyval \<Rightarrow> string) \<Rightarrow> call_env \<Rightarrow> rpc_msg \<Rightarrow> exn + rpc_msg" where
  "dispatch handlers str env msg =
     (let method = py_or (rm_method msg) (VStr []) in
      if \<not> hashable method then Inl (TypeError ''unhashable type'')
      else case dget handlers method of
        None \<Rightarrow> Inr (make_error (cl_uuid env) (cl_now env) (rm_id msg) (VStr ''METHOD_NOT_FOUND'')
          (VStr (''Unknown method: '' @ (case method of VStr s \<Rightarrow> s | v \<Rightarrow> str v))) VNone)
      | Some handler \<Rightarrow> (case handler (rm_params msg) of
          Inr result \<Rightarrow>
            Inr ((make_result (cl_uuid env) (cl_now env) (rm_id msg) result)
              \<lparr>rm_metadata := str_dict [(''duration_ms'', VFloat (py_round 2 ((cl_end env - cl_start env) * 1000)))]\<rparr>)
        | Inl e \<Rightarrow> Inr (make_error (cl_uuid env) (cl_now env) (rm_id msg) (VStr ''EXECUTION_ERROR'')
            (VStr (exn_message e)) (VStr (cl_format_exc env e)))))"

definition register_handler :: "pyval \<Rightarrow> (pyval \<Rightarrow> exn + pyval) \<Rightarrow> handlers \<Rightarrow> handlers" where
  "register_handler method handler handlers = dset method handler handlers"

definition handle_ping :: "real \<Rightarrow> pyval \<Rightarrow> exn + pyval" where
  "handle_ping now params = Inr (str_dict [(''pong'', VBool True), (''timestamp'', VFloat now)])"

definition handle_echo :: "pyval \<Rightarrow> exn + pyval" where
  "handle_echo params = Inr params"

text \<open>The dispatcher of the server, with its two methods; \<open>now\<close> is the clock \<open>ping\<close> reads.\<close>

definition builtin_handlers :: "real \<Rightarrow> handlers" where
  "builtin_handlers now = register_handler (VStr ''echo'') handle_echo
     (register_handler (VStr ''ping'') (handle_ping now) [])"

text \<open>C14: A call with a usable method always gets exactly one answer, under its own id: a result
  with the handler's value, or an error that says whether the method is unknown or the
  handler raised, with its message.\<close>

theorem dispatch_answers_under_the_call_id:
  assumes "truthy (rm_id msg)" and "hashable (py_or (rm_method msg) (VStr []))"
  shows "\<exists>r. dispatch handlers str env msg = Inr r \<and> rm_id r = rm_id msg \<and>
    (case dget handlers (py_or (rm_method msg) (VStr [])) of
       None \<Rightarrow> rm_type r = MT_ERROR \<and> py_get (rm_error r) ''code'' VNone = Inr (VStr ''METHOD_NOT_FOUND'')
     | Some h \<Rightarrow> (case h (rm_params msg) of
           Inr v \<Rightarrow> rm_type r = MT_RESULT \<and> rm_result r = v
         | Inl e \<Rightarrow> rm_type r = MT_ERROR \<and> py_get (rm_error r) ''code'' VNone = Inr (VStr ''EXECUTION_ERROR'') \<and>
             py_get (rm_error r) ''message'' VNone = Inr (VStr (exn_message e))))"
  using assms
  by (auto simp: dispatch_def Let_def make_error_def make_result_def rpc_message_def py_get_def str_dict_def
      py_or_def [of "rm_id msg"] split: option.split sum.split)

theorem dispatch_answers_under_the_call_id_witness:
  "\<exists>r. dispatch (builtin_handlers 5) (\<lambda>v. []) \<lparr>cl_start = 0, cl_end = 1, cl_uuid = ''u'', cl_now = 2, cl_format_exc = (\<lambda>e. [])\<rparr>
     (make_call ''id1'' 0 ''echo'' (str_dict [(''a'', VInt 1)]) VNone) = Inr r \<and>
     rm_type r = MT_RESULT \<and> rm_result r = str_dict [(''a'', VInt 1)] \<and> rm_id r = VStr ''id1''"
proof -
  let ?m = "make_call ''id1'' 0 ''echo'' (str_dict [(''a'', VInt 1)]) VNone"
  have m: "rm_id ?m = VStr ''id1''" "rm_method ?m = VStr ''echo''" "rm_params ?m = str_dict [(''a'', VInt 1)]"
    by (simp_all add: make_call_def rpc_message_def py_or_def str_dict_def)
  have "truthy (rm_id ?m)" "hashable (py_or (rm_method ?m) (VStr []))" by (simp_all add: m py_or_def)
  from dispatch_answers_under_the_call_id [OF this, of "builtin_handlers 5" "\<lambda>v. []"
      "\<lparr>cl_start = 0, cl_end = 1, cl_uuid = ''u'', cl_now = 2, cl_format_exc = (\<lambda>e. [])\<rparr>"]
  show ?thesis
    by (simp add: m py_or_def builtin_handlers_def register_handler_def handle_echo_def conj_ac)
qed

end
