(* ===== verification/Endpoint.thy ===== *)
theory Endpoint
  imports Hub Sessions Models
begin

text \<open>
  \<open>server/app.py\<close>: the handler of one WebSocket, as the steps between its suspensions: opening
  (accept and register), one message, and the end. Several handlers interleave on the shared
  hub and sessions. \<open>raw\<close> is the JSON value of a text frame, or \<open>None\<close> when it is not JSON.
\<close>

record server =
  sv_hub :: hub
  sv_sessions :: sessions

record handler =
  hd_device_id :: pyval
  hd_conn :: "nat option"
  hd_socket :: nat

record ws_env =
  we_uuid :: string
  we_now :: real
  we_t1 :: real
  we_t2 :: real
  we_call :: call_env
  we_str :: "pyval \<Rightarrow> string"
  we_handlers :: handlers

definition unknown_id :: pyval where
  "unknown_id = VStr ''unknown''"

text \<open>Opening: the answer says whether the receive loop is entered.\<close>

definition ws_open :: "net \<Rightarrow> real \<Rightarrow> real \<Rightarrow> nat \<Rightarrow> server \<Rightarrow> bool \<times> handler \<times> server" where
  "ws_open net t1 t2 w sv = (case hub_connect net t1 t2 unknown_id w VNone (sv_hub sv) of
       (Inl e, h) \<Rightarrow> (False, \<lparr>hd_device_id = unknown_id, hd_conn = None, hd_socket = w\<rparr>, sv\<lparr>sv_hub := h\<rparr>)
     | (Inr ref, h) \<Rightarrow> (True, \<lparr>hd_device_id = unknown_id, hd_conn = Some ref, hd_socket = w\<rparr>, sv\<lparr>sv_hub := h\<rparr>))"

text \<open>\<open>await websocket.send_text(m.to_json())\<close>\<close>

definition ws_send :: "net \<Rightarrow> ws_env \<Rightarrow> rpc_msg \<Rightarrow> handler \<Rightarrow> server \<Rightarrow> exn option \<times> server" where
  "ws_send net env m hn sv = (case to_json (we_str env) m of
       Inl e \<Rightarrow> (Some e, sv)
     | Inr j \<Rightarrow> (case sock_op net (SSend (hd_socket hn) j) (sv_hub sv) of
         (ok, h) \<Rightarrow> (if ok then None else Some (OtherError ''WebSocketDisconnect'' []), sv\<lparr>sv_hub := h\<rparr>)))"

definition session_ack :: "ws_env \<Rightarrow> pyval \<Rightarrow> rpc_msg" where
  "session_ack env d = make_notification (we_uuid env) (we_now env) ''session.ack''
     (str_dict [(''session_id'', d), (''timestamp'', VFloat (we_now env))])"

definition conn_id :: "handler \<Rightarrow> server \<Rightarrow> pyval" where
  "conn_id hn sv = (case hd_conn hn of None \<Rightarrow> VNone | Some ref \<Rightarrow> dc_device_id (hb_objs (sv_hub sv) ! ref))"

definition on_session_init :: "net \<Rightarrow> ws_env \<Rightarrow> rpc_msg \<Rightarrow> handler \<Rightarrow> server \<Rightarrow> exn option \<times> handler \<times> server" where
  "on_session_init net env msg hn0 sv = (case py_get (rm_params msg) ''device_id'' (hd_device_id hn0) of
       Inl e \<Rightarrow> (Some e, hn0, sv)
     | Inr d \<Rightarrow>
         (let hn = hn0\<lparr>hd_device_id := d\<rparr> in
          if d \<noteq> conn_id hn sv then
            (case hub_connect net (we_t1 env) (we_t2 env) d (hd_socket hn) (rm_params msg)
                    (hub_disconnect net (conn_id hn sv) (sv_hub sv)) of
               (Inl e, h) \<Rightarrow> (Some e, hn, sv\<lparr>sv_hub := h\<rparr>)
             | (Inr ref, h) \<Rightarrow>
                 (let hn' = hn\<lparr>hd_conn := Some ref\<rparr> in
                  case ws_send net env (session_ack env d) hn' (sv\<lparr>sv_hub := h\<rparr>) of (e, sv') \<Rightarrow> (e, hn', sv')))
          else
            (case ws_send net env (session_ack env d) hn
                    (sv\<lparr>sv_hub := conn_set_metadata (rm_params msg) (the (hd_conn hn)) (sv_hub sv)\<rparr>) of
               (e, sv') \<Rightarrow> (e, hn, sv'))))"

text \<open>\<open>session_manager.update_activity(device_id)\<close> for an id off the wire; session ids are strings.\<close>

definition touch_session :: "real \<Rightarrow> pyval \<Rightarrow> sessions \<Rightarrow> sessions" where
  "touch_session now d s = (case d of VStr i \<Rightarrow> sess_update_activity now i s | _ \<Rightarrow> s)"

definition on_call :: "net \<Rightarrow> ws_env \<Rightarrow> rpc_msg \<Rightarrow> handler \<Rightarrow> server \<Rightarrow> exn option \<times> handler \<times> server" where
  "on_call net env msg hn sv =
     (if \<not> hashable (hd_device_id hn) then (Some (TypeError ''unhashable type''), hn, sv)
      else
        let sv1 = sv\<lparr>sv_sessions := touch_session (we_now env) (hd_device_id hn) (sv_sessions sv)\<rparr> in
        case dispatch (we_handlers env) (we_str env) (we_call env) msg of
          Inl e \<Rightarrow> (Some e, hn, sv1)
        | Inr response \<Rightarrow> (case ws_send net env response hn sv1 of (e, sv2) \<Rightarrow> (e, hn, sv2)))"

definition process_message :: "net \<Rightarrow> ws_env \<Rightarrow> rpc_msg \<Rightarrow> handler \<Rightarrow> server \<Rightarrow> exn option \<times> handler \<times> server" where
  "process_message net env msg hn sv =
     (if rm_type msg = MT_SESSION_INIT then on_session_init net env msg hn sv
      else if rm_type msg = MT_HEARTBEAT_ACK then
        (None, hn, sv\<lparr>sv_hub := conn_heartbeat (we_now env) (the (hd_conn hn)) (sv_hub sv)\<rparr>)
      else if rm_type msg = MT_CALL then on_call net env msg hn sv
      else (None, hn, sv))"

text \<open>A call with keyword arguments: Python rejects a name that is not a parameter, and a missing
  required one. The handler calls \<open>make_error(msg_id=.., code=.., message=..)\<close>.\<close>

definition bind_keywords :: "string list \<Rightarrow> string list \<Rightarrow> (string \<times> pyval) list \<Rightarrow> exn option" where
  "bind_keywords params required kws =
     (if \<exists>k\<in>fst ` set kws. k \<notin> set params then Some (TypeError ''got an unexpected keyword argument'')
      else if \<exists>r\<in>set required. r \<notin> fst ` set kws then Some (TypeError ''missing required positional argument'')
      else None)"

definition error_reply :: "ws_env \<Rightarrow> int \<Rightarrow> string \<Rightarrow> exn + rpc_msg" where
  "error_reply env code message =
     (let kws = [(''msg_id'', VStr ''unknown''), (''code'', VInt code), (''message'', VStr message)] in
      case bind_keywords [''call_id'', ''code'', ''message'', ''data''] [''call_id'', ''code'', ''message''] kws of
        Some e \<Rightarrow> Inl e
      | None \<Rightarrow> Inr (make_error (we_uuid env) (we_now env) (VStr ''unknown'') (VInt code) (VStr message) VNone))"

definition send_error :: "net \<Rightarrow> ws_env \<Rightarrow> int \<Rightarrow> string \<Rightarrow> handler \<Rightarrow> server \<Rightarrow> exn option \<times> server" where
  "send_error net env code message hn sv = (case error_reply env code message of
       Inl e \<Rightarrow> (Some e, sv)
     | Inr m \<Rightarrow> ws_send net env m hn sv)"

text \<open>One frame; the answer says whether the loop goes on.\<close>

definition ws_message :: "net \<Rightarrow> ws_env \<Rightarrow> pyval option \<Rightarrow> handler \<Rightarrow> server \<Rightarrow> bool \<times> handler \<times> server" where
  "ws_message net env raw hn sv =
     (case (case from_json (we_uuid env) (we_now env) raw of
              Inl e \<Rightarrow> (Some e, hn, sv) | Inr msg \<Rightarrow> process_message net env msg hn sv) of
        (None, hn', sv') \<Rightarrow> (True, hn', sv')
      | (Some (JSONDecodeError m), hn', sv') \<Rightarrow>
          (True, hn', snd (send_error net env (- 32700) ''Parse error'' hn' sv'))
      | (Some e, hn', sv') \<Rightarrow>
          (case send_error net env (- 32603) ''Internal error'' hn' sv' of
             (None, sv'') \<Rightarrow> (True, hn', sv'') | (Some e', sv'') \<Rightarrow> (False, hn', sv'')))"

definition ws_finish :: "net \<Rightarrow> handler \<Rightarrow> server \<Rightarrow> server" where
  "ws_finish net hn sv = (case hd_conn hn of
       None \<Rightarrow> sv | Some ref \<Rightarrow> sv\<lparr>sv_hub := hub_disconnect net (conn_id hn sv) (sv_hub sv)\<rparr>)"

section \<open>The whole server\<close>

text \<open>\<open>sy_handlers\<close> holds the handlers whose loop runs, by socket.\<close>

record system =
  sy_server :: server
  sy_handlers :: "(nat, handler) dict"

datatype server_event =
    EvOpen real real nat | EvFrame ws_env nat "pyval option" | EvClosed nat
  | EvHeartbeat real int "pyval \<Rightarrow> pyval" | EvCleanup real int

definition system_step :: "net \<Rightarrow> server_event \<Rightarrow> system \<Rightarrow> system" where
  "system_step net ev s = (case ev of
       EvOpen t1 t2 w \<Rightarrow> (case ws_open net t1 t2 w (sy_server s) of
           (True, hn, sv) \<Rightarrow> s\<lparr>sy_server := sv, sy_handlers := dset w hn (sy_handlers s)\<rparr>
         | (False, hn, sv) \<Rightarrow> s\<lparr>sy_server := sv\<rparr>)
     | EvFrame env w raw \<Rightarrow> (case dget (sy_handlers s) w of
           None \<Rightarrow> s
         | Some hn \<Rightarrow> (case ws_message net env raw hn (sy_server s) of
             (True, hn', sv) \<Rightarrow> s\<lparr>sy_server := sv, sy_handlers := dset w hn' (sy_handlers s)\<rparr>
           | (False, hn', sv) \<Rightarrow>
               s\<lparr>sy_server := ws_finish net hn' sv, sy_handlers := ddel w (sy_handlers s)\<rparr>))
     | EvClosed w \<Rightarrow> (case dget (sy_handlers s) w of
           None \<Rightarrow> s
         | Some hn \<Rightarrow> s\<lparr>sy_server := ws_finish net hn (sy_server s), sy_handlers := ddel w (sy_handlers s)\<rparr>)
     | EvHeartbeat now i payload \<Rightarrow> s\<lparr>sy_server := (sy_server s)
         \<lparr>sv_hub := heartbeat_round net now i payload (sv_hub (sy_server s))\<rparr>\<rparr>
     | EvCleanup now m \<Rightarrow> s\<lparr>sy_server := (sy_server s)
         \<lparr>sv_sessions := snd (cleanup_stale now m (sv_sessions (sy_server s)))\<rparr>\<rparr>)"

definition new_system :: system where
  "new_system = \<lparr>sy_server = \<lparr>sv_hub = new_hub, sv_sessions = []\<rparr>, sy_handlers = []\<rparr>"

text \<open>\<open>server/api/health.py\<close>\<close>

definition health_check :: "string \<Rightarrow> real \<Rightarrow> server \<Rightarrow> health_status" where
  "health_check version uptime sv = \<lparr>hs_status = ''ok'', hs_version = version,
     hs_uptime_seconds = py_round 1 uptime,
     hs_services = [(''api'', ''ok''), (''websocket'', ''ok''), (''database'', ''ok'')],
     hs_build_queue_size = 0, hs_active_executions = active_count (sv_sessions sv),
     hs_connected_devices = connected_count (sv_hub sv)\<rparr>"

section \<open>Facts\<close>

lemma error_reply_raises: "error_reply env code message = Inl (TypeError ''got an unexpected keyword argument'')"
  by (simp add: error_reply_def Let_def bind_keywords_def)

lemma send_error_raises: "send_error net env code message hn sv =
    (Some (TypeError ''got an unexpected keyword argument''), sv)"
  by (simp add: send_error_def error_reply_raises)



text \<open>The behaviour of a socket relied on: it can be accepted once.\<close>

definition accept_once :: "net \<Rightarrow> bool" where
  "accept_once net \<longleftrightarrow> (\<forall>l w. (SAccept w, True) \<in> set l \<longrightarrow> \<not> net l (SAccept w))"

definition is_send :: "sock_event \<Rightarrow> bool" where
  "is_send ev = (case ev of SSend w j \<Rightarrow> True | _ \<Rightarrow> False)"

lemma hub_connect_twice:
  assumes "accept_once net" and "(SAccept w, True) \<in> set (hb_log h)"
  shows "hub_connect net t1 t2 d w md h = (Inl accept_failed, h\<lparr>hb_log := hb_log h @ [(SAccept w, False)]\<rparr>)"
  using assms by (simp add: hub_connect_def sock_op_eq accept_once_def)

text \<open>C1: No device can ever register: the first session.init that names a device ends the
  connection. The handler closes its own socket, tries to accept it a second time, which
  fails, and leaves the loop without having sent anything; the named device is not
  connected, and neither is the connection it came from.\<close>

theorem session_init_ends_the_connection:
  assumes net: "accept_once net"
    and hn: "hd_conn hn = Some ref" "dc_device_id (hb_objs (sv_hub sv) ! ref) = unknown_id"
      "(SAccept (hd_socket hn), True) \<in> set (hb_log (sv_hub sv))"
    and msg: "from_json (we_uuid env) (we_now env) raw = Inr msg" "rm_type msg = MT_SESSION_INIT"
      "py_get (rm_params msg) ''device_id'' (hd_device_id hn) = Inr d" "d \<noteq> unknown_id"
  shows "\<exists>hn' sv' new. ws_message net env raw hn sv = (False, hn', sv') \<and>
    hb_log (sv_hub (ws_finish net hn' sv')) = hb_log (sv_hub sv) @ new \<and> (\<forall>(ev, ok)\<in>set new. \<not> is_send ev) \<and>
    dget (hb_conns (sv_hub (ws_finish net hn' sv'))) = (dget (hb_conns (sv_hub sv)))(unknown_id := None)"
proof -
  let ?h = "sv_hub sv"
  let ?h1 = "hub_disconnect net unknown_id ?h"
  have log1: "\<exists>l. hb_log ?h1 = hb_log ?h @ l \<and> (\<forall>(ev, ok)\<in>set l. \<not> is_send ev)"
    unfolding hub_disconnect_log by (auto simp: is_send_def split: option.split)
  then obtain l where l: "hb_log ?h1 = hb_log ?h @ l" "\<forall>(ev, ok)\<in>set l. \<not> is_send ev" by blast
  let ?h2 = "?h1\<lparr>hb_log := hb_log ?h1 @ [(SAccept (hd_socket hn), False)]\<rparr>"
  let ?hn = "hn\<lparr>hd_device_id := d\<rparr>" and ?sv = "sv\<lparr>sv_hub := ?h2\<rparr>"
  have cid: "conn_id hn sv = unknown_id" "conn_id ?hn sv = unknown_id" using hn by (simp_all add: conn_id_def)
  have "(SAccept (hd_socket hn), True) \<in> set (hb_log ?h1)" using hn(3) l(1) by simp
  then have con: "hub_connect net (we_t1 env) (we_t2 env) d (hd_socket hn) (rm_params msg) ?h1 = (Inl accept_failed, ?h2)"
    by (rule hub_connect_twice [OF net])
  have "process_message net env msg hn sv = (Some accept_failed, ?hn, ?sv)"
    using msg cid con by (simp add: process_message_def on_session_init_def Let_def)
  then have run: "ws_message net env raw hn sv = (False, ?hn, ?sv)"
    using msg(1) by (simp add: ws_message_def accept_failed_def send_error_raises)
  have "conn_id ?hn ?sv = unknown_id" using hn by (simp add: conn_id_def hub_disconnect_simps)
  then have fin: "sv_hub (ws_finish net ?hn ?sv) = hub_disconnect net unknown_id ?h2"
    using hn(1) by (simp add: ws_finish_def)
  have "dget (hb_conns ?h2) unknown_id = None" by (simp add: hub_disconnect_simps)
  then have same: "hub_disconnect net unknown_id ?h2 = ?h2" by (simp add: hub_disconnect_def)
  have "hb_log (sv_hub (ws_finish net ?hn ?sv)) = hb_log ?h @ (l @ [(SAccept (hd_socket hn), False)])"
    unfolding fin same using l(1) by simp
  moreover have "\<forall>(ev, ok)\<in>set (l @ [(SAccept (hd_socket hn), False)]). \<not> is_send ev"
    using l(2) by (auto simp: is_send_def)
  moreover have "dget (hb_conns (sv_hub (ws_finish net ?hn ?sv))) = (dget (hb_conns ?h))(unknown_id := None)"
    unfolding fin same by (simp add: hub_disconnect_simps)
  ultimately show ?thesis using run by blast
qed

definition once_net :: net where
  "once_net l ev = ((ev, True) \<notin> set l)"

definition demo_env :: ws_env where
  "demo_env = \<lparr>we_uuid = ''u'', we_now = 0, we_t1 = 0, we_t2 = 0,
    we_call = \<lparr>cl_start = 0, cl_end = 0, cl_uuid = [], cl_now = 0, cl_format_exc = (\<lambda>e. [])\<rparr>,
    we_str = (\<lambda>v. []), we_handlers = []\<rparr>"

theorem session_init_ends_the_connection_witness:
  "let (go, hn, sv) = ws_open once_net 0 0 1 (sy_server new_system) in
   go \<and> fst (ws_message once_net demo_env
     (Some (VDict [(VStr ''type'', VStr ''session.init''), (VStr ''params'', VDict [(VStr ''device_id'', VStr ''phone'')])])) hn sv)
     = False"
proof -
  let ?v = "VDict [(VStr ''type'', VStr ''session.init''), (VStr ''params'', VDict [(VStr ''device_id'', VStr ''phone'')])]"
  obtain go hn sv where o: "ws_open once_net 0 0 1 (sy_server new_system) = (go, hn, sv)" by (metis prod_cases3)
  then have h: "go" "hd_conn hn = Some 0" "dc_device_id (hb_objs (sv_hub sv) ! 0) = unknown_id"
    "(SAccept (hd_socket hn), True) \<in> set (hb_log (sv_hub sv))" "hd_device_id hn = unknown_id"
    by (auto simp: ws_open_def hub_connect_def sock_op_eq once_net_def new_system_def new_hub_def Let_def unknown_id_def)
  obtain msg where m: "from_json (we_uuid demo_env) (we_now demo_env) (Some ?v) = Inr msg"
    "rm_type msg = MT_SESSION_INIT" "rm_params msg = VDict [(VStr ''device_id'', VStr ''phone'')]"
    by (simp add: from_json_def from_dict_def py_get_def parse_msg_type_def all_msg_types_def
        rpc_message_def py_or_def)
  have "accept_once once_net" by (simp add: accept_once_def once_net_def)
  from session_init_ends_the_connection [OF this h(2-4) m(1,2), of "VStr ''phone''"] m(3)
  have "fst (ws_message once_net demo_env (Some ?v) hn sv) = False"
    by (auto simp: py_get_def unknown_id_def)
  with h(1) o show ?thesis by simp
qed

text \<open>Clients that have not named a device disconnect each other: they all register under one
  id, so the second replaces and closes the first, and when the first's handler then ends,
  it unregisters and closes the second.\<close>

theorem waiting_clients_disconnect_each_other:
  assumes "ws_open net t1 t1' w1 sv = (True, hn1, sv1)"
    and "ws_open net t2 t2' w2 sv1 = (True, hn2, sv2)"
    and "sv3 = ws_finish net hn1 sv2"
  shows "dget (hb_conns (sv_hub sv2)) unknown_id = hd_conn hn2 \<and>
    dget (hb_conns (sv_hub sv3)) unknown_id = None \<and>
    (\<exists>b. (SClose w1, b) \<in> set (hb_log (sv_hub sv2))) \<and> (\<exists>b. (SClose w2, b) \<in> set (hb_log (sv_hub sv3)))"
proof -
  have hash: "hashable unknown_id" by (simp add: unknown_id_def)
  from assms(1) obtain h1 r1 where c1: "hub_connect net t1 t1' unknown_id w1 VNone (sv_hub sv) = (Inr r1, h1)"
    and s1: "sv_hub sv1 = h1" "hd_conn hn1 = Some r1"
    by (auto simp: ws_open_def split: prod.splits sum.splits)
  from assms(2) obtain h2 r2 where c2: "hub_connect net t2 t2' unknown_id w2 VNone (sv_hub sv1) = (Inr r2, h2)"
    and s2: "sv_hub sv2 = h2" "hd_conn hn2 = Some r2"
    by (auto simp: ws_open_def split: prod.splits sum.splits)
  from c1 hash have r1: "dget (hb_conns h1) unknown_id = Some r1" "r1 < length (hb_objs h1)"
    "dc_device_id (hb_objs h1 ! r1) = unknown_id" "socket_of h1 r1 = w1"
    by (auto simp: hub_connect_def sock_op_eq Let_def dict_simps socket_of_def split: bool.splits option.splits)
  have acc: "net (hb_log h1) (SAccept w2)" using c2 s1 hash
    by (auto simp: hub_connect_def sock_op_eq Let_def split: bool.splits)
  with c2 s1 hash r1 have r2: "dget (hb_conns h2) unknown_id = Some r2" "r2 = length (hb_objs h1)"
    "\<exists>c. hb_objs h2 = hb_objs h1 @ [c] \<and> dc_socket c = w2"
    "\<exists>b. (SClose w1, b) \<in> set (hb_log h2)"
    by (auto simp: hub_connect_def sock_op_eq Let_def dict_simps socket_of_def split: bool.splits option.splits)
  have sock: "socket_of h2 r2 = w2" using r2(2,3) by (auto simp: socket_of_def)
  have "conn_id hn1 sv2 = unknown_id" using r1(2,3) r2(3) by (auto simp: conn_id_def s1 s2 nth_append)
  then have "sv_hub sv3 = hub_disconnect net unknown_id h2" by (simp add: assms(3) ws_finish_def s1 s2)
  then show ?thesis using r2(1,4) s2 by (auto simp: hub_disconnect_simps hub_disconnect_log sock)
qed

theorem waiting_clients_disconnect_each_other_witness:
  "\<exists>hn1 sv1 hn2 sv2. ws_open once_net 0 0 1 (sy_server new_system) = (True, hn1, sv1) \<and>
     ws_open once_net 1 1 2 sv1 = (True, hn2, sv2) \<and>
     (\<exists>b. (SClose 2, b) \<in> set (hb_log (sv_hub (ws_finish once_net hn1 sv2))))"
proof -
  obtain hn1 sv1 where o1: "ws_open once_net 0 0 1 (sy_server new_system) = (True, hn1, sv1)"
    by (simp add: ws_open_def hub_connect_def sock_op_eq once_net_def new_system_def new_hub_def Let_def unknown_id_def)
  moreover from o1 have "(SAccept 2, True) \<notin> set (hb_log (sv_hub sv1))"
    by (auto simp: ws_open_def hub_connect_def sock_op_eq once_net_def new_system_def new_hub_def Let_def
        unknown_id_def split: bool.splits)
  then obtain hn2 sv2 where o2: "ws_open once_net 1 1 2 sv1 = (True, hn2, sv2)"
    by (auto simp: ws_open_def hub_connect_def sock_op_eq once_net_def Let_def unknown_id_def split: bool.split)
  ultimately show ?thesis using waiting_clients_disconnect_each_other [OF o1 o2 refl] by blast
qed

section \<open>Sessions of the server\<close>

lemma sessions_ws_send: "sv_sessions (snd (ws_send net env m hn sv)) = sv_sessions sv"
  by (auto simp: ws_send_def sock_op_eq split: sum.split)

lemma sessions_stay_empty:
  assumes "sv_sessions sv = []"
  shows "sv_sessions (snd (snd (ws_message net env raw hn sv))) = []"
proof -
  have send: "ws_send net env m hn sv = (e, sv') \<Longrightarrow> sv_sessions sv' = sv_sessions sv" for m hn sv e sv'
    using sessions_ws_send [of net env m hn sv] by simp
  have init: "sv_sessions (snd (snd (on_session_init net env msg hn sv))) = []" for msg
    using assms by (auto simp: on_session_init_def Let_def dest: send split: sum.split prod.split)
  have call: "sv_sessions (snd (snd (on_call net env msg hn sv))) = []" for msg
    using assms by (auto simp: on_call_def Let_def touch_session_def sess_update_activity_def
        dest: send split: sum.split prod.split pyval.split)
  have proc: "sv_sessions (snd (snd (process_message net env msg hn sv))) = []" for msg
    using assms init call by (simp add: process_message_def)
  have "sv_sessions (snd (snd (case from_json (we_uuid env) (we_now env) raw of
      Inl e \<Rightarrow> (Some e, hn, sv) | Inr msg \<Rightarrow> process_message net env msg hn sv))) = []"
    using assms proc by (simp split: sum.split)
  then show ?thesis
    by (auto simp: ws_message_def send_error_raises split: prod.splits option.splits exn.splits)
qed

definition no_sessions :: "system \<Rightarrow> bool" where
  "no_sessions s = (sv_sessions (sy_server s) = [])"

interpretation systems: step_system "system_step net" no_sessions
proof unfold_locales
  fix s e assume ns: "no_sessions s"
  show "no_sessions (system_step net e s)"
  proof (cases e)
    case (EvFrame env w raw)
    have "sv_sessions (snd (snd (ws_message net env raw hn (sy_server s)))) = []" for hn
      using sessions_stay_empty [of "sy_server s"] ns by (simp add: no_sessions_def)
    then show ?thesis using EvFrame ns
      by (auto simp: system_step_def no_sessions_def ws_finish_def split: option.split prod.split bool.split
          intro: sym) (metis snd_conv)+
  qed (use ns in \<open>auto simp: system_step_def no_sessions_def ws_open_def ws_finish_def cleanup_stale_def
        stale_sessions_def Let_def split: prod.split sum.split option.split bool.split\<close>)
qed

text \<open>The server never creates a session, so the health endpoint always reports no active
  executions.\<close>

theorem active_executions_always_zero:
  "hs_active_executions (health_check version uptime (sy_server (fold (system_step net) es new_system))) = 0"
proof -
  have "no_sessions (fold (system_step net) es new_system)"
    by (rule systems.inv_run) (simp add: no_sessions_def new_system_def)
  then show ?thesis by (simp add: health_check_def active_count_def no_sessions_def)
qed

end
