(* ===== verification/Install.thy ===== *)
theory Install
  imports Cache Models
begin

text \<open>
  \<open>client/resolver.py\<close> and \<open>client/installer.py\<close>: choosing how to provide a package and carrying it
  out. Everything outside the program (the import system, apt, pip, the cloud API, the files
  a server sends) is the record \<open>client_env\<close>; each of its functions gives what the call
  returned or the exception it raised. Terminal output is left out.
\<close>

record client_env =
  ce_find_spec :: "string \<Rightarrow> exn + bool"
  ce_version_of :: "string \<Rightarrow> exn + string"
  ce_apt_list :: "string list \<Rightarrow> exn + string"
  ce_api_package :: "string \<Rightarrow> (string \<times> string) list \<Rightarrow> exn + int \<times> (exn + package_info)"
  ce_api_wheel :: "string \<Rightarrow> (string \<times> string) list \<Rightarrow> exn + int \<times> (exn + string option)"
  ce_api_build :: "string \<Rightarrow> string \<Rightarrow> exn + int \<times> (exn + string option)"
  ce_api_poll :: "nat \<Rightarrow> exn + int \<times> (exn + string \<times> string option)"
  ce_download :: "string \<Rightarrow> exn + content \<times> exn option"
  ce_run :: "string list \<Rightarrow> exn + int"
  ce_executable :: string
  ce_file :: file_env
  ce_now :: real
  ce_offline :: bool
  ce_gpu_offload :: bool
  ce_is_termux :: bool
  ce_has_gpu :: bool
  ce_architecture :: string
  ce_python :: string
  ce_wheels_dir :: path

section \<open>Resolver\<close>

definition resolution :: "string \<Rightarrow> string \<Rightarrow> package_strategy \<Rightarrow> string \<Rightarrow> package_strategy list \<Rightarrow> package_resolution" where
  "resolution package version strategy reason fallbacks = \<lparr>pr_package = package, pr_version = version,
     pr_strategy = strategy, pr_info = None, pr_fallback_strategies = fallbacks, pr_reason = reason\<rparr>"

definition is_installed :: "client_env \<Rightarrow> string \<Rightarrow> exn + bool" where
  "is_installed env package = ce_find_spec env (py_lower (py_replace1 CHR ''-'' CHR ''_'' package))"

definition installed_version :: "client_env \<Rightarrow> string \<Rightarrow> string option" where
  "installed_version env package = (case ce_version_of env package of Inl e \<Rightarrow> None | Inr v \<Rightarrow> Some v)"

definition has_termux_pkg :: "client_env \<Rightarrow> string \<Rightarrow> bool" where
  "has_termux_pkg env package = (case ce_apt_list env [''apt'', ''list'', ''python-'' @ package] of
       Inl e \<Rightarrow> False | Inr out \<Rightarrow> py_contains out (''python-'' @ package))"

definition query_cloud :: "client_env \<Rightarrow> string \<Rightarrow> string \<Rightarrow> package_info option" where
  "query_cloud env package version =
     (let params = [(''arch'', ce_architecture env), (''python'', ce_python env)] @
            (if version \<noteq> ''latest'' then [(''version'', version)] else []) in
      case ce_api_package env (''/api/v1/packages/'' @ package) params of
        Inl e \<Rightarrow> None
      | Inr (status, body) \<Rightarrow>
          (if status = 200 then (case body of Inl e \<Rightarrow> None | Inr info \<Rightarrow> Some info) else None))"

definition cloud_resolution :: "client_env \<Rightarrow> string \<Rightarrow> string \<Rightarrow> package_info \<Rightarrow> package_resolution" where
  "cloud_resolution env package version info =
     (let strategy = (if pi_requires_gpu info \<and> \<not> ce_has_gpu env \<and> ce_gpu_offload env then HYBRID
                      else pi_strategy info) in
      \<lparr>pr_package = package, pr_version = (if pi_version info \<noteq> [] then pi_version info else version),
       pr_strategy = strategy, pr_info = Some info,
       pr_fallback_strategies = filter (\<lambda>s. s \<noteq> strategy) [CLOUD_EXEC, CLOUD_BUILD],
       pr_reason = ''Cloud registry: '' @ strategy_value strategy\<rparr>)"

definition resolve_uncached :: "client_env \<Rightarrow> string \<Rightarrow> string \<Rightarrow> package_resolution" where
  "resolve_uncached env package version =
     (case (if ce_offline env then None else query_cloud env package version) of
        Some info \<Rightarrow> cloud_resolution env package version info
      | None \<Rightarrow>
          (if ce_is_termux env \<and> has_termux_pkg env package then
             resolution package version TERMUX_PKG ''Available as Termux package'' []
           else if package \<in> set CLOUD_PREFERRED_PACKAGES then
             resolution package version CLOUD_EXEC
               (''Heavy package '' @ [CHR 0xE2, CHR 0x80, CHR 0x94] @ '' cloud execution recommended'') [CLOUD_BUILD]
           else
             resolution package version LOCAL_INSTALL
               ''Attempting local install with cloud fallback'' [CLOUD_WHEEL, CLOUD_BUILD, CLOUD_EXEC]))"

definition resolve :: "client_env \<Rightarrow> string \<Rightarrow> string \<Rightarrow> cache \<Rightarrow> (exn + package_resolution) \<times> cache" where
  "resolve env package version c = (case is_installed env package of
       Inl e \<Rightarrow> (Inl e, c)
     | Inr True \<Rightarrow>
         (Inr (resolution package
            (case installed_version env package of Some (x # xs) \<Rightarrow> x # xs | _ \<Rightarrow> version)
            LOCAL_INSTALL ''Already installed locally'' []), c)
     | Inr False \<Rightarrow>
         (case get_wheel (ce_file env) (ce_now env) package version c of
            (Inl e, c') \<Rightarrow> (Inl e, c')
          | (Inr (Some p), c') \<Rightarrow>
              (Inr (resolution package version LOCAL_INSTALL ''Found in local cache'' []), c')
          | (Inr None, c') \<Rightarrow> (Inr (resolve_uncached env package version), c')))"

section \<open>Installer\<close>

text \<open>What an installation changes: the cache (with the files it downloads) and the packages
  registered for cloud execution, with the hybrid flag.\<close>

record world =
  wo_cache :: cache
  wo_proxied :: "(string \<times> bool) list"

definition get_cached :: "client_env \<Rightarrow> string \<Rightarrow> string \<Rightarrow> world \<Rightarrow> (exn + path option) \<times> world" where
  "get_cached env package version w =
     (case get_wheel (ce_file env) (ce_now env) package version (wo_cache w) of
        (r, c) \<Rightarrow> (r, w\<lparr>wo_cache := c\<rparr>))"

definition run_ok :: "client_env \<Rightarrow> string list \<Rightarrow> exn + bool" where
  "run_ok env cmd = (case ce_run env cmd of Inl e \<Rightarrow> Inl e | Inr code \<Rightarrow> Inr (code = 0))"

definition pip_install :: "client_env \<Rightarrow> string \<Rightarrow> string list" where
  "pip_install env target = [ce_executable env, ''-m'', ''pip'', ''install'', ''--quiet'', target]"

definition install_local :: "client_env \<Rightarrow> string \<Rightarrow> string \<Rightarrow> world \<Rightarrow> (exn + bool) \<times> world" where
  "install_local env package version w = (case get_cached env package version w of
       (Inl e, w') \<Rightarrow> (Inl e, w')
     | (Inr cached, w') \<Rightarrow>
         (run_ok env (pip_install env (case cached of Some p \<Rightarrow> path_str p
            | None \<Rightarrow> if version \<noteq> ''latest'' then package @ ''=='' @ version else package)), w'))"

definition install_termux :: "client_env \<Rightarrow> string \<Rightarrow> world \<Rightarrow> (exn + bool) \<times> world" where
  "install_termux env package w = (run_ok env [''pkg'', ''install'', ''-y'', ''python-'' @ package], w)"

definition query_wheel_url :: "client_env \<Rightarrow> string \<Rightarrow> string option" where
  "query_wheel_url env package =
     (case ce_api_wheel env (''/api/v1/packages/'' @ package @ ''/wheel'')
             [(''arch'', ce_architecture env), (''python'', ce_python env)] of
        Inl e \<Rightarrow> None
      | Inr (status, body) \<Rightarrow>
          (if status = 200 then (case body of Inl e \<Rightarrow> None | Inr url \<Rightarrow> url) else None))"

text \<open>The response is written chunk by chunk, whatever its status; on an error (\<open>Some\<close>) the file keeps
  what had arrived. \<open>Inl\<close> is a failure before the file is opened (no connection).\<close>

definition download_wheel :: "client_env \<Rightarrow> string \<Rightarrow> world \<Rightarrow> path option \<times> world" where
  "download_wheel env url w =
     (let filename = hd (py_split CHR ''?'' (List.last (py_split CHR ''/'' url)));
          dest = path_join (ce_wheels_dir env) filename in
      case ce_download env url of
        Inl e \<Rightarrow> (None, w)
      | Inr (data, err) \<Rightarrow>
        (case fs_write dest data (ca_fs (wo_cache w)) of
           Inl e \<Rightarrow> (None, w)
         | Inr fs \<Rightarrow> (if err = None then Some dest else None, w\<lparr>wo_cache := (wo_cache w)\<lparr>ca_fs := fs\<rparr>\<rparr>)))"

definition store_download :: "client_env \<Rightarrow> string \<Rightarrow> string \<Rightarrow> path \<Rightarrow> string \<Rightarrow> world \<Rightarrow> (exn + path) \<times> world" where
  "store_download env package version p sha w =
     (case store_wheel (ce_file env) (ce_now env) (ce_now env) package version p sha (wo_cache w) of
        (r, c) \<Rightarrow> (r, w\<lparr>wo_cache := c\<rparr>))"

definition truthy_str :: "string option \<Rightarrow> string option" where
  "truthy_str s = (case s of Some (c # cs) \<Rightarrow> Some (c # cs) | _ \<Rightarrow> None)"

definition install_cloud_wheel ::
  "client_env \<Rightarrow> string \<Rightarrow> string \<Rightarrow> package_resolution \<Rightarrow> world \<Rightarrow> (exn + bool) \<times> world" where
  "install_cloud_wheel env package version res w =
     (let listed = (case pr_info res of None \<Rightarrow> None | Some i \<Rightarrow> truthy_str (pi_wheel_url i));
          url = (case listed of Some u \<Rightarrow> Some u | None \<Rightarrow> truthy_str (query_wheel_url env package)) in
      case url of
        None \<Rightarrow> (Inr False, w)
      | Some u \<Rightarrow>
          (case download_wheel env u w of
             (None, w1) \<Rightarrow> (Inr False, w1)
           | (Some p, w1) \<Rightarrow>
               (let sha = (case pr_info res of None \<Rightarrow> [] | Some i \<Rightarrow>
                      (case truthy_str (pi_wheel_hash i) of None \<Rightarrow> [] | Some h \<Rightarrow> h)) in
                case store_download env package version p sha w1 of
                  (Inl e, w2) \<Rightarrow> (Inl e, w2)
                | (Inr d, w2) \<Rightarrow> (run_ok env (pip_install env (path_str p)), w2))))"

text \<open>The polling loop, \<open>n\<close> turns left; \<open>k\<close> counts the polls made.\<close>

fun poll_build :: "client_env \<Rightarrow> string \<Rightarrow> string \<Rightarrow> nat \<Rightarrow> nat \<Rightarrow> world \<Rightarrow> (exn + bool) \<times> world" where
  "poll_build env package version 0 k w = (Inr False, w)"
| "poll_build env package version (Suc n) k w = (case ce_api_poll env k of
       Inl e \<Rightarrow> (Inl e, w)
     | Inr (code, body) \<Rightarrow>
         (if code \<noteq> 200 then poll_build env package version n (Suc k) w
          else case body of
              Inl e \<Rightarrow> (Inl e, w)
            | Inr (status, url) \<Rightarrow>
                (if status = ''succeeded'' then
                   (case truthy_str url of
                      None \<Rightarrow> poll_build env package version n (Suc k) w
                    | Some u \<Rightarrow>
                        (case download_wheel env u w of
                           (None, w1) \<Rightarrow> poll_build env package version n (Suc k) w1
                         | (Some p, w1) \<Rightarrow>
                             (case store_download env package version p [] w1 of
                                (Inl e, w2) \<Rightarrow> (Inl e, w2)
                              | (Inr d, w2) \<Rightarrow> install_local env package version w2)))
                 else if status = ''failed'' then (Inr False, w)
                 else poll_build env package version n (Suc k) w)))"

text \<open>\<open>except Exception\<close> around it all turns an exception into False.\<close>

definition install_cloud_build :: "client_env \<Rightarrow> string \<Rightarrow> string \<Rightarrow> world \<Rightarrow> (exn + bool) \<times> world" where
  "install_cloud_build env package version w =
     (case ce_api_build env package version of
        Inl e \<Rightarrow> (Inr False, w)
      | Inr (code, body) \<Rightarrow>
          (if code \<noteq> 200 \<and> code \<noteq> 201 then (Inr False, w)
           else case body of
               Inl e \<Rightarrow> (Inr False, w)
             | Inr build_id \<Rightarrow>
                 (case poll_build env package version 360 0 w of
                    (Inl e, w') \<Rightarrow> (Inr False, w') | (Inr b, w') \<Rightarrow> (Inr b, w'))))"

definition register_proxy :: "string \<Rightarrow> bool \<Rightarrow> world \<Rightarrow> world" where
  "register_proxy package hybrid w = w\<lparr>wo_proxied := wo_proxied w @ [(package, hybrid)]\<rparr>"

definition execute_strategy ::
  "client_env \<Rightarrow> string \<Rightarrow> string \<Rightarrow> package_resolution \<Rightarrow> package_strategy \<Rightarrow> world \<Rightarrow> (exn + bool) \<times> world" where
  "execute_strategy env package version res strategy w = (case strategy of
       LOCAL_INSTALL \<Rightarrow> install_local env package version w
     | TERMUX_PKG \<Rightarrow> install_termux env package w
     | CLOUD_WHEEL \<Rightarrow> install_cloud_wheel env package version res w
     | CLOUD_BUILD \<Rightarrow> install_cloud_build env package version w
     | CLOUD_EXEC \<Rightarrow> (Inr True, register_proxy package False w)
     | HYBRID \<Rightarrow> (Inr True, register_proxy package True w))"

fun try_strategies ::
  "client_env \<Rightarrow> string \<Rightarrow> string \<Rightarrow> package_resolution \<Rightarrow> package_strategy list \<Rightarrow> world \<Rightarrow> (exn + bool) \<times> world" where
  "try_strategies env package version res [] w =
     (Inl (OtherError ''PackageInstallError'' ''All strategies exhausted''), w)"
| "try_strategies env package version res (s # ss) w =
     (case execute_strategy env package version res s w of
        (Inr True, w') \<Rightarrow> (Inr True, w')
      | (_, w') \<Rightarrow> try_strategies env package version res ss w')"

definition install :: "client_env \<Rightarrow> string \<Rightarrow> string \<Rightarrow> bool \<Rightarrow> world \<Rightarrow> (exn + bool) \<times> world" where
  "install env package version force w = (case resolve env package version (wo_cache w) of
       (Inl e, c) \<Rightarrow> (Inl e, w\<lparr>wo_cache := c\<rparr>)
     | (Inr res, c) \<Rightarrow>
         (let w' = w\<lparr>wo_cache := c\<rparr> in
          if pr_strategy res = LOCAL_INSTALL \<and> \<not> force \<and> pr_reason res = ''Already installed locally''
          then (Inr True, w')
          else try_strategies env package version res (pr_strategy res # pr_fallback_strategies res) w'))"

section \<open>The plan\<close>

lemma resolve_uncached_distinct:
  "distinct (pr_strategy (resolve_uncached env package version) #
     pr_fallback_strategies (resolve_uncached env package version))"
  by (auto simp: resolve_uncached_def cloud_resolution_def resolution_def Let_def split: option.split)

lemma resolve_cases:
  "fst (resolve env package version c) = Inr r \<Longrightarrow>
   r = resolve_uncached env package version \<or>
   pr_fallback_strategies r = [] \<and> pr_strategy r = LOCAL_INSTALL \<and> pr_info r = None"
  by (auto simp: resolve_def resolution_def split: sum.splits bool.splits prod.splits option.splits)

text \<open>A resolution is a usable plan: it names each strategy once; offline it never rests on an
  answer of the cloud (whatever the cloud would say, the plan is the same and carries no
  package info); and online, what the cloud answers for an absent package decides it.\<close>

theorem resolution_plan:
  assumes "fst (resolve env package version c) = Inr r"
  shows "distinct (pr_strategy r # pr_fallback_strategies r) \<and>
    (ce_offline env \<longrightarrow> pr_info r = None \<and> resolve (env\<lparr>ce_api_package := api\<rparr>) package version c = resolve env package version c) \<and>
    (\<not> ce_offline env \<and> is_installed env package = Inr False \<and>
       fst (get_wheel (ce_file env) (ce_now env) package version c) = Inr None \<and>
       query_cloud env package version = Some info
     \<longrightarrow> r = cloud_resolution env package version info)"
proof -
  have frame: "is_installed (env\<lparr>ce_api_package := api\<rparr>) = is_installed env"
    "installed_version (env\<lparr>ce_api_package := api\<rparr>) = installed_version env"
    "has_termux_pkg (env\<lparr>ce_api_package := api\<rparr>) = has_termux_pkg env"
    "ce_file (env\<lparr>ce_api_package := api\<rparr>) = ce_file env"
    "ce_now (env\<lparr>ce_api_package := api\<rparr>) = ce_now env"
    by (simp_all add: fun_eq_iff is_installed_def installed_version_def has_termux_pkg_def)
  have "distinct (pr_strategy r # pr_fallback_strategies r)"
    using resolve_cases [OF assms] resolve_uncached_distinct [of env package version] by auto
  moreover have "pr_info r = None" if "ce_offline env"
    using resolve_cases [OF assms] that by (auto simp: resolve_uncached_def resolution_def)
  moreover have "resolve (env\<lparr>ce_api_package := api\<rparr>) package version c = resolve env package version c"
    if "ce_offline env"
  proof -
    have "resolve_uncached (env\<lparr>ce_api_package := api\<rparr>) package version = resolve_uncached env package version"
      using that by (simp add: resolve_uncached_def frame)
    then show ?thesis unfolding resolve_def frame by (simp only:)
  qed
  moreover have "r = cloud_resolution env package version info"
    if "\<not> ce_offline env" "is_installed env package = Inr False"
      "fst (get_wheel (ce_file env) (ce_now env) package version c) = Inr None"
      "query_cloud env package version = Some info"
    using that assms
    by (cases "get_wheel (ce_file env) (ce_now env) package version c")
      (simp add: resolve_def resolve_uncached_def)
  ultimately show ?thesis by blast
qed

definition demo_client :: client_env where
  "demo_client = \<lparr>ce_find_spec = (\<lambda>p. Inr False), ce_version_of = (\<lambda>p. Inl (OSError [])),
     ce_apt_list = (\<lambda>a. Inr []), ce_api_package = (\<lambda>u p. Inl (ConnectionError [])),
     ce_api_wheel = (\<lambda>u p. Inl (ConnectionError [])), ce_api_build = (\<lambda>p v. Inl (ConnectionError [])),
     ce_api_poll = (\<lambda>k. Inl (ConnectionError [])), ce_download = (\<lambda>u. Inr (Text [], None)),
     ce_run = (\<lambda>cmd. Inr 1), ce_executable = ''python'', ce_file = text_env, ce_now = 9,
     ce_offline = True, ce_gpu_offload = True, ce_is_termux = False, ce_has_gpu = False,
     ce_architecture = ''aarch64'', ce_python = ''3.11'', ce_wheels_dir = [''cache'', ''wheels'']\<rparr>"

theorem resolution_plan_witness:
  "\<exists>r. fst (resolve demo_client ''torch'' ''latest'' demo_cache) = Inr r \<and>
     distinct (pr_strategy r # pr_fallback_strategies r) \<and> pr_info r = None"
proof -
  have "\<exists>r. fst (resolve demo_client ''torch'' ''latest'' demo_cache) = Inr r"
    by (simp add: resolve_def is_installed_def get_wheel_def demo_client_def demo_cache_def cache_key_def
        Let_def split: sum.split)
  then obtain r where r: "fst (resolve demo_client ''torch'' ''latest'' demo_cache) = Inr r" ..
  have "ce_offline demo_client" by (simp add: demo_client_def)
  with resolution_plan [OF r] r show ?thesis by blast
qed

section \<open>Trying the plan\<close>

text \<open>The state after every strategy of a list was tried and failed (returned False or raised).\<close>

fun failed_after ::
  "client_env \<Rightarrow> string \<Rightarrow> string \<Rightarrow> package_resolution \<Rightarrow> package_strategy list \<Rightarrow> world \<Rightarrow> world option" where
  "failed_after env package version res [] w = Some w"
| "failed_after env package version res (s # ss) w =
     (case execute_strategy env package version res s w of
        (r, w') \<Rightarrow> if r = Inr True then None else failed_after env package version res ss w')"

definition all_failed :: exn where
  "all_failed = OtherError ''PackageInstallError'' ''All strategies exhausted''"

lemma try_step:
  "execute_strategy env package version res s w = (r, w') \<Longrightarrow>
   try_strategies env package version res (s # ss) w =
     (if r = Inr True then (Inr True, w') else try_strategies env package version res ss w')"
  by (cases r; cases "projr r") auto

lemma try_strategies_outcome:
  "(\<exists>pre s post w1 w'. ss = pre @ s # post \<and> failed_after env package version res pre w = Some w1 \<and>
      execute_strategy env package version res s w1 = (Inr True, w') \<and>
      try_strategies env package version res ss w = (Inr True, w')) \<or>
   (\<exists>w'. failed_after env package version res ss w = Some w' \<and>
      try_strategies env package version res ss w = (Inl all_failed, w'))"
proof (induction ss arbitrary: w)
  case Nil
  then show ?case by (simp add: all_failed_def)
next
  case (Cons s ss)
  obtain r w1 where x: "execute_strategy env package version res s w = (r, w1)" by (metis surj_pair)
  show ?case
  proof (cases "r = Inr True")
    case True
    with x show ?thesis unfolding try_step [OF x]
      by (intro disjI1 exI [of _ "[]"] exI [of _ s] exI [of _ ss] exI [of _ w] exI [of _ w1]) simp
  next
    case False
    have fa: "failed_after env package version res (s # pre) w = failed_after env package version res pre w1" for pre
      using x False by simp
    have tr: "try_strategies env package version res (s # ss) w = try_strategies env package version res ss w1"
      using False by (simp add: try_step [OF x] del: try_strategies.simps)
    from Cons.IH [of w1] show ?thesis
    proof (elim disjE exE conjE)
      fix pre s' post w2 w'
      assume "ss = pre @ s' # post" "failed_after env package version res pre w1 = Some w2"
        "execute_strategy env package version res s' w2 = (Inr True, w')"
        "try_strategies env package version res ss w1 = (Inr True, w')"
      then show ?thesis unfolding tr
        by (intro disjI1 exI [of _ "s # pre"] exI [of _ s'] exI [of _ post] exI [of _ w2] exI [of _ w'])
          (simp only: fa append_Cons simp_thms)
    next
      fix w'
      assume "failed_after env package version res ss w1 = Some w'"
        "try_strategies env package version res ss w1 = (Inl all_failed, w')"
      then show ?thesis unfolding tr fa by blast
    qed
  qed
qed

text \<open>An installation follows the plan: unless the package is there already, the strategy of the
  resolution and then its fallbacks are tried in order, exceptions counting as failures, until
  one succeeds, and the strategies after it are not tried; \<open>PackageInstallError\<close> is raised
  exactly when every one of them failed.\<close>

theorem install_follows_the_plan:
  assumes "resolve env package version (wo_cache w) = (Inr res, c)"
    and "force \<or> pr_strategy res \<noteq> LOCAL_INSTALL \<or> pr_reason res \<noteq> ''Already installed locally''"
  shows "(\<exists>pre s post w1 w'. pr_strategy res # pr_fallback_strategies res = pre @ s # post \<and>
        failed_after env package version res pre (w\<lparr>wo_cache := c\<rparr>) = Some w1 \<and>
        execute_strategy env package version res s w1 = (Inr True, w') \<and>
        install env package version force w = (Inr True, w')) \<or>
    (\<exists>w'. failed_after env package version res (pr_strategy res # pr_fallback_strategies res) (w\<lparr>wo_cache := c\<rparr>) = Some w' \<and>
        install env package version force w = (Inl all_failed, w'))"
proof -
  have "install env package version force w = try_strategies env package version res
      (pr_strategy res # pr_fallback_strategies res) (w\<lparr>wo_cache := c\<rparr>)"
    using assms by (auto simp: install_def Let_def simp del: try_strategies.simps)
  with try_strategies_outcome [of "pr_strategy res # pr_fallback_strategies res" env package version res
      "w\<lparr>wo_cache := c\<rparr>"]
  show ?thesis by (simp only:)
qed

lemma demo_get_wheel: "get_wheel (ce_file demo_client) (ce_now demo_client) package version
    (fresh_cache\<lparr>ca_index := []\<rparr>) = (Inr None, fresh_cache\<lparr>ca_index := []\<rparr>)"
  by (simp add: get_wheel_def Let_def)

theorem install_follows_the_plan_witness:
  "install demo_client ''torch'' ''latest'' False \<lparr>wo_cache = fresh_cache\<lparr>ca_index := []\<rparr>, wo_proxied = []\<rparr>
     = (Inr True, \<lparr>wo_cache = fresh_cache\<lparr>ca_index := []\<rparr>, wo_proxied = [(''torch'', False)]\<rparr>)"
proof -
  let ?w = "\<lparr>wo_cache = fresh_cache\<lparr>ca_index := []\<rparr>, wo_proxied = []\<rparr>"
  define res where "res = resolution ''torch'' ''latest'' CLOUD_EXEC
    (''Heavy package '' @ [CHR 0xE2, CHR 0x80, CHR 0x94] @ '' cloud execution recommended'') [CLOUD_BUILD]"
  have r: "resolve demo_client ''torch'' ''latest'' (wo_cache ?w) = (Inr res, wo_cache ?w)"
    unfolding resolve_def world.select_convs demo_get_wheel
    by (simp add: is_installed_def resolve_uncached_def res_def demo_client_def CLOUD_PREFERRED_PACKAGES_def)
  have plan: "pr_strategy res = CLOUD_EXEC" "pr_fallback_strategies res = [CLOUD_BUILD]"
    by (simp_all add: res_def resolution_def)
  have ex: "execute_strategy demo_client ''torch'' ''latest'' res CLOUD_EXEC v = (Inr True, register_proxy ''torch'' False v)" for v
    by (simp add: execute_strategy_def)
  have no: "failed_after demo_client ''torch'' ''latest'' res (CLOUD_EXEC # ss) v = None" for ss v
    by (simp add: ex)
  from install_follows_the_plan [OF r, of False] plan obtain pre s post w1 w'
    where p: "[CLOUD_EXEC, CLOUD_BUILD] = pre @ s # post"
      "failed_after demo_client ''torch'' ''latest'' res pre (?w\<lparr>wo_cache := wo_cache ?w\<rparr>) = Some w1"
      "execute_strategy demo_client ''torch'' ''latest'' res s w1 = (Inr True, w')"
      "install demo_client ''torch'' ''latest'' False ?w = (Inr True, w')"
    by (auto simp: no simp del: failed_after.simps)
  have "pre = []" using p(1,2) no by (cases pre) (auto simp del: failed_after.simps)
  with p have "s = CLOUD_EXEC" "w1 = ?w" by simp_all
  with p(3,4) show ?thesis by (simp add: ex register_proxy_def)
qed

section \<open>A cached wheel pip rejects\<close>

lemma get_wheel_hit_again:
  assumes "get_wheel fe t package version c = (Inr (Some p), c')"
  shows "\<exists>c''. get_wheel fe t' package version c' = (Inr (Some p), c'')"
proof -
  let ?k = "cache_key package version ''wheel''"
  from assms obtain e x where e: "dget (ca_index c) ?k = Some e" "ce_path e = p" "fs_exists (ca_fs c) p"
    "fs_read (ca_fs c) p = Inr x" "fe_hash fe x = ce_sha256 e" "c' = touch_entry t ?k e c"
    by (auto simp: get_wheel_def Let_def split: option.splits sum.splits if_splits)
  then show ?thesis by (simp add: get_wheel_def Let_def touch_entry_def dget_dset)
qed

text \<open>A wheel that pip rejects blocks its package: downloads are cached before pip has accepted
  them, and a cached wheel resolves to a local install without fallbacks; so as long as the
  entry is there every installation fails with \<open>PackageInstallError\<close>, without asking the cloud,
  and leaves the entry in place.\<close>

theorem rejected_wheel_blocks_the_package:
  assumes "is_installed env package = Inr False"
    and "get_wheel (ce_file env) (ce_now env) package version (wo_cache w) = (Inr (Some p), c)"
    and "ce_run env (pip_install env (path_str p)) = Inr code" and "code \<noteq> 0"
  shows "\<exists>w' c'. install env package version force w = (Inl all_failed, w') \<and>
    get_wheel (ce_file env) (ce_now env) package version (wo_cache w') = (Inr (Some p), c')"
proof -
  let ?res = "resolution package version LOCAL_INSTALL ''Found in local cache'' []"
  obtain c2 where c2: "get_wheel (ce_file env) (ce_now env) package version c = (Inr (Some p), c2)"
    using get_wheel_hit_again [OF assms(2)] by blast
  obtain c3 where c3: "get_wheel (ce_file env) (ce_now env) package version c2 = (Inr (Some p), c3)"
    using get_wheel_hit_again [OF c2] by blast
  have r: "resolve env package version (wo_cache w) = (Inr ?res, c)"
    using assms(1,2) by (simp add: resolve_def)
  have "install_local env package version (w\<lparr>wo_cache := c\<rparr>) = (Inr False, w\<lparr>wo_cache := c2\<rparr>)"
    using c2 assms(3,4) by (simp add: install_local_def get_cached_def run_ok_def)
  then have "install env package version force w = (Inl all_failed, w\<lparr>wo_cache := c2\<rparr>)"
    by (simp add: install_def r resolution_def execute_strategy_def all_failed_def)
  with c3 show ?thesis by simp
qed

theorem rejected_wheel_blocks_the_package_witness:
  "\<exists>w' c'. install demo_client ''a'' ''1'' True \<lparr>wo_cache = demo_cache, wo_proxied = []\<rparr> = (Inl all_failed, w') \<and>
     get_wheel text_env 9 ''a'' ''1'' (wo_cache w') = (Inr (Some [''a'']), c')"
proof -
  let ?w = "\<lparr>wo_cache = demo_cache, wo_proxied = []\<rparr>"
  have env: "ce_file demo_client = text_env" "ce_now demo_client = 9" "is_installed demo_client ''a'' = Inr False"
    "ce_run demo_client (pip_install demo_client (path_str [''a''])) = Inr 1"
    by (simp_all add: demo_client_def is_installed_def)
  have "\<exists>c. get_wheel (ce_file demo_client) (ce_now demo_client) ''a'' ''1'' (wo_cache ?w) = (Inr (Some [''a'']), c)"
    by (simp add: env get_wheel_def demo_cache_def demo_entry_def cache_key_def Let_def fs_exists_def fs_read_def
        fs_node_def text_env_def)
  then obtain c where "get_wheel (ce_file demo_client) (ce_now demo_client) ''a'' ''1'' (wo_cache ?w) = (Inr (Some [''a'']), c)" ..
  from rejected_wheel_blocks_the_package [OF env(3) this env(4)] show ?thesis by (simp add: env)
qed

end
