(* ===== verification/PyText.thy ===== *)
theory PyText
  imports PyVal
begin

text \<open>
  String methods and formatting that only some components use: \<open>replace\<close>, \<open>splitlines\<close>,
  \<open>split()\<close>, \<open>rsplit(sep, 1)\<close>, and \<open>repr\<close>, for ASCII strings.
\<close>

text \<open>\<open>s.replace(a, b)\<close> for a non-empty \<open>a\<close>\<close>

fun py_replace :: "string \<Rightarrow> string \<Rightarrow> string \<Rightarrow> string" where
  "py_replace a b [] = []"
| "py_replace a b (c # s) =
     (if py_startswith (c # s) a then b @ py_replace a b (drop (length a - 1) s)
      else c # py_replace a b s)"

definition is_line_break :: "char \<Rightarrow> bool" where
  "is_line_break c = (let n = (of_char c :: nat) in (10 \<le> n \<and> n \<le> 13) \<or> (28 \<le> n \<and> n \<le> 30))"

fun splitlines_from :: "string \<Rightarrow> string \<Rightarrow> string list" where
  "splitlines_from acc [] = (if acc = [] then [] else [rev acc])"
| "splitlines_from acc (c # s) =
     (if c = CHR 0x0D \<and> s \<noteq> [] \<and> hd s = CHR 0x0A then rev acc # splitlines_from [] (tl s)
      else if is_line_break c then rev acc # splitlines_from [] s
      else splitlines_from (c # acc) s)"

definition py_splitlines :: "string \<Rightarrow> string list" where
  "py_splitlines s = splitlines_from [] s"

fun words_from :: "string \<Rightarrow> string \<Rightarrow> string list" where
  "words_from acc [] = (if acc = [] then [] else [rev acc])"
| "words_from acc (c # s) =
     (if is_space c then (if acc = [] then words_from [] s else rev acc # words_from [] s)
      else words_from (c # acc) s)"

text \<open>\<open>s.split()\<close>\<close>

definition py_words :: "string \<Rightarrow> string list" where
  "py_words s = words_from [] s"

text \<open>\<open>s.rsplit(c, 1)\<close>: the parts before and after the last \<open>c\<close>, None without one\<close>

definition py_rsplit1 :: "char \<Rightarrow> string \<Rightarrow> (string \<times> string) option" where
  "py_rsplit1 c s = (if c \<in> set s
     then Some (rev (tl (dropWhile (\<lambda>x. x \<noteq> c) (rev s))), rev (takeWhile (\<lambda>x. x \<noteq> c) (rev s)))
     else None)"

definition hex_char :: "nat \<Rightarrow> char" where
  "hex_char d = (if d < 10 then char_of (48 + d) else char_of (87 + d))"

definition repr_char :: "char \<Rightarrow> char \<Rightarrow> string" where
  "repr_char q c = (let n = (of_char c :: nat) in
     if c = q \<or> n = 92 then [CHR 0x5C, c]
     else if n = 10 then [CHR 0x5C, CHR ''n''] else if n = 13 then [CHR 0x5C, CHR ''r'']
     else if n = 9 then [CHR 0x5C, CHR ''t'']
     else if n < 32 \<or> 127 \<le> n then [CHR 0x5C, CHR ''x'', hex_char (n div 16), hex_char (n mod 16)]
     else [c])"

definition repr_str :: "string \<Rightarrow> string" where
  "repr_str s = (let q = (if CHR 0x27 \<in> set s \<and> CHR 0x22 \<notin> set s then CHR 0x22 else CHR 0x27) in
     q # concat (map (repr_char q) s) @ [q])"

text \<open>\<open>repr(v)\<close>; \<open>rest\<close> renders floats, bytes and the values of foreign classes.\<close>

fun py_repr :: "(pyval \<Rightarrow> string) \<Rightarrow> pyval \<Rightarrow> string" where
  "py_repr rest VNone = ''None''"
| "py_repr rest (VBool b) = (if b then ''True'' else ''False'')"
| "py_repr rest (VInt i) = int_str i"
| "py_repr rest (VStr s) = repr_str s"
| "py_repr rest (VList xs) = ''['' @ py_join '', '' (map (py_repr rest) xs) @ '']''"
| "py_repr rest (VTuple xs) = ''('' @ py_join '', '' (map (py_repr rest) xs) @
     (if length xs = 1 then '',)'' else '')'')"
| "py_repr rest (VSet xs) = (if xs = [] then ''set()''
     else ''{'' @ py_join '', '' (map (py_repr rest) xs) @ ''}'')"
| "py_repr rest (VDict d) =
     ''{'' @ py_join '', '' (map (\<lambda>kv. py_repr rest (fst kv) @ '': '' @ py_repr rest (snd kv)) d) @ ''}''"
| "py_repr rest v = rest v"

lemma py_rsplit1_Some:
  assumes "py_rsplit1 c s = Some (a, b)"
  shows "s = a @ c # b \<and> c \<notin> set b"
proof -
  let ?p = "\<lambda>x. x \<noteq> c"
  from assms have c: "c \<in> set s" and a: "a = rev (tl (dropWhile ?p (rev s)))"
    and b: "b = rev (takeWhile ?p (rev s))"
    by (auto simp: py_rsplit1_def split: if_splits)
  from c have ne: "dropWhile ?p (rev s) \<noteq> []" by (auto simp: dropWhile_eq_Nil_conv)
  with hd_dropWhile [of ?p "rev s"] have "dropWhile ?p (rev s) = c # tl (dropWhile ?p (rev s))"
    by (cases "dropWhile ?p (rev s)") auto
  then have "rev s = takeWhile ?p (rev s) @ c # tl (dropWhile ?p (rev s))"
    by (metis takeWhile_dropWhile_id)
  then have "s = a @ c # b"
    by (metis a b append.assoc append_Cons append_Nil rev.simps(2) rev_append rev_rev_ident)
  moreover have "c \<notin> set b" by (auto simp: b dest: set_takeWhileD)
  ultimately show ?thesis ..
qed

lemma words_from_nonempty: "w \<in> set (words_from acc s) \<Longrightarrow> w \<noteq> []"
  by (induction acc s rule: words_from.induct) (auto split: if_splits)

lemma py_words_nonempty: "w \<in> set (py_words s) \<Longrightarrow> w \<noteq> []"
  by (simp add: py_words_def words_from_nonempty)

end
