(* ===== verification/Executor.thy ===== *)
theory Executor
  imports Models PyText
begin

text \<open>
  \<open>executor/\<close>: the pool of warm containers, the docker sandbox, the GPU and browser runtimes and
  the pool that routes a call to one of them; \<open>security/sandbox.py\<close>: the docker options of the
  security policy. \<open>docker run\<close> itself, the clock and the random part of a name are parameters.
\<close>

section \<open>Container pool\<close>

record container =
  ct_id :: string
  ct_name :: string
  ct_image :: string
  ct_status :: string
  ct_gpu :: bool

text \<open>\<open>cp_removed\<close> logs the names given to \<open>docker rm -f\<close>.\<close>

record container_pool =
  cp_size :: int
  cp_available :: "container list"
  cp_in_use :: "(string, container) dict"
  cp_removed :: "string list"

definition new_pool :: "int \<Rightarrow> container_pool" where
  "new_pool pool_size = \<lparr>cp_size = pool_size, cp_available = [], cp_in_use = [], cp_removed = []\<rparr>"

definition pool_name :: "string \<Rightarrow> string" where
  "pool_name uuid = ''cpip-pool-'' @ take 8 uuid"

definition create_container :: "string \<Rightarrow> string \<Rightarrow> bool \<Rightarrow> container" where
  "create_container uuid img gpu = \<lparr>ct_id = pool_name uuid, ct_name = pool_name uuid,
     ct_image = img, ct_status = ''running'', ct_gpu = gpu\<rparr>"

definition pool_acquire :: "string \<Rightarrow> string \<Rightarrow> bool \<Rightarrow> container_pool \<Rightarrow> container \<times> container_pool" where
  "pool_acquire uuid img gpu p =
     (case find_index (\<lambda>c. ct_image c = img \<and> ct_gpu c = gpu) (cp_available p) of
        Some i \<Rightarrow>
          (let c = cp_available p ! i in
           (c, p\<lparr>cp_available := remove_nth i (cp_available p), cp_in_use := dset (ct_id c) c (cp_in_use p)\<rparr>))
      | None \<Rightarrow>
          (let c = create_container uuid img gpu in
           (c, p\<lparr>cp_in_use := dset (ct_id c) c (cp_in_use p)\<rparr>)))"

definition destroy_container :: "container \<Rightarrow> container_pool \<Rightarrow> container_pool" where
  "destroy_container c p = p\<lparr>cp_removed := cp_removed p @ [ct_name c]\<rparr>"

definition pool_release :: "string \<Rightarrow> container_pool \<Rightarrow> container_pool" where
  "pool_release cid p = (case dget (cp_in_use p) cid of
       None \<Rightarrow> p
     | Some c \<Rightarrow>
         (let p' = p\<lparr>cp_in_use := ddel cid (cp_in_use p)\<rparr> in
          if int (length (cp_available p')) < cp_size p'
          then p'\<lparr>cp_available := cp_available p' @ [c]\<rparr>
          else destroy_container c p'))"

text \<open>One image is listed; \<open>images[:pool_size]\<close> is empty for a size of zero and for -1.\<close>

definition pool_warmup :: "string \<Rightarrow> container_pool \<Rightarrow> container_pool" where
  "pool_warmup uuid p =
     fold (\<lambda>img p. p\<lparr>cp_available := cp_available p @ [create_container uuid img False]\<rparr>)
       (slice_to [''python:3.11-slim''] (cp_size p)) p"

definition pool_stats :: "container_pool \<Rightarrow> (string \<times> int) list" where
  "pool_stats p = [(''available'', int (length (cp_available p))),
     (''in_use'', int (length (cp_in_use p))), (''pool_size'', cp_size p)]"

datatype pool_event = Acquire string string bool | Release string

fun pool_step :: "pool_event \<Rightarrow> container_pool \<Rightarrow> container_pool" where
  "pool_step (Acquire uuid img gpu) p = snd (pool_acquire uuid img gpu p)"
| "pool_step (Release cid) p = pool_release cid p"

section \<open>Sandbox\<close>

record sandbox_config =
  sc_memory_limit :: string
  sc_cpu_limit :: real
  sc_timeout :: int
  sc_network :: bool
  sc_gpu :: bool
  sc_image :: string

definition SandboxConfig :: sandbox_config where
  "SandboxConfig = \<lparr>sc_memory_limit = ''4g'', sc_cpu_limit = 4, sc_timeout = 600,
     sc_network = False, sc_gpu = False, sc_image = ''python:3.11-slim''\<rparr>"

record sandbox_result =
  sr_success :: bool
  sr_output :: pyval
  sr_stdout :: string
  sr_stderr :: string
  sr_duration :: real
  sr_exit_code :: int

datatype run_outcome = Exited int string string | TimedOut | RunFailed exn

text \<open>What the sandbox needs from outside: the outcome of \<open>subprocess.run(cmd, timeout)\<close>, the
  times before and after it, the random part of the container's name, \<open>str\<close> of a float and of
  an exception, \<open>repr\<close> of foreign values.\<close>

record docker_env =
  dk_run :: "pyval list \<Rightarrow> int \<Rightarrow> run_outcome"
  dk_start :: real
  dk_end :: real
  dk_uuid :: string
  dk_float :: "real \<Rightarrow> string"
  dk_exn :: "exn \<Rightarrow> string"
  dk_repr :: "pyval \<Rightarrow> string"

definition container_name :: "docker_env \<Rightarrow> string" where
  "container_name env = ''cpip-exec-'' @ take 8 (dk_uuid env)"

definition docker_options :: "docker_env \<Rightarrow> sandbox_config \<Rightarrow> string list" where
  "docker_options env cfg =
     [''docker'', ''run'', ''--rm'', ''--name'', container_name env,
      ''--memory='' @ sc_memory_limit cfg, ''--cpus='' @ dk_float env (sc_cpu_limit cfg),
      ''--read-only'', ''--tmpfs'', ''/tmp:rw,noexec,nosuid,size=256m''] @
     (if \<not> sc_network cfg then [''--network=none''] else []) @
     (if sc_gpu cfg then [''--gpus'', ''all''] else [])"

definition docker_cmd :: "docker_env \<Rightarrow> sandbox_config \<Rightarrow> pyval \<Rightarrow> pyval list" where
  "docker_cmd env cfg code =
     map VStr (docker_options env cfg @ [sc_image cfg, ''python'', ''-c'']) @ [code]"

text \<open>A timeout also runs \<open>docker kill\<close>: the second component lists the containers killed.\<close>

definition sandbox_execute :: "docker_env \<Rightarrow> pyval \<Rightarrow> sandbox_config \<Rightarrow> sandbox_result \<times> string list" where
  "sandbox_execute env code cfg = (case dk_run env (docker_cmd env cfg code) (sc_timeout cfg) of
       Exited code out err \<Rightarrow>
         (\<lparr>sr_success = (code = 0), sr_output = VNone, sr_stdout = out, sr_stderr = err,
           sr_duration = dk_end env - dk_start env, sr_exit_code = code\<rparr>, [])
     | TimedOut \<Rightarrow>
         (\<lparr>sr_success = False, sr_output = VNone, sr_stdout = [], sr_stderr = ''Execution timed out'',
           sr_duration = of_int (sc_timeout cfg), sr_exit_code = 0\<rparr>, [container_name env])
     | RunFailed e \<Rightarrow>
         (\<lparr>sr_success = False, sr_output = VNone, sr_stdout = [], sr_stderr = dk_exn env e,
           sr_duration = dk_end env - dk_start env, sr_exit_code = 0\<rparr>, []))"

section \<open>Runtimes\<close>

definition call_text :: "docker_env \<Rightarrow> string \<Rightarrow> pyval list \<Rightarrow> (pyval \<times> pyval) list \<Rightarrow> string" where
  "call_text env meth args kwargs =
     meth @ ''(*'' @ py_repr (dk_repr env) (VList args) @ '', **'' @ py_repr (dk_repr env) (VDict kwargs) @ '')''"

abbreviation nl :: char where "nl \<equiv> CHR 0x0A"

definition build_torch_code :: "docker_env \<Rightarrow> string \<Rightarrow> pyval list \<Rightarrow> (pyval \<times> pyval) list \<Rightarrow> string" where
  "build_torch_code env meth args kwargs =
     [nl] @ ''import torch, json, sys'' @ [nl] @ ''result = '' @ call_text env meth args kwargs @ [nl] @
     ''if hasattr(result, '' @ repr_str ''tolist'' @ ''): result = result.tolist()'' @ [nl] @
     ''print(json.dumps({'' @ [CHR 0x22] @ ''result'' @ [CHR 0x22] @ '': result}))'' @ [nl]"

definition build_tf_code :: "docker_env \<Rightarrow> string \<Rightarrow> pyval list \<Rightarrow> (pyval \<times> pyval) list \<Rightarrow> string" where
  "build_tf_code env meth args kwargs =
     [nl] @ ''import tensorflow as tf, json'' @ [nl] @ ''result = '' @ call_text env meth args kwargs @ [nl] @
     ''if hasattr(result, '' @ repr_str ''numpy'' @ ''): result = result.numpy().tolist()'' @ [nl] @
     ''print(json.dumps({'' @ [CHR 0x22] @ ''result'' @ [CHR 0x22] @ '': result}))'' @ [nl]"

definition execute_torch :: "docker_env \<Rightarrow> string \<Rightarrow> pyval list \<Rightarrow> (pyval \<times> pyval) list \<Rightarrow> sandbox_result \<times> string list" where
  "execute_torch env meth args kwargs = sandbox_execute env (VStr (build_torch_code env meth args kwargs))
     (SandboxConfig\<lparr>sc_gpu := True, sc_image := ''pytorch/pytorch:latest'', sc_memory_limit := ''8g''\<rparr>)"

definition execute_tensorflow :: "docker_env \<Rightarrow> string \<Rightarrow> pyval list \<Rightarrow> (pyval \<times> pyval) list \<Rightarrow> sandbox_result \<times> string list" where
  "execute_tensorflow env meth args kwargs = sandbox_execute env (VStr (build_tf_code env meth args kwargs))
     (SandboxConfig\<lparr>sc_gpu := True, sc_image := ''tensorflow/tensorflow:latest-gpu'', sc_memory_limit := ''8g''\<rparr>)"

record gpu_info =
  gi_name :: string
  gi_memory_mb :: int
  gi_utilization_pct :: real
  gi_available :: bool

text \<open>One line of \<open>nvidia-smi\<close>; lines with fewer than three fields are skipped, a field that is not a
  number raises. \<open>pf\<close> is \<open>float(s)\<close>.\<close>

definition parse_gpu_line :: "(string \<Rightarrow> real option) \<Rightarrow> string \<Rightarrow> exn + gpu_info option" where
  "parse_gpu_line pf line = (let parts = map py_strip (py_split CHR '','' line) in
     if length parts < 3 then Inr None
     else case py_int (py_replace '' MiB'' [] (parts ! 1)) of
         None \<Rightarrow> Inl (ValueError ''invalid literal for int() with base 10'')
       | Some mem \<Rightarrow> (case pf (py_replace '' %'' [] (parts ! 2)) of
             None \<Rightarrow> Inl (ValueError ''could not convert string to float'')
           | Some u \<Rightarrow> Inr (Some \<lparr>gi_name = parts ! 0, gi_memory_mb = mem,
               gi_utilization_pct = u, gi_available = True\<rparr>)))"

definition nvidia_query :: string where
  "nvidia_query = ''import subprocess; print(subprocess.run(['' @ repr_str ''nvidia-smi'' @ '', '' @
     repr_str ''--query-gpu=name,memory.total,utilization.gpu'' @ '', '' @ repr_str ''--format=csv,noheader'' @
     ''], capture_output=True, text=True).stdout)''"

definition list_gpus :: "(string \<Rightarrow> real option) \<Rightarrow> docker_env \<Rightarrow> exn + gpu_info list" where
  "list_gpus pf env =
     (let r = fst (sandbox_execute env (VStr nvidia_query) (SandboxConfig\<lparr>sc_gpu := True\<rparr>)) in
      if sr_success r
      then map_sum id (List.map_filter id) (traverse (parse_gpu_line pf) (py_splitlines (py_strip (sr_stdout r))))
      else Inr [])"

definition run_playwright :: "docker_env \<Rightarrow> pyval \<Rightarrow> sandbox_result \<times> string list" where
  "run_playwright env script = sandbox_execute env script
     (SandboxConfig\<lparr>sc_image := ''mcr.microsoft.com/playwright/python:latest'', sc_network := True,
        sc_memory_limit := ''4g'', sc_timeout := 120\<rparr>)"

definition py_quote2 :: "string \<Rightarrow> string" where
  "py_quote2 s = CHR 0x22 # s @ [CHR 0x22]"

definition screenshot :: "docker_env \<Rightarrow> string \<Rightarrow> sandbox_result \<times> string list" where
  "screenshot env url = run_playwright env (VStr ([nl] @
     ''from playwright.sync_api import sync_playwright'' @ [nl] @ ''import base64'' @ [nl] @
     ''with sync_playwright() as p:'' @ [nl] @ ''    browser = p.chromium.launch()'' @ [nl] @
     ''    page = browser.new_page()'' @ [nl] @ ''    page.goto('' @ py_quote2 url @ '')'' @ [nl] @
     ''    screenshot = page.screenshot()'' @ [nl] @
     ''    print(base64.b64encode(screenshot).decode())'' @ [nl] @ ''    browser.close()'' @ [nl]))"

definition get_html :: "docker_env \<Rightarrow> string \<Rightarrow> sandbox_result \<times> string list" where
  "get_html env url = run_playwright env (VStr ([nl] @
     ''from playwright.sync_api import sync_playwright'' @ [nl] @
     ''with sync_playwright() as p:'' @ [nl] @ ''    browser = p.chromium.launch()'' @ [nl] @
     ''    page = browser.new_page()'' @ [nl] @ ''    page.goto('' @ py_quote2 url @ '')'' @ [nl] @
     ''    print(page.content())'' @ [nl] @ ''    browser.close()'' @ [nl]))"

section \<open>Routing\<close>

definition needs_gpu :: "string \<Rightarrow> bool" where
  "needs_gpu meth = list_ex (py_contains (py_lower meth)) [''torch'', ''cuda'', ''tensorflow'', ''jax'', ''cupy'']"

definition build_code :: "docker_env \<Rightarrow> string \<Rightarrow> pyval list \<Rightarrow> (pyval \<times> pyval) list \<Rightarrow> string" where
  "build_code env meth args kwargs = (case py_rsplit1 CHR ''.'' meth of
       Some (modname, func) \<Rightarrow> ''import '' @ modname @ ''; import json; r = '' @ call_text env meth args kwargs @
         ''; print(json.dumps({'' @ repr_str ''result'' @ '': str(r)}))''
     | None \<Rightarrow> ''import json; print(json.dumps({'' @ repr_str ''result'' @ '': '' @ repr_str ''no-op'' @ ''}))'')"

definition pool_execute ::
  "docker_env \<Rightarrow> string \<Rightarrow> pyval list \<Rightarrow> (pyval \<times> pyval) list \<Rightarrow> string \<Rightarrow> sandbox_result \<times> string list" where
  "pool_execute env meth args kwargs mode =
     (let gpu = (mode = ''gpu'' \<or> needs_gpu meth) in
      if gpu \<and> py_contains meth ''torch'' then execute_torch env meth args kwargs
      else if gpu \<and> (py_contains meth ''tensorflow'' \<or> py_contains meth ''tf.'') then
        execute_tensorflow env meth args kwargs
      else if mode = ''browser'' \<or> py_contains meth ''playwright'' then
        run_playwright env (case map_of kwargs (VStr ''script'') of Some s \<Rightarrow> s | None \<Rightarrow> VStr [])
      else sandbox_execute env (VStr (build_code env meth args kwargs)) SandboxConfig)"

section \<open>The pool bound\<close>

definition pool_inv :: "nat \<Rightarrow> container_pool \<Rightarrow> bool" where
  "pool_inv n p = (cp_size p = int n \<and> dict_ok (cp_in_use p) \<and>
     list_all (\<lambda>c. ct_name c = ct_id c) (cp_available p) \<and>
     list_all (\<lambda>(k, c). ct_id c = k \<and> ct_name c = k) (cp_in_use p))"

lemma set_remove_nth: "set (remove_nth i xs) \<subseteq> set xs"
  by (auto simp: remove_nth_def dest: in_set_takeD in_set_dropD)

lemma length_remove_nth_le: "length (remove_nth i xs) \<le> length xs"
  by (simp add: remove_nth_def)

lemma acquire_cases:
  obtains (idle) i where "i < length (cp_available p)" "ct_image (cp_available p ! i) = img"
      "ct_gpu (cp_available p ! i) = gpu"
      "pool_acquire uuid img gpu p = (cp_available p ! i, p\<lparr>cp_available := remove_nth i (cp_available p),
         cp_in_use := dset (ct_id (cp_available p ! i)) (cp_available p ! i) (cp_in_use p)\<rparr>)"
  | (fresh) "pool_acquire uuid img gpu p = (create_container uuid img gpu,
         p\<lparr>cp_in_use := dset (pool_name uuid) (create_container uuid img gpu) (cp_in_use p)\<rparr>)"
proof (cases "find_index (\<lambda>c. ct_image c = img \<and> ct_gpu c = gpu) (cp_available p)")
  case None
  then show thesis by (intro fresh) (simp add: pool_acquire_def create_container_def Let_def)
next
  case (Some i)
  then show thesis using find_index_Some [OF Some] by (intro idle [of i]) (auto simp: pool_acquire_def Let_def)
qed

lemma pool_inv_step: "pool_inv n p \<Longrightarrow> pool_inv n (pool_step e p)"
proof (induction e p rule: pool_step.induct)
  case (1 uuid img gpu p)
  then show ?case
  proof (cases rule: acquire_cases [of p img gpu uuid])
    case (idle i)
    then have "list_all (\<lambda>c. ct_name c = ct_id c) (remove_nth i (cp_available p))"
      "ct_name (cp_available p ! i) = ct_id (cp_available p ! i)"
      using 1 set_remove_nth [of i "cp_available p"] by (auto simp: pool_inv_def list_all_iff)
    with 1 idle show ?thesis using set_dset_subset [of "ct_id (cp_available p ! i)"]
      by (auto simp: pool_inv_def list_all_iff dest!: subsetD [OF set_dset_subset])
  next
    case fresh
    with 1 show ?thesis
      by (auto simp: pool_inv_def list_all_iff create_container_def dest!: subsetD [OF set_dset_subset])
  qed
next
  case (2 cid p)
  then show ?case
    by (auto simp: pool_inv_def pool_release_def destroy_container_def Let_def list_all_iff
        split: option.split dest: subsetD [OF set_ddel_subset] dget_SomeD)
qed

interpretation pool: bounded_system pool_step "pool_inv n" "\<lambda>p. length (cp_available p)" n for n
proof
  show "pool_inv n (pool_step e p)" if "pool_inv n p" for e p using that by (rule pool_inv_step)
  show "length (cp_available (pool_step e p)) \<le> n" if "pool_inv n p" "length (cp_available p) \<le> n" for e p
  proof (cases e)
    case (Acquire uuid img gpu)
    with that show ?thesis
      by (cases rule: acquire_cases [of p img gpu uuid])
        (auto intro: order_trans [OF length_remove_nth_le])
  next
    case (Release cid)
    with that show ?thesis
      by (auto simp: pool_inv_def pool_release_def destroy_container_def Let_def split: option.split)
  qed
qed

definition pool_ids :: "container_pool \<Rightarrow> string list" where
  "pool_ids p = map ct_id (cp_available p) @ dkeys (cp_in_use p) @ cp_removed p"

definition event_names :: "pool_event list \<Rightarrow> string list" where
  "event_names es = concat (map (\<lambda>e. case e of Acquire uuid img gpu \<Rightarrow> [pool_name uuid] | Release cid \<Rightarrow> []) es)"

lemma event_names_simps [simp]:
  "event_names [] = []"
  "event_names (Acquire uuid img gpu # es) = pool_name uuid # event_names es"
  "event_names (Release cid # es) = event_names es"
  "event_names (es @ es') = event_names es @ event_names es'"
  by (simp_all add: event_names_def)

lemma mset_ddel_keys:
  assumes "dict_ok d" and "dget d k = Some v"
  shows "mset (dkeys d) = add_mset k (mset (dkeys (ddel k d)))"
proof -
  have "k \<in> set (dkeys d)" using assms(2) by (auto dest!: dget_SomeD intro: rev_image_eqI)
  moreover have "dkeys (ddel k d) = remove1 k (dkeys d)"
    using assms(1) by (simp add: delete_keys dict_ok_def distinct_remove1_removeAll)
  ultimately show ?thesis by simp
qed

lemma distinct_mset_mono: "mset xs \<subseteq># mset ys \<Longrightarrow> distinct ys \<Longrightarrow> distinct xs"
  by (metis distinct_append ex_mset mset_append mset_eq_imp_distinct_iff subset_mset.le_iff_add)

lemma step_ids:
  assumes "pool_inv n p" and "distinct (pool_ids p @ event_names [e])"
  shows "mset (pool_ids (pool_step e p)) \<subseteq># mset (pool_ids p @ event_names [e]) \<and>
    mset (pool_ids p) \<subseteq># mset (pool_ids (pool_step e p))"
proof (cases e)
  case (Acquire uuid img gpu)
  show ?thesis
  proof (cases rule: acquire_cases [of p img gpu uuid])
    case (idle i)
    let ?c = "cp_available p ! i"
    have "ct_id ?c \<notin> set (dkeys (cp_in_use p))"
      using assms(2) nth_mem [OF idle(1)] by (simp add: pool_ids_def disjoint_iff del: nth_mem)
    then have "dkeys (dset (ct_id ?c) ?c (cp_in_use p)) = dkeys (cp_in_use p) @ [ct_id ?c]"
      by (simp add: dkeys_dset_new dhas_keys)
    moreover have "image_mset ct_id (mset (cp_available p)) = add_mset (ct_id ?c) (image_mset ct_id (mset (remove_nth i (cp_available p))))"
      using mset_remove_nth [OF idle(1)] by simp
    ultimately have "mset (pool_ids (pool_step e p)) = mset (pool_ids p)"
      using Acquire idle(4) by (simp add: pool_ids_def)
    then show ?thesis by simp
  next
    case fresh
    have "pool_name uuid \<notin> set (dkeys (cp_in_use p))"
      using assms(2) Acquire by (auto simp: pool_ids_def)
    then have "dkeys (dset (pool_name uuid) (create_container uuid img gpu) (cp_in_use p)) =
        dkeys (cp_in_use p) @ [pool_name uuid]"
      by (simp add: dkeys_dset_new dhas_keys)
    with Acquire fresh show ?thesis by (simp add: pool_ids_def)
  qed
next
  case (Release cid)
  show ?thesis
  proof (cases "dget (cp_in_use p) cid")
    case None
    with Release show ?thesis by (simp add: pool_release_def)
  next
    case (Some c)
    then have c: "ct_id c = cid" "ct_name c = cid" "dict_ok (cp_in_use p)"
      using assms(1) by (auto simp: pool_inv_def list_all_iff dest: dget_SomeD)
    have "mset (pool_ids (pool_step e p)) = mset (pool_ids p)"
      using Release Some c mset_ddel_keys [OF c(3) Some]
      by (simp add: pool_release_def pool_ids_def Let_def destroy_container_def)
    then show ?thesis by simp
  qed
qed

lemma run_ids:
  "pool_inv n p \<Longrightarrow> distinct (pool_ids p @ event_names es) \<Longrightarrow>
   distinct (pool_ids (fold pool_step es p)) \<and> set (pool_ids p) \<subseteq> set (pool_ids (fold pool_step es p)) \<and>
   set (pool_ids (fold pool_step es p)) \<subseteq> set (pool_ids p) \<union> set (event_names es)"
proof (induction es arbitrary: p)
  case Nil
  then show ?case by simp
next
  case (Cons e es)
  have names: "event_names (e # es) = event_names [e] @ event_names es" by (cases e) simp_all
  let ?p = "pool_step e p"
  have st: "mset (pool_ids ?p) \<subseteq># mset (pool_ids p @ event_names [e])" "mset (pool_ids p) \<subseteq># mset (pool_ids ?p)"
    using step_ids [OF Cons.prems(1), of e] Cons.prems(2) by (auto simp: names)
  have "mset (pool_ids ?p @ event_names es) \<subseteq># mset (pool_ids p @ event_names (e # es))"
    using st(1) by (simp add: names flip: add.assoc)
  then have d: "distinct (pool_ids ?p @ event_names es)"
    using Cons.prems(2) by (metis distinct_mset_mono)
  show ?case
    using Cons.IH [OF pool_inv_step [OF Cons.prems(1)] d] set_mset_mono [OF st(1)] set_mset_mono [OF st(2)]
    by (auto simp: names)
qed

lemma warmed_pool:
  "pool_inv n (pool_warmup u (new_pool (int n))) \<and> length (cp_available (pool_warmup u (new_pool (int n)))) \<le> n \<and>
   set (pool_ids (pool_warmup u (new_pool (int n)))) \<subseteq> {pool_name u} \<and> distinct (pool_ids (pool_warmup u (new_pool (int n))))"
  by (cases n) (auto simp: pool_warmup_def new_pool_def slice_to_def py_clamp_def pool_inv_def pool_ids_def
      create_container_def list_all_iff)

text \<open>C34: However calls are served, the pool of a server that warmed up at start keeps at most
  \<open>pool_size\<close> idle containers, and each container ever created is idle, in use or removed and
  only one of these; a call gets a running container of its image that nobody else holds, and
  nothing handed out is lost.\<close>

theorem pool_keeps_its_containers:
  assumes "distinct (pool_name u # event_names (es1 @ Acquire uuid img gpu # es2))"
    and "p1 = fold pool_step es1 (pool_warmup u (new_pool (int n)))"
    and "pool_acquire uuid img gpu p1 = (c, p2)" and "p3 = fold pool_step es2 p2"
  shows "ct_image c = img \<and> ct_gpu c = gpu \<and> dget (cp_in_use p1) (ct_id c) = None \<and>
    dget (cp_in_use p2) (ct_id c) = Some c \<and> ct_id c \<in> set (pool_ids p3) \<and>
    distinct (pool_ids p3) \<and> length (cp_available p3) \<le> n"
proof -
  let ?p0 = "pool_warmup u (new_pool (int n))"
  have d0: "distinct (pool_ids ?p0 @ event_names es1)"
    using assms(1) warmed_pool [of n u] by auto
  from run_ids [OF _ this, of n] warmed_pool [of n u]
  have i1: "distinct (pool_ids p1)" "set (pool_ids p1) \<subseteq> {pool_name u} \<union> set (event_names es1)"
    unfolding assms(2) by auto
  have inv1: "pool_inv n p1" "length (cp_available p1) \<le> n"
    unfolding assms(2) using warmed_pool [of n u] by (simp_all add: pool.inv_run pool.load_run)
  have p2: "p2 = pool_step (Acquire uuid img gpu) p1" using assms(3) by simp
  have d1: "distinct (pool_ids p1 @ event_names [Acquire uuid img gpu])"
    using i1 assms(1) by auto
  have i2: "distinct (pool_ids p2)" "set (pool_ids p2) \<subseteq> set (pool_ids p1) \<union> {pool_name uuid}"
    using run_ids [OF inv1(1) d1] by (auto simp: p2)
  have inv2: "pool_inv n p2" "length (cp_available p2) \<le> n"
    unfolding p2 using inv1 pool_inv_step pool.load_step by blast+
  have d2: "distinct (pool_ids p2 @ event_names es2)"
    using i1(2) i2 assms(1) by auto
  have i3: "distinct (pool_ids p3)" "set (pool_ids p2) \<subseteq> set (pool_ids p3)" "length (cp_available p3) \<le> n"
    using run_ids [OF inv2(1) d2] pool.load_run [OF inv2, of es2] unfolding assms(4) by auto
  have got: "ct_image c = img \<and> ct_gpu c = gpu \<and> ct_id c \<notin> set (dkeys (cp_in_use p1)) \<and>
    dget (cp_in_use p2) (ct_id c) = Some c"
  proof (cases rule: acquire_cases [of p1 img gpu uuid])
    case (idle i)
    with assms(3) i1(1) nth_mem [OF idle(1)] show ?thesis
      by (auto simp: pool_ids_def disjoint_iff dget_dset simp del: nth_mem)
  next
    case fresh
    with assms(3) have c: "c = create_container uuid img gpu"
      and p2': "cp_in_use p2 = dset (pool_name uuid) c (cp_in_use p1)" by auto
    have "pool_name uuid \<notin> set (dkeys (cp_in_use p1))" using d1 by (simp add: pool_ids_def)
    with p2' show ?thesis by (simp add: c create_container_def dget_dset)
  qed
  then have "ct_id c \<in> set (dkeys (cp_in_use p2))"
    by (auto dest!: dget_SomeD intro: rev_image_eqI)
  then have "ct_id c \<in> set (pool_ids p2)" by (simp add: pool_ids_def)
  moreover have "dget (cp_in_use p1) (ct_id c) = None"
    using got by (simp add: map_of_eq_None_iff)
  ultimately show ?thesis using got i3 by blast
qed

theorem pool_keeps_its_containers_witness:
  "\<exists>c p2. pool_acquire ''bbbbbbbb'' ''python:3.11-slim'' False (pool_warmup ''aaaaaaaa'' (new_pool 1)) = (c, p2) \<and>
     dget (cp_in_use p2) (ct_id c) = Some c \<and> length (cp_available (pool_release (ct_id c) p2)) \<le> 1"
proof -
  obtain c p2 where a: "pool_acquire ''bbbbbbbb'' ''python:3.11-slim'' False (pool_warmup ''aaaaaaaa'' (new_pool 1)) = (c, p2)"
    by (metis surj_pair)
  have d: "distinct (pool_name ''aaaaaaaa'' # event_names ([] @ Acquire ''bbbbbbbb'' ''python:3.11-slim'' False # [Release (ct_id c)]))"
    by (simp add: pool_name_def)
  from pool_keeps_its_containers [OF d _ _ refl, of "pool_warmup ''aaaaaaaa'' (new_pool 1)" 1 c p2] a
  show ?thesis by auto
qed

text \<open>The bound rests on warming up once, before anything is released: warming up a full pool
  exceeds it.\<close>

lemma warmup_exceeds_full_pool:
  assumes "length (cp_available p) = n" and "cp_size p = int n" and "0 < n"
  shows "length (cp_available (pool_warmup u p)) = Suc n"
  using assms by (cases n) (simp_all add: pool_warmup_def slice_to_def py_clamp_def)

section \<open>Isolation\<close>

lemma docker_options_facts:
  "''--network=none'' \<in> set (docker_options env cfg) \<longleftrightarrow> \<not> sc_network cfg"
  "''--read-only'' \<in> set (docker_options env cfg)"
  by (auto simp: docker_options_def container_name_def)

text \<open>What a routed call runs is one \<open>docker run\<close> of a read-only container with the code as the
  last argument (no shell); the container has a network exactly on the browser route, and
  the GPUs exactly on the torch and tensorflow routes, so a call that needs a GPU through jax,
  cupy or CUDA, or is asked for with mode \<open>gpu\<close>, runs without one.\<close>

theorem pool_execute_isolation:
  "\<exists>cfg code. pool_execute env meth args kwargs mode = sandbox_execute env code cfg \<and>
     docker_cmd env cfg code = map VStr (docker_options env cfg @ [sc_image cfg, ''python'', ''-c'']) @ [code] \<and>
     ''--read-only'' \<in> set (docker_options env cfg) \<and>
     (sc_gpu cfg \<longleftrightarrow> (mode = ''gpu'' \<or> needs_gpu meth) \<and>
        (py_contains meth ''torch'' \<or> py_contains meth ''tensorflow'' \<or> py_contains meth ''tf.'')) \<and>
     (sc_network cfg \<longleftrightarrow> \<not> sc_gpu cfg \<and> (mode = ''browser'' \<or> py_contains meth ''playwright'')) \<and>
     (''--network=none'' \<in> set (docker_options env cfg) \<longleftrightarrow> \<not> sc_network cfg)"
proof -
  let ?g = "mode = ''gpu'' \<or> needs_gpu meth"
  consider (torch) "?g" "py_contains meth ''torch''"
    | (tf) "?g" "\<not> py_contains meth ''torch''" "py_contains meth ''tensorflow'' \<or> py_contains meth ''tf.''"
    | (browser) "\<not> (?g \<and> (py_contains meth ''torch'' \<or> py_contains meth ''tensorflow'' \<or> py_contains meth ''tf.''))"
        "mode = ''browser'' \<or> py_contains meth ''playwright''"
    | (general) "\<not> (?g \<and> (py_contains meth ''torch'' \<or> py_contains meth ''tensorflow'' \<or> py_contains meth ''tf.''))"
        "\<not> (mode = ''browser'' \<or> py_contains meth ''playwright'')"
    by blast
  then show ?thesis
  proof cases
    case torch
    then have "pool_execute env meth args kwargs mode = execute_torch env meth args kwargs"
      by (auto simp: pool_execute_def)
    with torch show ?thesis unfolding execute_torch_def
      by (intro exI conjI) (assumption, auto simp: docker_cmd_def docker_options_facts SandboxConfig_def)
  next
    case tf
    then have "pool_execute env meth args kwargs mode = execute_tensorflow env meth args kwargs"
      by (auto simp: pool_execute_def)
    with tf show ?thesis unfolding execute_tensorflow_def
      by (intro exI conjI) (assumption, auto simp: docker_cmd_def docker_options_facts SandboxConfig_def)
  next
    case browser
    then have "pool_execute env meth args kwargs mode =
        run_playwright env (case map_of kwargs (VStr ''script'') of Some s \<Rightarrow> s | None \<Rightarrow> VStr [])"
      by (auto simp: pool_execute_def)
    with browser show ?thesis unfolding run_playwright_def
      by (intro exI conjI) (assumption, auto simp: docker_cmd_def docker_options_facts SandboxConfig_def)
  next
    case general
    then have "pool_execute env meth args kwargs mode =
        sandbox_execute env (VStr (build_code env meth args kwargs)) SandboxConfig"
      by (auto simp: pool_execute_def)
    with general show ?thesis
      by (intro exI conjI) (assumption, auto simp: docker_cmd_def docker_options_facts SandboxConfig_def)
  qed
qed

end
