(* ===== verification/Fetcher.thy ===== *)
theory Fetcher
  imports FileSystem
begin

text \<open>
  \<open>virtualization/fetcher.py\<close>: downloading a file whole or in ranges. The server's answers, the
  order in which the concurrent range requests finish and SHA-256 are parameters.
\<close>

section \<open>Ranges\<close>

text \<open>The loop of \<open>_chunked_download\<close>; with a chunk size of zero it does not end.\<close>

partial_function (option) chunk_ranges :: "int \<Rightarrow> int \<Rightarrow> int \<Rightarrow> (int \<times> int) list option" where
  "chunk_ranges chunk_size total_size offset =
     (if offset < total_size then
        (let e = min (offset + chunk_size - 1) (total_size - 1) in
         Option.bind (chunk_ranges chunk_size total_size (e + 1)) (\<lambda>r. Some ((offset, e) # r)))
      else Some [])"

text \<open>\<open>f.seek(start); f.write(data)\<close> on an open file: a gap is filled with zeros.\<close>

definition write_at :: "nat \<Rightarrow> byte list \<Rightarrow> byte list \<Rightarrow> byte list" where
  "write_at start data b =
     take start (b @ replicate (start - length b) 0) @ data @ drop (start + length data) b"

section \<open>Downloads\<close>

text \<open>
  \<open>dl_head\<close>: the content-length and accept-ranges headers; \<open>dl_stream\<close>: the pieces of the whole
  file and the error that ended it, if any; \<open>dl_range s e\<close>: the body of the answer to
  \<open>bytes=s-e\<close>; \<open>dl_order\<close>: the order in which the requests finish.
\<close>

record dl_env =
  dl_head :: "exn + string option \<times> string option"
  dl_stream :: "exn + byte list list \<times> exn option"
  dl_range :: "int \<Rightarrow> int \<Rightarrow> exn + byte list"
  dl_order :: "(int \<times> int) list \<Rightarrow> (int \<times> int) list"
  dl_file :: file_env

text \<open>The state of a download: the file's bytes and the calls of \<open>on_progress\<close>.\<close>

type_synonym progress_calls = "(int \<times> int) list"

fun simple_loop :: "int \<Rightarrow> byte list list \<Rightarrow> int \<Rightarrow> byte list \<times> progress_calls \<Rightarrow> byte list \<times> progress_calls" where
  "simple_loop total_size [] downloaded st = st"
| "simple_loop total_size (c # cs) downloaded (b, calls) =
     (let d = downloaded + int (length c) in simple_loop total_size cs d (b @ c, calls @ [(d, total_size)]))"

definition simple_download ::
  "dl_env \<Rightarrow> path \<Rightarrow> int \<Rightarrow> fs \<Rightarrow> (exn + path) \<times> fs \<times> progress_calls" where
  "simple_download env dest total_size fs = (case dl_stream env of
       Inl e \<Rightarrow> (Inl e, fs, [])
     | Inr (cs, err) \<Rightarrow>
         (case simple_loop total_size cs 0 ([], []) of (b, calls) \<Rightarrow>
          case fs_write dest (Bytes b) fs of
            Inl e \<Rightarrow> (Inl e, fs, [])
          | Inr fs' \<Rightarrow> (case err of None \<Rightarrow> (Inr dest, fs', calls) | Some e \<Rightarrow> (Inl e, fs', calls))))"

text \<open>\<open>asyncio.gather\<close> over the ranges, in the order they finish; it ends at the first that raises.\<close>

fun fetch_chunks ::
  "dl_env \<Rightarrow> int \<Rightarrow> (int \<times> int) list \<Rightarrow> int \<Rightarrow> byte list \<Rightarrow> progress_calls \<Rightarrow> (exn + unit) \<times> byte list \<times> progress_calls" where
  "fetch_chunks env total_size [] downloaded b calls = (Inr (), b, calls)"
| "fetch_chunks env total_size ((s, e) # r) downloaded b calls = (case dl_range env s e of
       Inl x \<Rightarrow> (Inl x, b, calls)
     | Inr data \<Rightarrow>
         (let d = downloaded + int (length data) in
          fetch_chunks env total_size r d (write_at (nat s) data b) (calls @ [(d, total_size)])))"

definition chunked_download ::
  "dl_env \<Rightarrow> path \<Rightarrow> (int \<times> int) list \<Rightarrow> int \<Rightarrow> string \<Rightarrow> fs \<Rightarrow> (exn + path) \<times> fs \<times> progress_calls" where
  "chunked_download env dest ranges total_size expected_sha256 fs =
     (case fs_write dest (Bytes (replicate (nat total_size) 0)) fs of
        Inl e \<Rightarrow> (Inl e, fs, [])
      | Inr fs0 \<Rightarrow>
          (case fetch_chunks env total_size (dl_order env ranges) 0 (replicate (nat total_size) 0) [] of
             (r, b, calls) \<Rightarrow>
               (let fs1 = dset dest (File (Bytes b)) fs0 in
                case r of
                  Inl e \<Rightarrow> (Inl e, fs1, calls)
                | Inr u \<Rightarrow>
                    (if expected_sha256 \<noteq> [] \<and> fe_hash (dl_file env) (Bytes b) \<noteq> expected_sha256
                     then (Inl (ValueError ''Hash mismatch''), fs_unlink dest fs1, calls)
                     else (Inr dest, fs1, calls)))))"

text \<open>\<open>None\<close>: the call does not return.\<close>

definition download ::
  "dl_env \<Rightarrow> int \<Rightarrow> path \<Rightarrow> string \<Rightarrow> fs \<Rightarrow> ((exn + path) \<times> fs \<times> progress_calls) option" where
  "download env chunk_size dest expected_sha256 fs =
     (case fs_mkdirs (butlast dest) fs of
        Inl e \<Rightarrow> Some (Inl e, fs, [])
      | Inr fs' \<Rightarrow>
          (case dl_head env of
             Inl e \<Rightarrow> Some (Inl e, fs', [])
           | Inr (len, ranges) \<Rightarrow>
               (case (case len of None \<Rightarrow> Some 0 | Some s \<Rightarrow> py_int s) of
                  None \<Rightarrow> Some (Inl (ValueError ''invalid literal for int() with base 10''), fs', [])
                | Some total_size \<Rightarrow>
                    (if ranges \<noteq> Some ''bytes'' \<or> total_size < chunk_size * 2
                     then Some (simple_download env dest total_size fs')
                     else case chunk_ranges chunk_size total_size 0 of
                         None \<Rightarrow> None
                       | Some rs \<Rightarrow> Some (chunked_download env dest rs total_size expected_sha256 fs')))))"

section \<open>The ranges cover the file\<close>

definition covers :: "(int \<times> int) list \<Rightarrow> int \<Rightarrow> bool" where
  "covers rs i = list_ex (\<lambda>(s, e). s \<le> i \<and> i \<le> e) rs"

definition range_bytes :: "(int \<times> int) list \<Rightarrow> int" where
  "range_bytes rs = sum_list (map (\<lambda>(s, e). e - s + 1) rs)"

lemma chunk_ranges_partition:
  assumes "0 < c" and "0 \<le> off"
  shows "\<exists>rs. chunk_ranges c n off = Some rs \<and> list_all (\<lambda>(s, e). off \<le> s \<and> s \<le> e \<and> e < n) rs \<and>
    (\<forall>i. off \<le> i \<and> i < n \<longrightarrow> covers rs i) \<and> range_bytes rs = max 0 (n - off) \<and> (off < n \<longrightarrow> rs \<noteq> [])"
  using assms(2)
proof (induction "nat (n - off)" arbitrary: off rule: less_induct)
  case less
  show ?case
  proof (cases "off < n")
    case False
    then show ?thesis by (auto simp: chunk_ranges.simps [of c n off] range_bytes_def)
  next
    case True
    define e where "e = min (off + c - 1) (n - 1)"
    have e: "off \<le> e" "e < n" using True assms(1) by (auto simp: e_def)
    with less(1) [of "e + 1"] less(2) obtain rs where rs: "chunk_ranges c n (e + 1) = Some rs"
      "list_all (\<lambda>(s, e'). e + 1 \<le> s \<and> s \<le> e' \<and> e' < n) rs"
      "\<forall>i. e + 1 \<le> i \<and> i < n \<longrightarrow> covers rs i" "range_bytes rs = max 0 (n - (e + 1))"
      by auto
    have "chunk_ranges c n off = Some ((off, e) # rs)"
      using True rs(1) by (subst chunk_ranges.simps) (simp add: Let_def flip: e_def)
    moreover have "list_all (\<lambda>(s, e'). off \<le> s \<and> s \<le> e' \<and> e' < n) ((off, e) # rs)"
      using rs(2) e by (auto simp: list_all_iff)
    moreover have "covers ((off, e) # rs) i" if "off \<le> i" "i < n" for i
      using that rs(3) by (cases "i \<le> e") (simp_all add: covers_def)
    moreover have "range_bytes ((off, e) # rs) = max 0 (n - off)"
      using rs(4) e by (simp add: range_bytes_def)
    ultimately show ?thesis by blast
  qed
qed

lemma write_at_nth:
  assumes "start + length data \<le> length b"
  shows "length (write_at start data b) = length b"
    and "i < length b \<Longrightarrow> write_at start data b ! i =
      (if start \<le> i \<and> i < start + length data then data ! (i - start) else b ! i)"
  using assms by (auto simp: write_at_def nth_append min_def)

definition piece :: "byte list \<Rightarrow> int \<Rightarrow> int \<Rightarrow> byte list" where
  "piece b s e = take (nat (e - s + 1)) (drop (nat s) b)"

lemma fetch_chunks_honest:
  assumes "\<And>s e. 0 \<le> s \<Longrightarrow> s \<le> e \<Longrightarrow> e < int (length d) \<Longrightarrow> dl_range env s e = Inr (piece d s e)"
    and "list_all (\<lambda>(s, e). 0 \<le> s \<and> s \<le> e \<and> e < int (length d)) rs" and "length b = length d"
  shows "\<exists>b' calls'. fetch_chunks env n rs k b calls = (Inr (), b', calls') \<and> length b' = length d \<and>
    (\<forall>i<length d. b' ! i = (if covers rs (int i) then d ! i else b ! i)) \<and>
    (rs \<noteq> [] \<longrightarrow> calls' \<noteq> [] \<and> List.last calls' = (k + range_bytes rs, n)) \<and> (rs = [] \<longrightarrow> calls' = calls)"
  using assms(2,3)
proof (induction rs arbitrary: k b calls)
  case Nil
  then show ?case by (simp add: covers_def)
next
  case (Cons r rs)
  obtain s e where r: "r = (s, e)" by (cases r)
  from Cons.prems r have se: "0 \<le> s" "s \<le> e" "e < int (length d)" by auto
  define p where "p = piece d s e"
  have len: "length p = nat (e - s + 1)" "nat s + length p \<le> length b"
    using se Cons.prems(2) by (auto simp: p_def piece_def)
  define b1 where "b1 = write_at (nat s) p b"
  have b1: "length b1 = length d" "b1 ! i = (if s \<le> int i \<and> int i \<le> e then d ! i else b ! i)" if "i < length d" for i
    using write_at_nth [OF len(2)] that Cons.prems(2) len(1) se
    by (auto simp: b1_def p_def piece_def nat_le_iff)
  have lb1: "length b1 = length d" using write_at_nth(1) [OF len(2)] Cons.prems(2) by (simp add: b1_def)
  have "list_all (\<lambda>(s, e). 0 \<le> s \<and> s \<le> e \<and> e < int (length d)) rs" using Cons.prems(1) by simp
  from Cons.IH [OF this lb1, of "k + (e - s + 1)" "calls @ [(k + (e - s + 1), n)]"] obtain b' calls' where
    rec: "fetch_chunks env n rs (k + (e - s + 1)) b1 (calls @ [(k + (e - s + 1), n)]) = (Inr (), b', calls')"
      "length b' = length d" "\<forall>i<length d. b' ! i = (if covers rs (int i) then d ! i else b1 ! i)"
      "rs \<noteq> [] \<longrightarrow> calls' \<noteq> [] \<and> List.last calls' = (k + (e - s + 1) + range_bytes rs, n)"
      "rs = [] \<longrightarrow> calls' = calls @ [(k + (e - s + 1), n)]"
    by blast
  have "fetch_chunks env n (r # rs) k b calls = (Inr (), b', calls')"
    using rec(1) len(1) se by (simp add: r assms(1) Let_def b1_def p_def)
  moreover have "b' ! i = (if covers (r # rs) (int i) then d ! i else b ! i)" if "i < length d" for i
    using rec(3) b1(2) [OF that] that by (auto simp: covers_def r)
  moreover have "calls' \<noteq> [] \<and> List.last calls' = (k + range_bytes (r # rs), n)"
    using rec(4,5) by (cases "rs = []") (auto simp: range_bytes_def r)
  ultimately show ?case using rec(2) by blast
qed

lemma mset_covers: "mset rs = mset rs' \<Longrightarrow> covers rs = covers rs'"
  unfolding covers_def list_ex_iff by (drule mset_eq_setD) simp

lemma mset_range_bytes: "mset rs = mset rs' \<Longrightarrow> range_bytes rs = range_bytes rs'"
  unfolding range_bytes_def sum_mset_sum_list [symmetric] mset_map by simp

section \<open>Reassembly\<close>

text \<open>C35: From a server that answers range requests, a chunked download of a file of at least two
  chunks writes exactly that file, in whatever order the ranges arrive; it is kept when no
  hash is expected or the hash matches, and otherwise deleted with a ValueError; the last
  progress call reports the whole size.\<close>

theorem chunked_download_reassembles:
  assumes "0 < chunk_size" and "int (length d) \<ge> chunk_size * 2"
    and "fs_mkdirs (butlast dest) fs = Inr fs0" and "fs_write dest (Bytes []) fs0 = Inr fs1"
    and "dl_head env = Inr (Some len, Some ''bytes'')" and "py_int len = Some (int (length d))"
    and "\<And>s e. 0 \<le> s \<Longrightarrow> s \<le> e \<Longrightarrow> e < int (length d) \<Longrightarrow> dl_range env s e = Inr (piece d s e)"
    and "\<And>rs. mset (dl_order env rs) = mset rs"
  shows "\<exists>fs' calls. let ok = (sha = [] \<or> fe_hash (dl_file env) (Bytes d) = sha) in
    download env chunk_size dest sha fs =
      Some (if ok then Inr dest else Inl (ValueError ''Hash mismatch''), fs', calls) \<and>
    fs_node fs' dest = (if ok then Some (File (Bytes d)) else None) \<and>
    List.last calls = (int (length d), int (length d))"
proof -
  let ?n = "int (length d)" and ?z = "replicate (length d) (0 :: byte)"
  from chunk_ranges_partition [OF assms(1), of 0 ?n] assms(1,2) obtain rs where
    rs: "chunk_ranges chunk_size ?n 0 = Some rs" "list_all (\<lambda>(s, e). 0 \<le> s \<and> s \<le> e \<and> e < ?n) rs"
      "\<forall>i. 0 \<le> i \<and> i < ?n \<longrightarrow> covers rs i" "range_bytes rs = ?n" "rs \<noteq> []" by auto
  let ?rs = "dl_order env rs"
  have perm: "mset ?rs = mset rs" by (rule assms(8))
  then have ne: "?rs \<noteq> []" using rs(5) by auto
  have all: "list_all (\<lambda>(s, e). 0 \<le> s \<and> s \<le> e \<and> e < ?n) ?rs"
    using rs(2) mset_eq_setD [OF perm] by (simp add: list_all_iff)
  from fetch_chunks_honest [OF assms(7) all, of ?z ?n 0 "[]"] obtain b calls where
    f: "fetch_chunks env ?n ?rs 0 ?z [] = (Inr (), b, calls)" "length b = length d"
      "\<forall>i<length d. b ! i = (if covers ?rs (int i) then d ! i else ?z ! i)"
      "List.last calls = (range_bytes ?rs, ?n)"
    using ne by auto
  have "b = d"
    using f(2,3) rs(3) mset_covers [OF perm] by (intro nth_equalityI) auto
  note f = f [unfolded this mset_range_bytes [OF perm] rs(4)]
  have w: "\<not> fs_is_dir fs0 dest" "fs_is_dir fs0 (butlast dest)" "dest \<noteq> []"
    using assms(4) by (auto simp: fs_write_def fs_is_dir_def fs_node_def split: if_splits)
  then have w': "fs_write dest c fs0 = Inr (dset dest (File c) fs0)" for c
    by (simp add: fs_write_def)
  define fs1' where "fs1' = dset dest (File (Bytes d)) (dset dest (File (Bytes ?z)) fs0)"
  have "download env chunk_size dest sha fs = Some (chunked_download env dest rs ?n sha fs0)"
    using assms(2,3,5,6) rs(1) by (simp add: download_def)
  also have "chunked_download env dest rs ?n sha fs0 =
      (if sha = [] \<or> fe_hash (dl_file env) (Bytes d) = sha then (Inr dest, fs1', calls)
       else (Inl (ValueError ''Hash mismatch''), fs_unlink dest fs1', calls))"
    using f(1) w' by (simp add: chunked_download_def Let_def fs1'_def)
  finally show ?thesis
    using f(4) w(3) by (auto simp: Let_def fs1'_def fs_node_set fs_node_unlink)
qed

lemma py_int_5: "py_int ''5'' = Some 5"
  by (simp add: py_int_def parse_nat_def py_strip_def is_space_def digit_val_def is_digit_def)

definition demo_bytes :: "byte list" where "demo_bytes = [1, 2, 3, 4, 5]"

definition demo_server :: dl_env where
  "demo_server = \<lparr>dl_head = Inr (Some ''5'', Some ''bytes''), dl_stream = Inr ([[1, 2, 3, 4, 5]], None),
     dl_range = (\<lambda>s e. Inr (piece demo_bytes s e)), dl_order = rev,
     dl_file = \<lparr>fe_hash = (\<lambda>c. ''abc''), fe_size = (\<lambda>c. 0), fe_dir_stat = 0\<rparr>\<rparr>"

theorem chunked_download_reassembles_witness:
  "\<exists>fs' calls. download demo_server 2 [''f''] [] [] = Some (Inr [''f''], fs', calls) \<and>
     fs_node fs' [''f''] = Some (File (Bytes demo_bytes))"
proof -
  have "py_int ''5'' = Some (int (length demo_bytes))"
    by (simp add: py_int_5 demo_bytes_def)
  from chunked_download_reassembles [OF _ _ _ _ _ this, of 2 "[''f'']" "[]" "[]" _ demo_server "[]"]
  show ?thesis
    by (auto simp: demo_server_def demo_bytes_def Let_def fs_mkdirs_def fs_write_def fs_is_dir_def fs_node_def)
qed

text \<open>The hash is not looked at when the server does not take ranges or the file is small.\<close>

lemma simple_loop_bytes: "fst (simple_loop n cs k (b, calls)) = b @ concat cs"
  by (induction cs arbitrary: k b calls) (auto simp: Let_def)

text \<open>A file that is short, or comes from a server without range requests, is never verified:
  the download succeeds with whatever was sent, for every expected hash.\<close>

theorem simple_download_skips_the_hash:
  assumes "fs_mkdirs (butlast dest) fs = Inr fs0" and "fs_write dest (Bytes []) fs0 = Inr fs1"
    and "dl_head env = Inr (Some len, ranges)" and "py_int len = Some n"
    and "ranges \<noteq> Some ''bytes'' \<or> n < chunk_size * 2" and "dl_stream env = Inr (cs, None)"
  shows "\<exists>fs' calls. download env chunk_size dest sha fs = Some (Inr dest, fs', calls) \<and>
    fs_read fs' dest = Inr (Bytes (concat cs))"
proof -
  obtain b calls where l: "simple_loop n cs 0 ([], []) = (b, calls)" by (metis surj_pair)
  then have b: "b = concat cs" using simple_loop_bytes [of n cs 0 "[]" "[]"] by simp
  have w: "\<not> fs_is_dir fs0 dest" "fs_is_dir fs0 (butlast dest)" "dest \<noteq> []"
    using assms(2) by (auto simp: fs_write_def fs_is_dir_def fs_node_def split: if_splits)
  have "download env chunk_size dest sha fs = Some (simple_download env dest n fs0)"
    using assms(1,3,4,5) by (simp add: download_def)
  moreover have "simple_download env dest n fs0 = (Inr dest, dset dest (File (Bytes b)) fs0, calls)"
    using assms(6) l w by (simp add: simple_download_def fs_write_def)
  ultimately show ?thesis using w(3) b by (auto simp: fs_read_Inr fs_node_set)
qed

theorem simple_download_skips_the_hash_witness:
  "\<exists>fs' calls. download demo_server 1000 [''f''] ''wrong'' [] = Some (Inr [''f''], fs', calls) \<and>
     fs_read fs' [''f''] = Inr (Bytes [1, 2, 3, 4, 5])"
proof -
  from simple_download_skips_the_hash [OF _ _ _ py_int_5, of "[''f'']" "[]" "[]" _ demo_server _ 1000 "[[1, 2, 3, 4, 5]]" "''wrong''"]
  show ?thesis
    by (auto simp: demo_server_def fs_mkdirs_def fs_write_def fs_is_dir_def fs_node_def)
qed

end
