(* ===== verification/Layers.thy ===== *)
theory Layers
  imports FileSystem
begin

text \<open>
  \<open>virtualization/layers.py\<close> and \<open>mount.py\<close>: content-addressed package layers, their composition
  into one directory and its place on \<open>sys.path\<close>. Unpacking a tar file is a parameter: the
  members written before it ends or fails.
\<close>

section \<open>Data\<close>

record package_layer =
  pl_layer_id :: string
  pl_sha256 :: string
  pl_size :: int
  pl_content_type :: string
  pl_files :: "string list"
  pl_metadata :: "(string, pyval) dict"

record package_manifest =
  pm_name :: string
  pm_version :: string
  pm_layers :: "package_layer list"
  pm_entry_point :: string
  pm_python_requires :: string
  pm_dependencies :: "string list"

section \<open>Files of a directory\<close>

definition file_at :: "fs \<Rightarrow> path \<Rightarrow> content option" where
  "file_at fs p = (case fs_node fs p of Some (File c) \<Rightarrow> Some c | _ \<Rightarrow> None)"

text \<open>\<open>[(relative path, content)]\<close> of the files below a directory (\<open>rglob("*")\<close>)\<close>

definition files_under :: "fs \<Rightarrow> path \<Rightarrow> (path \<times> content) list" where
  "files_under fs p = List.map_filter (\<lambda>(q, n). case n of
       File c \<Rightarrow> if under p q \<and> q \<noteq> p then Some (drop (length p) q, c) else None
     | Dir \<Rightarrow> None) fs"

text \<open>Writing a file after creating its parents\<close>

definition fs_put :: "path \<Rightarrow> content \<Rightarrow> fs \<Rightarrow> exn + fs" where
  "fs_put p c fs = (case fs_mkdirs (butlast p) fs of Inl e \<Rightarrow> Inl e | Inr fs' \<Rightarrow> fs_write p c fs')"

fun put_all :: "path \<Rightarrow> (path \<times> content) list \<Rightarrow> fs \<Rightarrow> exn option \<times> fs" where
  "put_all dir [] fs = (None, fs)"
| "put_all dir ((r, c) # rs) fs =
     (case fs_put (dir @ r) c fs of Inl e \<Rightarrow> (Some e, fs) | Inr fs' \<Rightarrow> put_all dir rs fs')"

section \<open>Layer manager\<close>

text \<open>\<open>tar_members data\<close>: the members of the compressed tar in order, and the error that ends its
  extraction, if any.\<close>

record layer_env =
  le_file :: file_env
  tar_members :: "byte list \<Rightarrow> (path \<times> content) list \<times> exn option"

definition lm_has_layer :: "path \<Rightarrow> fs \<Rightarrow> string \<Rightarrow> bool" where
  "lm_has_layer layers_dir fs layer_id = fs_exists fs (path_join layers_dir layer_id)"

definition lm_get_layer_path :: "path \<Rightarrow> fs \<Rightarrow> string \<Rightarrow> path option" where
  "lm_get_layer_path layers_dir fs layer_id = (let p = path_join layers_dir layer_id in
     if fs_exists fs p then Some p else None)"

definition extract_layer :: "layer_env \<Rightarrow> byte list \<Rightarrow> path \<Rightarrow> fs \<Rightarrow> exn option \<times> fs" where
  "extract_layer env data layer_path fs = (case fs_mkdirs layer_path fs of
       Inl e \<Rightarrow> (Some e, fs)
     | Inr fs1 \<Rightarrow> (case tar_members env data of (members, err) \<Rightarrow>
         (case put_all layer_path members fs1 of
            (Some e, fs2) \<Rightarrow> (Some e, fs2) | (None, fs2) \<Rightarrow> (err, fs2))))"

definition lm_store_layer ::
  "layer_env \<Rightarrow> path \<Rightarrow> byte list \<Rightarrow> string \<Rightarrow> fs \<Rightarrow> (exn + package_layer) \<times> fs" where
  "lm_store_layer env layers_dir data content_type fs =
     (let sha = fe_hash (le_file env) (Bytes data);
          layer_id = take 16 sha;
          layer_path = path_join layers_dir layer_id in
      case (if fs_exists fs layer_path then (None, fs) else extract_layer env data layer_path fs) of
        (Some e, fs') \<Rightarrow> (Inl e, fs')
      | (None, fs') \<Rightarrow>
          (Inr \<lparr>pl_layer_id = layer_id, pl_sha256 = sha, pl_size = int (length data),
             pl_content_type = content_type,
             pl_files = map (\<lambda>(r, c). py_join ''/'' r) (files_under fs' layer_path), pl_metadata = []\<rparr>, fs'))"

definition composed_dir :: "layer_env \<Rightarrow> path \<Rightarrow> package_layer list \<Rightarrow> path" where
  "composed_dir env layers_dir layers = layers_dir @ [''composed'',
     take 16 (fe_hash (le_file env) (Text (py_join '':'' (map pl_layer_id layers))))]"

fun compose_loop :: "path \<Rightarrow> path \<Rightarrow> package_layer list \<Rightarrow> fs \<Rightarrow> exn option \<times> fs" where
  "compose_loop layers_dir composed [] fs = (None, fs)"
| "compose_loop layers_dir composed (l # ls) fs =
     (let src = path_join layers_dir (pl_layer_id l) in
      if fs_exists fs src then
        (case put_all composed (files_under fs src) fs of
           (Some e, fs') \<Rightarrow> (Some e, fs') | (None, fs') \<Rightarrow> compose_loop layers_dir composed ls fs')
      else compose_loop layers_dir composed ls fs)"

definition compose_layers ::
  "layer_env \<Rightarrow> path \<Rightarrow> package_layer list \<Rightarrow> fs \<Rightarrow> (exn + path) \<times> fs" where
  "compose_layers env layers_dir layers fs =
     (let composed = composed_dir env layers_dir layers in
      if fs_exists fs composed then (Inr composed, fs)
      else case fs_mkdirs composed fs of
          Inl e \<Rightarrow> (Inl e, fs)
        | Inr fs1 \<Rightarrow>
            (case compose_loop layers_dir composed layers fs1 of
               (Some e, fs2) \<Rightarrow> (Inl e, fs2) | (None, fs2) \<Rightarrow> (Inr composed, fs2)))"

definition child_dirs :: "path \<Rightarrow> fs \<Rightarrow> path list" where
  "child_dirs p fs = filter (\<lambda>q. length q = Suc (length p) \<and> under p q \<and> fs_is_dir fs q) (dkeys fs)"

definition cleanup_unused :: "path \<Rightarrow> string set \<Rightarrow> fs \<Rightarrow> nat \<times> fs" where
  "cleanup_unused layers_dir active_layers fs =
     fold (\<lambda>p (removed, fs). (Suc removed, fs_rmtree p fs))
       (filter (\<lambda>p. \<not> (path_name p = ''composed'' \<or> path_name p \<in> active_layers)) (child_dirs layers_dir fs))
       (0, fs)"

definition total_size_mb :: "file_env \<Rightarrow> path \<Rightarrow> fs \<Rightarrow> real" where
  "total_size_mb env layers_dir fs = real (fs_dir_size env fs layers_dir) / (1024 * 1024)"

section \<open>Mounts\<close>

record mount_state =
  vm_mounts :: "(string, path) dict"
  sys_path :: "string list"
  sys_modules :: "string list"
  vm_fs :: fs

definition mount :: "layer_env \<Rightarrow> path \<Rightarrow> package_manifest \<Rightarrow> mount_state \<Rightarrow> (exn + path) \<times> mount_state" where
  "mount env layers_dir m st = (case dget (vm_mounts st) (pm_name m) of
       Some p \<Rightarrow> (Inr p, st)
     | None \<Rightarrow>
         (case compose_layers env layers_dir (pm_layers m) (vm_fs st) of
            (Inl e, fs') \<Rightarrow> (Inl e, st\<lparr>vm_fs := fs'\<rparr>)
          | (Inr p, fs') \<Rightarrow>
              (Inr p, st\<lparr>vm_fs := fs',
                 sys_path := (if path_str p \<in> set (sys_path st) then sys_path st else path_str p # sys_path st),
                 vm_mounts := dset (pm_name m) p (vm_mounts st)\<rparr>)))"

text \<open>\<open>if mount_path and ...\<close>: a path is always true.\<close>

definition unmount :: "string \<Rightarrow> mount_state \<Rightarrow> mount_state" where
  "unmount package_name st =
     st\<lparr>vm_mounts := ddel package_name (vm_mounts st),
        sys_path := (case dget (vm_mounts st) package_name of
           None \<Rightarrow> sys_path st | Some p \<Rightarrow> remove1 (path_str p) (sys_path st)),
        sys_modules := filter (\<lambda>k. \<not> (k = package_name \<or> py_startswith k (package_name @ ''.''))) (sys_modules st)\<rparr>"

definition is_mounted :: "mount_state \<Rightarrow> string \<Rightarrow> bool" where
  "is_mounted st package_name = dhas (vm_mounts st) package_name"

definition list_mounts :: "mount_state \<Rightarrow> (string \<times> string) list" where
  "list_mounts st = map (\<lambda>(n, p). (n, path_str p)) (vm_mounts st)"

definition unmount_all :: "mount_state \<Rightarrow> mount_state" where
  "unmount_all st = fold unmount (dkeys (vm_mounts st)) st"

section \<open>Copying files\<close>

lemma mkdirs_files: "fs_mkdirs_from p cs fs = Inr fs' \<Longrightarrow> file_at fs' q = file_at fs q"
proof (induction p cs fs rule: fs_mkdirs_from.induct)
  case (2 p c cs fs)
  then show ?case
    by (auto simp: file_at_def fs_node_set split: option.splits node.splits if_splits)
qed simp

lemma put_files: "fs_put p c fs = Inr fs' \<Longrightarrow> file_at fs' q = (if q = p then Some c else file_at fs q)"
  by (auto simp: fs_put_def fs_mkdirs_def file_at_def fs_write_node dest: mkdirs_files [of _ _ _ _ q]
      split: sum.splits)

lemma put_all_files:
  "put_all dir rs fs = (None, fs') \<Longrightarrow> file_at fs' q =
     (if under dir q then (case map_of (rev rs) (drop (length dir) q) of
         Some c \<Rightarrow> Some c | None \<Rightarrow> file_at fs q) else file_at fs q)"
proof (induction dir rs fs rule: put_all.induct)
  case (1 dir fs)
  then show ?case by simp
next
  case (2 dir r c rs fs)
  then obtain fs1 where fs1: "fs_put (dir @ r) c fs = Inr fs1" "put_all dir rs fs1 = (None, fs')"
    by (auto split: sum.splits)
  have eq: "q = dir @ r \<longleftrightarrow> under dir q \<and> drop (length dir) q = r"
    unfolding under_def by (metis append_eq_conv_conj append_take_drop_id)
  show ?case
    using 2(1) [OF fs1] put_files [OF fs1(1), of q] eq
    by (auto simp: map_add_def split: option.splits)
qed

lemma file_at_files_under:
  assumes "dict_ok fs" and "r \<noteq> []"
  shows "map_of (rev (files_under fs p)) r = file_at fs (p @ r)"
proof -
  let ?f = "\<lambda>(q, n). case n of File c \<Rightarrow> if under p q \<and> q \<noteq> p then Some (drop (length p) q, c) else None | Dir \<Rightarrow> None"
  have keys: "dkeys (files_under fs p) = map (drop (length p)) (filter (\<lambda>q. under p q \<and> q \<noteq> p)
      (map fst (filter (\<lambda>(q, n). n \<noteq> Dir) fs)))"
    unfolding files_under_def
    by (induction fs) (auto simp: List.map_filter_simps split: node.splits)
  have "inj_on (drop (length p)) (Collect (under p))"
    by (rule inj_onI) (metis append_take_drop_id mem_Collect_eq under_def)
  moreover have "distinct (map fst (filter (\<lambda>(q, n). n \<noteq> Dir) fs))"
    using assms(1) by (simp add: dict_ok_def distinct_map_filter)
  ultimately have "distinct (dkeys (files_under fs p))"
    unfolding keys by (subst distinct_map) (auto intro: inj_on_subset)
  then have *: "map_of (rev (files_under fs p)) r = Some c \<longleftrightarrow> (r, c) \<in> set (files_under fs p)" for c
    by (metis distinct_rev map_of_eq_Some_iff rev_map set_rev)
  have "(r, c) \<in> set (files_under fs p) \<longleftrightarrow> (p @ r, File c) \<in> set fs" for c
  proof
    assume "(r, c) \<in> set (files_under fs p)"
    then obtain q where "(q, File c) \<in> set fs" "under p q" "r = drop (length p) q"
      by (auto simp: files_under_def List.map_filter_def split: node.splits if_splits)
    then show "(p @ r, File c) \<in> set fs" by (metis append_take_drop_id under_def)
  next
    assume "(p @ r, File c) \<in> set fs"
    then show "(r, c) \<in> set (files_under fs p)"
      using assms(2) by (force simp: files_under_def List.map_filter_def under_def)
  qed
  moreover have "(p @ r, File c) \<in> set fs \<longleftrightarrow> file_at fs (p @ r) = Some c" for c
    using assms dget_mem [of fs "p @ r" "File c"]
    by (auto simp: file_at_def fs_node_def split: option.splits node.splits)
  ultimately show ?thesis by (metis * not_Some_eq)
qed

lemma under_iff: "under p q \<longleftrightarrow> (\<exists>t. q = p @ t)"
  unfolding under_def by (metis append_eq_conv_conj append_take_drop_id)

lemma under_butlast: "under q (butlast p) \<Longrightarrow> under q p"
  by (cases p rule: rev_cases) (auto simp: under_iff)

lemma put_nodes: "fs_put p c fs = Inr fs' \<Longrightarrow> \<not> under q p \<Longrightarrow> fs_node fs' q = fs_node fs q"
proof -
  assume a: "fs_put p c fs = Inr fs'" and u: "\<not> under q p"
  from a obtain fs1 where fs1: "fs_mkdirs_from [] (butlast p) fs = Inr fs1" "fs_write p c fs1 = Inr fs'"
    by (auto simp: fs_put_def fs_mkdirs_def split: sum.splits)
  have "\<not> under q ([] @ butlast p)" using u under_butlast by auto
  moreover have "q \<noteq> p" using u by (auto simp: under_def)
  ultimately show ?thesis using mkdirs_nodes [OF fs1(1)] fs_write_node [OF fs1(2), of q] by simp
qed

lemma put_dict_ok: "fs_put p c fs = Inr fs' \<Longrightarrow> dict_ok fs \<Longrightarrow> dict_ok fs'"
  by (auto simp: fs_put_def fs_mkdirs_def dest: mkdirs_dict_ok fs_write_ok split: sum.splits)

lemma put_all_dict_ok: "put_all dir rs fs = (e, fs') \<Longrightarrow> dict_ok fs \<Longrightarrow> dict_ok fs'"
  by (induction dir rs fs rule: put_all.induct) (auto dest: put_dict_ok split: sum.splits)

lemma put_all_nodes:
  "put_all dir rs fs = (e, fs') \<Longrightarrow> \<not> under q dir \<Longrightarrow> \<not> under dir q \<Longrightarrow> fs_node fs' q = fs_node fs q"
proof (induction dir rs fs rule: put_all.induct)
  case (2 dir r c rs fs)
  then have "\<not> under q (dir @ r)"
    by (auto simp: under_iff append_eq_append_conv2)
  with 2 show ?case
    by (auto split: sum.splits dest: put_nodes)
qed simp

section \<open>Composition\<close>

text \<open>What the composition promises: at a relative path stands the file of the last layer that has
  one there; layers that are not on disk count for nothing.\<close>

fun overlay :: "path \<Rightarrow> package_layer list \<Rightarrow> fs \<Rightarrow> path \<Rightarrow> content option" where
  "overlay layers_dir [] fs r = None"
| "overlay layers_dir (l # ls) fs r = (case overlay layers_dir ls fs r of
       Some c \<Rightarrow> Some c
     | None \<Rightarrow> (let src = path_join layers_dir (pl_layer_id l) in
         if fs_exists fs src then file_at fs (src @ r) else None))"

definition simple_ids :: "package_layer list \<Rightarrow> bool" where
  "simple_ids ls = list_all (\<lambda>l. path_parts (pl_layer_id l) = [pl_layer_id l] \<and>
     \<not> py_startswith (pl_layer_id l) ''/'' \<and> pl_layer_id l \<noteq> ''composed'') ls"

lemma layer_src: "simple_ids (l # ls) \<Longrightarrow> path_join dir (pl_layer_id l) = dir @ [pl_layer_id l]"
  by (simp add: simple_ids_def path_join_def)

lemma layer_apart:
  assumes "simple_ids (l # ls)" and "composed = dir @ [''composed'', h]"
  shows "\<not> under (dir @ pl_layer_id l # r) composed" and "\<not> under composed (dir @ pl_layer_id l # r)"
  using assms by (auto simp: under_iff simple_ids_def)

lemma overlay_frame:
  assumes "simple_ids ls" and "composed = dir @ [''composed'', h]" and "put_all composed rs fs = (e, fs1)"
  shows "overlay dir ls fs1 r = overlay dir ls fs r"
  using assms(1)
proof (induction ls)
  case (Cons l ls)
  have node: "fs_node fs1 (dir @ pl_layer_id l # r) = fs_node fs (dir @ pl_layer_id l # r)" for r
    using layer_apart [OF Cons.prems assms(2)] by (rule put_all_nodes [OF assms(3)])
  from Cons have "overlay dir ls fs1 r = overlay dir ls fs r" by (simp add: simple_ids_def)
  with node [of r] node [of "[]"] show ?case
    by (simp add: layer_src [OF Cons.prems] fs_exists_def file_at_def Let_def split: option.split)
qed simp

lemma compose_loop_overlay:
  assumes "composed = dir @ [''composed'', h]" and "r \<noteq> []"
  shows "compose_loop dir composed ls fs = (None, fs') \<Longrightarrow> dict_ok fs \<Longrightarrow> simple_ids ls \<Longrightarrow>
    file_at fs' (composed @ r) = (case overlay dir ls fs r of Some c \<Rightarrow> Some c | None \<Rightarrow> file_at fs (composed @ r))"
proof (induction ls arbitrary: fs)
  case Nil
  then show ?case by simp
next
  case (Cons l ls)
  let ?src = "dir @ [pl_layer_id l]"
  have ids: "simple_ids ls" using Cons.prems(3) by (simp add: simple_ids_def)
  note src = layer_src [OF Cons.prems(3), of dir]
  show ?case
  proof (cases "fs_exists fs ?src")
    case False
    with Cons.prems have "compose_loop dir composed ls fs = (None, fs')" by (simp add: src)
    from Cons.IH [OF this Cons.prems(2) ids] False show ?thesis
      by (simp add: src Let_def split: option.split)
  next
    case True
    with Cons.prems obtain fs1 where fs1: "put_all composed (files_under fs ?src) fs = (None, fs1)"
      "compose_loop dir composed ls fs1 = (None, fs')"
      by (auto simp: src Let_def split: prod.splits option.splits)
    have "file_at fs1 (composed @ r) = (case file_at fs (?src @ r) of Some c \<Rightarrow> Some c | None \<Rightarrow> file_at fs (composed @ r))"
      using put_all_files [OF fs1(1), of "composed @ r"] file_at_files_under [OF Cons.prems(2) assms(2), of ?src]
      by (simp add: under_iff)
    with Cons.IH [OF fs1(2) put_all_dict_ok [OF fs1(1) Cons.prems(2)] ids] True
      overlay_frame [OF ids assms(1) fs1(1)]
    show ?thesis by (simp add: src Let_def split: option.split)
  qed
qed


definition demo_layer :: "string \<Rightarrow> package_layer" where
  "demo_layer i = \<lparr>pl_layer_id = i, pl_sha256 = i, pl_size = 1, pl_content_type = ''python'',
     pl_files = [], pl_metadata = []\<rparr>"

definition demo_layer_env :: layer_env where
  "demo_layer_env = \<lparr>le_file = \<lparr>fe_hash = (\<lambda>c. ''h''), fe_size = (\<lambda>c. 0), fe_dir_stat = 0\<rparr>,
     tar_members = (\<lambda>d. ([([''m.py''], Text ''1'')], Some (OSError ''truncated'')))\<rparr>"

definition demo_layer_fs :: fs where
  "demo_layer_fs = [([''L''], Dir), ([''L'', ''a''], Dir), ([''L'', ''a'', ''x''], File (Text ''1'')),
     ([''L'', ''b''], Dir), ([''L'', ''b'', ''x''], File (Text ''2''))]"

lemma demo_compose:
  "\<exists>fs'. compose_layers demo_layer_env [''L''] [demo_layer ''a'', demo_layer ''b''] demo_layer_fs
     = (Inr [''L'', ''composed'', ''h''], fs')"
  by (simp add: compose_layers_def composed_dir_def demo_layer_env_def demo_layer_def demo_layer_fs_def Let_def
      fs_exists_def fs_node_def fs_mkdirs_def path_join_def path_parts_def files_under_def under_def fs_put_def
      List.map_filter_simps fs_write_def fs_is_dir_def)


section \<open>Failures that are kept\<close>

text \<open>A layer whose archive breaks off while it is unpacked raises once and is taken for a whole
  layer from then on: storing the same data again returns a layer listing the files unpacked
  before the error, and the partial directory is used wherever the layer is.\<close>

theorem broken_layer_is_kept:
  assumes "lm_store_layer env layers_dir data ct fs = (Inl e, fs')"
    and "fs_exists fs' (path_join layers_dir (take 16 (fe_hash (le_file env) (Bytes data))))"
  shows "\<exists>l. lm_store_layer env layers_dir data ct' fs' = (Inr l, fs') \<and>
    pl_layer_id l = take 16 (fe_hash (le_file env) (Bytes data)) \<and> pl_content_type l = ct' \<and>
    pl_files l = map (\<lambda>(r, c). py_join ''/'' r) (files_under fs' (path_join layers_dir (pl_layer_id l)))"
  using assms by (simp add: lm_store_layer_def Let_def)

theorem broken_layer_is_kept_witness:
  "\<exists>fs' l. lm_store_layer demo_layer_env [''L''] [] ''python'' [([''L''], Dir)] = (Inl (OSError ''truncated''), fs') \<and>
     lm_store_layer demo_layer_env [''L''] [] ''python'' fs' = (Inr l, fs') \<and> pl_files l = [''m.py'']"
proof -
  define fs' where "fs' = [([''L''], Dir), ([''L'', ''h''], Dir), ([''L'', ''h'', ''m.py''], File (Text ''1''))]"
  have a: "lm_store_layer demo_layer_env [''L''] [] ''python'' [([''L''], Dir)] = (Inl (OSError ''truncated''), fs')"
    by (simp add: lm_store_layer_def extract_layer_def demo_layer_env_def Let_def fs'_def fs_exists_def fs_node_def
        fs_mkdirs_def path_join_def path_parts_def fs_put_def fs_write_def fs_is_dir_def)
  have b: "fs_exists fs' (path_join [''L''] (take 16 (fe_hash (le_file demo_layer_env) (Bytes []))))"
    by (simp add: fs'_def demo_layer_env_def fs_exists_def fs_node_def path_join_def path_parts_def)
  from broken_layer_is_kept [OF a b, of "''python''"] obtain l where
    l: "lm_store_layer demo_layer_env [''L''] [] ''python'' fs' = (Inr l, fs')"
      "pl_layer_id l = take 16 (fe_hash (le_file demo_layer_env) (Bytes []))"
      "pl_files l = map (\<lambda>(r, c). py_join ''/'' r) (files_under fs' (path_join [''L''] (pl_layer_id l)))"
    by blast
  have "pl_files l = [''m.py'']"
    unfolding l(3) l(2) by (simp add: demo_layer_env_def fs'_def path_join_def path_parts_def files_under_def
        List.map_filter_simps under_def)
  with a l(1) show ?thesis by blast
qed

section \<open>Mounting\<close>

lemma mount_new:
  assumes "dget (vm_mounts st) (pm_name m) = None"
    and "compose_layers env layers_dir (pm_layers m) (vm_fs st) = (Inr p, fs')"
  shows "mount env layers_dir m st = (Inr p, st\<lparr>vm_fs := fs',
     sys_path := (if path_str p \<in> set (sys_path st) then sys_path st else path_str p # sys_path st),
     vm_mounts := dset (pm_name m) p (vm_mounts st)\<rparr>)"
  using assms by (simp add: mount_def)

text \<open>Mounting puts a package's directory first on the import path, and unmounting it takes it off
  again; but packages with the same layers share their directory, and unmounting one takes the
  path of the other away while it still counts as mounted.\<close>

theorem shared_mount_is_lost:
  assumes "dget (vm_mounts st) (pm_name m1) = None" and "dget (vm_mounts st) (pm_name m2) = None"
    and "pm_name m1 \<noteq> pm_name m2" and "pm_layers m1 = pm_layers m2"
    and "compose_layers env layers_dir (pm_layers m1) (vm_fs st) = (Inr p, fs')" and "fs_exists fs' p"
    and "path_str p \<notin> set (sys_path st)"
    and "st1 = snd (mount env layers_dir m1 st)" and "st2 = snd (mount env layers_dir m2 st1)"
  shows "sys_path st1 = path_str p # sys_path st \<and> sys_path (unmount (pm_name m1) st1) = sys_path st \<and>
    sys_path st2 = sys_path st1 \<and>
    (let st3 = unmount (pm_name m1) st2 in
       is_mounted st3 (pm_name m2) \<and> \<not> is_mounted st3 (pm_name m1) \<and> path_str p \<notin> set (sys_path st3))"
proof -
  have p: "p = composed_dir env layers_dir (pm_layers m1)"
    using assms(5) by (auto simp: compose_layers_def Let_def split: if_splits sum.splits prod.splits option.splits)
  have st1: "st1 = st\<lparr>vm_fs := fs', sys_path := path_str p # sys_path st, vm_mounts := dset (pm_name m1) p (vm_mounts st)\<rparr>"
    using mount_new [OF assms(1,5)] assms(7,8) by simp
  have again: "compose_layers env layers_dir (pm_layers m2) (vm_fs st1) = (Inr p, fs')"
    using assms(6) by (simp add: st1 compose_layers_def p flip: assms(4))
  have "dget (vm_mounts st1) (pm_name m2) = None" using assms(2,3) by (simp add: st1 dget_dset)
  from mount_new [OF this again] have st2: "st2 = st1\<lparr>vm_mounts := dset (pm_name m2) p (vm_mounts st1)\<rparr>"
    by (simp add: assms(9) st1)
  show ?thesis using assms(3,7)
    by (simp add: st2 st1 unmount_def is_mounted_def Let_def dict_simps dget_dset)
qed

theorem shared_mount_is_lost_witness:
  "let m = (\<lambda>n. \<lparr>pm_name = n, pm_version = ''1'', pm_layers = [demo_layer ''a'', demo_layer ''b''], pm_entry_point = [],
       pm_python_requires = [], pm_dependencies = []\<rparr>);
       st = \<lparr>vm_mounts = [], sys_path = [], sys_modules = [], vm_fs = demo_layer_fs\<rparr>;
       st3 = unmount ''x'' (snd (mount demo_layer_env [''L''] (m ''y'') (snd (mount demo_layer_env [''L''] (m ''x'') st))))
   in is_mounted st3 ''y'' \<and> ''/L/composed/h'' \<notin> set (sys_path st3)"
proof -
  let ?m = "\<lambda>n. \<lparr>pm_name = n, pm_version = ''1'', pm_layers = [demo_layer ''a'', demo_layer ''b''], pm_entry_point = [],
       pm_python_requires = [], pm_dependencies = []\<rparr>"
  let ?st = "\<lparr>vm_mounts = [], sys_path = [], sys_modules = [], vm_fs = demo_layer_fs\<rparr>"
  obtain fs' where c: "compose_layers demo_layer_env [''L''] [demo_layer ''a'', demo_layer ''b''] demo_layer_fs
     = (Inr [''L'', ''composed'', ''h''], fs')" using demo_compose ..
  have "fs_exists fs' [''L'', ''composed'', ''h'']"
    using c by (auto simp: compose_layers_def composed_dir_def demo_layer_env_def demo_layer_def demo_layer_fs_def Let_def
      fs_exists_def fs_node_def fs_mkdirs_def path_join_def path_parts_def files_under_def under_def fs_put_def
      List.map_filter_simps fs_write_def fs_is_dir_def)
  with c shared_mount_is_lost [of ?st "?m ''x''" "?m ''y''" demo_layer_env "[''L'']" "[''L'', ''composed'', ''h'']" fs', OF _ _ _ _ _ _ _ refl refl]
  show ?thesis by (simp add: Let_def path_str_def)
qed

end
