(* ===== verification/Registry.thy ===== *)
theory Registry
  imports Layers PyText
begin

text \<open>
  \<open>virtualization/registry.py\<close>, \<open>loader.py\<close> and \<open>linker.py\<close>: the local catalogue of package
  manifests, modules that load on first use, and shared libraries.
\<close>

section \<open>Manifests as JSON\<close>

definition layer_json :: "package_layer \<Rightarrow> pyval" where
  "layer_json l = VDict [(VStr ''layer_id'', VStr (pl_layer_id l)), (VStr ''sha256'', VStr (pl_sha256 l)),
     (VStr ''size'', VInt (pl_size l)), (VStr ''content_type'', VStr (pl_content_type l)),
     (VStr ''files'', VList (map VStr (pl_files l)))]"

definition manifest_json :: "package_manifest \<Rightarrow> pyval" where
  "manifest_json m = VDict [(VStr ''name'', VStr (pm_name m)), (VStr ''version'', VStr (pm_version m)),
     (VStr ''entry_point'', VStr (pm_entry_point m)), (VStr ''python_requires'', VStr (pm_python_requires m)),
     (VStr ''dependencies'', VList (map VStr (pm_dependencies m))),
     (VStr ''layers'', VList (map layer_json (pm_layers m)))]"

text \<open>Fields of other types than the dataclasses declare, which the code would pass on, are an error
  here.\<close>

definition ill_typed :: exn where
  "ill_typed = OtherError ''IllTyped'' ''field of another type''"

definition as_text :: "pyval \<Rightarrow> exn + string" where
  "as_text v = (case v of VStr s \<Rightarrow> Inr s | _ \<Rightarrow> Inl ill_typed)"

definition as_integer :: "pyval \<Rightarrow> exn + int" where
  "as_integer v = (case v of VInt i \<Rightarrow> Inr i | _ \<Rightarrow> Inl ill_typed)"

definition as_texts :: "pyval \<Rightarrow> exn + string list" where
  "as_texts v = (case v of VList xs \<Rightarrow> traverse as_text xs | _ \<Rightarrow> Inl ill_typed)"

text \<open>\<open>l[k]\<close> and \<open>l.get(k, d)\<close>\<close>

definition py_index :: "pyval \<Rightarrow> string \<Rightarrow> exn + pyval" where
  "py_index v k = (case v of VDict d \<Rightarrow> py_item d k | _ \<Rightarrow> Inl (TypeError ''indices must be integers''))"

definition parse_layer :: "pyval \<Rightarrow> exn + package_layer" where
  "parse_layer l =
     bind_result (bind_result (py_index l ''layer_id'') as_text) (\<lambda>i.
     bind_result (bind_result (py_index l ''sha256'') as_text) (\<lambda>h.
     bind_result (bind_result (py_index l ''size'') as_integer) (\<lambda>n.
     bind_result (bind_result (py_get l ''content_type'' (VStr ''python'')) as_text) (\<lambda>c.
     bind_result (bind_result (py_get l ''files'' (VList [])) as_texts) (\<lambda>f.
       Inr \<lparr>pl_layer_id = i, pl_sha256 = h, pl_size = n, pl_content_type = c, pl_files = f, pl_metadata = []\<rparr>)))))"

definition parse_manifest :: "pyval \<Rightarrow> exn + package_manifest" where
  "parse_manifest data =
     bind_result (py_get data ''layers'' (VList [])) (\<lambda>ls.
     bind_result (bind_result (py_iter ls) (traverse parse_layer)) (\<lambda>layers.
     bind_result (bind_result (py_index data ''name'') as_text) (\<lambda>n.
     bind_result (bind_result (py_index data ''version'') as_text) (\<lambda>v.
     bind_result (bind_result (py_get data ''entry_point'' (VStr [])) as_text) (\<lambda>e.
     bind_result (bind_result (py_get data ''python_requires'' (VStr [])) as_text) (\<lambda>r.
     bind_result (bind_result (py_get data ''dependencies'' (VList [])) as_texts) (\<lambda>d.
       Inr \<lparr>pm_name = n, pm_version = v, pm_layers = layers, pm_entry_point = e,
         pm_python_requires = r, pm_dependencies = d\<rparr>)))))))"

section \<open>Registry\<close>

record package_catalog =
  rg_dir :: path
  rg_cache :: "(string, package_manifest) dict"
  rg_fs :: fs

definition manifest_path :: "path \<Rightarrow> string \<Rightarrow> path" where
  "manifest_path dir name = path_join dir (name @ ''.manifest.json'')"

definition read_manifest :: "path \<Rightarrow> fs \<Rightarrow> string \<Rightarrow> package_manifest option" where
  "read_manifest dir fs name =
     (case bind_result (bind_result (fs_read fs (manifest_path dir name)) json_loads) parse_manifest of
        Inl e \<Rightarrow> None | Inr m \<Rightarrow> Some m)"

definition reg_get :: "string \<Rightarrow> package_catalog \<Rightarrow> package_manifest option \<times> package_catalog" where
  "reg_get name s = (case dget (rg_cache s) name of
       Some m \<Rightarrow> (Some m, s)
     | None \<Rightarrow>
         (if \<not> fs_exists (rg_fs s) (manifest_path (rg_dir s) name) then (None, s)
          else case read_manifest (rg_dir s) (rg_fs s) name of
              None \<Rightarrow> (None, s)
            | Some m \<Rightarrow> (Some m, s\<lparr>rg_cache := dset name m (rg_cache s)\<rparr>)))"

definition reg_store :: "(pyval \<Rightarrow> string) \<Rightarrow> package_manifest \<Rightarrow> package_catalog \<Rightarrow> exn option \<times> package_catalog" where
  "reg_store str m s =
     (case bind_result (json_dumps str (manifest_json m))
         (\<lambda>c. fs_write (manifest_path (rg_dir s) (pm_name m)) c (rg_fs s)) of
        Inl e \<Rightarrow> (Some e, s)
      | Inr fs \<Rightarrow> (None, s\<lparr>rg_fs := fs, rg_cache := dset (pm_name m) m (rg_cache s)\<rparr>))"

text \<open>\<open>p.stem\<close> drops \<open>.json\<close>.\<close>

definition list_packages :: "package_catalog \<Rightarrow> string list" where
  "list_packages s = map (\<lambda>p. py_replace ''.manifest'' [] (take (length (path_name p) - 5) (path_name p)))
     (fs_glob_suffix (rg_fs s) (rg_dir s) ''.manifest.json'')"

definition reg_remove :: "string \<Rightarrow> package_catalog \<Rightarrow> exn option \<times> package_catalog" where
  "reg_remove name s = (let p = manifest_path (rg_dir s) name in
     if fs_is_dir (rg_fs s) p then (Some (OSError ''Is a directory''), s)
     else (None, s\<lparr>rg_fs := fs_unlink p (rg_fs s), rg_cache := ddel name (rg_cache s)\<rparr>))"

section \<open>The JSON round trip\<close>

definition strip_layer :: "package_layer \<Rightarrow> package_layer" where
  "strip_layer l = l\<lparr>pl_metadata := []\<rparr>"

definition strip_meta :: "package_manifest \<Rightarrow> package_manifest" where
  "strip_meta m = m\<lparr>pm_layers := map strip_layer (pm_layers m)\<rparr>"

lemma as_texts_map [simp]: "as_texts (VList (map VStr xs)) = Inr xs"
proof -
  have "traverse as_text (map VStr xs) = Inr xs" by (induction xs) (auto simp: as_text_def)
  then show ?thesis by (simp add: as_texts_def)
qed

lemma parse_layer_json: "parse_layer (layer_json l) = Inr (strip_layer l)"
  by (simp add: parse_layer_def layer_json_def py_index_def py_item_def py_get_def bind_result_def as_text_def
      as_integer_def strip_layer_def)

lemma traverse_layers: "traverse parse_layer (map layer_json ls) = Inr (map strip_layer ls)"
  by (induction ls) (simp_all add: parse_layer_json)

lemma parse_manifest_json: "parse_manifest (manifest_json m) = Inr (strip_meta m)"
  by (simp add: parse_manifest_def manifest_json_def py_get_def py_iter_def bind_result_def traverse_layers
      py_index_def py_item_def as_text_def strip_meta_def)

lemma canonical_manifest: "canonical (manifest_json m)"
  by (simp add: manifest_json_def layer_json_def list_all_iff)

lemma strip_meta_idem [simp]: "strip_meta (strip_meta m) = strip_meta m"
  by (simp add: strip_meta_def strip_layer_def)

definition decoded :: "exn + 'a \<Rightarrow> 'a option" where
  "decoded r = (case r of Inl e \<Rightarrow> None | Inr v \<Rightarrow> Some v)"

definition json_text :: "(pyval \<Rightarrow> string) \<Rightarrow> pyval \<Rightarrow> content" where
  "json_text str v = (case json_dumps str v of Inl e \<Rightarrow> Text [] | Inr c \<Rightarrow> c)"

text \<open>A manifest is written as a JSON value, and that as the text of a file.\<close>

interpretation manifest_file: codec_chain manifest_json "\<lambda>v. decoded (parse_manifest v)" "\<lambda>m. strip_meta m = m"
  "json_text str" "\<lambda>c. decoded (json_loads c)" canonical for str
  by unfold_locales (simp_all add: decoded_def parse_manifest_json json_text_def json_dumps_canonical
      json_loads_def canonical_manifest)

section \<open>The catalogue as a map\<close>

text \<open>
  Names without a slash have a file of their own. Seen from outside the catalogue is a map from
  names to manifests; a restart, which empties the memory, strips the layers' metadata.
\<close>

definition plain_name :: "string \<Rightarrow> bool" where
  "plain_name n = (CHR ''/'' \<notin> set n)"

datatype catalog_event = Store package_manifest | Get string | Remove string | Restart

fun catalog_step :: "(pyval \<Rightarrow> string) \<Rightarrow> catalog_event \<Rightarrow> package_catalog \<Rightarrow> package_catalog" where
  "catalog_step str (Store m) s = snd (reg_store str m s)"
| "catalog_step str (Get n) s = snd (reg_get n s)"
| "catalog_step str (Remove n) s = snd (reg_remove n s)"
| "catalog_step str Restart s = s\<lparr>rg_cache := []\<rparr>"

fun map_step :: "catalog_event \<Rightarrow> (string \<Rightarrow> package_manifest option) \<Rightarrow> string \<Rightarrow> package_manifest option" where
  "map_step (Store m) f = f(pm_name m := Some m)"
| "map_step (Get n) f = f"
| "map_step (Remove n) f = f(n := None)"
| "map_step Restart f = (\<lambda>n. map_option strip_meta (f n))"

definition event_ok :: "catalog_event \<Rightarrow> bool" where
  "event_ok e = (case e of Store m \<Rightarrow> plain_name (pm_name m) | Get n \<Rightarrow> plain_name n
     | Remove n \<Rightarrow> plain_name n | Restart \<Rightarrow> True)"

definition catalog_view :: "package_catalog \<Rightarrow> string \<Rightarrow> package_manifest option" where
  "catalog_view s n = (if plain_name n then fst (reg_get n s) else None)"

definition catalog_inv :: "package_catalog \<Rightarrow> bool" where
  "catalog_inv s \<longleftrightarrow> fs_is_dir (rg_fs s) (rg_dir s) \<and>
     (\<forall>n. plain_name n \<longrightarrow> \<not> fs_is_dir (rg_fs s) (manifest_path (rg_dir s) n)) \<and>
     (\<forall>n m. dget (rg_cache s) n = Some m \<longrightarrow> plain_name n \<and> read_manifest (rg_dir s) (rg_fs s) n = Some (strip_meta m))"

lemma manifest_path_plain:
  assumes "plain_name n"
  shows "manifest_path dir n = dir @ [n @ ''.manifest.json'']"
proof -
  have "CHR ''/'' \<notin> set (n @ ''.manifest.json'')" using assms by (simp add: plain_name_def)
  then have "py_split CHR ''/'' (n @ ''.manifest.json'') = [n @ ''.manifest.json'']" by (rule py_split_single)
  moreover have "\<not> py_startswith (n @ ''.manifest.json'') ''/''"
    using assms by (cases n) (auto simp: plain_name_def)
  moreover have "n @ ''.manifest.json'' \<noteq> ''.''" by (cases n) auto
  ultimately show ?thesis by (simp add: manifest_path_def path_join_def path_parts_def)
qed

lemma manifest_path_inj: "plain_name n \<Longrightarrow> plain_name n' \<Longrightarrow> manifest_path dir n = manifest_path dir n' \<longleftrightarrow> n = n'"
  by (simp add: manifest_path_plain)

lemma read_manifest_cong:
  "fs_node fs (manifest_path dir n) = fs_node fs' (manifest_path dir n) \<Longrightarrow> read_manifest dir fs n = read_manifest dir fs' n"
  by (simp add: read_manifest_def fs_read_def)

lemma read_manifest_stripped: "read_manifest dir fs n = Some m \<Longrightarrow> strip_meta m = m"
proof -
  have layer: "strip_layer l = l" if "parse_layer v = Inr l" for v l
    using that by (auto simp: parse_layer_def bind_result_def strip_layer_def split: sum.splits)
  have "map strip_layer ls = ls" if "traverse parse_layer vs = Inr ls" for vs ls
    using that by (induction vs arbitrary: ls) (auto simp: layer split: sum.splits)
  then have "strip_meta m = m" if "parse_manifest v = Inr m" for v
    using that by (auto simp: parse_manifest_def bind_result_def strip_meta_def split: sum.splits)
  then show "read_manifest dir fs n = Some m \<Longrightarrow> strip_meta m = m"
    by (auto simp: read_manifest_def bind_result_def split: sum.splits)
qed

lemma read_manifest_absent: "\<not> fs_exists fs (manifest_path dir n) \<Longrightarrow> read_manifest dir fs n = None"
  by (auto simp: read_manifest_def fs_exists_def fs_read_def bind_result_def)

lemma reg_get_value:
  "fst (reg_get n s) = (case dget (rg_cache s) n of Some m \<Rightarrow> Some m | None \<Rightarrow> read_manifest (rg_dir s) (rg_fs s) n)"
  by (auto simp: reg_get_def read_manifest_absent split: option.split)

lemma reg_store_ok:
  assumes "catalog_inv s" and "plain_name (pm_name m)"
  shows "reg_store str m s = (None, s\<lparr>rg_fs := dset (manifest_path (rg_dir s) (pm_name m)) (File (JsonText (manifest_json m))) (rg_fs s),
    rg_cache := dset (pm_name m) m (rg_cache s)\<rparr>)"
  using assms by (simp add: reg_store_def json_dumps_canonical canonical_manifest bind_result_def fs_write_def
      catalog_inv_def manifest_path_plain)

lemma read_manifest_write:
  assumes "plain_name n" and "plain_name (pm_name m)"
  shows "read_manifest dir (dset (manifest_path dir (pm_name m)) (File (JsonText (manifest_json m))) fs) n =
    (if n = pm_name m then Some (strip_meta m) else read_manifest dir fs n)"
proof (cases "n = pm_name m")
  case True
  then show ?thesis using assms
    by (simp add: read_manifest_def fs_read_def fs_node_set manifest_path_plain bind_result_def json_loads_def
        parse_manifest_json)
next
  case False
  then have "fs_node (dset (manifest_path dir (pm_name m)) x fs) (manifest_path dir n) = fs_node fs (manifest_path dir n)" for x
    using assms by (simp add: fs_node_set manifest_path_plain)
  with False show ?thesis using read_manifest_cong by metis
qed

lemma read_manifest_unlink:
  assumes "plain_name n" and "plain_name k"
  shows "read_manifest dir (fs_unlink (manifest_path dir k) fs) n = (if n = k then None else read_manifest dir fs n)"
proof (cases "n = k")
  case True
  then show ?thesis using assms
    by (simp add: read_manifest_def fs_read_def fs_node_unlink manifest_path_plain bind_result_def)
next
  case False
  then have "fs_node (fs_unlink (manifest_path dir k) fs) (manifest_path dir n) = fs_node fs (manifest_path dir n)"
    using assms by (simp add: fs_node_unlink manifest_path_plain)
  with False show ?thesis using read_manifest_cong by metis
qed

lemma inv_cached: "catalog_inv s \<Longrightarrow> dget (rg_cache s) n = Some m \<Longrightarrow>
    plain_name n \<and> read_manifest (rg_dir s) (rg_fs s) n = Some (strip_meta m)"
  by (simp add: catalog_inv_def)

lemma catalog_get_view:
  assumes "catalog_inv s" and "plain_name n"
  shows "catalog_inv (snd (reg_get n s)) \<and> catalog_view (snd (reg_get n s)) = catalog_view s"
proof (cases "snd (reg_get n s) = s")
  case True
  with assms show ?thesis by simp
next
  case False
  then obtain m where m: "dget (rg_cache s) n = None" "read_manifest (rg_dir s) (rg_fs s) n = Some m"
    and s': "snd (reg_get n s) = s\<lparr>rg_cache := dset n m (rg_cache s)\<rparr>"
    by (auto simp: reg_get_def split: option.splits if_splits)
  have "catalog_inv (snd (reg_get n s))"
    using assms m read_manifest_stripped [OF m(2)] by (auto simp: s' catalog_inv_def dget_dset)
  moreover have "catalog_view (snd (reg_get n s)) n' = catalog_view s n'" for n'
    using m by (auto simp: s' catalog_view_def reg_get_value dget_dset split: option.split)
  ultimately show ?thesis by blast
qed

lemma catalog_store_view:
  assumes "catalog_inv s" and "plain_name (pm_name m)"
  shows "catalog_inv (snd (reg_store str m s)) \<and>
    catalog_view (snd (reg_store str m s)) = (catalog_view s)(pm_name m := Some m)"
proof -
  let ?fs = "dset (manifest_path (rg_dir s) (pm_name m)) (File (JsonText (manifest_json m))) (rg_fs s)"
  note st = reg_store_ok [OF assms, of str] and rd = read_manifest_write [OF _ assms(2), of _ "rg_dir s" "rg_fs s"]
  have dir: "fs_is_dir (rg_fs s) (rg_dir s)" "\<And>n. plain_name n \<Longrightarrow> \<not> fs_is_dir (rg_fs s) (manifest_path (rg_dir s) n)"
    using assms(1) by (auto simp: catalog_inv_def)
  have "catalog_inv (snd (reg_store str m s))"
    using dir inv_cached [OF assms(1)] assms(2) rd
    by (auto simp: st catalog_inv_def fs_is_dir_def fs_node_set manifest_path_plain dget_dset split: if_splits)
  moreover have "catalog_view (snd (reg_store str m s)) n = ((catalog_view s)(pm_name m := Some m)) n" for n
    using assms(2) rd by (auto simp: st catalog_view_def reg_get_value dget_dset split: option.split)
  ultimately show ?thesis by blast
qed

lemma catalog_remove_view:
  assumes "catalog_inv s" and "plain_name k"
  shows "catalog_inv (snd (reg_remove k s)) \<and> catalog_view (snd (reg_remove k s)) = (catalog_view s)(k := None)"
proof -
  note rd = read_manifest_unlink [OF _ assms(2), of _ "rg_dir s" "rg_fs s"]
  have dir: "fs_is_dir (rg_fs s) (rg_dir s)" "\<And>n. plain_name n \<Longrightarrow> \<not> fs_is_dir (rg_fs s) (manifest_path (rg_dir s) n)"
    using assms(1) by (auto simp: catalog_inv_def)
  have st: "snd (reg_remove k s) = s\<lparr>rg_fs := fs_unlink (manifest_path (rg_dir s) k) (rg_fs s), rg_cache := ddel k (rg_cache s)\<rparr>"
    using dir(2) [OF assms(2)] by (simp add: reg_remove_def Let_def)
  have "catalog_inv (snd (reg_remove k s))"
    using dir inv_cached [OF assms(1)] assms(2) rd
    by (auto simp: st catalog_inv_def fs_is_dir_def fs_node_unlink manifest_path_plain dget_ddel split: if_splits)
  moreover have "catalog_view (snd (reg_remove k s)) n = ((catalog_view s)(k := None)) n" for n
    using assms(2) rd by (auto simp: st catalog_view_def reg_get_value dget_ddel split: option.split)
  ultimately show ?thesis by blast
qed

lemma catalog_restart_view:
  assumes "catalog_inv s"
  shows "catalog_inv (s\<lparr>rg_cache := []\<rparr>) \<and>
    catalog_view (s\<lparr>rg_cache := []\<rparr>) = (\<lambda>n. map_option strip_meta (catalog_view s n))"
proof -
  have "catalog_inv (s\<lparr>rg_cache := []\<rparr>)" using assms by (simp add: catalog_inv_def)
  moreover have "catalog_view (s\<lparr>rg_cache := []\<rparr>) n = map_option strip_meta (catalog_view s n)" for n
  proof (cases "dget (rg_cache s) n")
    case None
    have "map_option strip_meta (read_manifest (rg_dir s) (rg_fs s) n) = read_manifest (rg_dir s) (rg_fs s) n"
      by (cases "read_manifest (rg_dir s) (rg_fs s) n") (simp_all add: read_manifest_stripped)
    with None show ?thesis by (simp add: catalog_view_def reg_get_value)
  next
    case (Some m)
    with inv_cached [OF assms Some] show ?thesis by (simp add: catalog_view_def reg_get_value)
  qed
  ultimately show ?thesis by blast
qed

lemma catalog_step_view:
  assumes "catalog_inv s" and "event_ok e"
  shows "catalog_inv (catalog_step str e s) \<and> catalog_view (catalog_step str e s) = map_step e (catalog_view s)"
proof (cases e)
  case (Store m)
  with assms(2) have "plain_name (pm_name m)" by (simp add: event_ok_def)
  from catalog_store_view [OF assms(1) this, of str] show ?thesis unfolding Store by simp
next
  case (Get n)
  with assms(2) have "plain_name n" by (simp add: event_ok_def)
  from catalog_get_view [OF assms(1) this] show ?thesis unfolding Get by simp
next
  case (Remove n)
  with assms(2) have "plain_name n" by (simp add: event_ok_def)
  from catalog_remove_view [OF assms(1) this] show ?thesis unfolding Remove by simp
next
  case Restart
  from catalog_restart_view [OF assms(1)] show ?thesis unfolding Restart by simp
qed

interpretation catalog: simulation "catalog_step str" map_step catalog_view catalog_inv event_ok for str
  by unfold_locales (rule catalog_step_view [THEN conjunct1], assumption+, rule catalog_step_view [THEN conjunct2], assumption+)

text \<open>C37: The registry is a map that survives restarts: whatever is stored, looked up, removed and
  reloaded, looking a name up gives what the same operations give on a map of names, where a
  restart loses nothing but the metadata of the layers.\<close>

theorem registry_refines_a_map:
  assumes "catalog_inv s" and "list_all event_ok es" and "plain_name n"
  shows "fst (reg_get n (fold (catalog_step str) es s)) = fold map_step es (catalog_view s) n"
proof -
  have "catalog_view (fold (catalog_step str) es s) n = fold map_step es (catalog_view s) n"
    using catalog.sim_run [OF assms(1,2)] by metis
  with assms(3) show ?thesis by (simp add: catalog_view_def)
qed

definition demo_manifest :: package_manifest where
  "demo_manifest = \<lparr>pm_name = ''torch'', pm_version = ''2'', pm_layers = [demo_layer ''a''\<lparr>pl_metadata := [(''k'', VNone)]\<rparr>],
     pm_entry_point = [], pm_python_requires = [], pm_dependencies = [''numpy'']\<rparr>"

theorem registry_refines_a_map_witness:
  "fst (reg_get ''torch'' (fold (catalog_step (\<lambda>v. [])) [Store demo_manifest, Restart, Get ''torch'']
     \<lparr>rg_dir = [''m''], rg_cache = [], rg_fs = [([''m''], Dir)]\<rparr>)) = Some (strip_meta demo_manifest)"
proof -
  let ?s = "\<lparr>rg_dir = [''m''], rg_cache = [], rg_fs = [([''m''], Dir)]\<rparr>"
  have inv: "catalog_inv ?s"
    by (simp add: catalog_inv_def fs_is_dir_def fs_node_def manifest_path_plain)
  have ok: "list_all event_ok [Store demo_manifest, Restart, Get ''torch'']" "plain_name ''torch''"
    by (simp_all add: event_ok_def plain_name_def demo_manifest_def)
  show ?thesis
    using registry_refines_a_map [OF inv ok] by (simp add: demo_manifest_def)
qed

section \<open>Lazy modules\<close>

text \<open>
  \<open>lz_fetch\<close> is the fetch function, absent in a module made without one; its result is the
  module's attributes, None, or an exception. \<open>lz_fetches\<close> counts its calls.
\<close>

record lazy_module =
  lz_name :: string
  lz_has_fetch :: bool
  lz_loaded :: bool
  lz_real :: "(string, pyval) dict option"
  lz_dict :: "(string, pyval) dict"
  lz_fetches :: nat

definition new_lazy_module :: "string \<Rightarrow> bool \<Rightarrow> lazy_module" where
  "new_lazy_module name has_fetch = \<lparr>lz_name = name, lz_has_fetch = has_fetch, lz_loaded = False,
     lz_real = None, lz_dict = [], lz_fetches = 0\<rparr>"

definition ensure_loaded ::
  "(string \<Rightarrow> exn + (string, pyval) dict option) \<Rightarrow> lazy_module \<Rightarrow> exn option \<times> lazy_module" where
  "ensure_loaded fetch m =
     (if lz_loaded m then (None, m)
      else let m1 = m\<lparr>lz_loaded := True\<rparr> in
        if \<not> lz_has_fetch m then (None, m1)
        else let m2 = m1\<lparr>lz_fetches := Suc (lz_fetches m)\<rparr> in
          case fetch (lz_name m) of
            Inl e \<Rightarrow> (Some e, m2)
          | Inr None \<Rightarrow> (None, m2)
          | Inr (Some d) \<Rightarrow> (None, m2\<lparr>lz_real := Some d, lz_dict := fold (\<lambda>(k, v). dset k v) d (lz_dict m)\<rparr>))"

text \<open>\<open>m.name\<close>: the module's own dictionary, then \<open>__getattr__\<close>. (The attributes every module has
  begin with an underscore.)\<close>

definition lazy_getattr ::
  "(string \<Rightarrow> exn + (string, pyval) dict option) \<Rightarrow> string \<Rightarrow> lazy_module \<Rightarrow> (exn + pyval) \<times> lazy_module" where
  "lazy_getattr fetch name m = (case dget (lz_dict m) name of
       Some v \<Rightarrow> (Inr v, m)
     | None \<Rightarrow>
         (if py_startswith name ''_'' then (Inl (AttributeError name), m)
          else case ensure_loaded fetch m of
              (Some e, m') \<Rightarrow> (Inl e, m')
            | (None, m') \<Rightarrow>
                (case lz_real m' of
                   None \<Rightarrow> (Inl (AttributeError name), m')
                 | Some d \<Rightarrow> (case dget d name of
                       Some v \<Rightarrow> (Inr v, m') | None \<Rightarrow> (Inl (AttributeError name), m')))))"

definition lazy_repr :: "lazy_module \<Rightarrow> string" where
  "lazy_repr m = ''<LazyModule '' @ repr_str (lz_name m) @ '' ('' @ (if lz_loaded m then ''loaded'' else ''lazy'') @ '')>''"

text \<open>\<open>LazyFinder.find_spec\<close>: the name and whether it is a package, for names below a registered one\<close>

definition lazy_find_spec :: "string list \<Rightarrow> string \<Rightarrow> (string \<times> bool) option" where
  "lazy_find_spec registered fullname = (let top = hd (py_split CHR ''.'' fullname) in
     if top \<notin> set registered then None else Some (fullname, fullname = top))"

definition create_lazy_module :: "string list \<Rightarrow> string \<Rightarrow> lazy_module" where
  "create_lazy_module registered name = new_lazy_module name (''fetch_func'' \<in> set registered)"

definition access_all ::
  "(string \<Rightarrow> exn + (string, pyval) dict option) \<Rightarrow> string list \<Rightarrow> lazy_module \<Rightarrow> lazy_module" where
  "access_all fetch names m = fold (\<lambda>n m. snd (lazy_getattr fetch n m)) names m"

abbreviation hidden_name :: "string \<Rightarrow> bool" where
  "hidden_name n \<equiv> py_startswith n ''_''"

abbreviation loaded_module :: "(string \<Rightarrow> exn + (string, pyval) dict option) \<Rightarrow> string \<Rightarrow> lazy_module" where
  "loaded_module fetch name \<equiv> snd (ensure_loaded fetch (new_lazy_module name True))"

lemma loaded_module_fields:
  "lz_loaded (loaded_module fetch name)" "lz_fetches (loaded_module fetch name) = 1"
  "fetch name = Inl e \<Longrightarrow> lz_real (loaded_module fetch name) = None \<and> lz_dict (loaded_module fetch name) = []"
  "fetch name = Inr (Some d) \<Longrightarrow> dict_ok d \<Longrightarrow>
     lz_real (loaded_module fetch name) = Some d \<and> lz_dict (loaded_module fetch name) = d"
  using fold_dset_append [of "[]" d]
  by (auto simp: ensure_loaded_def new_lazy_module_def Let_def dict_ok_def split: sum.split option.split)

lemma getattr_loaded: "lz_loaded m \<Longrightarrow> snd (lazy_getattr fetch n m) = m"
  by (simp add: lazy_getattr_def ensure_loaded_def split: option.split)

lemma getattr_new: "snd (lazy_getattr fetch n (new_lazy_module name True)) =
    (if hidden_name n then new_lazy_module name True else loaded_module fetch name)"
  by (auto simp: lazy_getattr_def split: option.split prod.split) (auto simp: new_lazy_module_def)

lemma access_loaded: "lz_loaded m \<Longrightarrow> access_all fetch names m = m"
  by (induction names) (simp_all add: access_all_def getattr_loaded)

lemma access_new: "access_all fetch names (new_lazy_module name True) =
    (if list_all hidden_name names then new_lazy_module name True else loaded_module fetch name)"
  by (induction names)
    (auto simp: access_all_def getattr_new access_loaded [unfolded access_all_def] loaded_module_fields)

text \<open>A lazy module fetches its content at the first access to a public name and never again: a
  fetch that worked serves every later access, one that raised is not repeated, and from then
  on every name is missing.\<close>

theorem lazy_module_fetches_once:
  assumes "m = access_all fetch names (new_lazy_module name True)"
  shows "lz_fetches m = (if list_all hidden_name names then 0 else 1) \<and>
    (fetch name = Inl e \<and> \<not> list_all hidden_name names \<longrightarrow> fst (lazy_getattr fetch n m) = Inl (AttributeError n)) \<and>
    (fetch name = Inr (Some d) \<and> dict_ok d \<and> dget d n = Some v \<and> \<not> hidden_name n \<longrightarrow>
       fst (lazy_getattr fetch n m) = Inr v)"
proof -
  have new: "lz_fetches (new_lazy_module name True) = 0" "lz_dict (new_lazy_module name True) = []"
    by (simp_all add: new_lazy_module_def)
  let ?l = "loaded_module fetch name"
  have miss: "fst (lazy_getattr fetch n ?l) = Inl (AttributeError n)" if "fetch name = Inl e"
    using loaded_module_fields(1) [of fetch name] loaded_module_fields(3) [of fetch name, OF that]
    by (simp add: lazy_getattr_def ensure_loaded_def [of fetch ?l])
  have hit: "fst (lazy_getattr fetch n ?l) = Inr v" "fst (lazy_getattr fetch n (new_lazy_module name True)) = Inr v"
    if d: "fetch name = Inr (Some d)" "dict_ok d" "dget d n = Some v" "\<not> hidden_name n"
  proof -
    note l = loaded_module_fields(4) [of fetch name, OF d(1,2)]
    show "fst (lazy_getattr fetch n ?l) = Inr v" using l d(3) by (simp add: lazy_getattr_def)
    have "fst (ensure_loaded fetch (new_lazy_module name True)) = None"
      using d(1) by (simp add: ensure_loaded_def new_lazy_module_def Let_def)
    then obtain l' where l': "ensure_loaded fetch (new_lazy_module name True) = (None, l')" "?l = l'"
      by (metis prod.collapse snd_conv)
    with l d(3,4) show "fst (lazy_getattr fetch n (new_lazy_module name True)) = Inr v"
      by (simp add: lazy_getattr_def new(2))
  qed
  show ?thesis
    unfolding assms access_new using miss hit new(1) loaded_module_fields(2) by (auto simp del: One_nat_def)
qed

theorem lazy_module_fetches_once_witness:
  "let m = access_all (\<lambda>n. Inr (Some [(''pi'', VInt 3)])) [''pi'', ''pi''] (new_lazy_module ''math'' True)
   in lz_fetches m = 1 \<and> fst (lazy_getattr (\<lambda>n. Inr (Some [(''pi'', VInt 3)])) ''pi'' m) = Inr (VInt 3)"
  using lazy_module_fetches_once [OF refl, of "\<lambda>n. Inr (Some [(''pi'', VInt 3)])" "[''pi'', ''pi'']" "''math''"
    undefined "''pi''" "[(''pi'', VInt 3)]" "VInt 3"]
  by (simp add: Let_def dict_ok_def)

section \<open>Shared libraries\<close>

record linker =
  lk_dir :: path
  lk_loaded :: "string list"
  lk_fs :: fs

definition install_so :: "string \<Rightarrow> byte list \<Rightarrow> linker \<Rightarrow> (exn + path) \<times> linker" where
  "install_so name data s = (let dest = path_join (lk_dir s) name in
     case fs_write dest (Bytes data) (lk_fs s) of
       Inl e \<Rightarrow> (Inl e, s)
     | Inr fs \<Rightarrow> (Inr dest, s\<lparr>lk_fs := fs, lk_loaded := List.insert name (lk_loaded s)\<rparr>))"

definition get_so_path :: "string \<Rightarrow> linker \<Rightarrow> path option" where
  "get_so_path name s = (let p = path_join (lk_dir s) name in if fs_exists (lk_fs s) p then Some p else None)"

text \<open>\<open>current\<close> is the value of \<open>LD_LIBRARY_PATH\<close>, empty when it is not set.\<close>

definition configure_env :: "string \<Rightarrow> string \<Rightarrow> string" where
  "configure_env lib_path current =
     py_join '':'' (lib_path # filter (\<lambda>p. p \<noteq> [] \<and> p \<noteq> lib_path) (py_split CHR '':'' current))"

text \<open>\<open>os.environ\<close> is a dict of strings. Activating twice is activating once.\<close>

definition linker_activate :: "linker \<Rightarrow> (string, string) dict \<Rightarrow> (string, string) dict" where
  "linker_activate s environ = dset ''LD_LIBRARY_PATH''
     (configure_env (path_str (lk_dir s)) (case dget environ ''LD_LIBRARY_PATH'' of None \<Rightarrow> [] | Some v \<Rightarrow> v)) environ"

lemma configure_env_first:
  assumes "CHR '':'' \<notin> set lib_path" and "lib_path \<noteq> []"
  shows "configure_env lib_path (configure_env lib_path current) = configure_env lib_path current"
proof -
  let ?ps = "filter (\<lambda>p. p \<noteq> [] \<and> p \<noteq> lib_path) (py_split CHR '':'' current)"
  have "\<forall>w\<in>set (lib_path # ?ps). CHR '':'' \<notin> set w"
    using assms(1) by (auto dest: py_split_no_sep)
  then have "py_split CHR '':'' (py_join '':'' (lib_path # ?ps)) = lib_path # ?ps"
    by (intro py_split_join) auto
  then show ?thesis by (simp add: configure_env_def)
qed

lemma linker_activate_idem:
  assumes "CHR '':'' \<notin> set (path_str (lk_dir s))" and "path_str (lk_dir s) \<noteq> []"
  shows "dget (linker_activate s (linker_activate s environ)) = dget (linker_activate s environ)"
  by (simp add: linker_activate_def dget_dset configure_env_first [OF assms])

text \<open>\<open>run cmd\<close> is what \<open>subprocess.run(cmd, check=True)\<close> does; a failing patchelf is a
  \<open>SubprocessError\<close>, a missing one \<open>FileNotFoundError\<close>; other exceptions are raised.\<close>

definition patch_rpath :: "bool \<Rightarrow> (string list \<Rightarrow> exn + unit) \<Rightarrow> linker \<Rightarrow> string \<Rightarrow> exn + bool" where
  "patch_rpath patchelf_found run s binary_path =
     (if \<not> patchelf_found then Inr False
      else case run [''patchelf'', ''--set-rpath'', path_str (lk_dir s), binary_path] of
          Inr u \<Rightarrow> Inr True
        | Inl e \<Rightarrow> (case e of OtherError c msg \<Rightarrow>
              if c \<in> {''CalledProcessError'', ''TimeoutExpired'', ''FileNotFoundError''} then Inr False else Inl e
            | _ \<Rightarrow> Inl e))"

text \<open>The listing loops; \<open>a and b or c\<close> reads \<open>(a and b) or c\<close>, so a blank line looks at the first of no
  words, an IndexError, which ends the call with no dependencies at all.\<close>

fun dependency_lines :: "string list \<Rightarrow> exn + string list" where
  "dependency_lines [] = Inr []"
| "dependency_lines (line # ls) = (case py_words (py_strip line) of
       [] \<Rightarrow> Inl (IndexError ''list index out of range'')
     | w # ws \<Rightarrow>
         bind_result (dependency_lines ls) (\<lambda>deps.
           Inr (if py_endswith w ''.so'' \<or> py_contains w ''.so.'' then w # deps else deps)))"

definition list_dependencies :: "(string list \<Rightarrow> exn + string) \<Rightarrow> string \<Rightarrow> string list" where
  "list_dependencies run binary_path =
     (case bind_result (run [''ldd'', binary_path]) (\<lambda>out. dependency_lines (py_splitlines out)) of
        Inl e \<Rightarrow> [] | Inr deps \<Rightarrow> deps)"

definition verify_dependencies :: "(string list \<Rightarrow> exn + string) \<Rightarrow> string \<Rightarrow> string list" where
  "verify_dependencies run binary_path = (case run [''ldd'', binary_path] of
       Inl e \<Rightarrow> []
     | Inr out \<Rightarrow> List.map_filter (\<lambda>line. case py_words (py_strip line) of [] \<Rightarrow> None | w # ws \<Rightarrow> Some w)
         (filter (\<lambda>line. py_contains line ''not found'') (py_splitlines out)))"

lemma blank_line_hides_all:
  "line \<in> set ls \<Longrightarrow> py_words (py_strip line) = [] \<Longrightarrow> \<exists>e. dependency_lines ls = Inl e"
  by (induction ls) (auto simp: bind_result_def split: list.split)

lemma list_dependencies_blank:
  assumes "run [''ldd'', binary_path] = Inr out" and "line \<in> set (py_splitlines out)" and "py_words (py_strip line) = []"
  shows "list_dependencies run binary_path = []"
  using blank_line_hides_all [OF assms(2,3)] assms(1) by (auto simp: list_dependencies_def bind_result_def)

end
