(* ===== verification/Runtime.thy ===== *)
theory Runtime
  imports Sessions Models PyText
begin

text \<open>
  \<open>runtime/hooks.py\<close>, \<open>proxy.py\<close>, \<open>interceptor.py\<close> and \<open>scheduler.py\<close>: imports that give proxy
  modules, the names their calls carry, the session that sends them and matches the answers,
  and the choice of where code runs. Event loops are numbered as they are made; whether a
  connection or a send succeeds, fresh ids and the clock are parameters.
\<close>

section \<open>Import hooks\<close>

record pkg_info =
  pk_config :: pyval
  pk_hybrid :: bool
  pk_loaded :: bool

datatype finder = CpipFinder pyval | OtherFinder string

text \<open>\<open>im_modules\<close>: the names in \<open>sys.modules\<close> and whether the module is a proxy\<close>

record import_state =
  im_packages :: "(string, pkg_info) dict"
  im_active :: bool
  im_meta_path :: "finder list"
  im_modules :: "(string, bool) dict"

definition register_cloud_package :: "string \<Rightarrow> pyval \<Rightarrow> bool \<Rightarrow> import_state \<Rightarrow> import_state" where
  "register_cloud_package package config hybrid s = s\<lparr>im_packages := dset package
     \<lparr>pk_config = config, pk_hybrid = hybrid, pk_loaded = False\<rparr> (im_packages s)\<rparr>"

definition activate_hooks :: "pyval \<Rightarrow> import_state \<Rightarrow> import_state" where
  "activate_hooks config s = (if im_active s then s
     else s\<lparr>im_meta_path := CpipFinder config # im_meta_path s, im_active := True\<rparr>)"

fun is_cpip_finder :: "finder \<Rightarrow> bool" where
  "is_cpip_finder (CpipFinder c) = True"
| "is_cpip_finder (OtherFinder n) = False"

definition deactivate_hooks :: "import_state \<Rightarrow> import_state" where
  "deactivate_hooks s = s\<lparr>im_meta_path := filter (\<lambda>f. \<not> is_cpip_finder f) (im_meta_path s), im_active := False\<rparr>"

text \<open>\<open>CpipFinder.find_spec\<close>: the name, what the loader gets and whether it is a package\<close>

definition cpip_find_spec :: "string \<Rightarrow> import_state \<Rightarrow> (string \<times> pkg_info \<times> bool) option" where
  "cpip_find_spec fullname s = (let top_level = hd (py_split CHR ''.'' fullname) in
     case dget (im_packages s) top_level of
       None \<Rightarrow> None
     | Some info \<Rightarrow>
         (if dget (im_modules s) top_level = Some False then None
          else Some (fullname, info, fullname = top_level)))"

text \<open>The legacy \<open>find_module\<close>: the loader of the spec, with its name and information\<close>

definition cpip_find_module :: "string \<Rightarrow> import_state \<Rightarrow> (string \<times> pkg_info) option" where
  "cpip_find_module fullname s = map_option (\<lambda>(name, info, is_package). (name, info)) (cpip_find_spec fullname s)"

record proxy_module =
  px_name :: string
  px_package :: string
  px_config :: pyval
  px_info :: "pkg_info option"
  px_initialized :: bool
  px_session :: "nat option"

definition new_proxy_module :: "string \<Rightarrow> pyval \<Rightarrow> pkg_info option \<Rightarrow> proxy_module" where
  "new_proxy_module name config info = \<lparr>px_name = name, px_package = hd (py_split CHR ''.'' name),
     px_config = config, px_info = info, px_initialized = False, px_session = None\<rparr>"

text \<open>\<open>CpipLoader\<close>: create, then execute\<close>

definition load_module :: "pyval \<Rightarrow> string \<times> pkg_info \<times> bool \<Rightarrow> proxy_module" where
  "load_module config spec = (case spec of (name, info, is_package) \<Rightarrow>
     (new_proxy_module name config (Some info))\<lparr>px_initialized := True\<rparr>)"

text \<open>A callable is a session and a dotted name.\<close>

type_synonym proxy_callable = "nat \<times> string"

text \<open>Sessions are objects; \<open>n\<close> is the number made so far.\<close>

definition get_session :: "nat \<Rightarrow> proxy_module \<Rightarrow> nat \<times> nat \<times> proxy_module" where
  "get_session n m = (case px_session m of
       Some r \<Rightarrow> (r, n, m) | None \<Rightarrow> (n, Suc n, m\<lparr>px_session := Some n\<rparr>))"

text \<open>\<open>_submodules\<close> stays empty, so every public name gives a callable.\<close>

definition module_getattr :: "nat \<Rightarrow> string \<Rightarrow> proxy_module \<Rightarrow> (exn + proxy_callable) \<times> nat \<times> proxy_module" where
  "module_getattr n name m =
     (if py_startswith name ''_'' then (Inl (AttributeError name), n, m)
      else case get_session n m of (r, n', m') \<Rightarrow> (Inr (r, px_name m @ ''.'' @ name), n', m'))"

definition callable_getattr :: "string \<Rightarrow> proxy_callable \<Rightarrow> proxy_callable" where
  "callable_getattr name c = (fst c, snd c @ ''.'' @ name)"

definition proxy_repr :: "proxy_module \<Rightarrow> string" where
  "proxy_repr m = ''<cpip.ProxyModule '' @ [CHR 0x27] @ px_name m @ [CHR 0x27] @ '' (cloud)>''"

definition callable_repr :: "proxy_callable \<Rightarrow> string" where
  "callable_repr c = ''<cpip.ProxyCallable '' @ [CHR 0x27] @ snd c @ [CHR 0x27] @ ''>''"

section \<open>Proxy factory\<close>

definition factory_create ::
  "string \<Rightarrow> pyval \<Rightarrow> pkg_info option \<Rightarrow> (string, proxy_module) dict \<Rightarrow> proxy_module \<times> (string, proxy_module) dict" where
  "factory_create name config info d = (case dget d name of
       Some m \<Rightarrow> (m, d)
     | None \<Rightarrow> (let m = new_proxy_module name config info in (m, dset name m d)))"

definition factory_get :: "string \<Rightarrow> (string, proxy_module) dict \<Rightarrow> proxy_module option" where
  "factory_get name d = dget d name"

definition factory_clear :: "(string, proxy_module) dict \<Rightarrow> (string, proxy_module) dict" where
  "factory_clear d = []"

definition list_proxies :: "(string, proxy_module) dict \<Rightarrow> string list" where
  "list_proxies d = dkeys d"

section \<open>Scheduler\<close>

datatype scheduler_decision = SD_LOCAL | SD_CLOUD | SD_HYBRID | SD_GPU

record schedule_result =
  sc_decision :: scheduler_decision
  sc_reason :: string
  sc_priority :: int

definition scheduler_needs_gpu :: "string \<Rightarrow> bool" where
  "scheduler_needs_gpu meth =
     (hd (py_split CHR ''.'' meth) \<in> {''torch'', ''tensorflow'', ''jax'', ''cupy''} \<or>
      list_ex (py_contains (py_lower meth))
        [''cuda'', ''gpu'', ''to('' @ [CHR 0x27] @ ''cuda'' @ [CHR 0x27] @ '')'', ''.cuda()'', ''npu''])"

text \<open>What an argument answers: \<open>nbytes\<close> of an array, the number of elements of a tensor, the interpreter's
  size; \<open>None\<close> where it lacks the attribute.\<close>

record sized_object =
  so_nbytes :: "exn + int option"
  so_nelement :: "exn + (exn + int) option"
  so_getsizeof :: "exn + int"

definition estimate_size :: "sized_object \<Rightarrow> int" where
  "estimate_size obj = (case bind_result (so_nbytes obj) (\<lambda>nb. case nb of
        Some n \<Rightarrow> Inr n
      | None \<Rightarrow> bind_result (so_nelement obj) (\<lambda>ne. case ne of
            Some r \<Rightarrow> map_result (\<lambda>n. n * 4) r
          | None \<Rightarrow> so_getsizeof obj)) of
      Inr n \<Rightarrow> n | Inl e \<Rightarrow> 0)"

text \<open>\<open>sizes\<close>: what \<open>_estimate_size\<close> gives for each argument\<close>

definition is_large_operation :: "int list \<Rightarrow> bool" where
  "is_large_operation sizes = (100 * 1024 * 1024 < sum_list sizes)"

definition schedule :: "bool \<Rightarrow> string \<Rightarrow> int list \<Rightarrow> schedule_result" where
  "schedule has_gpu meth sizes = (let top_package = hd (py_split CHR ''.'' meth) in
     if scheduler_needs_gpu meth then
       (if has_gpu then \<lparr>sc_decision = SD_LOCAL, sc_reason = ''Local GPU available'', sc_priority = 5\<rparr>
        else \<lparr>sc_decision = SD_GPU, sc_reason = ''GPU operation '' @ [CHR 0xE2, CHR 0x86, CHR 0x92] @ '' cloud GPU'', sc_priority = 2\<rparr>)
     else if top_package \<in> set CLOUD_PREFERRED_PACKAGES then
       \<lparr>sc_decision = SD_CLOUD, sc_reason = top_package @ '' is cloud-preferred'', sc_priority = 3\<rparr>
     else if is_large_operation sizes then
       \<lparr>sc_decision = SD_CLOUD, sc_reason = ''Large data operation'', sc_priority = 4\<rparr>
     else \<lparr>sc_decision = SD_LOCAL, sc_reason = ''Standard local execution'', sc_priority = 8\<rparr>)"

definition schedule_objects :: "bool \<Rightarrow> string \<Rightarrow> sized_object list \<Rightarrow> schedule_result" where
  "schedule_objects has_gpu meth objs = schedule has_gpu meth (map estimate_size objs)"

section \<open>The event loop of a session\<close>

text \<open>Loops are numbered as they are made, each with its thread. \<open>alive\<close> says which of the old ones run,
  \<open>polls i\<close> whether the new one is found running at the \<open>i\<close>-th look; between two looks a hundredth of
  a second passes. The answer is the loop and the number of sleeps.\<close>

record loop_state =
  lo_current :: "nat option"
  lo_made :: nat

fun wait_started :: "nat \<Rightarrow> nat \<Rightarrow> (nat \<Rightarrow> bool) \<Rightarrow> nat" where
  "wait_started 0 i polls = 0"
| "wait_started (Suc n) i polls = (if polls i then 0 else Suc (wait_started n (Suc i) polls))"

definition ensure_loop :: "(nat \<Rightarrow> bool) \<Rightarrow> (nat \<Rightarrow> bool) \<Rightarrow> loop_state \<Rightarrow> nat \<times> nat \<times> loop_state" where
  "ensure_loop alive polls s =
     (let fresh = (lo_made s, wait_started 50 0 polls, s\<lparr>lo_current := Some (lo_made s), lo_made := Suc (lo_made s)\<rparr>) in
      case lo_current s of
        None \<Rightarrow> fresh
      | Some l \<Rightarrow> (if alive l then (l, 0, s) else fresh))"

lemma wait_started_bound: "wait_started n i polls \<le> n"
  by (induction n i polls rule: wait_started.induct) auto

text \<open>One loop serves all calls of a session while it runs; making one takes half a second at most.\<close>

lemma ensure_loop_once:
  assumes "ensure_loop alive polls s = (l, n, s')" and "alive' l"
  shows "ensure_loop alive' polls' s' = (l, 0, s') \<and> n \<le> 50"
  using assms wait_started_bound [of 50 0 polls]
  by (auto simp: ensure_loop_def Let_def split: option.splits if_splits)

section \<open>Cloud session\<close>

datatype future = Waiting | Done pyval | Raised exn | Cancelled

text \<open>Futures live in a list; \<open>cs_pending\<close> holds the index of the future of each call sent.\<close>

record cloud_session =
  cs_id :: string
  cs_ws :: bool
  cs_connected :: bool
  cs_pending :: "(pyval, nat) dict"
  cs_futures :: "future list"
  cs_sent :: "pyval list"

definition new_cloud_session :: "string \<Rightarrow> cloud_session" where
  "new_cloud_session uuid = \<lparr>cs_id = uuid, cs_ws = False, cs_connected = False, cs_pending = [],
     cs_futures = [], cs_sent = []\<rparr>"

record cloud_env =
  cd_ser :: ser_env
  cd_str :: "pyval \<Rightarrow> string"
  cd_connect :: bool
  cd_send :: "exn option"
  cd_uuid :: string
  cd_now :: real

definition cs_connect :: "cloud_env \<Rightarrow> cloud_session \<Rightarrow> cloud_session" where
  "cs_connect env s = (if cs_connected s then s
     else if cd_connect env then s\<lparr>cs_ws := True, cs_connected := True\<rparr>
     else s\<lparr>cs_connected := False\<rparr>)"

definition exec_call :: "cloud_env \<Rightarrow> cloud_session \<Rightarrow> string \<Rightarrow> pyval \<Rightarrow> pyval \<Rightarrow> rpc_msg" where
  "exec_call env s meth args kwargs = make_call (cd_uuid env) (cd_now env) ''exec.call''
     (str_dict [(''session_id'', VStr (cs_id s)), (''method'', VStr meth), (''args'', args), (''kwargs'', kwargs)]) VNone"

text \<open>\<open>_async_execute\<close> up to the await: the index of the future awaited\<close>

definition start_call ::
  "cloud_env \<Rightarrow> string \<Rightarrow> pyval list \<Rightarrow> (pyval \<times> pyval) list \<Rightarrow> cloud_session \<Rightarrow> (exn + nat) \<times> cloud_session" where
  "start_call env meth args kwargs s0 =
     (let s = cs_connect env s0 in
      case serialize_args (cd_ser env) (VTuple args) of
        Inl e \<Rightarrow> (Inl e, s)
      | Inr a \<Rightarrow>
          (case (if kwargs \<noteq> [] then serialize_args (cd_ser env) (VDict kwargs) else Inr (VDict [])) of
             Inl e \<Rightarrow> (Inl e, s)
           | Inr k \<Rightarrow>
               (let msg = exec_call env s meth a k; n = length (cs_futures s);
                    s1 = s\<lparr>cs_futures := cs_futures s @ [Waiting], cs_pending := dset (rm_id msg) n (cs_pending s)\<rparr> in
                if \<not> cs_ws s1 then (Inr n, s1)
                else case to_json (cd_str env) msg of
                    Inl e \<Rightarrow> (Inl e, s1)
                  | Inr j \<Rightarrow> (case cd_send env of
                        Some e \<Rightarrow> (Inl e, s1)
                      | None \<Rightarrow> (Inr n, s1\<lparr>cs_sent := cs_sent s1 @ [j]\<rparr>)))))"

definition settle :: "nat \<Rightarrow> future \<Rightarrow> cloud_session \<Rightarrow> cloud_session" where
  "settle n f s = (if cs_futures s ! n = Waiting then s\<lparr>cs_futures := (cs_futures s)[n := f]\<rparr> else s)"

text \<open>The error an ERROR message stands for; \<open>None\<close> when looking at it raises.\<close>

definition remote_error :: "(pyval \<Rightarrow> string) \<Rightarrow> rpc_msg \<Rightarrow> exn option" where
  "remote_error str m =
     (if \<not> truthy (rm_error m) then Some (RuntimeError ''Remote error'')
      else case py_get (rm_error m) ''message'' (VStr ''Remote error'') of
          Inl e \<Rightarrow> None
        | Inr v \<Rightarrow> Some (RuntimeError (case v of VStr t \<Rightarrow> t | _ \<Rightarrow> str v)))"

text \<open>One turn of the receive loop on a message that parsed; one that does not is skipped.\<close>

definition cs_receive :: "(pyval \<Rightarrow> string) \<Rightarrow> rpc_msg \<Rightarrow> cloud_session \<Rightarrow> cloud_session" where
  "cs_receive str m s =
     (if rm_type m \<noteq> MT_RESULT \<and> rm_type m \<noteq> MT_ERROR \<or> \<not> hashable (rm_id m) then s
      else case dget (cs_pending s) (rm_id m) of
          None \<Rightarrow> s
        | Some n \<Rightarrow>
            (let s1 = s\<lparr>cs_pending := ddel (rm_id m) (cs_pending s)\<rparr> in
             if rm_type m = MT_RESULT then settle n (Done (rm_result m)) s1
             else case remote_error str m of None \<Rightarrow> s1 | Some e \<Rightarrow> settle n (Raised e) s1))"

definition cs_receive_raw :: "(pyval \<Rightarrow> string) \<Rightarrow> string \<Rightarrow> real \<Rightarrow> pyval option \<Rightarrow> cloud_session \<Rightarrow> cloud_session" where
  "cs_receive_raw str uuid now raw s = (case from_json uuid now raw of Inl e \<Rightarrow> s | Inr m \<Rightarrow> cs_receive str m s)"

text \<open>The await and what follows, with the outer \<open>except TimeoutError\<close>\<close>

definition finish_call :: "cloud_env \<Rightarrow> string \<Rightarrow> nat \<Rightarrow> cloud_session \<Rightarrow> (exn + pyval) \<times> cloud_session" where
  "finish_call env meth n s =
     (let timed_out = TimeoutError (''Cloud execution of '' @ meth @ '' timed out'') in
      case cs_futures s ! n of
        Done v \<Rightarrow> (case deserialize_result (cd_ser env) v of
            Inl (TimeoutError t) \<Rightarrow> (Inl timed_out, s) | r \<Rightarrow> (r, s))
      | Raised e \<Rightarrow> (case e of TimeoutError t \<Rightarrow> (Inl timed_out, s) | _ \<Rightarrow> (Inl e, s))
      | _ \<Rightarrow> (Inl timed_out, s\<lparr>cs_futures := (cs_futures s)[n := Cancelled]\<rparr>))"

text \<open>The receive loop ends with an exception: the socket object stays.\<close>

definition cs_lost :: "cloud_session \<Rightarrow> cloud_session" where
  "cs_lost s = s\<lparr>cs_connected := False\<rparr>"

definition cs_close :: "cloud_session \<Rightarrow> cloud_session" where
  "cs_close s = s\<lparr>cs_connected := False\<rparr>"

text \<open>Calling a proxy: its session executes the dotted name. \<open>dir\<close> of a module asks the cloud
  and gives nothing on any error.\<close>

definition callable_call ::
  "cloud_env \<Rightarrow> proxy_callable \<Rightarrow> pyval list \<Rightarrow> (pyval \<times> pyval) list \<Rightarrow> cloud_session \<Rightarrow> (exn + nat) \<times> cloud_session" where
  "callable_call env c args kwargs s = start_call env (snd c) args kwargs s"

definition get_module_dir :: "exn + pyval \<Rightarrow> pyval" where
  "get_module_dir outcome = (case outcome of Inr v \<Rightarrow> v | Inl e \<Rightarrow> VList [])"

definition module_dir_call :: "cloud_env \<Rightarrow> proxy_module \<Rightarrow> cloud_session \<Rightarrow> (exn + nat) \<times> cloud_session" where
  "module_dir_call env m s = start_call env ''__dir__'' [VStr (px_name m)] [] s"

section \<open>Hooks stay consistent\<close>

datatype hook_event = Activate pyval | Deactivate | Register string pyval bool

fun hook_step :: "hook_event \<Rightarrow> import_state \<Rightarrow> import_state" where
  "hook_step (Activate c) s = activate_hooks c s"
| "hook_step Deactivate s = deactivate_hooks s"
| "hook_step (Register p c h) s = register_cloud_package p c h s"

definition hooks_inv :: "finder list \<Rightarrow> import_state \<Rightarrow> bool" where
  "hooks_inv others s = (if im_active s then (\<exists>c. im_meta_path s = CpipFinder c # others) else im_meta_path s = others)"

lemma filter_others: "list_all (\<lambda>f. \<not> is_cpip_finder f) fs \<Longrightarrow> filter (\<lambda>f. \<not> is_cpip_finder f) fs = fs"
  by (simp add: list_all_iff)

interpretation hooks: step_system hook_step
  "\<lambda>s. list_all (\<lambda>f. \<not> is_cpip_finder f) others \<and> hooks_inv others s" for others
proof
  fix s e
  assume "list_all (\<lambda>f. \<not> is_cpip_finder f) others \<and> hooks_inv others s"
  then show "list_all (\<lambda>f. \<not> is_cpip_finder f) others \<and> hooks_inv others (hook_step e s)"
    by (cases e) (auto simp: hooks_inv_def activate_hooks_def deactivate_hooks_def register_cloud_package_def
        filter_others split: if_splits)
qed

text \<open>A registered package is imported as a proxy unless a real module of that name is loaded, and the
  import path holds at most one finder of cpip, in front of the others, exactly while active.\<close>

lemma hooks_installed_once:
  assumes "list_all (\<lambda>f. \<not> is_cpip_finder f) (im_meta_path s)" and "\<not> im_active s"
  shows "hooks_inv (im_meta_path s) (fold hook_step es s)"
  using hooks.inv_run [of "im_meta_path s" s es] assms by (simp add: hooks_inv_def)

section \<open>Names of proxied calls\<close>

lemma callable_path: "fold callable_getattr names (r, n) = (r, n @ concat (map (\<lambda>x. ''.'' @ x) names))"
  by (induction names arbitrary: n) (simp_all add: callable_getattr_def)

section \<open>Answers find their calls\<close>

definition session_ok :: "cloud_session \<Rightarrow> bool" where
  "session_ok s \<longleftrightarrow> dict_ok (cs_pending s) \<and> distinct (dvalues (cs_pending s)) \<and>
     (\<forall>n\<in>set (dvalues (cs_pending s)). n < length (cs_futures s))"

definition is_answer :: "pyval \<Rightarrow> rpc_msg \<Rightarrow> bool" where
  "is_answer k m = (rm_id m = k \<and> (rm_type m = MT_RESULT \<or> rm_type m = MT_ERROR))"

definition outcome :: "(pyval \<Rightarrow> string) \<Rightarrow> rpc_msg \<Rightarrow> future" where
  "outcome str m = (if rm_type m = MT_RESULT then Done (rm_result m)
     else case remote_error str m of None \<Rightarrow> Waiting | Some e \<Rightarrow> Raised e)"

lemma settle_simps [simp]:
  "cs_pending (settle n f s) = cs_pending s" "length (cs_futures (settle n f s)) = length (cs_futures s)"
  "i \<noteq> n \<Longrightarrow> cs_futures (settle n f s) ! i = cs_futures s ! i"
  "n < length (cs_futures s) \<Longrightarrow> cs_futures s ! n = Waiting \<Longrightarrow> cs_futures (settle n f s) ! n = f"
  by (simp_all add: settle_def)

lemma receive_cases:
  obtains (ignored) "cs_receive str m s = s" "\<not> hashable (rm_id m) \<or> dget (cs_pending s) (rm_id m) = None \<or> \<not> is_answer (rm_id m) m"
  | (taken) n where "dget (cs_pending s) (rm_id m) = Some n" "is_answer (rm_id m) m"
      "cs_receive str m s = (if outcome str m = Waiting then id else settle n (outcome str m))
         (s\<lparr>cs_pending := ddel (rm_id m) (cs_pending s)\<rparr>)"
proof (cases "is_answer (rm_id m) m \<and> hashable (rm_id m) \<and> dget (cs_pending s) (rm_id m) \<noteq> None")
  case True
  then obtain n where n: "dget (cs_pending s) (rm_id m) = Some n" by auto
  from True have "\<not> (rm_type m \<noteq> MT_RESULT \<and> rm_type m \<noteq> MT_ERROR \<or> \<not> hashable (rm_id m))"
    by (auto simp: is_answer_def)
  with n have "cs_receive str m s = (if outcome str m = Waiting then id else settle n (outcome str m))
         (s\<lparr>cs_pending := ddel (rm_id m) (cs_pending s)\<rparr>)"
    by (cases "remote_error str m") (auto simp: cs_receive_def outcome_def Let_def)
  with n True show thesis by (intro taken) simp_all
next
  case False
  then have "cs_receive str m s = s" by (auto simp: cs_receive_def is_answer_def)
  with False show thesis by (intro ignored) blast+
qed

lemma dvalues_ddel: "set (dvalues (ddel k d)) \<subseteq> set (dvalues d)"
  using set_ddel_subset [of k d] by auto

lemma distinct_dvalues_ddel: "distinct (dvalues d) \<Longrightarrow> distinct (dvalues (ddel k d))"
  by (simp add: ddel_filter distinct_map_filter)

lemma value_unique:
  assumes "dict_ok d" and "distinct (dvalues d)" and "dget d k = Some n" and "dget d k' = Some n"
  shows "k = k'"
proof -
  have "(k, n) \<in> set d" "(k', n) \<in> set d" using assms(3,4) by (auto dest: dget_SomeD)
  with assms(2) show ?thesis
    using inj_onD [of snd "set d" "(k, n)" "(k', n)"] by (simp add: distinct_map)
qed

lemma value_gone:
  assumes "dict_ok d" and "distinct (dvalues d)" and "dget d k = Some n"
  shows "n \<notin> set (dvalues (ddel k d))"
proof
  assume "n \<in> set (dvalues (ddel k d))"
  then obtain k' where "(k', n) \<in> set (ddel k d)" by auto
  then have "dget (ddel k d) k' = Some n" using assms(1) by (simp add: dget_mem)
  then have "k' \<noteq> k" "dget d k' = Some n" by (auto simp: dget_ddel split: if_splits)
  with value_unique [OF assms(1,2,3)] show False by blast
qed

lemma session_ok_receive: "session_ok s \<Longrightarrow> session_ok (cs_receive str m s)"
proof (cases rule: receive_cases [of str m s])
  case (taken n)
  assume "session_ok s"
  then show ?thesis using set_ddel_subset [of "rm_id m" "cs_pending s"]
    by (force simp: taken(3) session_ok_def distinct_dvalues_ddel)
qed simp

lemma receive_gone:
  assumes "session_ok s" and "n \<notin> set (dvalues (cs_pending s))"
  shows "n \<notin> set (dvalues (cs_pending (cs_receive str m s))) \<and> cs_futures (cs_receive str m s) ! n = cs_futures s ! n"
proof (cases rule: receive_cases [of str m s])
  case ignored
  with assms show ?thesis by simp
next
  case (taken n')
  then have "n' \<in> set (dvalues (cs_pending s))" by (auto dest!: dget_SomeD intro: rev_image_eqI)
  with assms(2) have "n \<noteq> n'" by blast
  with assms(2) show ?thesis using dvalues_ddel [of "rm_id m" "cs_pending s"] by (auto simp: taken(3))
qed

lemma receive_other:
  assumes "session_ok s" and "dget (cs_pending s) k = Some n" and "\<not> is_answer k m"
  shows "dget (cs_pending (cs_receive str m s)) k = Some n \<and> cs_futures (cs_receive str m s) ! n = cs_futures s ! n"
proof (cases rule: receive_cases [of str m s])
  case ignored
  with assms show ?thesis by simp
next
  case (taken n')
  with assms(3) have k: "rm_id m \<noteq> k" by auto
  with assms(1,2) taken(1) have "n \<noteq> n'" using value_unique [of "cs_pending s"] by (auto simp: session_ok_def)
  with k assms(2) show ?thesis by (simp add: taken(3) dget_ddel)
qed

lemma receive_own:
  assumes "session_ok s" and "dget (cs_pending s) k = Some n" and "cs_futures s ! n = Waiting"
    and "hashable k" and "is_answer k m"
  shows "n \<notin> set (dvalues (cs_pending (cs_receive str m s))) \<and> cs_futures (cs_receive str m s) ! n = outcome str m"
proof -
  have k: "rm_id m = k" using assms(5) by (simp add: is_answer_def)
  have n: "n < length (cs_futures s)"
    using assms(1) dget_SomeD [OF assms(2)] by (force simp: session_ok_def)
  show ?thesis
  proof (cases rule: receive_cases [of str m s])
    case ignored
    with assms k show ?thesis by simp
  next
    case (taken n')
    with assms(2) k have "n' = n" by simp
    with taken assms(1,2,3) n k show ?thesis using value_gone [of "cs_pending s" k n]
      by (simp add: session_ok_def)
  qed
qed

lemma run_gone: "session_ok s \<Longrightarrow> n \<notin> set (dvalues (cs_pending s)) \<Longrightarrow>
    cs_futures (fold (cs_receive str) ms s) ! n = cs_futures s ! n"
proof (induction ms arbitrary: s)
  case (Cons m ms)
  with receive_gone [OF Cons.prems, of str m] show ?case by (simp add: session_ok_receive)
qed simp

text \<open>C13: However the answers to the pending calls of a session are ordered and mixed with other
  traffic, each call gets the first answer under its own id: the value of a result, or the
  remote error; a call that is not answered keeps waiting. Only an error whose body is not a
  dict is lost, and its call waits for ever.\<close>

theorem answers_find_their_calls:
  assumes "session_ok s" and "dget (cs_pending s) k = Some n" and "cs_futures s ! n = Waiting" and "hashable k"
  shows "cs_futures (fold (cs_receive str) ms s) ! n =
    (case find (is_answer k) ms of None \<Rightarrow> Waiting | Some m \<Rightarrow> outcome str m)"
  using assms
proof (induction ms arbitrary: s)
  case Nil
  then show ?case by simp
next
  case (Cons m ms)
  show ?case
  proof (cases "is_answer k m")
    case True
    with receive_own [OF Cons.prems] run_gone [OF session_ok_receive [OF Cons.prems(1)]]
    show ?thesis by simp
  next
    case False
    with receive_other [OF Cons.prems(1,2)] Cons.IH [OF session_ok_receive [OF Cons.prems(1)]] Cons.prems(3,4)
    show ?thesis by simp
  qed
qed

theorem answers_find_their_calls_witness:
  "let s = \<lparr>cs_id = [], cs_ws = True, cs_connected = True, cs_pending = [(VStr ''a'', 0), (VStr ''b'', 1)],
       cs_futures = [Waiting, Waiting], cs_sent = []\<rparr>;
     ms = [make_result ''u'' 0 (VStr ''b'') (VInt 2), make_result ''u'' 0 (VStr ''a'') (VInt 1)]
   in cs_futures (fold (cs_receive (\<lambda>v. [])) ms s) ! 0 = Done (VInt 1)"
proof -
  let ?s = "\<lparr>cs_id = [], cs_ws = True, cs_connected = True, cs_pending = [(VStr ''a'', 0), (VStr ''b'', 1)],
       cs_futures = [Waiting, Waiting], cs_sent = []\<rparr>"
  let ?ms = "[make_result ''u'' 0 (VStr ''b'') (VInt 2), make_result ''u'' 0 (VStr ''a'') (VInt 1)]"
  have "session_ok ?s" by (simp add: session_ok_def dict_ok_def)
  from answers_find_their_calls [OF this, of "VStr ''a''" 0 "\<lambda>v. []" ?ms]
  show ?thesis by (simp add: Let_def is_answer_def make_result_def rpc_message_def py_or_def outcome_def)
qed

section \<open>A proxied call end to end\<close>

lemma exec_call_fields:
  assumes "cd_uuid env \<noteq> []"
  shows "rm_type (exec_call env s meth a k) = MT_CALL" "rm_id (exec_call env s meth a k) = VStr (cd_uuid env)"
    "rm_method (exec_call env s meth a k) = VStr ''exec.call''" "well_formed (exec_call env s meth a k)"
    "canonical a \<Longrightarrow> canonical k \<Longrightarrow> canonical_msg (exec_call env s meth a k)"
  using assms by (simp_all add: exec_call_def make_call_def rpc_message_def py_or_def str_dict_def well_formed_def
      is_dict_def canonical_msg_def)

lemma exec_call_refused:
  assumes "rm_id m = VStr i" and "i \<noteq> []" and "rm_method m = VStr ''exec.call''"
  shows "dispatch (builtin_handlers t) str cenv m =
    Inr (make_error (cl_uuid cenv) (cl_now cenv) (VStr i) (VStr ''METHOD_NOT_FOUND'') (VStr ''Unknown method: exec.call'') VNone)"
  using assms by (simp add: dispatch_def Let_def py_or_def builtin_handlers_def register_handler_def)

lemma remote_error_timestamp: "remote_error str (m\<lparr>rm_timestamp := t\<rparr>) = remote_error str m"
  by (simp add: remote_error_def)

lemma error_reply_fields:
  assumes "i \<noteq> []"
  shows "rm_type (make_error u t (VStr i) (VStr c) (VStr msg) VNone) = MT_ERROR"
    "rm_id (make_error u t (VStr i) (VStr c) (VStr msg) VNone) = VStr i"
    "remote_error str (make_error u t (VStr i) (VStr c) (VStr msg) VNone) = Some (RuntimeError msg)"
    "well_formed (make_error u t (VStr i) (VStr c) (VStr msg) VNone)"
    "canonical_msg (make_error u t (VStr i) (VStr c) (VStr msg) VNone)"
  using assms by (simp_all add: make_error_def rpc_message_def py_or_def str_dict_def well_formed_def is_dict_def
      canonical_msg_def remote_error_def py_get_def)

text \<open>C8: No proxied call is ever executed by the server: the client sends it as method
  \<open>exec.call\<close>, which the server's dispatcher does not know, so whatever function is called with
  whatever arguments, the call ends with a RuntimeError naming the unknown method.\<close>

theorem proxied_calls_are_refused:
  assumes "serialize_args (cd_ser env) (VTuple args) = Inr a" and "canonical a"
    and "(if kwargs \<noteq> [] then serialize_args (cd_ser env) (VDict kwargs) else Inr (VDict [])) = Inr k" and "canonical k"
    and "cd_connect env" and "cd_send env = None" and "cd_uuid env \<noteq> []"
  shows "\<exists>n s1 j m r j'. start_call env meth args kwargs (new_cloud_session sid) = (Inr n, s1) \<and> cs_sent s1 = [j] \<and>
    from_json u1 t1 (Some j) = Inr m \<and> dispatch (builtin_handlers t) str cenv m = Inr r \<and> to_json str r = Inr j' \<and>
    fst (finish_call env meth n (cs_receive_raw str u2 t2 (Some j') s1)) = Inl (RuntimeError ''Unknown method: exec.call'')"
proof -
  define s0 where "s0 = cs_connect env (new_cloud_session sid)"
  let ?m = "exec_call env s0 meth a k"
  note m = exec_call_fields [OF assms(7), where s = s0 and meth = meth and a = a and k = k]
  obtain j where j: "to_json (cd_str env) ?m = Inr j" "from_json u1 t1 (Some j) = Inr (?m\<lparr>rm_timestamp := t1\<rparr>)"
    using message_wire [OF m(4) m(5) [OF assms(2,4)]] by blast
  have s0: "cs_ws s0" "cs_pending s0 = []" "cs_futures s0 = []" "cs_sent s0 = []"
    using assms(5) by (simp_all add: s0_def cs_connect_def new_cloud_session_def)
  define s1 where "s1 = s0\<lparr>cs_futures := [Waiting], cs_pending := [(VStr (cd_uuid env), 0)], cs_sent := [j]\<rparr>"
  have start: "start_call env meth args kwargs (new_cloud_session sid) = (Inr 0, s1)"
    unfolding start_call_def s0_def [symmetric] assms(1,3) using j(1) assms(6) m(2) s0 by (simp add: Let_def s1_def)
  let ?r = "make_error (cl_uuid cenv) (cl_now cenv) (VStr (cd_uuid env)) (VStr ''METHOD_NOT_FOUND'') (VStr ''Unknown method: exec.call'') VNone"
  note r = error_reply_fields [OF assms(7)]
  have d: "dispatch (builtin_handlers t) str cenv (?m\<lparr>rm_timestamp := t1\<rparr>) = Inr ?r"
    by (rule exec_call_refused) (simp_all add: m assms(7))
  obtain j' where j': "to_json str ?r = Inr j'" "from_json u2 t2 (Some j') = Inr (?r\<lparr>rm_timestamp := t2\<rparr>)"
    using message_wire [OF r(4,5)] by blast
  have err: "remote_error str (?r\<lparr>rm_timestamp := t2\<rparr>) = Some (RuntimeError ''Unknown method: exec.call'')"
    by (simp add: remote_error_timestamp r(3))
  have "cs_futures (cs_receive_raw str u2 t2 (Some j') s1) = [Raised (RuntimeError ''Unknown method: exec.call'')]"
    using err by (simp add: cs_receive_raw_def j'(2) cs_receive_def r s1_def settle_def Let_def)
  then have "fst (finish_call env meth 0 (cs_receive_raw str u2 t2 (Some j') s1)) = Inl (RuntimeError ''Unknown method: exec.call'')"
    by (simp add: finish_call_def Let_def)
  with start j d j'(1) show ?thesis by (auto simp: s1_def)
qed

definition demo_cloud :: cloud_env where
  "demo_cloud = \<lparr>cd_ser = \<lparr>se_repr = (\<lambda>v. []), se_dumps = (\<lambda>v. Inr []), se_loads = (\<lambda>b. Inr VNone), se_numpy = False,
     se_torch = False, se_np_array = (\<lambda>b d s. Inr VNone), se_from_numpy = Inr\<rparr>, cd_str = (\<lambda>v. []), cd_connect = True,
     cd_send = None, cd_uuid = ''c1'', cd_now = 0\<rparr>"

theorem proxied_calls_are_refused_witness:
  "\<exists>n s1 j m r j' cenv. start_call demo_cloud ''torch.add'' [VInt 1, VInt 2] [] (new_cloud_session ''s'') = (Inr n, s1) \<and>
    cs_sent s1 = [j] \<and> from_json ''u'' 1 (Some j) = Inr m \<and> dispatch (builtin_handlers 0) (\<lambda>v. []) cenv m = Inr r \<and>
    to_json (\<lambda>v. []) r = Inr j' \<and>
    fst (finish_call demo_cloud ''torch.add'' n (cs_receive_raw (\<lambda>v. []) ''u'' 2 (Some j') s1))
      = Inl (RuntimeError ''Unknown method: exec.call'')"
proof -
  have "serialize_args (cd_ser demo_cloud) (VTuple [VInt 1, VInt 2]) = Inr (VList [VInt 1, VInt 2])"
    by (simp add: serialize_args_def)
  from proxied_calls_are_refused [OF this, of "[]" "VDict []"] show ?thesis
    by (fastforce simp: demo_cloud_def)
qed

end
