(* ===== verification/Agent.thy ===== *)
theory Agent
  imports Executor Install
begin

text \<open>
  \<open>agent/\<close>: the orchestrator with its pipelines, the model router, the tools and the browser
  agent. A handler is a function from its payload to a result or an exception; fresh task ids
  are an argument.
\<close>

section \<open>Orchestrator\<close>

record agent_task =
  at_id :: string
  at_name :: string
  at_status :: string
  at_result :: pyval
  at_error :: string

record agent =
  ag_id :: string
  ag_name :: string
  ag_capabilities :: "string list"
  ag_handler :: "(pyval \<Rightarrow> exn + pyval) option"

record orchestrator =
  or_agents :: "(string, agent) dict"
  or_tasks :: "(string, agent_task) dict"

definition new_orchestrator :: orchestrator where
  "new_orchestrator = \<lparr>or_agents = [], or_tasks = []\<rparr>"

definition register_agent :: "agent \<Rightarrow> orchestrator \<Rightarrow> orchestrator" where
  "register_agent a s = s\<lparr>or_agents := dset (ag_id a) a (or_agents s)\<rparr>"

definition unregister_agent :: "string \<Rightarrow> orchestrator \<Rightarrow> orchestrator" where
  "unregister_agent agent_id s = s\<lparr>or_agents := ddel agent_id (or_agents s)\<rparr>"

definition find_agent :: "string \<Rightarrow> orchestrator \<Rightarrow> agent option" where
  "find_agent capability s =
     (if capability = [] then (case dvalues (or_agents s) of [] \<Rightarrow> None | a # r \<Rightarrow> Some a)
      else find (\<lambda>a. capability \<in> set (ag_capabilities a)) (dvalues (or_agents s)))"

definition submit_task ::
  "string \<Rightarrow> string \<Rightarrow> pyval \<Rightarrow> string \<Rightarrow> orchestrator \<Rightarrow> agent_task \<times> orchestrator" where
  "submit_task uuid task_name payload capability s =
     (let task = \<lparr>at_id = take 8 uuid, at_name = task_name, at_status = ''pending'', at_result = VNone, at_error = []\<rparr>;
          done_task = (case find_agent capability s of
              Some a \<Rightarrow> (case ag_handler a of
                  Some h \<Rightarrow> (case h payload of
                      Inr v \<Rightarrow> task\<lparr>at_status := ''completed'', at_result := v\<rparr>
                    | Inl e \<Rightarrow> task\<lparr>at_status := ''failed'', at_error := exn_message e\<rparr>)
                | None \<Rightarrow> task\<lparr>at_status := ''failed'', at_error := ''No agent available for: '' @
                    (if capability \<noteq> [] then capability else task_name)\<rparr>)
            | None \<Rightarrow> task\<lparr>at_status := ''failed'', at_error := ''No agent available for: '' @
                (if capability \<noteq> [] then capability else task_name)\<rparr>) in
      (done_task, s\<lparr>or_tasks := dset (at_id task) done_task (or_tasks s)\<rparr>))"

text \<open>The payload with the context: \<open>payload["_context"] = context\<close> on a dict.\<close>

definition with_context :: "(pyval \<times> pyval) list \<Rightarrow> (pyval \<times> pyval) list \<Rightarrow> pyval" where
  "with_context ctx payload = VDict (dset (VStr ''_context'') (VDict ctx) payload)"

fun pipeline_loop ::
  "string list \<Rightarrow> (string \<times> (pyval \<times> pyval) list \<times> string) list \<Rightarrow> (pyval \<times> pyval) list \<Rightarrow>
    orchestrator \<Rightarrow> agent_task list \<times> orchestrator" where
  "pipeline_loop uuids [] ctx s = ([], s)"
| "pipeline_loop uuids ((name, payload, capability) # tasks) ctx s =
     (case submit_task (hd uuids) name (with_context ctx payload) capability s of
        (task, s1) \<Rightarrow>
          (if at_status task = ''completed'' then
             (case pipeline_loop (tl uuids) tasks (dset (VStr name) (at_result task) ctx) s1 of
                (results, s2) \<Rightarrow> (task # results, s2))
           else ([task], s1)))"

definition run_pipeline ::
  "string list \<Rightarrow> (string \<times> (pyval \<times> pyval) list \<times> string) list \<Rightarrow> orchestrator \<Rightarrow> agent_task list \<times> orchestrator" where
  "run_pipeline uuids tasks s = pipeline_loop uuids tasks [] s"

definition list_agents :: "orchestrator \<Rightarrow> (string \<times> string \<times> string list) list" where
  "list_agents s = map (\<lambda>a. (ag_id a, ag_name a, ag_capabilities a)) (dvalues (or_agents s))"

section \<open>Model router\<close>

record model_info =
  mi_name :: string
  mi_size_mb :: real
  mi_requires_gpu :: bool
  mi_local_capable :: bool
  mi_provider :: string

definition model_entry :: "string \<Rightarrow> real \<Rightarrow> bool \<Rightarrow> bool \<Rightarrow> string \<Rightarrow> string \<times> model_info" where
  "model_entry n sz gpu loc prov = (n, \<lparr>mi_name = n, mi_size_mb = sz, mi_requires_gpu = gpu,
     mi_local_capable = loc, mi_provider = prov\<rparr>)"

definition LOCAL_MAX_SIZE_MB :: real where "LOCAL_MAX_SIZE_MB = 500"

definition KNOWN_MODELS :: "(string, model_info) dict" where
  "KNOWN_MODELS = [
     model_entry ''gpt-4'' 0 False False ''openai'',
     model_entry ''gpt-3.5-turbo'' 0 False False ''openai'',
     model_entry ''llama-2-7b'' 3500 True False ''cloud'',
     model_entry ''llama-2-13b'' 7000 True False ''cloud'',
     model_entry ''phi-2'' 1400 False False ''cloud'',
     model_entry ''tinyllama-1.1b'' 600 False True ''local'',
     model_entry ''all-MiniLM-L6-v2'' 80 False True ''local'',
     model_entry ''whisper-tiny'' 75 False True ''local'']"

definition route_model :: "int \<Rightarrow> string \<Rightarrow> string" where
  "route_model total_memory_mb model_name = (case dget KNOWN_MODELS model_name of
       None \<Rightarrow> ''cloud''
     | Some info \<Rightarrow>
         (if mi_provider info = ''openai'' then ''cloud''
          else if mi_local_capable info \<and> mi_size_mb info < LOCAL_MAX_SIZE_MB \<and>
              mi_size_mb info * 2 < of_int total_memory_mb then ''local''
          else ''cloud''))"

definition get_model_info :: "string \<Rightarrow> model_info option" where
  "get_model_info model_name = dget KNOWN_MODELS model_name"

definition list_local_models :: "string list" where
  "list_local_models = map fst (filter (\<lambda>(n, i). mi_local_capable i) KNOWN_MODELS)"

definition list_cloud_models :: "string list" where
  "list_cloud_models = map fst (filter (\<lambda>(n, i). \<not> mi_local_capable i) KNOWN_MODELS)"

text \<open>tinyllama is listed as a local model, but its 600 MB exceed the limit, so no device runs it.\<close>

lemma tinyllama_never_local:
  "''tinyllama-1.1b'' \<in> set list_local_models \<and> route_model mem ''tinyllama-1.1b'' = ''cloud''"
  by (simp add: list_local_models_def route_model_def KNOWN_MODELS_def model_entry_def LOCAL_MAX_SIZE_MB_def)

section \<open>Browser agent\<close>

definition navigate :: "docker_env \<Rightarrow> string \<Rightarrow> pyval" where
  "navigate env url = (let r = fst (get_html env url) in
     str_dict [(''success'', VBool (sr_success r)),
       (''html'', VStr (if sr_success r then take 10000 (sr_stdout r) else [])), (''error'', VStr (sr_stderr r))])"

definition agent_screenshot :: "docker_env \<Rightarrow> string \<Rightarrow> pyval" where
  "agent_screenshot env url = (let r = fst (screenshot env url) in
     str_dict [(''success'', VBool (sr_success r)),
       (''screenshot_b64'', VStr (if sr_success r then sr_stdout r else [])), (''error'', VStr (sr_stderr r))])"

definition output_dict :: "sandbox_result \<Rightarrow> pyval" where
  "output_dict r = str_dict [(''success'', VBool (sr_success r)), (''output'', VStr (sr_stdout r)),
     (''error'', VStr (sr_stderr r))]"

definition execute_script :: "docker_env \<Rightarrow> string \<Rightarrow> pyval" where
  "execute_script env script = output_dict (fst (run_playwright env (VStr script)))"

definition fill_form :: "docker_env \<Rightarrow> string \<Rightarrow> (string \<times> string) list \<Rightarrow> pyval" where
  "fill_form env url flds =
     (let field_code = py_join [nl] (map (\<lambda>(sel, val).
            ''    page.fill('' @ py_quote2 sel @ '', '' @ py_quote2 val @ '')'') flds);
          script = [nl] @ ''from playwright.sync_api import sync_playwright'' @ [nl] @
            ''with sync_playwright() as p:'' @ [nl] @ ''    browser = p.chromium.launch()'' @ [nl] @
            ''    page = browser.new_page()'' @ [nl] @ ''    page.goto('' @ py_quote2 url @ '')'' @ [nl] @
            field_code @ [nl] @ ''    print('' @ py_quote2 ''Form filled'' @ '')'' @ [nl] @ ''    browser.close()'' @ [nl] in
      output_dict (fst (run_playwright env (VStr script))))"

section \<open>Tools\<close>

definition install_package :: "client_env \<Rightarrow> string \<Rightarrow> string \<Rightarrow> world \<Rightarrow> pyval \<times> world" where
  "install_package env package version w = (case install env package version False w of
       (Inr success, w') \<Rightarrow> (str_dict [(''success'', VBool success), (''package'', VStr package)], w')
     | (Inl e, w') \<Rightarrow> (str_dict [(''success'', VBool False), (''error'', VStr (exn_message e))], w'))"

definition execute_code :: "docker_env \<Rightarrow> string \<Rightarrow> bool \<Rightarrow> pyval" where
  "execute_code env code gpu =
     output_dict (fst (sandbox_execute env (VStr code) (SandboxConfig\<lparr>sc_gpu := gpu\<rparr>)))"

definition browse_url :: "docker_env \<Rightarrow> string \<Rightarrow> pyval" where
  "browse_url env url = navigate env url"

definition screenshot_url :: "docker_env \<Rightarrow> string \<Rightarrow> pyval" where
  "screenshot_url env url = agent_screenshot env url"

definition run_model :: "int \<Rightarrow> string \<Rightarrow> pyval \<Rightarrow> pyval" where
  "run_model total_memory_mb model input_data = str_dict [(''model'', VStr model),
     (''target'', VStr (route_model total_memory_mb model)), (''status'', VStr ''routed'')]"

definition tool_definition :: "string \<Rightarrow> string \<Rightarrow> (string \<times> pyval) list \<Rightarrow> string \<Rightarrow> pyval" where
  "tool_definition name description properties required = str_dict [(''type'', VStr ''function''),
     (''function'', str_dict [(''name'', VStr name), (''description'', VStr description),
       (''parameters'', str_dict [(''type'', VStr ''object''), (''properties'', str_dict properties),
          (''required'', VList [VStr required])])])]"

definition get_tool_definitions :: "pyval list" where
  "get_tool_definitions =
     [tool_definition ''cpip_install'' ''Install a Python package via cpip''
        [(''package'', str_dict [(''type'', VStr ''string'')]),
         (''version'', str_dict [(''type'', VStr ''string''), (''default'', VStr ''latest'')])] ''package'',
      tool_definition ''cpip_execute'' ''Execute Python code in cloud sandbox''
        [(''code'', str_dict [(''type'', VStr ''string'')]),
         (''gpu'', str_dict [(''type'', VStr ''boolean''), (''default'', VBool False)])] ''code'',
      tool_definition ''cpip_browse'' ''Navigate to URL and get page content''
        [(''url'', str_dict [(''type'', VStr ''string'')])] ''url'',
      tool_definition ''cpip_screenshot'' ''Take screenshot of a URL''
        [(''url'', str_dict [(''type'', VStr ''string'')])] ''url'']"

section \<open>Pipelines\<close>

text \<open>The context a step sees: the results of the steps before it, by name.\<close>

definition context_of :: "agent_task list \<Rightarrow> (pyval \<times> pyval) list \<Rightarrow> (pyval \<times> pyval) list" where
  "context_of results ctx = fold (\<lambda>t. dset (VStr (at_name t)) (at_result t)) results ctx"

lemma submit_task_keeps_agents: "submit_task u n p c s = (t, s') \<Longrightarrow> or_agents s' = or_agents s"
  by (auto simp: submit_task_def Let_def)

lemma find_agent_cong: "or_agents s = or_agents s' \<Longrightarrow> find_agent c s = find_agent c s'"
  by (simp add: find_agent_def)

lemma submit_task_outcome:
  assumes "submit_task u n p c s = (t, s')"
  shows "at_name t = n \<and> (at_status t = ''completed'' \<or> at_status t = ''failed'') \<and>
    (at_status t = ''completed'' \<longleftrightarrow> (\<exists>a h. find_agent c s = Some a \<and> ag_handler a = Some h \<and> h p = Inr (at_result t)))"
  using assms by (auto simp: submit_task_def Let_def split: option.splits sum.splits)

text \<open>A pipeline runs its steps in order, each step's handler getting its payload with the results
  of all steps before it, and stops after the first step that fails: every result but the last
  is completed, and fewer results than steps means that the last one failed.\<close>

theorem pipeline_runs_in_order:
  assumes "run_pipeline uuids tasks s = (results, s')"
  shows "length results \<le> length tasks \<and> (length results < length tasks \<longrightarrow>
      results \<noteq> [] \<and> at_status (List.last results) = ''failed'') \<and>
    (\<forall>i<length results. case tasks ! i of (name, payload, capability) \<Rightarrow>
      at_name (results ! i) = name \<and> (Suc i < length results \<longrightarrow> at_status (results ! i) = ''completed'') \<and>
      (at_status (results ! i) = ''completed'' \<longleftrightarrow> (\<exists>a h. find_agent capability s = Some a \<and> ag_handler a = Some h \<and>
         h (with_context (context_of (take i results) []) payload) = Inr (at_result (results ! i)))))"
proof -
  have "length results \<le> length tasks \<and> (length results < length tasks \<longrightarrow>
      results \<noteq> [] \<and> at_status (List.last results) = ''failed'') \<and>
    (\<forall>i<length results. case tasks ! i of (name, payload, capability) \<Rightarrow>
      at_name (results ! i) = name \<and> (Suc i < length results \<longrightarrow> at_status (results ! i) = ''completed'') \<and>
      (at_status (results ! i) = ''completed'' \<longleftrightarrow> (\<exists>a h. find_agent capability s0 = Some a \<and> ag_handler a = Some h \<and>
         h (with_context (context_of (take i results) ctx) payload) = Inr (at_result (results ! i)))))"
    if "pipeline_loop uuids tasks ctx s = (results, s')" "or_agents s = or_agents s0" for ctx s0
    using that
  proof (induction uuids tasks ctx s arbitrary: results s' rule: pipeline_loop.induct)
    case (1 uuids ctx s)
    then show ?case by simp
  next
    case (2 uuids name payload capability tasks ctx s)
    obtain task s1 where t: "submit_task (hd uuids) name (with_context ctx payload) capability s = (task, s1)"
      by (metis surj_pair)
    note o = submit_task_outcome [OF t] and ag = find_agent_cong [OF 2(3), of capability]
    show ?case
    proof (cases "at_status task = ''completed''")
      case False
      with 2(2) t have "results = [task]" by simp
      moreover from o False have "at_status task = ''failed''" by blast
      ultimately show ?thesis using o ag by (simp add: context_of_def)
    next
      case True
      then obtain rs s2 where rs: "pipeline_loop (tl uuids) tasks (dset (VStr name) (at_result task) ctx) s1 = (rs, s2)"
        "results = task # rs"
        using 2(2) t by (auto split: prod.splits)
      have "or_agents s1 = or_agents s0" using submit_task_keeps_agents [OF t] 2(3) by simp
      note ih = 2(1) [OF t [symmetric] True rs(1) this]
      show ?thesis unfolding rs(2)
      proof (intro conjI allI impI)
        show "length (task # rs) \<le> length ((name, payload, capability) # tasks)" using ih by simp
        assume "length (task # rs) < length ((name, payload, capability) # tasks)"
        with ih show "task # rs \<noteq> []" "at_status (List.last (task # rs)) = ''failed''" by auto
      next
        fix i assume i: "i < length (task # rs)"
        show "case ((name, payload, capability) # tasks) ! i of (name, payload, capability) \<Rightarrow>
          at_name ((task # rs) ! i) = name \<and>
          (Suc i < length (task # rs) \<longrightarrow> at_status ((task # rs) ! i) = ''completed'') \<and>
          (at_status ((task # rs) ! i) = ''completed'' \<longleftrightarrow> (\<exists>a h. find_agent capability s0 = Some a \<and> ag_handler a = Some h \<and>
             h (with_context (context_of (take i (task # rs)) ctx) payload) = Inr (at_result ((task # rs) ! i))))"
        proof (cases i)
          case 0
          with o ag True show ?thesis by (simp add: context_of_def)
        next
          case (Suc j)
          with i have j: "j < length rs" by simp
          have "case tasks ! j of (name', payload, capability) \<Rightarrow>
            at_name (rs ! j) = name' \<and> (Suc j < length rs \<longrightarrow> at_status (rs ! j) = ''completed'') \<and>
            (at_status (rs ! j) = ''completed'' \<longleftrightarrow> (\<exists>a h. find_agent capability s0 = Some a \<and> ag_handler a = Some h \<and>
              h (with_context (context_of (take j rs) (dset (VStr name) (at_result task) ctx)) payload) = Inr (at_result (rs ! j))))"
            by (rule ih [THEN conjunct2, THEN conjunct2, THEN spec, THEN mp, OF j])
          moreover have "context_of (take i (task # rs)) ctx = context_of (take j rs) (dset (VStr name) (at_result task) ctx)"
            using conjunct1 [OF o] by (simp add: context_of_def Suc)
          ultimately show ?thesis unfolding Suc by (simp only: nth_Cons_Suc list.size Suc_less_eq take_Suc_Cons One_nat_def add_Suc_right add_0_right)
        qed
      qed
    qed
  qed
  with assms show ?thesis by (simp add: run_pipeline_def)
qed

definition demo_agent :: agent where
  "demo_agent = \<lparr>ag_id = ''a'', ag_name = ''adder'', ag_capabilities = [''add''], ag_handler = Some (\<lambda>p. Inr (VInt 1))\<rparr>"

definition demo_agents :: orchestrator where
  "demo_agents = register_agent demo_agent new_orchestrator"

lemma demo_finds:
  "find_agent ''add'' demo_agents = Some demo_agent" "find_agent ''sub'' demo_agents = None"
  by (simp_all add: find_agent_def demo_agents_def register_agent_def new_orchestrator_def demo_agent_def)

theorem pipeline_runs_in_order_witness:
  "\<exists>results s'. run_pipeline [''u1'', ''u2''] [(''x'', [], ''add''), (''y'', [], ''sub'')] demo_agents = (results, s') \<and>
     length results = 2 \<and> at_status (results ! 0) = ''completed'' \<and> at_status (results ! 1) \<noteq> ''completed''"
proof -
  let ?ts = "[(''x'', [], ''add''), (''y'', [], ''sub'')]"
  obtain results s' where r: "run_pipeline [''u1'', ''u2''] ?ts demo_agents = (results, s')" by (metis surj_pair)
  have len: "length results = 2"
  proof -
    obtain t1 s1 where t1: "submit_task ''u1'' ''x'' (with_context [] []) ''add'' demo_agents = (t1, s1)"
      by (metis surj_pair)
    obtain t2 s2 where t2: "submit_task ''u2'' ''y'' (with_context (dset (VStr ''x'') (at_result t1) []) []) ''sub'' s1 = (t2, s2)"
      by (metis surj_pair)
    have "at_status t1 = ''completed''"
      using t1 by (clarsimp simp: submit_task_def demo_finds(1) Let_def demo_agent_def)
    moreover have "at_status t2 \<noteq> ''completed''"
      using submit_task_outcome [OF t2] find_agent_cong [OF submit_task_keeps_agents [OF t1], of "''sub''"]
      by (simp add: demo_finds)
    ultimately show ?thesis using r t2 unfolding run_pipeline_def by (auto simp: t1 split: if_splits)
  qed
  note p = pipeline_runs_in_order [OF r, THEN conjunct2, THEN conjunct2, THEN spec, THEN mp]
  have "at_status (results ! 0) = ''completed''" using p [of 0] len by (simp add: demo_finds demo_agent_def)
  moreover have "at_status (results ! 1) \<noteq> ''completed''" using p [of 1] len by (simp add: demo_finds)
  ultimately show ?thesis using r len by blast
qed

end
