(* ===== verification/ConfigManager.thy ===== *)
theory ConfigManager
  imports FileSystem PyText
begin

text \<open>
  \<open>client/config/config_manager.py\<close>: infrastructure configurations, one JSON file each. A field
  of a dataclass holds whatever the file or the dialogue gave it, so simple fields are Python
  values. The dialogue is a function from the prompt to the answer; the headings it prints are
  left out. Text is UTF-8.
\<close>

section \<open>Enumerations\<close>

datatype infra_type = IT_BARE_METAL | IT_VIRTUAL_MACHINE | IT_GPU_CLUSTER | IT_HYBRID

datatype provider_type = PT_AWS | PT_GCP | PT_AZURE | PT_LAMBDA_LABS | PT_PAPERSPACE | PT_LOCAL

datatype gpu_type = GT_A100 | GT_H100 | GT_V100 | GT_T4 | GT_RTX4090 | GT_MI250X | GT_TPU_V4

fun infra_value :: "infra_type \<Rightarrow> string" where
  "infra_value IT_BARE_METAL = ''bare_metal''"
| "infra_value IT_VIRTUAL_MACHINE = ''virtual_machine''"
| "infra_value IT_GPU_CLUSTER = ''gpu_cluster''"
| "infra_value IT_HYBRID = ''hybrid''"

fun provider_value :: "provider_type \<Rightarrow> string" where
  "provider_value PT_AWS = ''aws''"
| "provider_value PT_GCP = ''google_cloud''"
| "provider_value PT_AZURE = ''azure''"
| "provider_value PT_LAMBDA_LABS = ''lambda_labs''"
| "provider_value PT_PAPERSPACE = ''paperspace''"
| "provider_value PT_LOCAL = ''local''"

fun gpu_value :: "gpu_type \<Rightarrow> string" where
  "gpu_value GT_A100 = ''a100''"
| "gpu_value GT_H100 = ''h100''"
| "gpu_value GT_V100 = ''v100''"
| "gpu_value GT_T4 = ''t4''"
| "gpu_value GT_RTX4090 = ''rtx4090''"
| "gpu_value GT_MI250X = ''mi250x''"
| "gpu_value GT_TPU_V4 = ''tpu_v4''"

text \<open>\<open>E(v)\<close> for an enumeration with the given members\<close>

definition enum_of :: "('a \<Rightarrow> string) \<Rightarrow> 'a list \<Rightarrow> pyval \<Rightarrow> exn + 'a" where
  "enum_of val members v = (case find (\<lambda>m. VStr (val m) = v) members of
       Some m \<Rightarrow> Inr m | None \<Rightarrow> Inl (ValueError ''not a valid member''))"

definition infra_of :: "pyval \<Rightarrow> exn + infra_type" where
  "infra_of = enum_of infra_value [IT_BARE_METAL, IT_VIRTUAL_MACHINE, IT_GPU_CLUSTER, IT_HYBRID]"

definition provider_of :: "pyval \<Rightarrow> exn + provider_type" where
  "provider_of = enum_of provider_value [PT_AWS, PT_GCP, PT_AZURE, PT_LAMBDA_LABS, PT_PAPERSPACE, PT_LOCAL]"

definition gpu_of :: "pyval \<Rightarrow> exn + gpu_type" where
  "gpu_of = enum_of gpu_value [GT_A100, GT_H100, GT_V100, GT_T4, GT_RTX4090, GT_MI250X, GT_TPU_V4]"

lemma enum_of_value [simp]:
  "infra_of (VStr (infra_value t)) = Inr t" "provider_of (VStr (provider_value p)) = Inr p"
  "gpu_of (VStr (gpu_value g)) = Inr g"
  by (cases t; cases p; cases g; simp add: infra_of_def provider_of_def gpu_of_def enum_of_def)+

section \<open>Configurations\<close>

record gpu_timer_config =
  tc_enabled :: pyval
  tc_start_time :: pyval
  tc_end_time :: pyval
  tc_timezone :: pyval
  tc_allow_override :: pyval

definition GPUTimerConfig :: gpu_timer_config where
  "GPUTimerConfig = \<lparr>tc_enabled = VBool False, tc_start_time = VNone, tc_end_time = VNone,
     tc_timezone = VStr ''UTC'', tc_allow_override = VBool False\<rparr>"

record auto_detector_config =
  ad_enabled :: pyval
  ad_idle_threshold_minutes :: pyval
  ad_cost_threshold_usd :: pyval
  ad_auto_shutdown :: pyval
  ad_power_monitoring :: pyval
  ad_consolidate_instances :: pyval

definition AutoDetectorConfig :: auto_detector_config where
  "AutoDetectorConfig = \<lparr>ad_enabled = VBool False, ad_idle_threshold_minutes = VInt 30,
     ad_cost_threshold_usd = VFloat 10, ad_auto_shutdown = VBool False, ad_power_monitoring = VBool False,
     ad_consolidate_instances = VBool False\<rparr>"

text \<open>A nested configuration is an object of its class, or the empty value its file had.\<close>

datatype 'a nested = Parsed 'a | Raw pyval

record infra_config =
  ic_name :: pyval
  ic_type :: infra_type
  ic_provider :: provider_type
  ic_gpu_types :: "gpu_type list"
  ic_region :: pyval
  ic_gpu_timer :: "gpu_timer_config nested"
  ic_auto_detector :: "auto_detector_config nested"
  ic_compute_budget_monthly :: pyval
  ic_enable_caching :: pyval
  ic_max_workers :: pyval
  ic_metadata :: pyval

section \<open>JSON form\<close>

text \<open>\<open>C(**v)\<close>: the keyword arguments, with a TypeError for a name the class does not have.\<close>

definition take_kwargs :: "string list \<Rightarrow> pyval \<Rightarrow> exn + (pyval \<times> pyval) list" where
  "take_kwargs names v = (case v of
       VDict d \<Rightarrow> (if set (dkeys d) \<subseteq> set (map VStr names) then Inr d
                  else Inl (TypeError ''got an unexpected keyword argument''))
     | _ \<Rightarrow> Inl (TypeError ''argument after ** must be a mapping''))"

definition kwarg :: "(pyval \<times> pyval) list \<Rightarrow> string \<Rightarrow> pyval \<Rightarrow> pyval" where
  "kwarg d k dflt = (case map_of d (VStr k) of Some v \<Rightarrow> v | None \<Rightarrow> dflt)"

definition timer_of :: "pyval \<Rightarrow> exn + gpu_timer_config" where
  "timer_of v = map_result (\<lambda>d.
      \<lparr>tc_enabled = kwarg d ''enabled'' (VBool False), tc_start_time = kwarg d ''start_time'' VNone,
       tc_end_time = kwarg d ''end_time'' VNone, tc_timezone = kwarg d ''timezone'' (VStr ''UTC''),
       tc_allow_override = kwarg d ''allow_override'' (VBool False)\<rparr>)
     (take_kwargs [''enabled'', ''start_time'', ''end_time'', ''timezone'', ''allow_override''] v)"

definition detector_of :: "pyval \<Rightarrow> exn + auto_detector_config" where
  "detector_of v = map_result (\<lambda>d.
      \<lparr>ad_enabled = kwarg d ''enabled'' (VBool False),
       ad_idle_threshold_minutes = kwarg d ''idle_threshold_minutes'' (VInt 30),
       ad_cost_threshold_usd = kwarg d ''cost_threshold_usd'' (VFloat 10),
       ad_auto_shutdown = kwarg d ''auto_shutdown'' (VBool False),
       ad_power_monitoring = kwarg d ''power_monitoring'' (VBool False),
       ad_consolidate_instances = kwarg d ''consolidate_instances'' (VBool False)\<rparr>)
     (take_kwargs [''enabled'', ''idle_threshold_minutes'', ''cost_threshold_usd'', ''auto_shutdown'',
        ''power_monitoring'', ''consolidate_instances''] v)"

text \<open>\<open>asdict\<close>\<close>

definition timer_dict :: "gpu_timer_config \<Rightarrow> pyval" where
  "timer_dict t = str_dict [(''enabled'', tc_enabled t), (''start_time'', tc_start_time t),
     (''end_time'', tc_end_time t), (''timezone'', tc_timezone t), (''allow_override'', tc_allow_override t)]"

definition detector_dict :: "auto_detector_config \<Rightarrow> pyval" where
  "detector_dict d = str_dict [(''enabled'', ad_enabled d),
     (''idle_threshold_minutes'', ad_idle_threshold_minutes d), (''cost_threshold_usd'', ad_cost_threshold_usd d),
     (''auto_shutdown'', ad_auto_shutdown d), (''power_monitoring'', ad_power_monitoring d),
     (''consolidate_instances'', ad_consolidate_instances d)]"

fun nested_dict :: "('a \<Rightarrow> pyval) \<Rightarrow> 'a nested \<Rightarrow> exn + pyval" where
  "nested_dict f (Parsed x) = Inr (f x)"
| "nested_dict f (Raw v) = Inl (TypeError ''asdict() should be called on dataclass instances'')"

text \<open>A nested entry of the file: parsed when truthy, the default when missing or null.\<close>

definition nested_of :: "(pyval \<Rightarrow> exn + 'a) \<Rightarrow> 'a \<Rightarrow> pyval \<Rightarrow> exn + 'a nested" where
  "nested_of parse dflt v = (if truthy v then map_result Parsed (parse v)
     else if v = VNone then Inr (Parsed dflt) else Inr (Raw v))"

definition deserialize_config :: "pyval \<Rightarrow> exn + infra_config" where
  "deserialize_config v = (case v of
       VDict d \<Rightarrow>
         bind_result (bind_result (py_item d ''type'') infra_of) (\<lambda>ty.
         bind_result (bind_result (py_item d ''provider'') provider_of) (\<lambda>pr.
         bind_result (bind_result (py_iter (kwarg d ''gpu_types'' (VList []))) (traverse gpu_of)) (\<lambda>gpus.
         bind_result (nested_of timer_of GPUTimerConfig (kwarg d ''gpu_timer'' VNone)) (\<lambda>timer.
         bind_result (nested_of detector_of AutoDetectorConfig (kwarg d ''auto_detector'' VNone)) (\<lambda>det.
         bind_result (take_kwargs [''name'', ''type'', ''provider'', ''gpu_types'', ''region'', ''gpu_timer'',
             ''auto_detector'', ''compute_budget_monthly'', ''enable_caching'', ''max_workers'', ''metadata''] v) (\<lambda>_.
         (case map_of d (VStr ''name'') of
            None \<Rightarrow> Inl (TypeError ''missing 1 required positional argument'')
          | Some n \<Rightarrow> Inr \<lparr>ic_name = n, ic_type = ty, ic_provider = pr, ic_gpu_types = gpus,
              ic_region = kwarg d ''region'' (VStr ''us-east-1''), ic_gpu_timer = timer, ic_auto_detector = det,
              ic_compute_budget_monthly = kwarg d ''compute_budget_monthly'' (VFloat 500),
              ic_enable_caching = kwarg d ''enable_caching'' (VBool True),
              ic_max_workers = kwarg d ''max_workers'' (VInt 8),
              ic_metadata = (case kwarg d ''metadata'' VNone of VNone \<Rightarrow> VDict [] | m \<Rightarrow> m)\<rparr>)))))))
     | _ \<Rightarrow> Inl (TypeError ''indices must be integers''))"

definition serialize_config :: "infra_config \<Rightarrow> exn + pyval" where
  "serialize_config c =
     bind_result (nested_dict timer_dict (ic_gpu_timer c)) (\<lambda>timer.
     bind_result (nested_dict detector_dict (ic_auto_detector c)) (\<lambda>det.
       Inr (str_dict [(''name'', ic_name c), (''type'', VStr (infra_value (ic_type c))),
         (''provider'', VStr (provider_value (ic_provider c))),
         (''gpu_types'', VList (map (\<lambda>g. VStr (gpu_value g)) (ic_gpu_types c))),
         (''region'', ic_region c), (''gpu_timer'', timer), (''auto_detector'', det),
         (''compute_budget_monthly'', ic_compute_budget_monthly c), (''enable_caching'', ic_enable_caching c),
         (''max_workers'', ic_max_workers c), (''metadata'', ic_metadata c)])))"

section \<open>The manager\<close>

text \<open>
  What the manager takes from outside: the answers of the dialogue by prompt (None when it is
  interrupted), \<open>str\<close> of floats and foreign values, \<open>float\<close> of a text.
\<close>

record config_env =
  cn_ask :: "string \<Rightarrow> pyval"
  cn_str :: "pyval \<Rightarrow> string"
  cn_float :: "string \<Rightarrow> real option"

definition show_val :: "config_env \<Rightarrow> pyval \<Rightarrow> string" where
  "show_val env v = (case v of VStr s \<Rightarrow> s | _ \<Rightarrow> py_repr (cn_str env) v)"

record config_manager =
  cm_dir :: path
  cm_configs :: "(pyval, infra_config) dict"
  cm_fs :: fs

definition read_config :: "fs \<Rightarrow> path \<Rightarrow> exn + infra_config" where
  "read_config fs p = bind_result (bind_result (fs_read fs p) json_loads) deserialize_config"

definition load_config_file :: "path \<Rightarrow> config_manager \<Rightarrow> config_manager" where
  "load_config_file p s =
     (case read_config (cm_fs s) p of
        Inl e \<Rightarrow> s
      | Inr c \<Rightarrow> (if hashable (ic_name c) then s\<lparr>cm_configs := dset (ic_name c) c (cm_configs s)\<rparr> else s))"

definition load_all_configs :: "config_manager \<Rightarrow> config_manager" where
  "load_all_configs s = fold load_config_file (fs_glob_suffix (cm_fs s) (cm_dir s) ''.json'') s"

definition new_config_manager :: "path \<Rightarrow> fs \<Rightarrow> exn + config_manager" where
  "new_config_manager dir fs = (case fs_mkdirs dir fs of
       Inl e \<Rightarrow> Inl e
     | Inr fs1 \<Rightarrow> Inr (load_all_configs \<lparr>cm_dir = dir, cm_configs = [], cm_fs = fs1\<rparr>))"

definition config_path :: "config_env \<Rightarrow> path \<Rightarrow> pyval \<Rightarrow> path" where
  "config_path env dir name = path_join dir (show_val env name @ ''.json'')"

text \<open>Opening the file for writing empties it; a failure after that leaves text no JSON reader takes.\<close>

definition cm_save_config :: "config_env \<Rightarrow> infra_config \<Rightarrow> config_manager \<Rightarrow> (exn + unit) \<times> config_manager" where
  "cm_save_config env c s = (let p = config_path env (cm_dir s) (ic_name c) in
     case fs_write p (Text []) (cm_fs s) of
       Inl e \<Rightarrow> (Inl e, s)
     | Inr fs1 \<Rightarrow>
         (case bind_result (serialize_config c) (json_dumps (cn_str env)) of
            Inl e \<Rightarrow> (Inl e, s\<lparr>cm_fs := fs1\<rparr>)
          | Inr j \<Rightarrow>
              (let s1 = s\<lparr>cm_fs := dset p (File j) fs1\<rparr> in
               if hashable (ic_name c) then (Inr (), s1\<lparr>cm_configs := dset (ic_name c) c (cm_configs s1)\<rparr>)
               else (Inl (TypeError ''unhashable type''), s1))))"

definition cm_delete_config :: "config_env \<Rightarrow> string \<Rightarrow> config_manager \<Rightarrow> (exn + unit) \<times> config_manager" where
  "cm_delete_config env name s = (let p = config_path env (cm_dir s) (VStr name) in
     if fs_is_dir (cm_fs s) p then (Inl (OSError ''Is a directory''), s)
     else if fs_exists (cm_fs s) p then
       (Inr (), s\<lparr>cm_fs := fs_unlink p (cm_fs s), cm_configs := ddel (VStr name) (cm_configs s)\<rparr>)
     else (Inr (), s))"

definition cm_list_configs :: "config_manager \<Rightarrow> pyval list" where
  "cm_list_configs s = dkeys (cm_configs s)"

definition cm_get_config :: "config_manager \<Rightarrow> pyval \<Rightarrow> infra_config option" where
  "cm_get_config s name = dget (cm_configs s) name"

section \<open>The dialogue\<close>

definition INFRA_CHOICES :: "(string \<times> infra_type) list" where
  "INFRA_CHOICES = [(''Bare Metal (Local/On-premises)'', IT_BARE_METAL),
     (''Virtual Machine (Cloud VMs)'', IT_VIRTUAL_MACHINE),
     (''GPU Cluster (Distributed GPU)'', IT_GPU_CLUSTER),
     (''Hybrid (Mix of local + cloud)'', IT_HYBRID)]"

definition PROVIDER_CHOICES :: "(string \<times> provider_type) list" where
  "PROVIDER_CHOICES = [(''AWS (EC2, GPU instances)'', PT_AWS),
     (''Google Cloud (Compute Engine, TPUs)'', PT_GCP), (''Microsoft Azure (VM, GPU)'', PT_AZURE),
     (''Lambda Labs (GPU cloud)'', PT_LAMBDA_LABS), (''Paperspace (Gradient)'', PT_PAPERSPACE)]"

definition GPU_CHOICES :: "(string \<times> gpu_type) list" where
  "GPU_CHOICES = [(''NVIDIA A100'', GT_A100), (''NVIDIA H100'', GT_H100), (''NVIDIA V100'', GT_V100),
     (''NVIDIA T4'', GT_T4), (''NVIDIA RTX 4090'', GT_RTX4090), (''AMD MI250X'', GT_MI250X), (''TPU v4'', GT_TPU_V4)]"

definition REGION_CHOICES :: "(string \<times> string) list" where
  "REGION_CHOICES = [(''us-east-1 (N. Virginia)'', ''us-east-1''), (''us-west-2 (Oregon)'', ''us-west-2''),
     (''eu-west-1 (Ireland)'', ''eu-west-1''), (''ap-northeast-1 (Tokyo)'', ''ap-northeast-1''),
     (''ap-south-1 (Mumbai)'', ''ap-south-1'')]"

text \<open>\<open>table[choice]\<close>; a choice that is not in the list raises \<open>e\<close>.\<close>

definition chosen :: "exn \<Rightarrow> (string \<times> 'a) list \<Rightarrow> pyval \<Rightarrow> exn + 'a" where
  "chosen e table choice = (case choice of
       VStr s \<Rightarrow> (case map_of table s of Some x \<Rightarrow> Inr x | None \<Rightarrow> Inl e)
     | _ \<Rightarrow> Inl e)"

definition int_answer :: "config_env \<Rightarrow> string \<Rightarrow> exn + pyval" where
  "int_answer env prompt = (case cn_ask env prompt of
       VStr s \<Rightarrow> (case py_int s of Some i \<Rightarrow> Inr (VInt i)
         | None \<Rightarrow> Inl (ValueError ''invalid literal for int() with base 10''))
     | _ \<Rightarrow> Inl (TypeError ''int() argument must be a string''))"

definition float_answer :: "config_env \<Rightarrow> string \<Rightarrow> exn + pyval" where
  "float_answer env prompt = (case cn_ask env prompt of
       VStr s \<Rightarrow> (case cn_float env s of Some r \<Rightarrow> Inr (VFloat r)
         | None \<Rightarrow> Inl (ValueError ''could not convert string to float''))
     | _ \<Rightarrow> Inl (TypeError ''float() argument must be a string''))"

definition ask_infra_type :: "config_env \<Rightarrow> exn + infra_type" where
  "ask_infra_type env = chosen (ValueError ''is not in list'') INFRA_CHOICES (cn_ask env ''Infrastructure type:'')"

definition ask_provider :: "config_env \<Rightarrow> infra_type \<Rightarrow> exn + provider_type" where
  "ask_provider env ty = (if ty = IT_BARE_METAL then Inr PT_LOCAL
     else chosen (KeyError ''None'') PROVIDER_CHOICES (cn_ask env ''Cloud provider:''))"

definition ask_gpus :: "config_env \<Rightarrow> infra_type \<Rightarrow> exn + gpu_type list" where
  "ask_gpus env ty = (if ty \<in> {IT_GPU_CLUSTER, IT_HYBRID, IT_VIRTUAL_MACHINE}
     then bind_result (py_iter (cn_ask env ''GPUs to support:'')) (traverse (chosen (KeyError ''gpu'') GPU_CHOICES))
     else Inr [])"

definition ask_timer :: "config_env \<Rightarrow> gpu_timer_config" where
  "ask_timer env =
     (let enable_timer = cn_ask env ''Enable GPU timer (set start/end times for processes)?'';
          timer = GPUTimerConfig\<lparr>tc_enabled := enable_timer\<rparr> in
      if truthy enable_timer then
        timer\<lparr>tc_start_time := cn_ask env ''Start time (HH:MM, e.g., 09:00):'',
          tc_end_time := cn_ask env ''End time (HH:MM, e.g., 18:00):'',
          tc_timezone := cn_ask env ''Timezone (default: UTC):'',
          tc_allow_override := cn_ask env ''Allow manual override of timer?''\<rparr>
      else timer)"

definition ask_detector :: "config_env \<Rightarrow> exn + auto_detector_config" where
  "ask_detector env =
     (let enable = cn_ask env ''Enable auto-detector for cost optimization?'';
          det = AutoDetectorConfig\<lparr>ad_enabled := enable\<rparr> in
      if truthy enable then
        bind_result (int_answer env ''Idle threshold (minutes before shutdown) [default: 30]:'') (\<lambda>idle.
        bind_result (float_answer env ''Hourly cost alert threshold (USD) [default: 10.0]:'') (\<lambda>cost.
          Inr (det\<lparr>ad_idle_threshold_minutes := idle, ad_cost_threshold_usd := cost,
            ad_auto_shutdown := cn_ask env ''Auto-shutdown when idle?'',
            ad_power_monitoring := cn_ask env ''Enable power consumption monitoring?'',
            ad_consolidate_instances :=
              cn_ask env ''Consolidate workloads to fewer instances for cost savings?''\<rparr>)))
      else Inr det)"

definition ask_config :: "config_env \<Rightarrow> pyval \<Rightarrow> exn + infra_config" where
  "ask_config env name =
     bind_result (ask_infra_type env) (\<lambda>ty.
     bind_result (ask_provider env ty) (\<lambda>pr.
     bind_result (ask_gpus env ty) (\<lambda>gpus.
     bind_result (chosen (KeyError ''None'') REGION_CHOICES (cn_ask env ''Deployment region:'')) (\<lambda>region.
     bind_result (ask_detector env) (\<lambda>det.
     bind_result (float_answer env ''Monthly compute budget (USD) [default: 500]:'') (\<lambda>budget.
     bind_result (int_answer env ''Maximum parallel workers [default: 8]:'') (\<lambda>workers.
       Inr \<lparr>ic_name = name, ic_type = ty, ic_provider = pr, ic_gpu_types = gpus, ic_region = VStr region,
         ic_gpu_timer = Parsed (ask_timer env), ic_auto_detector = Parsed det,
         ic_compute_budget_monthly = budget, ic_enable_caching = VBool True, ic_max_workers = workers,
         ic_metadata = VDict []\<rparr>)))))))"

text \<open>\<open>s.title()\<close> on ASCII: the first letter of each run of letters in upper case, the rest lower\<close>

fun title_from :: "bool \<Rightarrow> string \<Rightarrow> string" where
  "title_from inside [] = []"
| "title_from inside (c # s) = (let letter = (char_lower c \<noteq> c \<or> char_upper c \<noteq> c) in
     (if \<not> letter then c else if inside then char_lower c else char_upper c) # title_from letter s)"

definition pretty_value :: "string \<Rightarrow> string" where
  "pretty_value s = title_from False (py_replace1 CHR ''_'' CHR '' '' s)"

definition yes_no :: "pyval \<Rightarrow> string" where
  "yes_no v = (if truthy v then ''Yes'' else ''No'')"

definition rule_line :: string where
  "rule_line = replicate 60 CHR ''=''"

definition timer_lines :: "config_env \<Rightarrow> gpu_timer_config nested \<Rightarrow> exn + string list" where
  "timer_lines env n = (case n of
       Raw v \<Rightarrow> Inl (AttributeError ''enabled'')
     | Parsed t \<Rightarrow> Inr (if truthy (tc_enabled t) then
         [[CHR 0x0A, CHR 0xE2, CHR 0x8F, CHR 0xB0] @ '' GPU Timer: '' @ show_val env (tc_start_time t) @ '' - '' @
           show_val env (tc_end_time t) @ '' ('' @ show_val env (tc_timezone t) @ '')''] else []))"

definition detector_lines :: "config_env \<Rightarrow> auto_detector_config nested \<Rightarrow> exn + string list" where
  "detector_lines env n = (case n of
       Raw v \<Rightarrow> Inl (AttributeError ''enabled'')
     | Parsed d \<Rightarrow> Inr (if truthy (ad_enabled d) then
         [[CHR 0x0A, CHR 0xF0, CHR 0x9F, CHR 0x94, CHR 0x8B] @ '' Auto-Detector Enabled:'',
          ''  - Idle threshold: '' @ show_val env (ad_idle_threshold_minutes d) @ '' min'',
          ''  - Cost alert: $'' @ show_val env (ad_cost_threshold_usd d) @ ''/hour'',
          ''  - Auto-shutdown: '' @ yes_no (ad_auto_shutdown d),
          ''  - Power monitoring: '' @ yes_no (ad_power_monitoring d)] else []))"

text \<open>The lines \<open>print_config_summary\<close> prints\<close>

definition config_summary :: "config_env \<Rightarrow> infra_config \<Rightarrow> exn + string list" where
  "config_summary env c =
     bind_result (timer_lines env (ic_gpu_timer c)) (\<lambda>tl.
     bind_result (detector_lines env (ic_auto_detector c)) (\<lambda>dl.
       Inr ([CHR 0x0A # rule_line, [CHR 0xF0, CHR 0x9F, CHR 0x93, CHR 0x8B] @ '' Configuration Summary'', rule_line,
         ''Name: '' @ show_val env (ic_name c),
         ''Infrastructure: '' @ pretty_value (infra_value (ic_type c)),
         ''Provider: '' @ pretty_value (provider_value (ic_provider c))] @
         (if ic_gpu_types c \<noteq> [] then [''GPU Types: '' @ py_join '', '' (map gpu_value (ic_gpu_types c))] else []) @
         [''Region: '' @ show_val env (ic_region c), ''Max Workers: '' @ show_val env (ic_max_workers c),
          ''Monthly Budget: $'' @ show_val env (ic_compute_budget_monthly c)] @
         tl @ dl @ [rule_line @ [CHR 0x0A]])))"

definition interactive_create :: "config_env \<Rightarrow> config_manager \<Rightarrow> (exn + infra_config option) \<times> config_manager" where
  "interactive_create env s =
     (let name = cn_ask env ''Enter a name for this configuration:'' in
      if dhas (cm_configs s) name \<and>
         \<not> truthy (cn_ask env (''Configuration '' @ [CHR 0x27] @ show_val env name @ [CHR 0x27] @ '' already exists. Overwrite?''))
      then (Inr None, s)
      else case ask_config env name of
          Inl e \<Rightarrow> (Inl e, s)
        | Inr c \<Rightarrow> (case cm_save_config env c s of
              (Inl e, s1) \<Rightarrow> (Inl e, s1)
            | (Inr u, s1) \<Rightarrow> (case config_summary env c of
                  Inl e \<Rightarrow> (Inl e, s1) | Inr out \<Rightarrow> (Inr (Some c), s1))))"

section \<open>Modification\<close>

text \<open>The object is changed in place, so a failure half way keeps the changes made before it.\<close>

definition modify_timer :: "config_env \<Rightarrow> gpu_timer_config \<Rightarrow> gpu_timer_config" where
  "modify_timer env t = (let t1 = t\<lparr>tc_enabled := cn_ask env ''Enable GPU timer?''\<rparr> in
     if truthy (tc_enabled t1) then
       t1\<lparr>tc_start_time := cn_ask env (''Start time ['' @ show_val env (tc_start_time t) @ '']:''),
         tc_end_time := cn_ask env (''End time ['' @ show_val env (tc_end_time t) @ '']:'')\<rparr>
     else t1)"

definition modify_detector :: "config_env \<Rightarrow> auto_detector_config \<Rightarrow> exn option \<times> auto_detector_config" where
  "modify_detector env d = (let d1 = d\<lparr>ad_enabled := cn_ask env ''Enable auto-detector?''\<rparr> in
     if truthy (ad_enabled d1) then
       (case int_answer env (''Idle threshold (min) ['' @ show_val env (ad_idle_threshold_minutes d) @ '']:'') of
          Inl e \<Rightarrow> (Some e, d1)
        | Inr i \<Rightarrow> (None, d1\<lparr>ad_idle_threshold_minutes := i, ad_auto_shutdown := cn_ask env ''Auto-shutdown when idle?''\<rparr>))
     else (None, d1))"

definition apply_choice :: "config_env \<Rightarrow> string \<Rightarrow> infra_config \<Rightarrow> exn option \<times> infra_config" where
  "apply_choice env choice c =
     (if choice = ''GPU Timer Settings'' then (case ic_gpu_timer c of
          Raw v \<Rightarrow> (Some (AttributeError ''enabled''), c)
        | Parsed t \<Rightarrow> (None, c\<lparr>ic_gpu_timer := Parsed (modify_timer env t)\<rparr>))
      else if choice = ''Auto-Detector Settings'' then (case ic_auto_detector c of
          Raw v \<Rightarrow> (Some (AttributeError ''enabled''), c)
        | Parsed d \<Rightarrow> (case modify_detector env d of (e, d1) \<Rightarrow> (e, c\<lparr>ic_auto_detector := Parsed d1\<rparr>)))
      else if choice = ''Compute Budget'' then
        (case float_answer env (''Monthly budget ['' @ show_val env (ic_compute_budget_monthly c) @ '']:'') of
           Inl e \<Rightarrow> (Some e, c) | Inr v \<Rightarrow> (None, c\<lparr>ic_compute_budget_monthly := v\<rparr>))
      else if choice = ''Max Workers'' then
        (case int_answer env (''Max workers ['' @ show_val env (ic_max_workers c) @ '']:'') of
           Inl e \<Rightarrow> (Some e, c) | Inr v \<Rightarrow> (None, c\<lparr>ic_max_workers := v\<rparr>))
      else if choice = ''Region'' then (None, c\<lparr>ic_region := cn_ask env ''Region:''\<rparr>)
      else (None, c))"

text \<open>An interrupted menu chooses nothing, and the unchanged object is saved.\<close>

definition interactive_modify ::
  "config_env \<Rightarrow> pyval \<Rightarrow> config_manager \<Rightarrow> (exn + infra_config option) \<times> config_manager" where
  "interactive_modify env name s = (case dget (cm_configs s) name of
       None \<Rightarrow> (Inr None, s)
     | Some c \<Rightarrow>
         (let choice = (case cn_ask env ''What would you like to modify?'' of VStr t \<Rightarrow> t | _ \<Rightarrow> []) in
          if choice = ''Cancel'' then (Inr None, s)
          else case apply_choice env choice c of
              (Some e, c1) \<Rightarrow> (Inl e, s\<lparr>cm_configs := dset name c1 (cm_configs s)\<rparr>)
            | (None, c1) \<Rightarrow>
                (case cm_save_config env c1 (s\<lparr>cm_configs := dset name c1 (cm_configs s)\<rparr>) of
                   (Inl e, s1) \<Rightarrow> (Inl e, s1) | (Inr u, s1) \<Rightarrow> (Inr (Some c1), s1))))"

section \<open>A written configuration reads back\<close>

fun canonical_nested :: "('a \<Rightarrow> pyval) \<Rightarrow> 'a nested \<Rightarrow> bool" where
  "canonical_nested f (Parsed x) = canonical (f x)"
| "canonical_nested f (Raw v) = False"

definition storable :: "infra_config \<Rightarrow> bool" where
  "storable c \<longleftrightarrow> (case ic_name c of VStr n \<Rightarrow> CHR ''/'' \<notin> set n | _ \<Rightarrow> False) \<and>
     canonical_nested timer_dict (ic_gpu_timer c) \<and> canonical_nested detector_dict (ic_auto_detector c) \<and>
     canonical (ic_region c) \<and> canonical (ic_compute_budget_monthly c) \<and> canonical (ic_enable_caching c) \<and>
     canonical (ic_max_workers c) \<and> canonical (ic_metadata c) \<and> ic_metadata c \<noteq> VNone"

lemma kwarg_simps [simp]:
  "kwarg [] k v = v" "kwarg ((VStr k', w) # d) k v = (if k = k' then w else kwarg d k v)"
  by (auto simp: kwarg_def)

lemma timer_of_dict [simp]: "timer_of (timer_dict t) = Inr t"
  by (simp add: timer_of_def timer_dict_def str_dict_def take_kwargs_def)

lemma detector_of_dict [simp]: "detector_of (detector_dict d) = Inr d"
  by (simp add: detector_of_def detector_dict_def str_dict_def take_kwargs_def)

lemma truthy_dicts [simp]: "truthy (timer_dict t)" "truthy (detector_dict d)"
  by (simp_all add: timer_dict_def detector_dict_def str_dict_def)

lemma traverse_gpus: "traverse gpu_of (map (\<lambda>g. VStr (gpu_value g)) gs) = Inr gs"
  by (induction gs) simp_all

lemma storable_name: "storable c \<Longrightarrow> \<exists>n. ic_name c = VStr n \<and> CHR ''/'' \<notin> set n"
  by (auto simp: storable_def split: pyval.splits)

lemma config_json_roundtrip:
  assumes "storable c"
  shows "\<exists>j. serialize_config c = Inr j \<and> canonical j \<and> deserialize_config j = Inr c"
proof -
  from assms obtain n t d where n: "ic_name c = VStr n" and t: "ic_gpu_timer c = Parsed t" "canonical (timer_dict t)"
    and d: "ic_auto_detector c = Parsed d" "canonical (detector_dict d)"
    by (auto simp: storable_def split: pyval.splits elim!: canonical_nested.elims)
  let ?d = "[(VStr ''name'', VStr n), (VStr ''type'', VStr (infra_value (ic_type c))),
         (VStr ''provider'', VStr (provider_value (ic_provider c))),
         (VStr ''gpu_types'', VList (map (\<lambda>g. VStr (gpu_value g)) (ic_gpu_types c))),
         (VStr ''region'', ic_region c), (VStr ''gpu_timer'', timer_dict t), (VStr ''auto_detector'', detector_dict d),
         (VStr ''compute_budget_monthly'', ic_compute_budget_monthly c), (VStr ''enable_caching'', ic_enable_caching c),
         (VStr ''max_workers'', ic_max_workers c), (VStr ''metadata'', ic_metadata c)]"
  have ser: "serialize_config c = Inr (VDict ?d)"
    by (simp add: serialize_config_def n t(1) d(1) str_dict_def)
  have "canonical (VDict ?d)"
    using assms t(2) d(2) by (simp add: storable_def list_all_iff)
  moreover have "deserialize_config (VDict ?d) = Inr c"
  proof -
    have m: "(case ic_metadata c of VNone \<Rightarrow> VDict [] | m \<Rightarrow> m) = ic_metadata c"
      using assms by (simp add: storable_def split: pyval.split)
    have k: "take_kwargs [''name'', ''type'', ''provider'', ''gpu_types'', ''region'', ''gpu_timer'',
             ''auto_detector'', ''compute_budget_monthly'', ''enable_caching'', ''max_workers'', ''metadata''] (VDict ?d)
        = Inr ?d"
      by (simp add: take_kwargs_def)
    show ?thesis
      unfolding deserialize_config_def pyval.case k
      by (simp add: py_item_def py_iter_def traverse_gpus nested_of_def m n [symmetric] t(1) [symmetric] d(1) [symmetric])
  qed
  ultimately show ?thesis using ser by blast
qed

lemma config_path_plain:
  "CHR ''/'' \<notin> set n \<Longrightarrow> config_path env dir (VStr n) = dir @ [n @ ''.json'']"
  by (cases n) (auto simp: config_path_def show_val_def path_join_def path_parts_def py_split_single)

lemma config_path_inj:
  "storable c \<Longrightarrow> storable c' \<Longrightarrow> config_path env dir (ic_name c) = config_path env dir (ic_name c') \<Longrightarrow> ic_name c = ic_name c'"
  by (auto dest!: storable_name simp: config_path_plain)

lemma glob_mem:
  "q \<in> set (fs_glob_suffix fs dir ''.json'') \<longleftrightarrow>
     length q = Suc (length dir) \<and> under dir q \<and> py_endswith (path_name q) ''.json'' \<and> dhas fs q"
  by (auto simp: fs_glob_suffix_def dhas_keys)

lemma config_path_glob:
  "storable c \<Longrightarrow> config_path env dir (ic_name c) \<in> set (fs_glob_suffix fs dir ''.json'') \<longleftrightarrow>
     dhas fs (config_path env dir (ic_name c))"
  by (auto dest!: storable_name simp: glob_mem config_path_plain under_def path_name_def py_endswith_iff)

section \<open>The directory mirrors the configurations\<close>

definition mirrors :: "config_env \<Rightarrow> config_manager \<Rightarrow> bool" where
  "mirrors env s \<longleftrightarrow> dirs_to (cm_fs s) (cm_dir s) \<and>
     (\<forall>q\<in>set (fs_glob_suffix (cm_fs s) (cm_dir s) ''.json''). \<exists>c. storable c \<and>
        q = config_path env (cm_dir s) (ic_name c) \<and> read_config (cm_fs s) q = Inr c \<and>
        dget (cm_configs s) (ic_name c) = Some c) \<and>
     (\<forall>k c. dget (cm_configs s) k = Some c \<longrightarrow> storable c \<and> k = ic_name c \<and>
        dhas (cm_fs s) (config_path env (cm_dir s) k))"

lemma mirrorsD:
  assumes "mirrors env s"
  shows "dirs_to (cm_fs s) (cm_dir s)"
    "q \<in> set (fs_glob_suffix (cm_fs s) (cm_dir s) ''.json'') \<Longrightarrow> \<exists>c. storable c \<and>
        q = config_path env (cm_dir s) (ic_name c) \<and> read_config (cm_fs s) q = Inr c \<and>
        dget (cm_configs s) (ic_name c) = Some c"
    "dget (cm_configs s) k = Some c \<Longrightarrow> storable c \<and> k = ic_name c \<and>
        dhas (cm_fs s) (config_path env (cm_dir s) k)"
  using assms unfolding mirrors_def by blast+

lemma read_config_cong: "fs_node fs q = fs_node fs' q \<Longrightarrow> read_config fs q = read_config fs' q"
  by (simp add: read_config_def fs_read_def)

lemma read_config_dir: "fs_is_dir fs q \<Longrightarrow> \<exists>e. read_config fs q = Inl e"
  by (simp add: read_config_def fs_read_def fs_is_dir_def)

lemma dirs_to_cong:
  "dirs_to fs d \<Longrightarrow> (\<And>q. length q \<le> length d \<Longrightarrow> fs_node fs' q = fs_node fs q) \<Longrightarrow> dirs_to fs' d"
  by (simp add: dirs_to_def fs_is_dir_def)

text \<open>No directory stands where a configuration is kept.\<close>

lemma config_file_no_dir:
  assumes "mirrors env s" and "CHR ''/'' \<notin> set n"
  shows "\<not> fs_is_dir (cm_fs s) (config_path env (cm_dir s) (VStr n))"
proof
  let ?p = "config_path env (cm_dir s) (VStr n)"
  assume d: "fs_is_dir (cm_fs s) ?p"
  then have "?p \<in> set (fs_glob_suffix (cm_fs s) (cm_dir s) ''.json'')"
    using assms(2)
    by (simp add: glob_mem config_path_plain under_def path_name_def py_endswith_iff fs_is_dir_def fs_node_def dhas_def)
  from mirrorsD(2) [OF assms(1) this] read_config_dir [OF d] show False by auto
qed

text \<open>What a save of a storable configuration does\<close>

lemma save_storable:
  assumes "mirrors env s" and "storable c" and "cm_save_config env c s = (r, s')"
  shows "r = Inr () \<and> cm_dir s' = cm_dir s \<and> cm_configs s' = dset (ic_name c) c (cm_configs s) \<and>
    (\<exists>j. deserialize_config j = Inr c \<and> (\<forall>q. fs_node (cm_fs s') q =
       (if q = config_path env (cm_dir s) (ic_name c) then Some (File (JsonText j)) else fs_node (cm_fs s) q))) \<and>
    (\<forall>q. dhas (cm_fs s') q \<longleftrightarrow> q = config_path env (cm_dir s) (ic_name c) \<or> dhas (cm_fs s) q)"
proof -
  let ?p = "config_path env (cm_dir s) (ic_name c)"
  obtain n where n: "ic_name c = VStr n" "CHR ''/'' \<notin> set n" using storable_name [OF assms(2)] by blast
  then have p: "?p = cm_dir s @ [n @ ''.json'']" by (simp add: config_path_plain)
  have "fs_is_dir (cm_fs s) (butlast ?p)"
    using mirrorsD(1) [OF assms(1)] unfolding p by (auto simp: dirs_to_def dest: spec [of _ "length (cm_dir s)"])
  with config_file_no_dir [OF assms(1) n(2)]
  have w: "fs_write ?p (Text []) (cm_fs s) = Inr (dset ?p (File (Text [])) (cm_fs s))"
    by (simp add: fs_write_def n(1))
  obtain j where j: "serialize_config c = Inr j" "canonical j" "deserialize_config j = Inr c"
    using config_json_roundtrip [OF assms(2)] by blast
  have ne: "?p \<noteq> []" by (simp add: p)
  have "cm_save_config env c s = (Inr (), s\<lparr>cm_fs := dset ?p (File (JsonText j)) (dset ?p (File (Text [])) (cm_fs s)),
      cm_configs := dset (ic_name c) c (cm_configs s)\<rparr>)"
    unfolding cm_save_config_def Let_def w by (simp add: j(1) json_dumps_canonical [OF j(2)] n(1))
  with assms(3) have r: "r = Inr ()" and s': "s' = s\<lparr>cm_fs := dset ?p (File (JsonText j)) (dset ?p (File (Text [])) (cm_fs s)),
      cm_configs := dset (ic_name c) c (cm_configs s)\<rparr>" by simp_all
  have "\<forall>q. fs_node (cm_fs s') q = (if q = ?p then Some (File (JsonText j)) else fs_node (cm_fs s) q)"
    by (simp add: s' fs_node_set [OF ne])
  moreover have "\<forall>q. dhas (cm_fs s') q \<longleftrightarrow> q = ?p \<or> dhas (cm_fs s) q"
    by (auto simp: s' dhas_dset)
  ultimately show ?thesis using j(3) by (simp add: r s')
qed

lemma save_mirrors:
  assumes "mirrors env s" and "storable c" and "cm_save_config env c s = (r, s')"
  shows "mirrors env s'"
proof -
  let ?p = "config_path env (cm_dir s) (ic_name c)"
  note eff = save_storable [OF assms]
  then have dir: "cm_dir s' = cm_dir s" and cfg: "cm_configs s' = dset (ic_name c) c (cm_configs s)"
    and keys: "\<And>q. dhas (cm_fs s') q \<longleftrightarrow> q = ?p \<or> dhas (cm_fs s) q" by blast+
  from eff obtain j where j: "deserialize_config j = Inr c"
    and node: "\<And>q. fs_node (cm_fs s') q = (if q = ?p then Some (File (JsonText j)) else fs_node (cm_fs s) q)" by blast
  have read: "read_config (cm_fs s') q = (if q = ?p then Inr c else read_config (cm_fs s) q)" for q
    by (simp add: node read_config_def fs_read_def json_loads_def j)
  have "\<exists>n. ?p = cm_dir s @ [n]" using storable_name [OF assms(2)] by (auto simp: config_path_plain)
  then have "dirs_to (cm_fs s') (cm_dir s)"
    by (intro dirs_to_cong [OF mirrorsD(1) [OF assms(1)]]) (auto simp: node)
  moreover have "\<exists>c'. storable c' \<and> q = config_path env (cm_dir s) (ic_name c') \<and>
      read_config (cm_fs s') q = Inr c' \<and> dget (cm_configs s') (ic_name c') = Some c'"
    if q: "q \<in> set (fs_glob_suffix (cm_fs s') (cm_dir s) ''.json'')" for q
  proof (cases "q = ?p")
    case True
    with assms(2) show ?thesis by (intro exI [of _ c]) (simp add: read cfg dget_dset)
  next
    case False
    with q have "q \<in> set (fs_glob_suffix (cm_fs s) (cm_dir s) ''.json'')" by (simp add: glob_mem keys)
    from mirrorsD(2) [OF assms(1) this] obtain c' where c': "storable c'" "q = config_path env (cm_dir s) (ic_name c')"
      "read_config (cm_fs s) q = Inr c'" "dget (cm_configs s) (ic_name c') = Some c'" by blast
    with False have "ic_name c' \<noteq> ic_name c" by auto
    with c' False show ?thesis by (intro exI [of _ c']) (simp add: read cfg dget_dset)
  qed
  moreover have "storable c' \<and> k = ic_name c' \<and> dhas (cm_fs s') (config_path env (cm_dir s) k)"
    if "dget (cm_configs s') k = Some c'" for k c'
    using that mirrorsD(3) [OF assms(1), of k c'] assms(2) by (auto simp: cfg dget_dset keys split: if_splits)
  ultimately show ?thesis by (simp add: mirrors_def dir)
qed

lemma delete_effect:
  assumes "mirrors env s" and "CHR ''/'' \<notin> set n" and "cm_delete_config env n s = (r, s')"
  shows "r = Inr () \<and> cm_dir s' = cm_dir s \<and> dget (cm_configs s') = (dget (cm_configs s))(VStr n := None) \<and>
    (\<forall>q. fs_node (cm_fs s') q = (if q = config_path env (cm_dir s) (VStr n) then None else fs_node (cm_fs s) q)) \<and>
    (\<forall>q. dhas (cm_fs s') q \<longleftrightarrow> q \<noteq> config_path env (cm_dir s) (VStr n) \<and> dhas (cm_fs s) q)"
proof -
  let ?p = "config_path env (cm_dir s) (VStr n)"
  have ne: "?p \<noteq> []" using assms(2) by (simp add: config_path_plain)
  note nd = config_file_no_dir [OF assms(1,2)]
  show ?thesis
  proof (cases "fs_exists (cm_fs s) ?p")
    case True
    with nd assms(3) have "r = Inr ()" "s' = s\<lparr>cm_fs := fs_unlink ?p (cm_fs s), cm_configs := ddel (VStr n) (cm_configs s)\<rparr>"
      by (auto simp: cm_delete_config_def Let_def)
    then show ?thesis
      by (simp add: fs_node_unlink [OF ne]) (simp add: dget_ddel fs_unlink_def dhas_ddel)
  next
    case False
    then have k: "fs_node (cm_fs s) ?p = None" "\<not> dhas (cm_fs s) ?p"
      by (simp_all add: fs_exists_def fs_node_def ne dhas_def)
    then have "dget (cm_configs s) (VStr n) = None"
      using mirrorsD(3) [OF assms(1), of "VStr n"] by (cases "dget (cm_configs s) (VStr n)") auto
    then have "dget (cm_configs s) = (dget (cm_configs s))(VStr n := None)" by (simp add: fun_upd_idem)
    moreover from nd False assms(3) have "r = Inr ()" "s' = s" by (auto simp: cm_delete_config_def Let_def)
    ultimately show ?thesis using k by auto
  qed
qed

lemma delete_mirrors:
  assumes "mirrors env s" and "CHR ''/'' \<notin> set n" and "cm_delete_config env n s = (r, s')"
  shows "mirrors env s'"
proof -
  let ?p = "config_path env (cm_dir s) (VStr n)"
  note eff = delete_effect [OF assms]
  then have dir: "cm_dir s' = cm_dir s" and cfg: "dget (cm_configs s') = (dget (cm_configs s))(VStr n := None)"
    and node: "\<And>q. fs_node (cm_fs s') q = (if q = ?p then None else fs_node (cm_fs s) q)"
    and keys: "\<And>q. dhas (cm_fs s') q \<longleftrightarrow> q \<noteq> ?p \<and> dhas (cm_fs s) q" by blast+
  have "?p = cm_dir s @ [n @ ''.json'']" using assms(2) by (simp add: config_path_plain)
  then have "dirs_to (cm_fs s') (cm_dir s)"
    by (intro dirs_to_cong [OF mirrorsD(1) [OF assms(1)]]) (auto simp: node)
  moreover have "\<exists>c'. storable c' \<and> q = config_path env (cm_dir s) (ic_name c') \<and>
      read_config (cm_fs s') q = Inr c' \<and> dget (cm_configs s') (ic_name c') = Some c'"
    if q: "q \<in> set (fs_glob_suffix (cm_fs s') (cm_dir s) ''.json'')" for q
  proof -
    from q have ne: "q \<noteq> ?p" and "q \<in> set (fs_glob_suffix (cm_fs s) (cm_dir s) ''.json'')"
      by (simp_all add: glob_mem keys)
    from mirrorsD(2) [OF assms(1) this(2)] obtain c' where c': "storable c'" "q = config_path env (cm_dir s) (ic_name c')"
      "read_config (cm_fs s) q = Inr c'" "dget (cm_configs s) (ic_name c') = Some c'" by blast
    with ne have "ic_name c' \<noteq> VStr n" by auto
    moreover have "read_config (cm_fs s') q = read_config (cm_fs s) q" using ne by (intro read_config_cong) (simp add: node)
    ultimately show ?thesis using c' by (intro exI [of _ c']) (simp add: cfg)
  qed
  moreover have "storable c' \<and> k = ic_name c' \<and> dhas (cm_fs s') (config_path env (cm_dir s) k)"
    if "dget (cm_configs s') k = Some c'" for k c'
  proof -
    from that have kn: "k \<noteq> VStr n" "dget (cm_configs s) k = Some c'" by (auto simp: cfg split: if_splits)
    note k = mirrorsD(3) [OF assms(1) kn(2)]
    obtain m where "k = VStr m" "CHR ''/'' \<notin> set m" using k storable_name by blast
    with kn(1) assms(2) have "config_path env (cm_dir s) k \<noteq> ?p" by (simp add: config_path_plain)
    with k show ?thesis unfolding keys by blast
  qed
  ultimately show ?thesis by (simp add: mirrors_def dir)
qed

section \<open>Runs and restarts\<close>

datatype config_op = SaveConfig infra_config | DeleteConfig string

fun config_step :: "config_env \<Rightarrow> config_op \<Rightarrow> config_manager \<Rightarrow> config_manager" where
  "config_step env (SaveConfig c) s = snd (cm_save_config env c s)"
| "config_step env (DeleteConfig n) s = snd (cm_delete_config env n s)"

fun map_step :: "config_op \<Rightarrow> (pyval \<Rightarrow> infra_config option) \<Rightarrow> pyval \<Rightarrow> infra_config option" where
  "map_step (SaveConfig c) m = m(ic_name c \<mapsto> c)"
| "map_step (DeleteConfig n) m = m(VStr n := None)"

fun op_ok :: "config_op \<Rightarrow> bool" where
  "op_ok (SaveConfig c) = storable c"
| "op_ok (DeleteConfig n) = (CHR ''/'' \<notin> set n)"

lemma config_step_sim:
  assumes "mirrors env s" and "op_ok e"
  shows "mirrors env (config_step env e s) \<and>
    dget (cm_configs (config_step env e s)) = map_step e (dget (cm_configs s)) \<and>
    cm_dir (config_step env e s) = cm_dir s"
proof (cases e)
  case (SaveConfig c)
  obtain r s' where r: "cm_save_config env c s = (r, s')" by (metis surj_pair)
  with SaveConfig assms save_mirrors [OF _ _ r] save_storable [OF _ _ r] show ?thesis by (simp add: dget_dset)
next
  case (DeleteConfig n)
  obtain r s' where r: "cm_delete_config env n s = (r, s')" by (metis surj_pair)
  with DeleteConfig assms delete_mirrors [OF _ _ r] delete_effect [OF _ _ r] show ?thesis by simp
qed

interpretation configs: simulation "config_step env" map_step "\<lambda>s. dget (cm_configs s)" "mirrors env" op_ok
  by unfold_locales (simp_all add: config_step_sim)

lemma config_run_dir:
  "mirrors env s \<Longrightarrow> list_all op_ok es \<Longrightarrow> cm_dir (fold (config_step env) es s) = cm_dir s"
  by (induction es arbitrary: s) (simp_all add: config_step_sim)

text \<open>Loading files whose contents all agree with a map gives that map.\<close>

lemma load_files:
  assumes "\<forall>q\<in>set qs. \<exists>c. read_config fs q = Inr c \<and> hashable (ic_name c) \<and> m (ic_name c) = Some c"
    and "cm_fs s = fs" and "dget (cm_configs s) \<subseteq>\<^sub>m m"
  shows "cm_fs (fold load_config_file qs s) = fs \<and> cm_dir (fold load_config_file qs s) = cm_dir s \<and>
    dget (cm_configs s) \<subseteq>\<^sub>m dget (cm_configs (fold load_config_file qs s)) \<and>
    dget (cm_configs (fold load_config_file qs s)) \<subseteq>\<^sub>m m \<and>
    (\<forall>q\<in>set qs. \<forall>c. read_config fs q = Inr c \<longrightarrow>
       dget (cm_configs (fold load_config_file qs s)) (ic_name c) = Some c)"
  using assms
proof (induction qs arbitrary: s)
  case Nil
  then show ?case by simp
next
  case (Cons q qs)
  then obtain c where c: "read_config fs q = Inr c" "hashable (ic_name c)" "m (ic_name c) = Some c" by auto
  let ?s = "s\<lparr>cm_configs := dset (ic_name c) c (cm_configs s)\<rparr>"
  have l: "load_config_file q s = ?s" using c Cons.prems(2) by (simp add: load_config_file_def)
  have sub: "dget (cm_configs ?s) \<subseteq>\<^sub>m m" using Cons.prems(3) c(3) by (simp add: dget_dset map_le_def)
  have up: "dget (cm_configs s) \<subseteq>\<^sub>m dget (cm_configs ?s)"
    using Cons.prems(3) c(3) by (auto simp: dget_dset map_le_def dom_def)
  define t where "t = fold load_config_file qs ?s"
  have "cm_fs ?s = fs" "\<forall>q\<in>set qs. \<exists>c. read_config fs q = Inr c \<and> hashable (ic_name c) \<and> m (ic_name c) = Some c"
    using Cons.prems by simp_all
  note IH = Cons.IH [OF this(2) this(1) sub, folded t_def]
  then have ih: "cm_fs t = fs" "cm_dir t = cm_dir s" "dget (cm_configs ?s) \<subseteq>\<^sub>m dget (cm_configs t)"
    "dget (cm_configs t) \<subseteq>\<^sub>m m" by simp_all
  have "dget (cm_configs t) (ic_name c) = Some c"
    using ih(3) [unfolded map_le_def, rule_format, of "ic_name c"] by (simp add: dget_dset dom_def)
  with IH c(1) have "\<forall>r\<in>set (q # qs). \<forall>c. read_config fs r = Inr c \<longrightarrow> dget (cm_configs t) (ic_name c) = Some c"
    by auto
  moreover have "dget (cm_configs s) \<subseteq>\<^sub>m dget (cm_configs t)" using up ih(3) by (rule map_le_trans)
  moreover have "fold load_config_file (q # qs) s = t" by (simp add: l t_def)
  ultimately show ?case using ih by simp
qed

lemma restart_same:
  assumes "mirrors env s"
  shows "\<exists>s'. new_config_manager (cm_dir s) (cm_fs s) = Inr s' \<and> dget (cm_configs s') = dget (cm_configs s)"
proof -
  let ?s0 = "\<lparr>cm_dir = cm_dir s, cm_configs = [], cm_fs = cm_fs s\<rparr>"
  let ?qs = "fs_glob_suffix (cm_fs s) (cm_dir s) ''.json''"
  let ?s1 = "fold load_config_file ?qs ?s0"
  have "\<forall>q\<in>set ?qs. \<exists>c. read_config (cm_fs s) q = Inr c \<and> hashable (ic_name c) \<and> dget (cm_configs s) (ic_name c) = Some c"
  proof
    fix q assume "q \<in> set ?qs"
    from mirrorsD(2) [OF assms this] obtain c where c: "storable c" "read_config (cm_fs s) q = Inr c"
      "dget (cm_configs s) (ic_name c) = Some c" by blast
    moreover have "hashable (ic_name c)" using storable_name [OF c(1)] by auto
    ultimately show "\<exists>c. read_config (cm_fs s) q = Inr c \<and> hashable (ic_name c) \<and> dget (cm_configs s) (ic_name c) = Some c"
      by blast
  qed
  then have *: "dget (cm_configs ?s1) \<subseteq>\<^sub>m dget (cm_configs s)"
    "\<And>q c. q \<in> set ?qs \<Longrightarrow> read_config (cm_fs s) q = Inr c \<Longrightarrow> dget (cm_configs ?s1) (ic_name c) = Some c"
    using load_files [of ?qs "cm_fs s" "dget (cm_configs s)" ?s0] by (auto simp: map_le_def)
  have "dget (cm_configs s) \<subseteq>\<^sub>m dget (cm_configs ?s1)"
    unfolding map_le_def
  proof
    fix k assume "k \<in> dom (dget (cm_configs s))"
    then obtain c where c: "dget (cm_configs s) k = Some c" by blast
    note k = mirrorsD(3) [OF assms c]
    then have q: "config_path env (cm_dir s) (ic_name c) \<in> set ?qs" using config_path_glob by blast
    from mirrorsD(2) [OF assms q] obtain c' where c': "storable c'"
      "config_path env (cm_dir s) (ic_name c) = config_path env (cm_dir s) (ic_name c')"
      "read_config (cm_fs s) (config_path env (cm_dir s) (ic_name c)) = Inr c'"
      "dget (cm_configs s) (ic_name c') = Some c'" by blast
    have "ic_name c' = ic_name c" using config_path_inj [OF _ c'(1)] k c'(2) by metis
    with c'(4) c k have "c' = c" by simp
    with *(2) [OF q c'(3)] c k show "dget (cm_configs s) k = dget (cm_configs ?s1) k" by simp
  qed
  with *(1) have "dget (cm_configs ?s1) = dget (cm_configs s)" by (rule map_le_antisym)
  then show ?thesis
    by (simp add: new_config_manager_def fs_mkdirs_again [OF mirrorsD(1) [OF assms]] load_all_configs_def)
qed

lemma fresh_mirrors:
  assumes "new_config_manager dir fs = Inr s" and "fs_glob_suffix (cm_fs s) dir ''.json'' = []"
  shows "mirrors env s \<and> cm_configs s = [] \<and> cm_dir s = dir"
proof -
  from assms(1) obtain fs1 where fs1: "fs_mkdirs dir fs = Inr fs1"
    and s: "s = load_all_configs \<lparr>cm_dir = dir, cm_configs = [], cm_fs = fs1\<rparr>"
    by (auto simp: new_config_manager_def split: sum.splits)
  have one: "cm_fs (load_config_file q t) = cm_fs t" for q t
    by (auto simp: load_config_file_def split: sum.split)
  have "cm_fs (fold load_config_file qs t) = cm_fs t" for qs t
    by (induction qs arbitrary: t) (simp_all add: one)
  then have "cm_fs s = fs1" by (simp add: s load_all_configs_def)
  with assms(2) have "s = \<lparr>cm_dir = dir, cm_configs = [], cm_fs = fs1\<rparr>" by (simp add: s load_all_configs_def)
  with assms(2) fs_mkdirs_dirs [OF fs1] show ?thesis by (simp add: mirrors_def)
qed

text \<open>C19: Started on a directory without configurations, after any saves of storable
  configurations and deletions by names without a slash, the manager holds exactly what the operations say, and a
  manager started again on the directory loads the same configurations, field by field.\<close>

theorem configurations_survive_restart:
  assumes "new_config_manager dir fs = Inr s0" and "fs_glob_suffix (cm_fs s0) dir ''.json'' = []"
    and "list_all op_ok es" and "s = fold (config_step env) es s0"
  shows "dget (cm_configs s) = fold map_step es Map.empty \<and>
    (\<exists>s'. new_config_manager dir (cm_fs s) = Inr s' \<and> dget (cm_configs s') = fold map_step es Map.empty)"
proof -
  note f = fresh_mirrors [OF assms(1,2), of env]
  then have m: "mirrors env s0" by blast
  note run = configs.sim_run [OF m assms(3), folded assms(4)] and dir = config_run_dir [OF m assms(3), folded assms(4)]
  from run f have d: "dget (cm_configs s) = fold map_step es Map.empty" by simp
  with restart_same [of env s] run dir f show ?thesis by auto
qed

definition demo_config_env :: config_env where
  "demo_config_env = \<lparr>cn_ask = (\<lambda>p. VNone), cn_str = (\<lambda>v. []), cn_float = (\<lambda>s. None)\<rparr>"

definition demo_config :: "string \<Rightarrow> infra_config" where
  "demo_config n = \<lparr>ic_name = VStr n, ic_type = IT_HYBRID, ic_provider = PT_AWS, ic_gpu_types = [GT_A100],
     ic_region = VStr ''us-east-1'', ic_gpu_timer = Parsed GPUTimerConfig, ic_auto_detector = Parsed AutoDetectorConfig,
     ic_compute_budget_monthly = VFloat 500, ic_enable_caching = VBool True, ic_max_workers = VInt 8,
     ic_metadata = VDict []\<rparr>"

lemma demo_storable: "CHR ''/'' \<notin> set n \<Longrightarrow> storable (demo_config n)"
  by (simp add: storable_def demo_config_def timer_dict_def detector_dict_def GPUTimerConfig_def AutoDetectorConfig_def
      str_dict_def)

theorem configurations_survive_restart_witness:
  "\<exists>s0 s'. new_config_manager [''c''] [] = Inr s0 \<and>
     new_config_manager [''c''] (cm_fs (fold (config_step demo_config_env)
       [SaveConfig (demo_config ''a''), SaveConfig (demo_config ''b''), DeleteConfig ''a''] s0)) = Inr s' \<and>
     dget (cm_configs s') (VStr ''b'') = Some (demo_config ''b'') \<and> dget (cm_configs s') (VStr ''a'') = None"
proof -
  let ?es = "[SaveConfig (demo_config ''a''), SaveConfig (demo_config ''b''), DeleteConfig ''a'']"
  let ?s0 = "\<lparr>cm_dir = [''c''], cm_configs = [], cm_fs = [([''c''], Dir)]\<rparr>"
  have s0: "new_config_manager [''c''] [] = Inr ?s0"
    by (simp add: new_config_manager_def fs_mkdirs_def fs_node_def load_all_configs_def fs_glob_suffix_def)
  have e: "fs_glob_suffix (cm_fs ?s0) [''c''] ''.json'' = []" by (simp add: fs_glob_suffix_def)
  have ok: "list_all op_ok ?es" using demo_storable by simp
  have m: "fold map_step ?es Map.empty (VStr ''b'') = Some (demo_config ''b'')" "fold map_step ?es Map.empty (VStr ''a'') = None"
    by (simp_all add: demo_config_def)
  from configurations_survive_restart [OF s0 e ok refl, of demo_config_env] s0 m show ?thesis by (metis (no_types))
qed

section \<open>The dialogue's outcome\<close>

lemma chosen_Inr: "chosen e table v = Inr x \<Longrightarrow> \<exists>k. (k, x) \<in> set table"
  by (auto simp: chosen_def split: pyval.splits option.splits dest: map_of_SomeD)

lemma ask_config_facts:
  assumes "ask_config env name = Inr c"
  shows "ic_name c = name \<and> ic_gpu_timer c = Parsed (ask_timer env) \<and> ic_metadata c = VDict [] \<and>
    (ic_type c = IT_BARE_METAL \<longleftrightarrow> ic_provider c = PT_LOCAL) \<and>
    (ic_type c = IT_BARE_METAL \<longrightarrow> ic_gpu_types c = []) \<and>
    (\<exists>r. ic_region c = VStr r \<and> r \<in> set (map snd REGION_CHOICES))"
proof -
  from assms obtain ty pr gpus region det budget workers where
    p: "ask_provider env ty = Inr pr" and g: "ask_gpus env ty = Inr gpus"
    and r: "chosen (KeyError ''None'') REGION_CHOICES (cn_ask env ''Deployment region:'') = Inr region"
    and c: "c = \<lparr>ic_name = name, ic_type = ty, ic_provider = pr, ic_gpu_types = gpus, ic_region = VStr region,
         ic_gpu_timer = Parsed (ask_timer env), ic_auto_detector = Parsed det,
         ic_compute_budget_monthly = budget, ic_enable_caching = VBool True, ic_max_workers = workers,
         ic_metadata = VDict []\<rparr>"
    unfolding ask_config_def by (auto simp: bind_result_def split: sum.splits)
  have "ty = IT_BARE_METAL \<longleftrightarrow> pr = PT_LOCAL"
    using p by (auto simp: ask_provider_def PROVIDER_CHOICES_def dest!: chosen_Inr split: if_splits)
  moreover have "ty = IT_BARE_METAL \<longrightarrow> gpus = []" using g by (auto simp: ask_gpus_def)
  moreover have "region \<in> set (map snd REGION_CHOICES)" using chosen_Inr [OF r] by force
  ultimately show ?thesis by (simp add: c)
qed

lemma save_effect:
  assumes "cm_save_config env c s = (Inr u, s')"
  shows "dget (cm_configs s') = (dget (cm_configs s))(ic_name c \<mapsto> c) \<and>
    (\<exists>j. bind_result (serialize_config c) (json_dumps (cn_str env)) = Inr j \<and>
       fs_read (cm_fs s') (config_path env (cm_dir s) (ic_name c)) = Inr j)"
proof -
  let ?p = "config_path env (cm_dir s) (ic_name c)"
  from assms obtain fs1 j where w: "fs_write ?p (Text []) (cm_fs s) = Inr fs1"
    and j: "bind_result (serialize_config c) (json_dumps (cn_str env)) = Inr j"
    and s': "s' = s\<lparr>cm_fs := dset ?p (File j) fs1, cm_configs := dset (ic_name c) c (cm_configs s)\<rparr>"
    by (auto simp: cm_save_config_def Let_def split: sum.splits if_splits)
  have "?p \<noteq> []" using w by (auto simp: fs_write_def fs_is_dir_def fs_node_def)
  with j s' show ?thesis by (simp add: dget_dset fs_read_def fs_node_set)
qed

text \<open>Whatever is answered, a configuration made by the dialogue is on disk as it is in memory and no
  other name changed; bare metal means exactly the local provider, and no GPUs. Refusing to
  overwrite an existing name changes nothing.\<close>

theorem create_stores_a_consistent_config:
  assumes "interactive_create env s = (Inr result, s')"
  shows "(case result of
      None \<Rightarrow> s' = s \<and> dhas (cm_configs s) (cn_ask env ''Enter a name for this configuration:'')
    | Some c \<Rightarrow> ic_name c = cn_ask env ''Enter a name for this configuration:'' \<and>
        dget (cm_configs s') = (dget (cm_configs s))(ic_name c \<mapsto> c) \<and>
        (\<exists>j. bind_result (serialize_config c) (json_dumps (cn_str env)) = Inr j \<and>
          fs_read (cm_fs s') (config_path env (cm_dir s) (ic_name c)) = Inr j) \<and>
        (ic_type c = IT_BARE_METAL \<longleftrightarrow> ic_provider c = PT_LOCAL) \<and>
        (ic_type c = IT_BARE_METAL \<longrightarrow> ic_gpu_types c = []))"
proof (cases result)
  case None
  with assms show ?thesis
    by (auto simp: interactive_create_def Let_def split: if_splits sum.splits prod.splits)
next
  case (Some c)
  with assms obtain u where "ask_config env (cn_ask env ''Enter a name for this configuration:'') = Inr c"
    "cm_save_config env c s = (Inr u, s')"
    by (auto simp: interactive_create_def Let_def split: if_splits sum.splits prod.splits)
  from ask_config_facts [OF this(1)] save_effect [OF this(2)] show ?thesis by (simp add: Some)
qed

definition demo_answers :: config_env where
  "demo_answers = \<lparr>cn_ask = (\<lambda>p.
       if p = ''Enter a name for this configuration:'' then VStr ''lab''
       else if p = ''Infrastructure type:'' then VStr ''Bare Metal (Local/On-premises)''
       else if p = ''Deployment region:'' then VStr ''us-west-2 (Oregon)''
       else if p = ''Monthly compute budget (USD) [default: 500]:'' then VStr ''500''
       else if p = ''Maximum parallel workers [default: 8]:'' then VStr ''8''
       else VBool False),
     cn_str = (\<lambda>v. ''500.0''), cn_float = (\<lambda>s. if s = ''500'' then Some 500 else None)\<rparr>"

lemma demo_eight: "py_int ''8'' = Some 8"
  by (simp add: py_int_def parse_nat_def py_strip_def is_space_def digit_val_def is_digit_def)

theorem create_stores_a_consistent_config_witness:
  "\<exists>c s'. interactive_create demo_answers \<lparr>cm_dir = [''c''], cm_configs = [], cm_fs = [([''c''], Dir)]\<rparr> = (Inr (Some c), s') \<and>
     dget (cm_configs s') (VStr ''lab'') = Some c \<and> ic_type c = IT_BARE_METAL \<and> ic_provider c = PT_LOCAL"
proof -
  let ?s = "\<lparr>cm_dir = [''c''], cm_configs = [], cm_fs = [([''c''], Dir)]\<rparr>"
  let ?c = "\<lparr>ic_name = VStr ''lab'', ic_type = IT_BARE_METAL, ic_provider = PT_LOCAL, ic_gpu_types = [],
     ic_region = VStr ''us-west-2'', ic_gpu_timer = Parsed GPUTimerConfig, ic_auto_detector = Parsed AutoDetectorConfig,
     ic_compute_budget_monthly = VFloat 500, ic_enable_caching = VBool True, ic_max_workers = VInt 8,
     ic_metadata = VDict []\<rparr>"
  have ask: "ask_config demo_answers (VStr ''lab'') = Inr ?c"
    by (simp add: ask_config_def ask_infra_type_def ask_provider_def ask_gpus_def ask_timer_def ask_detector_def
        chosen_def INFRA_CHOICES_def REGION_CHOICES_def float_answer_def int_answer_def demo_answers_def demo_eight
        GPUTimerConfig_def AutoDetectorConfig_def Let_def)
  have "storable ?c"
    by (simp add: storable_def timer_dict_def detector_dict_def GPUTimerConfig_def AutoDetectorConfig_def str_dict_def)
  moreover have "mirrors demo_answers ?s"
    by (auto simp: mirrors_def dirs_to_def fs_is_dir_def fs_node_def fs_glob_suffix_def le_Suc_eq)
  moreover obtain r s' where rs: "cm_save_config demo_answers ?c ?s = (r, s')" by (metis surj_pair)
  ultimately have sv: "cm_save_config demo_answers ?c ?s = (Inr (), s')" using save_storable [OF _ _ rs] by blast
  have "\<exists>out. config_summary demo_answers ?c = Inr out"
    by (simp add: config_summary_def timer_lines_def detector_lines_def)
  then obtain out where "config_summary demo_answers ?c = Inr out" by blast
  moreover have n: "cn_ask demo_answers ''Enter a name for this configuration:'' = VStr ''lab''"
    by (simp add: demo_answers_def)
  ultimately have r: "interactive_create demo_answers ?s = (Inr (Some ?c), s')"
    unfolding interactive_create_def Let_def n ask by (simp add: dhas_def sv)
  from create_stores_a_consistent_config [OF this]
  have "dget (cm_configs s') = (dget (cm_configs ?s))(VStr ''lab'' \<mapsto> ?c)" by simp
  with r show ?thesis by (intro exI [of _ ?c] exI [of _ s']) simp
qed

text \<open>A file whose \<open>gpu_timer\<close> is the empty object loads, but its entry never becomes an object of the class;
  changing anything of it empties the file and raises, and the configuration is gone at
  the next start.\<close>

lemma empty_section_stays_raw: "nested_of timer_of GPUTimerConfig (VDict []) = Inr (Raw (VDict []))"
  by (simp add: nested_of_def)

lemma raw_section_destroys_the_file:
  assumes "dget (cm_configs s) name = Some c" and "ic_gpu_timer c = Raw v"
    and "cn_ask env ''What would you like to modify?'' = VStr ''Region''"
    and "fs_is_dir (cm_fs s) (butlast p)" and "\<not> fs_is_dir (cm_fs s) p" and "p = config_path env (cm_dir s) (ic_name c)"
  shows "\<exists>e s'. interactive_modify env name s = (Inl e, s') \<and> fs_read (cm_fs s') p = Inr (Text [])"
proof -
  have "p \<noteq> []" using assms(5) by (auto simp: fs_is_dir_def fs_node_def)
  with assms show ?thesis
    by (simp add: interactive_modify_def apply_choice_def cm_save_config_def Let_def fs_write_def
        serialize_config_def fs_read_def fs_node_set)
qed

text \<open>A name that is an absolute path leaves the directory, so the configuration is not found again.\<close>

lemma absolute_name_escapes: "config_path env dir (VStr ''/tmp/x'') = [''tmp'', ''x.json'']"
  by (simp add: config_path_def show_val_def path_join_def path_parts_def)

end
