(* ===== verification/ClientConfig.thy ===== *)
theory ClientConfig
  imports Cache Models PyText
begin

text \<open>
  \<open>client/config.py\<close>: the client's configuration in \<open>config.toml\<close>, its login in \<open>auth.json\<close>.
  Reading TOML is \<open>tomllib\<close>, a parameter; \<open>simple_toml\<close> is the part of TOML that \<open>_save_toml\<close>
  writes, and the only law assumed of the parameter is that it reads that part as TOML says.
\<close>

section \<open>The TOML written\<close>

abbreviation newline :: char where "newline \<equiv> CHR 0x0A"
abbreviation dquote :: char where "dquote \<equiv> CHR 0x22"

type_synonym sections = "(string \<times> (string \<times> pyval) list) list"

definition toml_entry :: "string \<times> pyval \<Rightarrow> string list" where
  "toml_entry kv = (case snd kv of
       VBool b \<Rightarrow> [fst kv @ '' = '' @ (if b then ''true'' else ''false'')]
     | VInt i \<Rightarrow> [fst kv @ '' = '' @ int_str i]
     | VStr s \<Rightarrow> [fst kv @ '' = '' @ dquote # s @ [dquote]]
     | _ \<Rightarrow> [])"

definition toml_section :: "string \<times> (string \<times> pyval) list \<Rightarrow> string list" where
  "toml_section sec = (CHR ''['' # fst sec @ '']'') # concat (map toml_entry (snd sec)) @ [[]]"

definition toml_text :: "sections \<Rightarrow> string" where
  "toml_text data = py_join [newline] (concat (map toml_section data))"

definition sections_dict :: "sections \<Rightarrow> pyval" where
  "sections_dict data = str_dict (map (\<lambda>(n, es). (n, str_dict es)) data)"

section \<open>Reading it\<close>

definition bare_char :: "char \<Rightarrow> bool" where
  "bare_char c = (let n = (of_char c :: nat) in
     65 \<le> n \<and> n \<le> 90 \<or> 97 \<le> n \<and> n \<le> 122 \<or> 48 \<le> n \<and> n \<le> 57 \<or> n = 45 \<or> n = 95)"

text \<open>The characters a basic string may hold without an escape\<close>

definition plain_char :: "char \<Rightarrow> bool" where
  "plain_char c = (let n = (of_char c :: nat) in (n = 9 \<or> 32 \<le> n) \<and> n \<noteq> 127 \<and> n \<noteq> 34 \<and> n \<noteq> 92)"

definition toml_value :: "string \<Rightarrow> pyval option" where
  "toml_value s =
     (if s = ''true'' then Some (VBool True)
      else if s = ''false'' then Some (VBool False)
      else if s \<noteq> [] \<and> hd s = dquote then
        (let body = butlast (tl s) in
         if tl s = body @ [dquote] \<and> list_all plain_char body then Some (VStr body) else None)
      else case py_int s of
          Some i \<Rightarrow> (if int_str i = s then Some (VInt i) else None)
        | None \<Rightarrow> None)"

definition toml_header :: "string \<Rightarrow> string option" where
  "toml_header l = (let n = takeWhile bare_char (tl l) in
     if n \<noteq> [] \<and> l = CHR ''['' # n @ '']'' then Some n else None)"

definition toml_assign :: "string \<Rightarrow> (string \<times> pyval) option" where
  "toml_assign l = (let k = takeWhile bare_char l; r = drop (length k) l in
     if k \<noteq> [] \<and> take 3 r = '' = '' then map_option (Pair k) (toml_value (drop 3 r)) else None)"

text \<open>The entries before the first header, and the sections after it\<close>

fun toml_body :: "string list \<Rightarrow> ((string \<times> pyval) list \<times> sections) option" where
  "toml_body [] = Some ([], [])"
| "toml_body (l # ls) = (case toml_body ls of
       None \<Rightarrow> None
     | Some (es, secs) \<Rightarrow>
         (if l = [] then Some (es, secs)
          else case toml_header l of
              Some n \<Rightarrow> Some ([], (n, es) # secs)
            | None \<Rightarrow> (case toml_assign l of Some e \<Rightarrow> Some (e # es, secs) | None \<Rightarrow> None)))"

definition simple_toml :: "string \<Rightarrow> pyval option" where
  "simple_toml t = (case toml_body (py_split newline t) of
       Some ([], secs) \<Rightarrow> (if distinct (map fst secs) \<and> list_all (\<lambda>(n, es). distinct (map fst es)) secs
         then Some (sections_dict secs) else None)
     | _ \<Rightarrow> None)"

section \<open>Configuration\<close>

record cloud_config =
  cc_api_url :: pyval
  cc_ws_url :: pyval
  cc_cdn_url :: pyval
  cc_timeout :: pyval
  cc_max_retries :: pyval

record cache_config =
  kc_max_size_mb :: pyval
  kc_wheel_ttl_days :: pyval
  kc_metadata_ttl_hours :: pyval
  kc_auto_cleanup :: pyval

record runtime_config =
  rc_prefer_local :: pyval
  rc_gpu_offload :: pyval
  rc_lazy_loading :: pyval
  rc_cloud_exec :: pyval
  rc_auto_sync :: pyval
  rc_import_hooks :: pyval
  rc_offline_mode :: pyval

record auth_config =
  au_token :: pyval
  au_refresh_token :: pyval
  au_device_id :: pyval
  au_user_id :: pyval

record cpip_config =
  cf_cloud :: cloud_config
  cf_cache :: cache_config
  cf_runtime :: runtime_config
  cf_auth :: auth_config

text \<open>
  The home directory, the environment variables as they were when \<open>shared/constants.py\<close> was
  imported and as they are now, and \<open>tomllib.loads\<close>.
\<close>

record home_env =
  he_home :: path
  he_import_env :: "string \<Rightarrow> string option"
  he_env :: "string \<Rightarrow> string option"
  he_toml :: "string \<Rightarrow> exn + pyval"

definition DEFAULT_API_URL :: "home_env \<Rightarrow> string" where
  "DEFAULT_API_URL env = env_or (he_import_env env) ''CPIP_API_URL'' ''http://localhost:8000''"

definition DEFAULT_WS_URL :: "home_env \<Rightarrow> string" where
  "DEFAULT_WS_URL env = env_or (he_import_env env) ''CPIP_WS_URL'' ''ws://localhost:8000/ws''"

definition DEFAULT_CDN_URL :: "home_env \<Rightarrow> string" where
  "DEFAULT_CDN_URL env = env_or (he_import_env env) ''CPIP_CDN_URL'' ''http://localhost:8000/cdn''"

definition CloudConfig :: "home_env \<Rightarrow> cloud_config" where
  "CloudConfig env = \<lparr>cc_api_url = VStr (DEFAULT_API_URL env), cc_ws_url = VStr (DEFAULT_WS_URL env),
     cc_cdn_url = VStr (DEFAULT_CDN_URL env), cc_timeout = VInt 30, cc_max_retries = VInt 3\<rparr>"

definition CacheConfig :: cache_config where
  "CacheConfig = \<lparr>kc_max_size_mb = VInt DEFAULT_CACHE_MAX_MB,
     kc_wheel_ttl_days = VInt DEFAULT_WHEEL_TTL_DAYS, kc_metadata_ttl_hours = VInt DEFAULT_METADATA_TTL_HOURS,
     kc_auto_cleanup = VBool True\<rparr>"

definition RuntimeConfig :: runtime_config where
  "RuntimeConfig = \<lparr>rc_prefer_local = VBool True, rc_gpu_offload = VBool True, rc_lazy_loading = VBool True,
     rc_cloud_exec = VBool True, rc_auto_sync = VBool True, rc_import_hooks = VBool True,
     rc_offline_mode = VBool False\<rparr>"

definition AuthConfig :: auth_config where
  "AuthConfig = \<lparr>au_token = VStr [], au_refresh_token = VStr [], au_device_id = VStr [], au_user_id = VStr []\<rparr>"

definition CpipConfig :: "home_env \<Rightarrow> cpip_config" where
  "CpipConfig env = \<lparr>cf_cloud = CloudConfig env, cf_cache = CacheConfig, cf_runtime = RuntimeConfig, cf_auth = AuthConfig\<rparr>"

definition cache_root :: "path \<Rightarrow> path" where "cache_root home = home @ [''cache'']"
definition log_dir :: "path \<Rightarrow> path" where "log_dir home = home @ [''logs'']"
definition venv_dir :: "path \<Rightarrow> path" where "venv_dir home = home @ [''envs'']"
definition config_file :: "path \<Rightarrow> path" where "config_file home = home @ [''config.toml'']"
definition auth_file :: "path \<Rightarrow> path" where "auth_file home = home @ [''auth.json'']"

section \<open>Loading\<close>

fun mkdir_all :: "path list \<Rightarrow> fs \<Rightarrow> exn + fs" where
  "mkdir_all [] fs = Inr fs"
| "mkdir_all (d # ds) fs = (case fs_mkdirs d fs of Inl e \<Rightarrow> Inl e | Inr fs' \<Rightarrow> mkdir_all ds fs')"

definition ensure_directories :: "path \<Rightarrow> fs \<Rightarrow> exn + fs" where
  "ensure_directories home = mkdir_all [home, cache_root home, wheels_dir home, layers_dir home,
     metadata_dir home, log_dir home, venv_dir home]"

definition load_toml :: "home_env \<Rightarrow> fs \<Rightarrow> (pyval \<times> pyval) list" where
  "load_toml env fs = (if \<not> fs_exists fs (config_file (he_home env)) then []
     else case fs_read fs (config_file (he_home env)) of
         Inr (Text t) \<Rightarrow> (case he_toml env t of Inr (VDict d) \<Rightarrow> d | _ \<Rightarrow> [])
       | _ \<Rightarrow> [])"

text \<open>\<open>if k in raw: update with raw[k]\<close>\<close>

definition with_section ::
  "(pyval \<times> pyval) list \<Rightarrow> string \<Rightarrow> (pyval \<Rightarrow> 'a \<Rightarrow> exn + 'a) \<Rightarrow> 'a \<Rightarrow> exn + 'a" where
  "with_section raw k f x = (case map_of raw (VStr k) of None \<Rightarrow> Inr x | Some v \<Rightarrow> f v x)"

definition apply_cloud :: "pyval \<Rightarrow> cloud_config \<Rightarrow> exn + cloud_config" where
  "apply_cloud cloud c =
     bind_result (py_get cloud ''api_url'' (cc_api_url c)) (\<lambda>a.
     bind_result (py_get cloud ''ws_url'' (cc_ws_url c)) (\<lambda>w.
     bind_result (py_get cloud ''cdn_url'' (cc_cdn_url c)) (\<lambda>d.
     bind_result (py_get cloud ''timeout'' (cc_timeout c)) (\<lambda>t.
       Inr (c\<lparr>cc_api_url := a, cc_ws_url := w, cc_cdn_url := d, cc_timeout := t\<rparr>)))))"

definition apply_cache :: "pyval \<Rightarrow> cache_config \<Rightarrow> exn + cache_config" where
  "apply_cache cache c =
     bind_result (py_get cache ''max_size_mb'' (kc_max_size_mb c)) (\<lambda>m.
     bind_result (py_get cache ''wheel_ttl_days'' (kc_wheel_ttl_days c)) (\<lambda>w.
       Inr (c\<lparr>kc_max_size_mb := m, kc_wheel_ttl_days := w\<rparr>)))"

definition apply_runtime :: "pyval \<Rightarrow> runtime_config \<Rightarrow> exn + runtime_config" where
  "apply_runtime rt c =
     bind_result (py_get rt ''prefer_local'' (rc_prefer_local c)) (\<lambda>p.
     bind_result (py_get rt ''gpu_offload'' (rc_gpu_offload c)) (\<lambda>g.
     bind_result (py_get rt ''lazy_loading'' (rc_lazy_loading c)) (\<lambda>l.
     bind_result (py_get rt ''cloud_exec'' (rc_cloud_exec c)) (\<lambda>x.
     bind_result (py_get rt ''offline_mode'' (rc_offline_mode c)) (\<lambda>off.
       Inr (c\<lparr>rc_prefer_local := p, rc_gpu_offload := g, rc_lazy_loading := l, rc_cloud_exec := x,
         rc_offline_mode := off\<rparr>))))))"

definition getenv_set :: "home_env \<Rightarrow> string \<Rightarrow> string option" where
  "getenv_set env k = (case he_env env k of Some v \<Rightarrow> (if v = [] then None else Some v) | None \<Rightarrow> None)"

definition override_cloud :: "home_env \<Rightarrow> cloud_config \<Rightarrow> cloud_config" where
  "override_cloud env c =
     (let c1 = (case getenv_set env ''CPIP_API_URL'' of Some u \<Rightarrow> c\<lparr>cc_api_url := VStr u\<rparr> | None \<Rightarrow> c) in
      case getenv_set env ''CPIP_WS_URL'' of Some u \<Rightarrow> c1\<lparr>cc_ws_url := VStr u\<rparr> | None \<Rightarrow> c1)"

definition override_runtime :: "home_env \<Rightarrow> runtime_config \<Rightarrow> runtime_config" where
  "override_runtime env c = (if getenv_set env ''CPIP_OFFLINE'' \<noteq> None then c\<lparr>rc_offline_mode := VBool True\<rparr> else c)"

text \<open>Any failure of reading the login is ignored.\<close>

definition load_auth :: "home_env \<Rightarrow> fs \<Rightarrow> auth_config" where
  "load_auth env fs = (if \<not> fs_exists fs (auth_file (he_home env)) then AuthConfig
     else case bind_result (fs_read fs (auth_file (he_home env))) json_loads of
         Inr (VDict d) \<Rightarrow> (let get = (\<lambda>k. case map_of d (VStr k) of Some v \<Rightarrow> v | None \<Rightarrow> VStr []) in
           \<lparr>au_token = get ''token'', au_refresh_token = get ''refresh_token'', au_device_id = get ''device_id'',
            au_user_id = get ''user_id''\<rparr>)
       | _ \<Rightarrow> AuthConfig)"

definition load_config :: "home_env \<Rightarrow> fs \<Rightarrow> exn + cpip_config \<times> fs" where
  "load_config env fs =
     (let raw = load_toml env fs in
      bind_result (with_section raw ''cloud'' apply_cloud (CloudConfig env)) (\<lambda>cloud.
      bind_result (with_section raw ''cache'' apply_cache CacheConfig) (\<lambda>cache.
      bind_result (with_section raw ''runtime'' apply_runtime RuntimeConfig) (\<lambda>rt.
      bind_result (ensure_directories (he_home env) fs) (\<lambda>fs'.
        Inr (\<lparr>cf_cloud = override_cloud env cloud, cf_cache = cache, cf_runtime = override_runtime env rt,
          cf_auth = load_auth env fs\<rparr>, fs'))))))"

section \<open>Saving\<close>

definition config_data :: "cpip_config \<Rightarrow> sections" where
  "config_data c =
     [(''cloud'', [(''api_url'', cc_api_url (cf_cloud c)), (''ws_url'', cc_ws_url (cf_cloud c)),
        (''cdn_url'', cc_cdn_url (cf_cloud c)), (''timeout'', cc_timeout (cf_cloud c))]),
      (''cache'', [(''max_size_mb'', kc_max_size_mb (cf_cache c)), (''wheel_ttl_days'', kc_wheel_ttl_days (cf_cache c)),
        (''auto_cleanup'', kc_auto_cleanup (cf_cache c))]),
      (''runtime'', [(''prefer_local'', rc_prefer_local (cf_runtime c)), (''gpu_offload'', rc_gpu_offload (cf_runtime c)),
        (''lazy_loading'', rc_lazy_loading (cf_runtime c)), (''cloud_exec'', rc_cloud_exec (cf_runtime c)),
        (''offline_mode'', rc_offline_mode (cf_runtime c))])]"

definition save_toml :: "path \<Rightarrow> sections \<Rightarrow> fs \<Rightarrow> exn + fs" where
  "save_toml p data fs = bind_result (fs_mkdirs (butlast p) fs) (fs_write p (Text (toml_text data)))"

definition save_config :: "home_env \<Rightarrow> cpip_config \<Rightarrow> fs \<Rightarrow> exn + fs" where
  "save_config env c fs = save_toml (config_file (he_home env)) (config_data c) fs"

definition auth_data :: "auth_config \<Rightarrow> pyval" where
  "auth_data a = str_dict [(''token'', au_token a), (''refresh_token'', au_refresh_token a),
     (''device_id'', au_device_id a), (''user_id'', au_user_id a)]"

definition save_auth :: "(pyval \<Rightarrow> string) \<Rightarrow> home_env \<Rightarrow> cpip_config \<Rightarrow> fs \<Rightarrow> exn + fs" where
  "save_auth str env c fs =
     bind_result (fs_mkdirs (he_home env) fs) (\<lambda>fs1.
     bind_result (json_dumps str (auth_data (cf_auth c))) (\<lambda>j. fs_write (auth_file (he_home env)) j fs1))"

section \<open>The TOML round trip\<close>

fun simple_value :: "pyval \<Rightarrow> bool" where
  "simple_value (VBool b) = True"
| "simple_value (VInt i) = True"
| "simple_value (VStr s) = list_all plain_char s"
| "simple_value v = False"

definition bare_key :: "string \<Rightarrow> bool" where
  "bare_key k \<longleftrightarrow> k \<noteq> [] \<and> list_all bare_char k"

definition simple_section :: "string \<times> (string \<times> pyval) list \<Rightarrow> bool" where
  "simple_section sec \<longleftrightarrow> bare_key (fst sec) \<and> distinct (map fst (snd sec)) \<and>
     list_all (\<lambda>kv. bare_key (fst kv) \<and> simple_value (snd kv)) (snd sec)"

definition simple_data :: "sections \<Rightarrow> bool" where
  "simple_data data \<longleftrightarrow> distinct (map fst data) \<and> list_all simple_section data"

lemma int_str_chars: "x \<in> set (int_str i) \<Longrightarrow> is_digit x \<or> x = CHR ''-''"
  using nat_str_digits(1) [of "nat i"] nat_str_digits(1) [of "nat (- i)"]
  by (auto simp: int_str_def list_all_iff split: if_splits)

lemma int_str_nonempty [simp]: "int_str i \<noteq> []"
  using nat_str_digits(2) by (simp add: int_str_def)

lemma int_str_first: "is_digit (hd (int_str i)) \<or> hd (int_str i) = CHR ''-''"
  using int_str_chars [of "hd (int_str i)" i] by simp

lemma toml_value_int: "toml_value (int_str i) = Some (VInt i)"
proof -
  have "hd (int_str i) \<noteq> CHR ''t''" "hd (int_str i) \<noteq> CHR ''f''" "hd (int_str i) \<noteq> dquote"
    using int_str_first [of i] by (auto simp: is_digit_def)
  then have "int_str i \<noteq> ''true''" "int_str i \<noteq> ''false''" "hd (int_str i) \<noteq> dquote" by auto
  then show ?thesis by (simp add: toml_value_def py_int_int_str)
qed

lemma toml_value_str: "list_all plain_char s \<Longrightarrow> toml_value (dquote # s @ [dquote]) = Some (VStr s)"
  by (simp add: toml_value_def Let_def)

lemma bare_not_blank: "\<not> bare_char CHR '' ''" "\<not> bare_char CHR '']''" "\<not> bare_char CHR ''[''" "\<not> bare_char newline"
  by (simp_all add: bare_char_def Let_def)

lemma bare_takeWhile: "list_all bare_char k \<Longrightarrow> \<not> bare_char c \<Longrightarrow> takeWhile bare_char (k @ c # r) = k"
  by (induction k) auto

lemma toml_assign_line:
  assumes "bare_key k" and "toml_value v = Some x"
  shows "toml_assign (k @ '' = '' @ v) = Some (k, x)" and "toml_header (k @ '' = '' @ v) = None"
proof -
  have "takeWhile bare_char (k @ '' = '' @ v) = k"
    using assms(1) bare_takeWhile [of k "CHR '' ''" "''= '' @ v"] by (simp add: bare_key_def bare_not_blank)
  with assms show "toml_assign (k @ '' = '' @ v) = Some (k, x)" by (simp add: toml_assign_def Let_def bare_key_def)
  obtain c k' where "k = c # k'" "bare_char c" using assms(1) by (cases k) (auto simp: bare_key_def)
  moreover from this have "c \<noteq> CHR ''[''" using bare_not_blank by auto
  ultimately show "toml_header (k @ '' = '' @ v) = None" by (simp add: toml_header_def Let_def)
qed

lemma toml_header_line: "bare_key n \<Longrightarrow> toml_header (CHR ''['' # n @ '']'') = Some n"
  using bare_takeWhile [of n "CHR '']''" "[]"] by (simp add: toml_header_def bare_key_def bare_not_blank)

lemma toml_body_entry:
  assumes "bare_key (fst kv)" and "simple_value (snd kv)" and "toml_body rest = Some (es, secs)"
  shows "toml_body (toml_entry kv @ rest) = Some (kv # es, secs)"
proof -
  obtain v where v: "toml_entry kv = [fst kv @ '' = '' @ v]" "toml_value v = Some (snd kv)"
    using assms(2) toml_value_int toml_value_str
    by (cases "snd kv"; fastforce simp: toml_entry_def toml_value_def)
  with toml_assign_line [OF assms(1) v(2)] assms(1,3) show ?thesis
    by (auto simp: bare_key_def)
qed

lemma toml_body_entries:
  "list_all (\<lambda>kv. bare_key (fst kv) \<and> simple_value (snd kv)) kvs \<Longrightarrow> toml_body rest = Some (es, secs) \<Longrightarrow>
   toml_body (concat (map toml_entry kvs) @ rest) = Some (kvs @ es, secs)"
  by (induction kvs) (simp_all add: toml_body_entry)

lemma toml_body_sections:
  "list_all simple_section data \<Longrightarrow> toml_body (concat (map toml_section data)) = Some ([], data)"
proof (induction data)
  case Nil
  then show ?case by simp
next
  case (Cons sec data)
  then have "toml_body ([] # concat (map toml_section data)) = Some ([], data)" by simp
  moreover have "bare_key (fst sec)" and "list_all (\<lambda>kv. bare_key (fst kv) \<and> simple_value (snd kv)) (snd sec)"
    using Cons.prems by (simp_all add: simple_section_def)
  ultimately have "toml_body (concat (map toml_entry (snd sec)) @ [] # concat (map toml_section data)) = Some (snd sec, data)"
    using toml_body_entries [of "snd sec" "[] # concat (map toml_section data)" "[]" data] by simp
  moreover have "concat (map toml_section (sec # data)) =
      (CHR ''['' # fst sec @ '']'') # (concat (map toml_entry (snd sec)) @ [] # concat (map toml_section data))"
    by (simp add: toml_section_def)
  ultimately show ?case using toml_header_line \<open>bare_key (fst sec)\<close> by (simp only: toml_body.simps) simp
qed

lemma entry_lines_one:
  assumes "bare_key (fst kv)" and "simple_value (snd kv)" and "w \<in> set (toml_entry kv)"
  shows "newline \<notin> set w"
proof -
  have k: "newline \<notin> set (fst kv)" using assms(1) bare_not_blank(4) by (auto simp: bare_key_def list_all_iff)
  have i: "newline \<notin> set (int_str i)" for i using int_str_chars [of newline i] by (auto simp: is_digit_def)
  have "\<not> plain_char newline" by (simp add: plain_char_def)
  with assms(2,3) k i show ?thesis
    by (cases "snd kv") (auto simp: toml_entry_def list_all_iff split: if_splits)
qed

lemma section_lines_one:
  assumes "simple_section sec" and "w \<in> set (toml_section sec)"
  shows "newline \<notin> set w"
proof -
  have "newline \<notin> set (fst sec)"
    using assms(1) bare_not_blank(4) by (auto simp: simple_section_def bare_key_def list_all_iff)
  with assms entry_lines_one show ?thesis by (auto simp: toml_section_def simple_section_def list_all_iff)
qed

text \<open>What \<open>_save_toml\<close> writes of simple data reads back as that data.\<close>

lemma simple_toml_text:
  assumes "simple_data data" and "data \<noteq> []"
  shows "simple_toml (toml_text data) = Some (sections_dict data)"
proof -
  have ne: "concat (map toml_section data) \<noteq> []" using assms(2) by (cases data) (simp_all add: toml_section_def)
  have "newline \<notin> set w" if "w \<in> set (concat (map toml_section data))" for w
    using that section_lines_one assms(1) by (auto simp: simple_data_def list_all_iff)
  from py_split_join [OF ne this] toml_body_sections [of data] assms(1) show ?thesis
    by (simp add: simple_toml_def toml_text_def simple_data_def list_all_iff simple_section_def case_prod_beta)
qed

section \<open>Saving, then loading\<close>

lemma mkdirs_keeps_dirs_to: "fs_mkdirs p fs = Inr fs' \<Longrightarrow> dirs_to fs q \<Longrightarrow> dirs_to fs' q"
  unfolding fs_mkdirs_def dirs_to_def by (blast dest: mkdirs_keeps_dirs)

lemma write_keeps_dirs_to: "fs_write p c fs = Inr fs' \<Longrightarrow> dirs_to fs q \<Longrightarrow> dirs_to fs' q"
  unfolding dirs_to_def by (blast dest: fs_write_keeps_dirs)

lemma mkdir_all_dirs:
  "mkdir_all ds fs = Inr fs' \<Longrightarrow> (\<forall>d\<in>set ds. dirs_to fs' d) \<and> (\<forall>q. dirs_to fs q \<longrightarrow> dirs_to fs' q)"
proof (induction ds arbitrary: fs)
  case Nil
  then show ?case by simp
next
  case (Cons d ds)
  then obtain fs1 where "fs_mkdirs d fs = Inr fs1" "mkdir_all ds fs1 = Inr fs'" by (auto split: sum.splits)
  with Cons.IH fs_mkdirs_dirs mkdirs_keeps_dirs_to show ?case by simp
qed

lemma mkdir_all_again: "(\<And>d. d \<in> set ds \<Longrightarrow> dirs_to fs d) \<Longrightarrow> mkdir_all ds fs = Inr fs"
  by (induction ds) (simp_all add: fs_mkdirs_again)

definition standard_dirs :: "path \<Rightarrow> path list" where
  "standard_dirs home = [home, cache_root home, wheels_dir home, layers_dir home, metadata_dir home, log_dir home, venv_dir home]"

lemma load_makes_dirs:
  assumes "load_config env fs = Inr (c, fs')" and "d \<in> set (standard_dirs (he_home env))"
  shows "dirs_to fs' d"
proof -
  from assms(1) have "mkdir_all (standard_dirs (he_home env)) fs = Inr fs'"
    by (auto simp: load_config_def Let_def ensure_directories_def standard_dirs_def bind_result_def split: sum.splits)
  from mkdir_all_dirs [OF this] assms(2) show ?thesis by blast
qed

lemma home_standard: "home \<in> set (standard_dirs home)"
  by (simp add: standard_dirs_def)

text \<open>What a configuration keeps when it is saved and loaded: the fields not written, and
  \<open>auto_cleanup\<close>, which is written but never read, return to their defaults.\<close>

definition persisted :: "cpip_config \<Rightarrow> cpip_config" where
  "persisted c = c\<lparr>cf_cloud := (cf_cloud c)\<lparr>cc_max_retries := VInt 3\<rparr>,
     cf_cache := (cf_cache c)\<lparr>kc_metadata_ttl_hours := VInt 24, kc_auto_cleanup := VBool True\<rparr>,
     cf_runtime := (cf_runtime c)\<lparr>rc_auto_sync := VBool True, rc_import_hooks := VBool True\<rparr>\<rparr>"

lemma load_saved_sections:
  assumes "load_toml env fs = map (\<lambda>(k, v). (VStr k, v)) (map (\<lambda>(n, es). (n, str_dict es)) (config_data c))"
    and "getenv_set env ''CPIP_API_URL'' = None" and "getenv_set env ''CPIP_WS_URL'' = None"
    and "getenv_set env ''CPIP_OFFLINE'' = None"
    and "ensure_directories (he_home env) fs = Inr fs'"
  shows "load_config env fs = Inr ((persisted c)\<lparr>cf_auth := load_auth env fs\<rparr>, fs')"
proof -
  have "with_section (load_toml env fs) ''cloud'' apply_cloud (CloudConfig env) = Inr ((cf_cloud c)\<lparr>cc_max_retries := VInt 3\<rparr>)"
    by (simp add: assms(1) config_data_def with_section_def apply_cloud_def str_dict_def py_get_def CloudConfig_def)
  moreover have "with_section (load_toml env fs) ''cache'' apply_cache CacheConfig =
      Inr ((cf_cache c)\<lparr>kc_metadata_ttl_hours := VInt 24, kc_auto_cleanup := VBool True\<rparr>)"
    by (simp add: assms(1) config_data_def with_section_def apply_cache_def str_dict_def py_get_def CacheConfig_def)
  moreover have "with_section (load_toml env fs) ''runtime'' apply_runtime RuntimeConfig =
      Inr ((cf_runtime c)\<lparr>rc_auto_sync := VBool True, rc_import_hooks := VBool True\<rparr>)"
    by (simp add: assms(1) config_data_def with_section_def apply_runtime_def str_dict_def py_get_def RuntimeConfig_def)
  ultimately show ?thesis
    by (simp add: load_config_def Let_def assms(2-5) override_cloud_def override_runtime_def persisted_def)
qed

definition clean_auth :: "auth_config \<Rightarrow> bool" where
  "clean_auth a \<longleftrightarrow> canonical (au_token a) \<and> canonical (au_refresh_token a) \<and> canonical (au_device_id a) \<and>
     canonical (au_user_id a)"

lemma load_saved_auth:
  assumes "save_auth str env c fs = Inr fs'" and "clean_auth (cf_auth c)"
  shows "load_auth env fs' = cf_auth c"
proof -
  have can: "canonical (auth_data (cf_auth c))"
    using assms(2) by (simp add: auth_data_def clean_auth_def str_dict_def)
  from assms(1) obtain fs1 where w: "fs_write (auth_file (he_home env)) (JsonText (auth_data (cf_auth c))) fs1 = Inr fs'"
    by (auto simp: save_auth_def json_dumps_canonical [OF can] bind_result_def split: sum.splits)
  have "fs_node fs' (auth_file (he_home env)) = Some (File (JsonText (auth_data (cf_auth c))))"
    using fs_write_node [OF w] by simp
  then show ?thesis
    by (simp add: load_auth_def fs_exists_def fs_read_def json_loads_def auth_data_def str_dict_def Let_def)
qed

lemma saved_sections_load_back:
  assumes "fs_node fs (config_file (he_home env)) = Some (File (Text (toml_text (config_data c))))"
    and "\<And>d. d \<in> set (standard_dirs (he_home env)) \<Longrightarrow> dirs_to fs d"
    and "simple_data (config_data c)" and "\<And>t v. simple_toml t = Some v \<Longrightarrow> he_toml env t = Inr v"
    and "getenv_set env ''CPIP_API_URL'' = None" and "getenv_set env ''CPIP_WS_URL'' = None"
    and "getenv_set env ''CPIP_OFFLINE'' = None"
  shows "load_config env fs = Inr ((persisted c)\<lparr>cf_auth := load_auth env fs\<rparr>, fs)"
proof -
  have "he_toml env (toml_text (config_data c)) = Inr (sections_dict (config_data c))"
    by (intro assms(4) simple_toml_text assms(3)) (simp add: config_data_def)
  with assms(1) have "load_toml env fs = map (\<lambda>(k, v). (VStr k, v)) (map (\<lambda>(n, es). (n, str_dict es)) (config_data c))"
    by (simp add: load_toml_def fs_exists_def fs_read_def sections_dict_def str_dict_def)
  moreover have "ensure_directories (he_home env) fs = Inr fs"
    unfolding ensure_directories_def by (rule mkdir_all_again) (use assms(2) in \<open>auto simp: standard_dirs_def\<close>)
  ultimately show ?thesis by (rule load_saved_sections [OF _ assms(5-7)])
qed

lemma save_config_writes:
  assumes "\<And>d. d \<in> set (standard_dirs (he_home env)) \<Longrightarrow> dirs_to fs d" and "save_config env c fs = Inr fs'"
  shows "fs_write (config_file (he_home env)) (Text (toml_text (config_data c))) fs = Inr fs'"
    and "\<And>d. d \<in> set (standard_dirs (he_home env)) \<Longrightarrow> dirs_to fs' d"
proof -
  have "fs_mkdirs (he_home env) fs = Inr fs" by (rule fs_mkdirs_again [OF assms(1) [OF home_standard]])
  with assms(2) show w: "fs_write (config_file (he_home env)) (Text (toml_text (config_data c))) fs = Inr fs'"
    by (simp add: save_config_def save_toml_def config_file_def)
  show "dirs_to fs' d" if "d \<in> set (standard_dirs (he_home env))" for d
    using write_keeps_dirs_to w assms(1) that by blast
qed

lemma save_auth_writes:
  assumes "\<And>d. d \<in> set (standard_dirs (he_home env)) \<Longrightarrow> dirs_to fs d" and "save_auth str env c fs = Inr fs'"
  shows "\<exists>j. fs_write (auth_file (he_home env)) j fs = Inr fs'"
    and "\<And>d. d \<in> set (standard_dirs (he_home env)) \<Longrightarrow> dirs_to fs' d"
proof -
  have "fs_mkdirs (he_home env) fs = Inr fs" by (rule fs_mkdirs_again [OF assms(1) [OF home_standard]])
  with assms(2) show w: "\<exists>j. fs_write (auth_file (he_home env)) j fs = Inr fs'"
    by (auto simp: save_auth_def bind_result_def split: sum.splits)
  then show "dirs_to fs' d" if "d \<in> set (standard_dirs (he_home env))" for d
    using write_keeps_dirs_to assms(1) that by blast
qed

text \<open>After a start that made the directories, saving a configuration and its login and
  starting again gives the same configuration, apart from the fields that are not persisted, and the same login, as long as
  no string needs an escape and no environment variable overrides it.\<close>

theorem saved_config_loads_back:
  assumes "load_config env fs = Inr (c0, fs1)" and "save_config env c fs1 = Inr fs2"
    and "save_auth str env c fs2 = Inr fs3"
    and "simple_data (config_data c)" and "clean_auth (cf_auth c)"
    and "\<And>t v. simple_toml t = Some v \<Longrightarrow> he_toml env t = Inr v"
    and "getenv_set env ''CPIP_API_URL'' = None" and "getenv_set env ''CPIP_WS_URL'' = None"
    and "getenv_set env ''CPIP_OFFLINE'' = None"
  shows "load_config env fs3 = Inr (persisted c, fs3)"
proof -
  let ?h = "he_home env"
  have d1: "dirs_to fs1 d" if "d \<in> set (standard_dirs ?h)" for d using load_makes_dirs [OF assms(1) that] .
  note w2 = save_config_writes [OF d1 assms(2)]
  note w3 = save_auth_writes [OF w2(2) assms(3)]
  from w3(1) obtain j where j: "fs_write (auth_file ?h) j fs2 = Inr fs3" by blast
  have "fs_node fs3 (config_file ?h) = Some (File (Text (toml_text (config_data c))))"
    using fs_write_node [OF j] fs_write_node [OF w2(1)] by (simp add: config_file_def auth_file_def)
  from saved_sections_load_back [OF this w3(2) assms(4,6-9)]
  show ?thesis by (simp add: load_saved_auth [OF assms(3,5)] persisted_def)
qed

definition demo_home :: home_env where
  "demo_home = \<lparr>he_home = [''h''], he_import_env = (\<lambda>k. None), he_env = (\<lambda>k. None),
     he_toml = (\<lambda>t. case simple_toml t of Some v \<Rightarrow> Inr v | None \<Rightarrow> Inl (ValueError ''Invalid value''))\<rparr>"

definition offline_config :: cpip_config where
  "offline_config = (CpipConfig demo_home)\<lparr>cf_runtime := RuntimeConfig\<lparr>rc_offline_mode := VBool True\<rparr>\<rparr>"

theorem saved_config_loads_back_witness:
  "\<exists>fs. load_config demo_home fs = Inr (persisted offline_config, fs) \<and>
     rc_offline_mode (cf_runtime (persisted offline_config)) = VBool True"
proof -
  obtain c0 fs1 where l: "load_config demo_home [] = Inr (c0, fs1)"
    by (simp add: load_config_def load_toml_def fs_exists_def demo_home_def config_file_def fs_node_def with_section_def
        ensure_directories_def cache_root_def wheels_dir_def layers_dir_def metadata_dir_def log_dir_def venv_dir_def
        fs_mkdirs_def)
  have h: "he_home demo_home = [''h'']" by (simp add: demo_home_def)
  have fs1: "fs1 = [([''h''], Dir), ([''h'', ''cache''], Dir), ([''h'', ''cache'', ''wheels''], Dir),
      ([''h'', ''cache'', ''layers''], Dir), ([''h'', ''cache'', ''metadata''], Dir), ([''h'', ''logs''], Dir), ([''h'', ''envs''], Dir)]"
    using l by (simp add: load_config_def load_toml_def fs_exists_def demo_home_def config_file_def fs_node_def with_section_def
        ensure_directories_def cache_root_def wheels_dir_def layers_dir_def metadata_dir_def log_dir_def venv_dir_def
        fs_mkdirs_def)
  have simple: "simple_data (config_data offline_config)"
    by (simp add: simple_data_def simple_section_def bare_key_def bare_char_def config_data_def offline_config_def
        CpipConfig_def CloudConfig_def CacheConfig_def RuntimeConfig_def DEFAULT_API_URL_def DEFAULT_WS_URL_def
        DEFAULT_CDN_URL_def env_or_def demo_home_def plain_char_def)
  have auth: "clean_auth (cf_auth offline_config)"
    by (simp add: clean_auth_def offline_config_def CpipConfig_def AuthConfig_def)
  obtain fs2 where s2: "save_config demo_home offline_config fs1 = Inr fs2"
    and fs2: "fs2 = fs1 @ [([''h'', ''config.toml''], File (Text (toml_text (config_data offline_config))))]"
    by (simp add: save_config_def save_toml_def h config_file_def fs_mkdirs_def fs_node_def fs1 fs_write_def fs_is_dir_def)
  have "canonical (auth_data (cf_auth offline_config))"
    using auth by (simp add: auth_data_def clean_auth_def str_dict_def)
  note j = json_dumps_canonical [OF this, of "\<lambda>v. []"]
  obtain fs3 where s3: "save_auth (\<lambda>v. []) demo_home offline_config fs2 = Inr fs3"
    by (simp add: save_auth_def h fs2 fs1 fs_mkdirs_def fs_node_def j auth_file_def fs_write_def fs_is_dir_def)
  have law: "he_toml demo_home t = Inr v" if "simple_toml t = Some v" for t v
    using that by (simp add: demo_home_def)
  have no: "getenv_set demo_home k = None" for k by (simp add: getenv_set_def demo_home_def)
  from saved_config_loads_back [OF l s2 s3 simple auth law no no no]
  show ?thesis by (intro exI [of _ fs3]) (simp add: persisted_def offline_config_def)
qed

text \<open>\<open>_save_toml\<close> escapes nothing: a string with a quote is not a TOML value, and when
  the file does not parse, every setting silently returns to its default.\<close>

lemma quote_is_not_escaped:
  "toml_entry (''ws_url'', VStr (''a'' @ [dquote] @ ''b'')) = [''ws_url = '' @ dquote # ''a'' @ [dquote] @ ''b'' @ [dquote]] \<and>
   toml_value (dquote # ''a'' @ [dquote] @ ''b'' @ [dquote]) = None"
  by (simp add: toml_entry_def toml_value_def plain_char_def)

lemma unreadable_toml_gives_defaults:
  assumes "fs_read fs (config_file (he_home env)) = Inr (Text t)" and "he_toml env t = Inl e"
    and "ensure_directories (he_home env) fs = Inr fs'"
  shows "load_config env fs = Inr (\<lparr>cf_cloud = override_cloud env (CloudConfig env), cf_cache = CacheConfig,
     cf_runtime = override_runtime env RuntimeConfig, cf_auth = load_auth env fs\<rparr>, fs')"
  using assms by (simp add: load_config_def load_toml_def with_section_def)

text \<open>A section that is not a table raises, and with it every command.\<close>

lemma scalar_section_raises:
  "map_of (load_toml env fs) (VStr ''cloud'') = Some (VInt 1) \<Longrightarrow> \<exists>e. load_config env fs = Inl e"
  by (simp add: load_config_def with_section_def apply_cloud_def py_get_def)

end
