(* ===== verification/Platform.thy ===== *)
theory Platform
  imports PyText Protocol
begin

text \<open>
  \<open>shared/platform.py\<close>: what the client finds out about its host. The readings of the host
  (environment variables, existence of paths, \<open>/proc/meminfo\<close>, \<open>uname\<close>) are the record
  \<open>host\<close>; the functions of the source are the conclusions drawn from them.
\<close>

record host =
  ho_getenv :: "string \<Rightarrow> string option"
  ho_isdir :: "string \<Rightarrow> bool"
  ho_isfile :: "string \<Rightarrow> bool"
  ho_exists :: "string \<Rightarrow> bool"
  ho_which :: "string \<Rightarrow> string option"
  ho_platform :: string
  ho_release :: string
  ho_machine :: string
  ho_system :: string
  ho_cpu_count :: "exn + int option"
  ho_meminfo :: "exn + string list"
  ho_disk_free :: "exn + nat"
  ho_home :: string
  ho_python :: "int \<times> int \<times> int"
  ho_pointer_bytes :: int

definition getenv_or_empty :: "host \<Rightarrow> string \<Rightarrow> string" where
  "getenv_or_empty h k = (case ho_getenv h k of Some v \<Rightarrow> v | None \<Rightarrow> [])"

definition detect_termux :: "host \<Rightarrow> bool" where
  "detect_termux h \<longleftrightarrow> py_startswith (getenv_or_empty h ''PREFIX'') ''/data/data/com.termux'' \<or>
     ho_isdir h ''/data/data/com.termux'' \<or> ho_getenv h ''TERMUX_VERSION'' \<noteq> None \<or>
     py_contains (getenv_or_empty h ''HOME'') ''com.termux''"

definition detect_android :: "host \<Rightarrow> bool" where
  "detect_android h \<longleftrightarrow> ho_isfile h ''/system/build.prop'' \<or> ho_isdir h ''/data/data'' \<or>
     py_contains (py_lower (ho_platform h)) ''android'' \<or> py_contains (ho_release h) ''Android'' \<or> detect_termux h"

definition arch_map :: "(string \<times> string) list" where
  "arch_map = [(''aarch64'', ''aarch64''), (''arm64'', ''aarch64''), (''armv8l'', ''aarch64''), (''armv7l'', ''armv7l''),
     (''x86_64'', ''x86_64''), (''amd64'', ''x86_64''), (''i686'', ''x86''), (''i386'', ''x86'')]"

definition normalize_arch :: "string \<Rightarrow> string" where
  "normalize_arch machine = (case map_of arch_map machine of Some a \<Rightarrow> a | None \<Rightarrow> machine)"

definition get_architecture :: "host \<Rightarrow> string" where
  "get_architecture h = normalize_arch (py_lower (ho_machine h))"

definition get_cpu_count :: "host \<Rightarrow> int" where
  "get_cpu_count h = (case ho_cpu_count h of
       Inr (Some n) \<Rightarrow> (if n = 0 then 1 else n) | _ \<Rightarrow> 1)"

text \<open>The first \<open>MemTotal\<close> line decides; a line that is not as expected counts as no memory.\<close>

fun memory_kb :: "string list \<Rightarrow> int option" where
  "memory_kb [] = None"
| "memory_kb (l # ls) = (if py_startswith l ''MemTotal:'' then
       (case py_words l of a # b # r \<Rightarrow> py_int b | _ \<Rightarrow> None)
     else memory_kb ls)"

definition get_total_memory_mb :: "host \<Rightarrow> int" where
  "get_total_memory_mb h = (case ho_meminfo h of
       Inl e \<Rightarrow> 0
     | Inr lines \<Rightarrow> (case memory_kb lines of Some kb \<Rightarrow> kb div 1024 | None \<Rightarrow> 0))"

definition get_available_disk_mb :: "host \<Rightarrow> int" where
  "get_available_disk_mb h = (case ho_disk_free h of Inl e \<Rightarrow> 0 | Inr n \<Rightarrow> int n div (1024 * 1024))"

definition probe_gpu :: "host \<Rightarrow> bool" where
  "probe_gpu h \<longleftrightarrow> ho_exists h ''/dev/kgsl-3d0'' \<or> ho_exists h ''/dev/mali0'' \<or> ho_exists h ''/dev/nvidia0'' \<or>
     ho_exists h ''/proc/driver/nvidia'' \<or> ho_which h ''nvidia-smi'' \<noteq> None \<or> ho_getenv h ''CUDA_HOME'' \<noteq> None"

definition probe_docker :: "host \<Rightarrow> bool" where
  "probe_docker h \<longleftrightarrow> ho_which h ''docker'' \<noteq> None"

definition get_platform_tag :: "host \<Rightarrow> string" where
  "get_platform_tag h = (if detect_android h then ''android_'' @ get_architecture h
     else py_lower (ho_system h) @ ''_'' @ get_architecture h)"

definition get_termux_prefix :: "host \<Rightarrow> string option" where
  "get_termux_prefix h = (let prefix = getenv_or_empty h ''PREFIX'' in
     if prefix \<noteq> [] \<and> py_contains prefix ''com.termux'' then Some prefix
     else if ho_isdir h ''/data/data/com.termux/files/usr'' then Some ''/data/data/com.termux/files/usr''
     else None)"

record system_info =
  sy_is_termux :: bool
  sy_is_android :: bool
  sy_architecture :: string
  sy_python_version :: string
  sy_pointer_size :: int
  sy_cpu_count :: int
  sy_total_memory_mb :: int
  sy_available_disk_mb :: int
  sy_termux_prefix :: "string option"
  sy_home_dir :: string
  sy_has_gpu :: bool
  sy_has_docker :: bool
  sy_platform_tag :: string

definition get_system_info :: "host \<Rightarrow> system_info" where
  "get_system_info h = (case ho_python h of (major, minor, micro) \<Rightarrow>
     \<lparr>sy_is_termux = detect_termux h, sy_is_android = detect_android h, sy_architecture = get_architecture h,
      sy_python_version = int_str major @ ''.'' @ int_str minor @ ''.'' @ int_str micro,
      sy_pointer_size = ho_pointer_bytes h * 8, sy_cpu_count = get_cpu_count h,
      sy_total_memory_mb = get_total_memory_mb h, sy_available_disk_mb = get_available_disk_mb h,
      sy_termux_prefix = get_termux_prefix h, sy_home_dir = ho_home h, sy_has_gpu = probe_gpu h,
      sy_has_docker = probe_docker h, sy_platform_tag = get_platform_tag h\<rparr>)"

definition opt_str :: "string option \<Rightarrow> pyval" where
  "opt_str x = (case x of None \<Rightarrow> VNone | Some s \<Rightarrow> VStr s)"

text \<open>\<open>info.__dict__\<close>\<close>

definition system_dict :: "system_info \<Rightarrow> pyval" where
  "system_dict i = str_dict [(''is_termux'', VBool (sy_is_termux i)), (''is_android'', VBool (sy_is_android i)),
     (''architecture'', VStr (sy_architecture i)), (''python_version'', VStr (sy_python_version i)),
     (''pointer_size'', VInt (sy_pointer_size i)), (''cpu_count'', VInt (sy_cpu_count i)),
     (''total_memory_mb'', VInt (sy_total_memory_mb i)), (''available_disk_mb'', VInt (sy_available_disk_mb i)),
     (''termux_prefix'', opt_str (sy_termux_prefix i)), (''home_dir'', VStr (sy_home_dir i)),
     (''has_gpu'', VBool (sy_has_gpu i)), (''has_docker'', VBool (sy_has_docker i)),
     (''platform_tag'', VStr (sy_platform_tag i)), (''extra'', VDict [])]"

definition yes_or :: "bool \<Rightarrow> string \<Rightarrow> string \<Rightarrow> string" where
  "yes_or b y n = (if b then y else n)"

text \<open>The lines \<open>print_system_info\<close> prints\<close>

definition system_lines :: "system_info \<Rightarrow> string list" where
  "system_lines i =
     [''  Platform:      '' @ sy_platform_tag i,
      ''  Architecture:  '' @ sy_architecture i @ '' ('' @ int_str (sy_pointer_size i) @ ''-bit)'',
      ''  Python:        '' @ sy_python_version i,
      ''  Termux:        '' @ yes_or (sy_is_termux i) ''Yes'' ''No'',
      ''  Android:       '' @ yes_or (sy_is_android i) ''Yes'' ''No'',
      ''  CPUs:          '' @ int_str (sy_cpu_count i),
      ''  Memory:        '' @ int_str (sy_total_memory_mb i) @ '' MB'',
      ''  Disk free:     '' @ int_str (sy_available_disk_mb i) @ '' MB'',
      ''  GPU:           '' @ yes_or (sy_has_gpu i) ''Detected'' ''None'',
      ''  Docker:        '' @ yes_or (sy_has_docker i) ''Available'' ''Not found''] @
     (case sy_termux_prefix i of None \<Rightarrow> [] | Some p \<Rightarrow> if p = [] then [] else [''  Termux prefix: '' @ p])"

section \<open>Facts\<close>

lemma normalize_arch_idem: "normalize_arch (normalize_arch m) = normalize_arch m"
proof (cases "map_of arch_map m")
  case None
  then show ?thesis by (simp add: normalize_arch_def)
next
  case (Some a)
  then have "a \<in> set (map snd arch_map)" by (auto dest: map_of_SomeD intro: rev_image_eqI)
  then have "map_of arch_map a = Some a \<or> map_of arch_map a = None" by (auto simp: arch_map_def)
  with Some show ?thesis by (auto simp: normalize_arch_def)
qed

text \<open>Termux implies Android, and the tag says so.\<close>

lemma termux_is_android:
  "detect_termux h \<Longrightarrow> sy_is_android (get_system_info h) \<and>
     sy_platform_tag (get_system_info h) = ''android_'' @ sy_architecture (get_system_info h)"
  by (simp add: get_system_info_def detect_android_def get_platform_tag_def split: prod.split)

lemma cpu_count_positive: "ho_cpu_count h = Inr (Some n) \<Longrightarrow> 0 \<le> n \<Longrightarrow> 1 \<le> get_cpu_count h"
  by (auto simp: get_cpu_count_def)

lemma system_dict_canonical: "canonical (system_dict i)"
  by (simp add: system_dict_def str_dict_def opt_str_def split: option.split)

text \<open>The description of the host does not name the device.\<close>

lemma system_dict_no_device: "py_get (system_dict i) ''device_id'' d = Inr d"
  by (simp add: system_dict_def str_dict_def py_get_def)

end
