(* ===== verification/Daemon.thy ===== *)
theory Daemon
  imports Endpoint Cache Runtime ClientConfig Platform
begin

text \<open>
  \<open>client/sync.py\<close> and \<open>client/daemon.py\<close>: the background synchronisation, and the daemon with its
  connection loop, the calls the server makes and the calls it makes itself. The daemon's waits
  are the steps: a connection attempt with the frames it brings, a call up to its await.
\<close>

section \<open>Synchronisation\<close>

record sync_manager =
  sn_running :: bool
  sn_last_sync :: real
  sn_interval :: int

definition new_sync :: sync_manager where
  "new_sync = \<lparr>sn_running = False, sn_last_sync = 0, sn_interval = 3600\<rparr>"

definition sync_start :: "sync_manager \<Rightarrow> sync_manager" where
  "sync_start s = (if sn_running s then s else s\<lparr>sn_running := True\<rparr>)"

definition sync_stop :: "sync_manager \<Rightarrow> sync_manager" where
  "sync_stop s = s\<lparr>sn_running := False\<rparr>"

text \<open>
  The two HTTP calls of a synchronisation and three readings of the clock (the start, while storing,
  the end): the device registration, whose answer is not looked at, and the catalogue with its
  status and body.
\<close>

record sync_env =
  sx_register :: "pyval \<Rightarrow> exn option"
  sx_catalog :: "(string \<times> string) list \<Rightarrow> exn + int \<times> (exn + pyval)"
  sx_device_id :: pyval
  sx_host :: host
  sx_str :: "pyval \<Rightarrow> string"
  sx_now :: real
  sx_store :: real
  sx_end :: real

text \<open>\<open>self.cache.store_metadata(pkg["name"], pkg)\<close>: a name that is no text gives a path of its \<open>str\<close>.\<close>

definition store_package :: "sync_env \<Rightarrow> pyval \<Rightarrow> cache \<Rightarrow> exn option \<times> cache" where
  "store_package env pkg c = (case pkg of
       VDict d \<Rightarrow> (case py_item d ''name'' of
           Inl e \<Rightarrow> (Some e, c)
         | Inr n \<Rightarrow> store_metadata (sx_str env) (sx_store env) (case n of VStr s \<Rightarrow> s | _ \<Rightarrow> py_repr (sx_str env) n) d c)
     | _ \<Rightarrow> (Some (TypeError ''indices must be integers''), c))"

fun store_packages :: "sync_env \<Rightarrow> pyval list \<Rightarrow> nat \<Rightarrow> cache \<Rightarrow> exn option \<times> nat \<times> cache" where
  "store_packages env [] n c = (None, n, c)"
| "store_packages env (p # ps) n c = (case store_package env p c of
       (Some e, c1) \<Rightarrow> (Some e, n, c1)
     | (None, c1) \<Rightarrow> store_packages env ps (Suc n) c1)"

definition fetch_catalog :: "sync_env \<Rightarrow> cache \<Rightarrow> exn option \<times> nat \<times> cache" where
  "fetch_catalog env c =
     (let i = get_system_info (sx_host env);
          device = str_dict [(''device_id'', sx_device_id env), (''architecture'', VStr (sy_architecture i)),
            (''platform_tag'', VStr (sy_platform_tag i)), (''python_version'', VStr (sy_python_version i))] in
      case sx_register env device of
        Some e \<Rightarrow> (Some e, 0, c)
      | None \<Rightarrow> (case sx_catalog env [(''arch'', sy_architecture i)] of
            Inl e \<Rightarrow> (Some e, 0, c)
          | Inr (status, body) \<Rightarrow>
              (if status \<noteq> 200 then (None, 0, c)
               else case bind_result (bind_result body (\<lambda>b. py_get b ''packages'' (VList []))) py_iter of
                   Inl e \<Rightarrow> (Some e, 0, c)
                 | Inr ps \<Rightarrow> store_packages env ps 0 c)))"

record sync_result =
  sr_metadata_updated :: nat
  sr_errors :: "string list"
  sr_timestamp :: real

definition sync_result_json :: "sync_result \<Rightarrow> pyval" where
  "sync_result_json r = str_dict [(''metadata_updated'', VInt (int (sr_metadata_updated r))),
     (''errors'', VList (map VStr (sr_errors r))), (''timestamp'', VFloat (sr_timestamp r))]"

text \<open>Any failure is recorded; only writing \<open>.last_sync\<close> can raise.\<close>

definition do_sync :: "sync_env \<Rightarrow> sync_manager \<Rightarrow> cache \<Rightarrow> (exn + sync_result) \<times> sync_manager \<times> cache" where
  "do_sync env s c = (case fetch_catalog env c of
     (err, n, c1) \<Rightarrow>
       (let r = \<lparr>sr_metadata_updated = n, sr_errors = (case err of None \<Rightarrow> [] | Some e \<Rightarrow> [exn_message e]),
                 sr_timestamp = sx_now env\<rparr>;
            s1 = s\<lparr>sn_last_sync := sx_end env\<rparr> in
        case fs_write (ca_home c @ [''.last_sync'']) (JsonText (sync_result_json r)) (ca_fs c1) of
          Inl e \<Rightarrow> (Inl e, s1, c1)
        | Inr fs \<Rightarrow> (Inr r, s1, c1\<lparr>ca_fs := fs\<rparr>)))"

text \<open>One round of the loop: a synchronisation when one is due, its exceptions ignored.\<close>

definition sync_round :: "real \<Rightarrow> sync_env \<Rightarrow> sync_manager \<Rightarrow> cache \<Rightarrow> sync_manager \<times> cache" where
  "sync_round now env s c =
     (if sn_running s \<and> of_int (sn_interval s) \<le> now - sn_last_sync s then snd (do_sync env s c) else (s, c))"

definition sync_now :: "sync_env \<Rightarrow> sync_manager \<Rightarrow> cache \<Rightarrow> (exn + sync_result) \<times> sync_manager \<times> cache" where
  "sync_now env s c = do_sync env s c"

section \<open>The daemon\<close>

record daemon =
  dm_config :: cpip_config
  dm_cache :: cache
  dm_sync :: sync_manager
  dm_ws :: bool
  dm_running :: bool
  dm_reconnect_delay :: int
  dm_pending :: "(pyval, nat) dict"
  dm_futures :: "future list"
  dm_sent :: "pyval list"
  dm_sleeps :: "int list"

definition new_daemon :: "cpip_config \<Rightarrow> cache \<Rightarrow> daemon" where
  "new_daemon config cache = \<lparr>dm_config = config, dm_cache = cache, dm_sync = new_sync, dm_ws = False,
     dm_running = False, dm_reconnect_delay = WS_RECONNECT_BASE_DELAY, dm_pending = [], dm_futures = [],
     dm_sent = [], dm_sleeps = []\<rparr>"

definition pid_file :: "daemon \<Rightarrow> path" where
  "pid_file d = ca_home (dm_cache d) @ [''daemon.pid'']"

text \<open>\<open>start\<close> up to the connection loop; \<open>str(os.getpid())\<close> is an argument.\<close>

definition daemon_start :: "int \<Rightarrow> daemon \<Rightarrow> exn option \<times> daemon" where
  "daemon_start pid d = (let d1 = d\<lparr>dm_running := True\<rparr> in
     case fs_write (pid_file d) (JsonText (VInt pid)) (ca_fs (dm_cache d)) of
       Inl e \<Rightarrow> (Some e, d1)
     | Inr fs \<Rightarrow> (None, d1\<lparr>dm_cache := (dm_cache d)\<lparr>ca_fs := fs\<rparr>, dm_sync := sync_start (dm_sync d)\<rparr>))"

definition daemon_stop :: "daemon \<Rightarrow> daemon" where
  "daemon_stop d = d\<lparr>dm_running := False, dm_sync := sync_stop (dm_sync d),
     dm_cache := (dm_cache d)\<lparr>ca_fs := fs_unlink (pid_file d) (ca_fs (dm_cache d))\<rparr>\<rparr>"

text \<open>\<open>is_running\<close>: \<open>alive\<close> says whether signal 0 reaches the process. A stale or unreadable file goes.\<close>

definition daemon_is_running :: "(int \<Rightarrow> bool) \<Rightarrow> path \<Rightarrow> fs \<Rightarrow> (exn + bool) \<times> fs" where
  "daemon_is_running alive home fs = (let p = home @ [''daemon.pid''] in
     if \<not> fs_exists fs p then (Inr False, fs)
     else if fs_is_dir fs p then (Inl (OSError ''Is a directory''), fs)
     else let pid = (case fs_read fs p of
             Inr (JsonText (VInt i)) \<Rightarrow> Some i | Inr (Text t) \<Rightarrow> py_int (py_strip t) | _ \<Rightarrow> None) in
       (case pid of
          Some i \<Rightarrow> (if alive i then (Inr True, fs) else (Inr False, fs_unlink p fs))
        | None \<Rightarrow> (Inr False, fs_unlink p fs)))"

text \<open>The outside of the daemon: rendering, fresh ids, the clock, whether a send succeeds.\<close>

record daemon_env =
  dx_str :: "pyval \<Rightarrow> string"
  dx_uuid :: string
  dx_now :: real
  dx_send :: "exn option"
  dx_sync :: sync_env

definition daemon_send :: "daemon_env \<Rightarrow> rpc_msg \<Rightarrow> daemon \<Rightarrow> exn option \<times> daemon" where
  "daemon_send env m d = (case to_json (dx_str env) m of
       Inl e \<Rightarrow> (Some e, d)
     | Inr j \<Rightarrow> (case dx_send env of Some e \<Rightarrow> (Some e, d) | None \<Rightarrow> (None, d\<lparr>dm_sent := dm_sent d @ [j]\<rparr>)))"

section \<open>Calls from the server\<close>

definition invalidated_file :: "daemon_env \<Rightarrow> pyval \<Rightarrow> cache \<Rightarrow> path" where
  "invalidated_file env package c = path_join (metadata_dir (ca_home c))
     ((case package of VStr s \<Rightarrow> s | _ \<Rightarrow> py_repr (dx_str env) package) @ ''.json'')"

definition handle_cache_invalidate :: "daemon_env \<Rightarrow> pyval \<Rightarrow> daemon \<Rightarrow> (exn + pyval) \<times> daemon" where
  "handle_cache_invalidate env params d = (case py_get params ''package'' (VStr []) of
       Inl e \<Rightarrow> (Inl e, d)
     | Inr package \<Rightarrow>
         (let p = invalidated_file env package (dm_cache d); ok = str_dict [(''status'', VStr ''ok'')] in
          if \<not> truthy package then (Inr ok, d)
          else if fs_is_dir (ca_fs (dm_cache d)) p then (Inl (OSError ''Is a directory''), d)
          else (Inr ok, d\<lparr>dm_cache := (dm_cache d)\<lparr>ca_fs := fs_unlink p (ca_fs (dm_cache d))\<rparr>\<rparr>)))"

definition handle_sync_trigger :: "daemon_env \<Rightarrow> daemon \<Rightarrow> (exn + pyval) \<times> daemon" where
  "handle_sync_trigger env d = (case do_sync (dx_sync env) (dm_sync d) (dm_cache d) of
     (r, s, c) \<Rightarrow> (map_result (\<lambda>x. str_dict [(''status'', VStr ''ok''), (''updated'', VInt (int (sr_metadata_updated x)))]) r,
       d\<lparr>dm_sync := s, dm_cache := c\<rparr>))"

definition handle_status :: "daemon \<Rightarrow> pyval" where
  "handle_status d = str_dict [(''status'', VStr ''running''),
     (''cache_size_mb'', VFloat (cs_total_size_mb (stats (dm_cache d)))), (''sync_running'', VBool (sn_running (dm_sync d)))]"

definition daemon_dispatch :: "daemon_env \<Rightarrow> pyval \<Rightarrow> pyval \<Rightarrow> daemon \<Rightarrow> (exn + pyval) \<times> daemon" where
  "daemon_dispatch env meth params d =
     (if \<not> hashable meth then (Inl (TypeError ''unhashable type''), d)
      else if meth = VStr ''cache.invalidate'' then handle_cache_invalidate env params d
      else if meth = VStr ''sync.trigger'' then handle_sync_trigger env d
      else if meth = VStr ''status'' then (Inr (handle_status d), d)
      else (Inr (str_dict [(''error'', VStr (''Unknown method: '' @
             (case meth of VStr s \<Rightarrow> s | _ \<Rightarrow> py_repr (dx_str env) meth)))]), d))"

definition daemon_settle :: "nat \<Rightarrow> future \<Rightarrow> daemon \<Rightarrow> daemon" where
  "daemon_settle n f d = (if dm_futures d ! n = Waiting then d\<lparr>dm_futures := (dm_futures d)[n := f]\<rparr> else d)"

text \<open>The exception an error message stands for; looking at an error that is no dict raises.\<close>

definition daemon_error :: "daemon_env \<Rightarrow> rpc_msg \<Rightarrow> exn + exn" where
  "daemon_error env m = (if \<not> truthy (rm_error m) then Inr (OtherError ''Exception'' ''Unknown'')
     else map_result (\<lambda>v. OtherError ''Exception'' (case v of VStr t \<Rightarrow> t | _ \<Rightarrow> py_repr (dx_str env) v))
       (py_get (rm_error m) ''message'' (VStr ''Unknown error'')))"

definition handle_daemon_message :: "daemon_env \<Rightarrow> rpc_msg \<Rightarrow> daemon \<Rightarrow> exn option \<times> daemon" where
  "handle_daemon_message env m d =
     (if rm_type m = MT_HEARTBEAT then
        (if dm_ws d then daemon_send env (make_heartbeat_ack (dx_uuid env) (dx_now env) (rm_id m)) d else (None, d))
      else if rm_type m = MT_RESULT \<or> rm_type m = MT_ERROR then
        (if \<not> hashable (rm_id m) then (Some (TypeError ''unhashable type''), d)
         else case dget (dm_pending d) (rm_id m) of
             None \<Rightarrow> (None, d)
           | Some n \<Rightarrow> (let d1 = d\<lparr>dm_pending := ddel (rm_id m) (dm_pending d)\<rparr> in
               if dm_futures d1 ! n \<noteq> Waiting then (None, d1)
               else if rm_type m = MT_RESULT then (None, daemon_settle n (Done (rm_result m)) d1)
               else case daemon_error env m of
                   Inl e \<Rightarrow> (Some e, d1) | Inr e \<Rightarrow> (None, daemon_settle n (Raised e) d1)))
      else if rm_type m = MT_CALL then
        (case daemon_dispatch env (py_or (rm_method m) (VStr [])) (rm_params m) d of
           (Inl e, d1) \<Rightarrow> (Some e, d1)
         | (Inr r, d1) \<Rightarrow> (if dm_ws d1 then daemon_send env (make_result (dx_uuid env) (dx_now env) (rm_id m) r) d1
             else (None, d1)))
      else (None, d))"

text \<open>One frame of the receive loop: any exception is skipped over.\<close>

definition daemon_frame :: "daemon_env \<times> pyval option \<Rightarrow> daemon \<Rightarrow> daemon" where
  "daemon_frame f d = (case from_json (dx_uuid (fst f)) (dx_now (fst f)) (snd f) of
       Inl e \<Rightarrow> d | Inr m \<Rightarrow> snd (handle_daemon_message (fst f) m d))"

section \<open>The connection loop\<close>

text \<open>
  An attempt to connect: refused, or a connection that brings frames and then ends. A clean end
  leaves the loop without an exception, any other end raises; \<open>stopped\<close> says that \<open>stop()\<close> ran meanwhile.
\<close>

datatype attempt = Refused | Connected daemon_env "(daemon_env \<times> pyval option) list" bool bool

definition daemon_init :: "daemon_env \<Rightarrow> rpc_msg" where
  "daemon_init env = make_session_init (dx_uuid env) (dx_now env) (system_dict (get_system_info (sx_host (dx_sync env))))"

definition back_off :: "daemon \<Rightarrow> daemon" where
  "back_off d = (if \<not> dm_running d then d else d\<lparr>dm_sleeps := dm_sleeps d @ [dm_reconnect_delay d],
     dm_reconnect_delay := min (dm_reconnect_delay d * 2) WS_RECONNECT_MAX_DELAY\<rparr>)"

definition run_connection ::
  "daemon_env \<Rightarrow> (daemon_env \<times> pyval option) list \<Rightarrow> bool \<Rightarrow> bool \<Rightarrow> daemon \<Rightarrow> daemon" where
  "run_connection env frames clean stopped d =
     (case daemon_send env (daemon_init env) (d\<lparr>dm_ws := True, dm_reconnect_delay := WS_RECONNECT_BASE_DELAY\<rparr>) of
        (Some e, d1) \<Rightarrow> back_off (if stopped then daemon_stop d1 else d1)
      | (None, d1) \<Rightarrow>
          (let d2 = fold daemon_frame frames d1; d3 = (if stopped then daemon_stop d2 else d2) in
           if clean then d3 else back_off d3))"

fun connection_step :: "attempt \<Rightarrow> daemon \<Rightarrow> daemon" where
  "connection_step Refused d = back_off d"
| "connection_step (Connected env frames clean stopped) d = run_connection env frames clean stopped d"

fun connection_loop :: "attempt list \<Rightarrow> daemon \<Rightarrow> daemon" where
  "connection_loop [] d = d"
| "connection_loop (a # as) d = (if \<not> dm_running d then d else connection_loop as (connection_step a d))"

section \<open>Calls of the daemon\<close>

definition rpc_call_start :: "daemon_env \<Rightarrow> string \<Rightarrow> pyval \<Rightarrow> daemon \<Rightarrow> (exn + nat) \<times> daemon" where
  "rpc_call_start env meth params d =
     (if \<not> dm_ws d then (Inl (ConnectionError ''Not connected to cloud''), d)
      else let msg = make_call (dx_uuid env) (dx_now env) meth params VNone; n = length (dm_futures d);
               d1 = d\<lparr>dm_futures := dm_futures d @ [Waiting], dm_pending := dset (rm_id msg) n (dm_pending d)\<rparr> in
           case daemon_send env msg d1 of (Some e, d2) \<Rightarrow> (Inl e, d2) | (None, d2) \<Rightarrow> (Inr n, d2))"

definition rpc_call_finish :: "nat \<Rightarrow> daemon \<Rightarrow> (exn + pyval) \<times> daemon" where
  "rpc_call_finish n d = (case dm_futures d ! n of
       Done v \<Rightarrow> (Inr v, d)
     | Raised e \<Rightarrow> (Inl e, d)
     | _ \<Rightarrow> (Inl (TimeoutError []), d\<lparr>dm_futures := (dm_futures d)[n := Cancelled]\<rparr>))"

section \<open>Reconnection\<close>

text \<open>What the connection loop decides by; frames do not touch it.\<close>

definition control :: "daemon \<Rightarrow> bool \<times> int \<times> int list" where
  "control d = (dm_running d, dm_reconnect_delay d, dm_sleeps d)"

lemma control_send: "control (snd (daemon_send env m d)) = control d"
  by (auto simp: daemon_send_def control_def split: sum.split option.split)

lemma control_dispatch: "control (snd (daemon_dispatch env meth params d)) = control d"
  by (auto simp: daemon_dispatch_def handle_cache_invalidate_def handle_sync_trigger_def control_def Let_def
      split: sum.split prod.split)

lemma control_frame: "control (daemon_frame f d) = control d"
proof (cases "from_json (dx_uuid (fst f)) (dx_now (fst f)) (snd f)")
  case (Inl e)
  then show ?thesis by (simp add: daemon_frame_def)
next
  case (Inr m)
  obtain r d1 where "daemon_dispatch (fst f) (py_or (rm_method m) (VStr [])) (rm_params m) d = (r, d1)"
    by (metis surj_pair)
  moreover from control_dispatch [of "fst f" "py_or (rm_method m) (VStr [])" "rm_params m" d] this
  have "control d1 = control d" by simp
  moreover have "control (daemon_settle n x d) = control d" "control (d\<lparr>dm_pending := q\<rparr>) = control d" for n x d q
    by (auto simp: daemon_settle_def control_def)
  ultimately have "control (snd (handle_daemon_message (fst f) m d)) = control d"
    by (cases r) (auto simp: handle_daemon_message_def control_send Let_def split: option.split sum.split)
  with Inr show ?thesis by (simp add: daemon_frame_def)
qed

lemma control_frames: "control (fold daemon_frame fs d) = control d"
  by (induction fs arbitrary: d) (simp_all add: control_frame)

text \<open>The delay stays between its bounds, and so does every sleep.\<close>

definition delays_ok :: "daemon \<Rightarrow> bool" where
  "delays_ok d \<longleftrightarrow> 1 \<le> dm_reconnect_delay d \<and> dm_reconnect_delay d \<le> 60 \<and> (\<forall>s\<in>set (dm_sleeps d). 1 \<le> s \<and> s \<le> 60)"

lemma delays_ok_control: "control d = (r, t, l) \<Longrightarrow> delays_ok d \<longleftrightarrow> 1 \<le> t \<and> t \<le> 60 \<and> (\<forall>s\<in>set l. 1 \<le> s \<and> s \<le> 60)"
  by (simp add: delays_ok_def control_def)

lemma back_off_ok: "delays_ok d \<Longrightarrow> delays_ok (back_off d)"
  by (auto simp: delays_ok_def back_off_def WS_RECONNECT_MAX_DELAY_def min_def)

lemma stop_ok: "delays_ok (daemon_stop d) = delays_ok d"
  by (simp add: delays_ok_def daemon_stop_def)

lemma connection_step_ok: "delays_ok d \<Longrightarrow> delays_ok (connection_step a d)"
proof (cases a)
  case (Connected env frames clean stopped)
  assume d: "delays_ok d"
  let ?d = "d\<lparr>dm_ws := True, dm_reconnect_delay := WS_RECONNECT_BASE_DELAY\<rparr>"
  have ok: "delays_ok ?d" using d by (simp add: delays_ok_def WS_RECONNECT_BASE_DELAY_def)
  obtain e d1 where s: "daemon_send env (daemon_init env) ?d = (e, d1)" by (metis surj_pair)
  then have "control d1 = control ?d" using control_send [of env "daemon_init env" ?d] by simp
  with ok have ok1: "delays_ok d1" by (simp add: delays_ok_def control_def)
  moreover have "delays_ok (fold daemon_frame frames d1)"
    using ok1 control_frames [of frames d1] by (simp add: delays_ok_def control_def)
  ultimately show ?thesis
    using Connected s by (auto simp: run_connection_def back_off_ok stop_ok Let_def split: option.split)
qed (simp add: back_off_ok)

lemma connection_loop_ok: "delays_ok d \<Longrightarrow> delays_ok (connection_loop as d)"
  by (induction as d rule: connection_loop.induct) (simp_all add: connection_step_ok)

lemma refused_sleeps:
  "dm_running d \<Longrightarrow> dm_reconnect_delay d = min (2 ^ k) 60 \<Longrightarrow>
   dm_sleeps (connection_loop (replicate n Refused) d) = dm_sleeps d @ map (\<lambda>i. min (2 ^ i) 60) [k..<k + n]"
proof (induction n arbitrary: k d)
  case 0
  then show ?case by simp
next
  case (Suc n)
  have "dm_reconnect_delay (back_off d) = min (2 ^ Suc k) 60"
    using Suc.prems by (simp add: back_off_def WS_RECONNECT_MAX_DELAY_def min_def)
  moreover have "dm_running (back_off d)" using Suc.prems(1) by (simp add: back_off_def)
  ultimately have "dm_sleeps (connection_loop (replicate n Refused) (back_off d)) =
      dm_sleeps (back_off d) @ map (\<lambda>i. min (2 ^ i) 60) [Suc k..<Suc k + n]" by (intro Suc.IH)
  moreover have "[k..<k + Suc n] = k # [Suc k..<Suc k + n]" by (simp add: upt_conv_Cons)
  ultimately show ?case using Suc.prems by (simp add: back_off_def)
qed

text \<open>C31: While the server refuses, a daemon waits 1, 2, 4, ... seconds between its attempts, never more
  than a minute; whatever connections come and go, every wait is between one second and one
  minute.\<close>

theorem reconnect_delays_double_to_a_minute:
  assumes "daemon_start pid (new_daemon config cache) = (None, d)"
  shows "dm_sleeps (connection_loop (replicate n Refused) d) = map (\<lambda>i. min (2 ^ i) 60) [0..<n] \<and>
    (\<forall>s\<in>set (dm_sleeps (connection_loop attempts d)). 1 \<le> s \<and> s \<le> 60)"
proof -
  have d: "dm_running d" "dm_reconnect_delay d = 1" "dm_sleeps d = []"
    using assms by (auto simp: daemon_start_def new_daemon_def WS_RECONNECT_BASE_DELAY_def Let_def split: sum.splits)
  then have "delays_ok d" by (simp add: delays_ok_def)
  from connection_loop_ok [OF this, of attempts] refused_sleeps [of d 0 n] d show ?thesis
    by (simp add: delays_ok_def)
qed

definition demo_daemon :: daemon where
  "demo_daemon = new_daemon (CpipConfig demo_home) \<lparr>ca_max_mb = 100, ca_home = [''h''], ca_index = [], ca_disk = None,
     ca_fs = [([''h''], Dir)], ca_writable = True\<rparr>"

theorem reconnect_delays_double_to_a_minute_witness:
  "\<exists>d. daemon_start 7 demo_daemon = (None, d) \<and>
     dm_sleeps (connection_loop (replicate 8 Refused) d) = [1, 2, 4, 8, 16, 32, 60, 60]"
proof -
  obtain d where d: "daemon_start 7 demo_daemon = (None, d)"
    by (simp add: demo_daemon_def daemon_start_def new_daemon_def pid_file_def fs_write_def fs_is_dir_def fs_node_def Let_def)
  note r = reconnect_delays_double_to_a_minute [OF d [unfolded demo_daemon_def], of 8 "[]", THEN conjunct1]
  have "map (\<lambda>i. min (2 ^ i) 60) [0..<8] = [1, 2, 4, 8, 16, 32, 60, (60 :: int)]" by (simp add: upt_rec)
  with d r show ?thesis by auto
qed

section \<open>A server can delete JSON files\<close>

text \<open>C32: The package of a \<open>cache.invalidate\<close> call is not checked: for every file of the device whose
  name ends in \<open>.json\<close> there is a call that deletes it, wherever it is, and is answered with ok.\<close>

theorem invalidate_deletes_any_json_file:
  assumes "q \<noteq> []" and "\<And>c. c \<in> set q \<Longrightarrow> c \<noteq> [] \<and> c \<noteq> ''.'' \<and> CHR ''/'' \<notin> set c"
    and "path_name q = n @ ''.json''" and "\<not> fs_is_dir (ca_fs (dm_cache d)) q"
  shows "let (r, d') = daemon_dispatch env (VStr ''cache.invalidate'')
             (str_dict [(''package'', VStr (take (length (path_str q) - 5) (path_str q)))]) d in
    r = Inr (str_dict [(''status'', VStr ''ok'')]) \<and>
    (\<forall>p. fs_node (ca_fs (dm_cache d')) p = (if p = q then None else fs_node (ca_fs (dm_cache d)) p))"
proof -
  let ?pkg = "take (length (path_str q) - 5) (path_str q)"
  obtain q0 where q: "q = q0 @ [n @ ''.json'']" using assms(1,3) by (cases q rule: rev_cases) (auto simp: path_name_def)
  have join: "\<exists>w. py_join ''/'' (xs @ [n @ ''.json'']) = w @ ''.json''" for xs
  proof (induction xs)
    case Nil
    then show ?case by simp
  next
    case (Cons x xs)
    then obtain w where "py_join ''/'' (xs @ [n @ ''.json'']) = w @ ''.json''" by blast
    then have "py_join ''/'' ((x # xs) @ [n @ ''.json'']) = (x @ ''/'' @ w) @ ''.json''" by (cases xs) simp_all
    then show ?case by blast
  qed
  obtain w where w: "py_join ''/'' q = w @ ''.json''" using join [of q0] by (auto simp: q)
  then have str: "path_str q = (CHR ''/'' # w) @ ''.json''" by (simp add: path_str_def)
  then have pkg: "?pkg = CHR ''/'' # w" by simp
  have "path_parts (?pkg @ ''.json'') = q"
  proof -
    have "?pkg @ ''.json'' = CHR ''/'' # py_join [CHR ''/''] q" using w pkg by simp
    moreover have "py_split CHR ''/'' (py_join [CHR ''/''] q) = q" by (rule py_split_join) (use assms(1,2) in auto)
    ultimately have "py_split CHR ''/'' (?pkg @ ''.json'') = [] # q" by simp
    moreover have "filter (\<lambda>c. c \<noteq> [] \<and> c \<noteq> ''.'') q = q" using assms(2) by (simp add: filter_id_conv)
    ultimately show ?thesis by (simp add: path_parts_def)
  qed
  then have f: "invalidated_file env (VStr ?pkg) (dm_cache d) = q"
    by (simp add: invalidated_file_def path_join_def pkg)
  have "truthy (VStr ?pkg)" by (simp add: pkg)
  moreover have "py_get (str_dict [(''package'', VStr ?pkg)]) ''package'' (VStr []) = Inr (VStr ?pkg)"
    by (simp add: py_get_def str_dict_def)
  ultimately show ?thesis
    using assms(4) fs_node_unlink [OF assms(1)]
    by (simp add: daemon_dispatch_def handle_cache_invalidate_def Let_def f)
qed

theorem invalidate_deletes_any_json_file_witness:
  "\<forall>env. let d = demo_daemon\<lparr>dm_cache := (dm_cache demo_daemon)\<lparr>ca_fs := [([''sdcard''], Dir), ([''sdcard'', ''keys.json''], File (Text ''x''))]\<rparr>\<rparr>;
       (r, d') = daemon_dispatch env (VStr ''cache.invalidate'') (str_dict [(''package'', VStr ''/sdcard/keys'')]) d in
   fs_node (ca_fs (dm_cache d')) [''sdcard'', ''keys.json''] = None"
proof
  fix env
  let ?d = "demo_daemon\<lparr>dm_cache := (dm_cache demo_daemon)\<lparr>ca_fs := [([''sdcard''], Dir), ([''sdcard'', ''keys.json''], File (Text ''x''))]\<rparr>\<rparr>"
  have "\<not> fs_is_dir (ca_fs (dm_cache ?d)) [''sdcard'', ''keys.json'']" by (simp add: fs_is_dir_def fs_node_def)
  moreover have "c \<noteq> [] \<and> c \<noteq> ''.'' \<and> CHR ''/'' \<notin> set c" if "c \<in> set [''sdcard'', ''keys.json'']" for c using that by auto
  moreover have "path_name [''sdcard'', ''keys.json''] = ''keys'' @ ''.json''" by (simp add: path_name_def)
  ultimately show "let d = demo_daemon\<lparr>dm_cache := (dm_cache demo_daemon)\<lparr>ca_fs := [([''sdcard''], Dir), ([''sdcard'', ''keys.json''], File (Text ''x''))]\<rparr>\<rparr>;
       (r, d') = daemon_dispatch env (VStr ''cache.invalidate'') (str_dict [(''package'', VStr ''/sdcard/keys'')]) d in
   fs_node (ca_fs (dm_cache d')) [''sdcard'', ''keys.json''] = None"
    using invalidate_deletes_any_json_file [of "[''sdcard'', ''keys.json'']" "''keys''" ?d env]
    by (auto simp: path_str_def Let_def)
qed

section \<open>The daemon at the server\<close>

lemma daemon_init_fields:
  assumes "dx_uuid denv \<noteq> []"
  shows "rm_type (daemon_init denv) = MT_SESSION_INIT" "well_formed (daemon_init denv)" "canonical_msg (daemon_init denv)"
    "rm_params (daemon_init denv) = system_dict (get_system_info (sx_host (dx_sync denv)))"
proof -
  let ?i = "get_system_info (sx_host (dx_sync denv))"
  have p: "truthy (system_dict ?i)" "is_dict (system_dict ?i)"
    by (simp_all add: system_dict_def str_dict_def is_dict_def)
  then show "rm_type (daemon_init denv) = MT_SESSION_INIT" "well_formed (daemon_init denv)" "canonical_msg (daemon_init denv)"
    "rm_params (daemon_init denv) = system_dict ?i"
    using assms system_dict_canonical
    by (simp_all add: daemon_init_def make_session_init_def rpc_message_def py_or_def well_formed_def canonical_msg_def is_dict_def)
qed

lemma hub_connect_replaces:
  assumes "hub_connect net t t' d w md h = (Inr r, h')" and "hashable d" and "dget (hb_conns h) d = Some r1"
    and "r1 < length (hb_objs h)"
  shows "dget (hb_conns h') d = Some r \<and> (\<exists>b. (SClose (dc_socket (hb_objs h ! r1)), b) \<in> set (hb_log h'))"
  using assms by (auto simp: hub_connect_def sock_op_eq Let_def dict_simps socket_of_def split: bool.splits option.splits)

text \<open>The session.init a daemon sends does not name its device: the server keeps the connection under
  the id unknown, so all daemons share one identity, and the next one to connect
  takes the first one's place and closes its socket.\<close>

theorem daemons_share_one_identity:
  assumes "ws_open net t1 t1' w1 sv = (True, hn1, sv1)" and "dx_uuid denv \<noteq> []"
    and "to_json (dx_str denv) (daemon_init denv) = Inr j"
    and "ws_message net env (Some j) hn1 sv1 = (go, hn1', sv1')"
    and "ws_open net t2 t2' w2 sv1' = (True, hn2, sv2)"
  shows "hd_device_id hn1' = unknown_id \<and> hd_conn hn1' = hd_conn hn1 \<and>
    dget (hb_conns (sv_hub sv1')) unknown_id = hd_conn hn1 \<and>
    dget (hb_conns (sv_hub sv2)) unknown_id = hd_conn hn2 \<and> (\<exists>b. (SClose w1, b) \<in> set (hb_log (sv_hub sv2)))"
proof -
  have hash: "hashable unknown_id" by (simp add: unknown_id_def)
  from assms(1) obtain h1 r1 where c1: "hub_connect net t1 t1' unknown_id w1 VNone (sv_hub sv) = (Inr r1, h1)"
    and s1: "sv_hub sv1 = h1" "hd_conn hn1 = Some r1" "hd_device_id hn1 = unknown_id"
    by (auto simp: ws_open_def split: prod.splits sum.splits)
  from c1 hash have r1: "dget (hb_conns h1) unknown_id = Some r1" "r1 < length (hb_objs h1)"
    "dc_device_id (hb_objs h1 ! r1) = unknown_id" "dc_socket (hb_objs h1 ! r1) = w1"
    by (auto simp: hub_connect_def sock_op_eq Let_def dict_simps split: bool.splits option.splits)
  note m = daemon_init_fields [OF assms(2)]
  have parse: "from_json (we_uuid env) (we_now env) (Some j) = Inr ((daemon_init denv)\<lparr>rm_timestamp := we_now env\<rparr>)"
    using message_wire [OF m(2,3), of "dx_str denv" "we_uuid env" "we_now env"] assms(3) by auto
  have cid: "conn_id hn1 sv1 = unknown_id" using r1(3) by (simp add: conn_id_def s1)
  let ?sv = "sv1\<lparr>sv_hub := conn_set_metadata (rm_params (daemon_init denv)) r1 h1\<rparr>"
  obtain e sv' where snd: "ws_send net env (session_ack env unknown_id) hn1 ?sv = (e, sv')" by (metis surj_pair)
  have same: "hn1\<lparr>hd_device_id := unknown_id\<rparr> = hn1" using s1(3) by (cases hn1) simp
  have "process_message net env ((daemon_init denv)\<lparr>rm_timestamp := we_now env\<rparr>) hn1 sv1 = (e, hn1, sv')"
    using snd cid s1 by (simp add: same process_message_def m on_session_init_def system_dict_no_device Let_def conn_id_def)
  then have msg: "hn1' = hn1" "hb_conns (sv_hub sv1') = hb_conns (sv_hub sv')" "hb_objs (sv_hub sv1') = hb_objs (sv_hub sv')"
    using assms(4) by (auto simp: ws_message_def parse send_error_raises split: option.splits exn.splits)
  have sv': "hb_conns (sv_hub sv') = hb_conns h1" "hb_objs (sv_hub sv') = hb_objs (sv_hub ?sv)"
    using snd by (auto simp: ws_send_def sock_op_eq conn_set_metadata_def split: sum.splits)
  have r1': "dget (hb_conns (sv_hub sv1')) unknown_id = Some r1" "r1 < length (hb_objs (sv_hub sv1'))"
    "dc_socket (hb_objs (sv_hub sv1') ! r1) = w1"
    using r1 by (simp_all add: msg sv' conn_set_metadata_def)
  from assms(5) obtain h2 r2 where c2: "hub_connect net t2 t2' unknown_id w2 VNone (sv_hub sv1') = (Inr r2, h2)"
    and s2: "sv_hub sv2 = h2" "hd_conn hn2 = Some r2"
    by (auto simp: ws_open_def split: prod.splits sum.splits)
  from hub_connect_replaces [OF c2 hash r1'(1,2)] r1'(3)
  have "dget (hb_conns h2) unknown_id = Some r2" "\<exists>b. (SClose w1, b) \<in> set (hb_log h2)" by simp_all
  with s1 s2 msg r1'(1) show ?thesis by simp
qed

theorem daemons_share_one_identity_witness:
  "\<exists>denv j hn1 sv1 go hn1' sv1' hn2 sv2. ws_open once_net 0 0 1 (sy_server new_system) = (True, hn1, sv1) \<and>
     to_json (dx_str denv) (daemon_init denv) = Inr j \<and> ws_message once_net demo_env (Some j) hn1 sv1 = (go, hn1', sv1') \<and>
     ws_open once_net 1 1 2 sv1' = (True, hn2, sv2) \<and> (\<exists>b. (SClose 1, b) \<in> set (hb_log (sv_hub sv2)))"
proof -
  obtain denv :: daemon_env where u: "dx_uuid denv \<noteq> []" by (metis daemon_env.select_convs(2) not_Cons_self)
  note m = daemon_init_fields [OF u]
  obtain j where j: "to_json (dx_str denv) (daemon_init denv) = Inr j"
    "from_json (we_uuid demo_env) (we_now demo_env) (Some j) = Inr ((daemon_init denv)\<lparr>rm_timestamp := we_now demo_env\<rparr>)"
    using message_wire [OF m(2,3)] by blast
  obtain hn1 sv1 where o1: "ws_open once_net 0 0 1 (sy_server new_system) = (True, hn1, sv1)"
    and h1: "hd_device_id hn1 = unknown_id" "hd_conn hn1 = Some 0" "hb_log (sv_hub sv1) = [(SAccept 1, True)]"
      "hb_objs (sv_hub sv1) \<noteq> []" "dc_device_id (hb_objs (sv_hub sv1) ! 0) = unknown_id"
    by (simp add: ws_open_def hub_connect_def sock_op_eq once_net_def new_system_def new_hub_def Let_def unknown_id_def)
  obtain go hn1' sv1' where msg: "ws_message once_net demo_env (Some j) hn1 sv1 = (go, hn1', sv1')" by (metis prod_cases3)
  have "(SAccept 2, True) \<notin> set (hb_log (sv_hub sv1'))"
    using msg h1 by (auto simp: ws_message_def j(2) process_message_def m on_session_init_def system_dict_no_device
        conn_id_def Let_def ws_send_def sock_op_eq conn_set_metadata_def send_error_raises split: sum.splits option.splits exn.splits)
  then obtain hn2 sv2 where o2: "ws_open once_net 1 1 2 sv1' = (True, hn2, sv2)"
    by (auto simp: ws_open_def hub_connect_def sock_op_eq once_net_def Let_def unknown_id_def split: bool.split option.split)
  from daemons_share_one_identity [OF o1 u j(1) msg o2] o1 j(1) msg o2 show ?thesis by blast
qed

end
