(* ===== verification/Doctor.thy ===== *)
theory Doctor
  imports ClientConfig Platform
begin

text \<open>
  \<open>client/doctor.py\<close>: the diagnostics. A check gives its result or raises, and \<open>run_all\<close> turns what is
  raised into a failed result under the name of the function. The cache check repairs the cache
  as it looks, so the checks pass the cache along. Text is UTF-8.
\<close>

record check_result =
  ck_name :: string
  ck_passed :: bool
  ck_message :: string
  ck_fix :: string

text \<open>
  What the checks ask from outside: the health endpoint, which packages \<open>find_spec\<close> finds, the host,
  \<open>str\<close> of foreign values and \<open>"{:.1f}".format\<close>.
\<close>

record doctor_env =
  do_health :: "string \<Rightarrow> exn + int \<times> (exn + pyval)"
  do_find_spec :: "string \<Rightarrow> bool"
  do_host :: host
  do_str :: "pyval \<Rightarrow> string"
  do_fmt1 :: "real \<Rightarrow> string"
  do_file :: file_env
  do_home :: path

definition check_python :: "doctor_env \<Rightarrow> check_result" where
  "check_python env = (case ho_python (do_host env) of (major, minor, micro) \<Rightarrow>
     (let ok = (major = 3 \<and> 10 \<le> minor) in
      \<lparr>ck_name = ''Python Version'', ck_passed = ok,
       ck_message = ''Python '' @ int_str major @ ''.'' @ int_str minor @ ''.'' @ int_str micro @
         (if ok then [] else '' (need '' @ [CHR 0xE2, CHR 0x89, CHR 0xA5] @ ''3.10)''),
       ck_fix = (if ok then [] else ''Install Python 3.10+: pkg install python'')\<rparr>))"

definition check_platform :: "doctor_env \<Rightarrow> check_result" where
  "check_platform env = (let i = get_system_info (do_host env) in
     \<lparr>ck_name = ''Platform'', ck_passed = True,
      ck_message = sy_platform_tag i @ '' | '' @ int_str (sy_cpu_count i) @ '' CPUs | '' @
        int_str (sy_total_memory_mb i) @ ''MB RAM'' @ (if sy_is_termux i then '' | Termux'' else []), ck_fix = []\<rparr>)"

definition check_directories :: "doctor_env \<Rightarrow> fs \<Rightarrow> check_result" where
  "check_directories env fs =
     (let missing = filter (\<lambda>d. \<not> fs_exists fs d)
        [do_home env, cache_root (do_home env), wheels_dir (do_home env), layers_dir (do_home env)] in
      if missing \<noteq> [] then \<lparr>ck_name = ''Directories'', ck_passed = False,
        ck_message = ''Missing: '' @ py_repr (do_str env) (VList (map (\<lambda>d. VStr (path_str d)) missing)),
        ck_fix = ''Run: cpip config --init''\<rparr>
      else \<lparr>ck_name = ''Directories'', ck_passed = True, ck_message = ''All directories OK'', ck_fix = []\<rparr>)"

definition check_cache :: "doctor_env \<Rightarrow> cache \<Rightarrow> check_result \<times> cache" where
  "check_cache env c = (let st = stats c in
     case verify_integrity (do_file env) c of (issues, c') \<Rightarrow>
       (if issues \<noteq> [] then \<lparr>ck_name = ''Cache'', ck_passed = False,
           ck_message = nat_str (length issues) @ '' integrity issues'', ck_fix = ''Run: cpip cache --repair''\<rparr>
        else \<lparr>ck_name = ''Cache'', ck_passed = True,
           ck_message = do_fmt1 env (cs_total_size_mb st) @ ''/'' @ int_str (cs_max_size_mb st) @ ''MB | '' @
             nat_str (cs_num_wheels st) @ '' wheels | '' @ nat_str (cs_num_layers st) @ '' layers'', ck_fix = []\<rparr>, c'))"

definition check_cloud :: "doctor_env \<Rightarrow> cpip_config \<Rightarrow> check_result" where
  "check_cloud env config =
     (let unreachable = \<lparr>ck_name = ''Cloud'', ck_passed = False, ck_message = ''Unreachable'',
            ck_fix = ''Check network or set CPIP_API_URL''\<rparr>;
          show = (\<lambda>v. case v of VStr s \<Rightarrow> s | _ \<Rightarrow> py_repr (do_str env) v) in
      case do_health env (show (cc_api_url (cf_cloud config)) @ ''/health'') of
        Inl e \<Rightarrow> unreachable
      | Inr (status, body) \<Rightarrow>
          (if status \<noteq> 200 then unreachable
           else case bind_result body (\<lambda>b. py_get b ''version'' (VStr ''?'')) of
               Inl e \<Rightarrow> unreachable
             | Inr v \<Rightarrow> \<lparr>ck_name = ''Cloud'', ck_passed = True, ck_message = ''Connected | v'' @ show v, ck_fix = []\<rparr>))"

text \<open>\<open>device_id[:8]\<close> raises when the id is no text.\<close>

definition check_auth :: "cpip_config \<Rightarrow> exn + check_result" where
  "check_auth config = (if truthy (au_token (cf_auth config)) then
       (case au_device_id (cf_auth config) of
          VStr s \<Rightarrow> Inr \<lparr>ck_name = ''Auth'', ck_passed = True,
            ck_message = ''Authenticated (device: '' @ take 8 s @ ''...)'', ck_fix = []\<rparr>
        | _ \<Rightarrow> Inl (TypeError ''object is not subscriptable''))
     else Inr \<lparr>ck_name = ''Auth'', ck_passed = False, ck_message = ''Not authenticated'', ck_fix = ''Run: cpip login''\<rparr>)"

definition check_dependencies :: "doctor_env \<Rightarrow> check_result" where
  "check_dependencies env =
     (let missing = filter (\<lambda>p. \<not> do_find_spec env p) [''typer'', ''rich'', ''httpx'', ''websockets'', ''pydantic''] in
      if missing \<noteq> [] then \<lparr>ck_name = ''Dependencies'', ck_passed = False,
        ck_message = ''Missing: '' @ py_join '', '' missing, ck_fix = ''pip install '' @ py_join '' '' missing\<rparr>
      else \<lparr>ck_name = ''Dependencies'', ck_passed = True, ck_message = ''All core dependencies OK'', ck_fix = []\<rparr>)"

definition check_disk :: "doctor_env \<Rightarrow> check_result" where
  "check_disk env = (let mb = sy_available_disk_mb (get_system_info (do_host env)); ok = 500 < mb in
     \<lparr>ck_name = ''Disk Space'', ck_passed = ok, ck_message = int_str mb @ ''MB free'' @ (if ok then [] else '' (low!)''),
      ck_fix = (if ok then [] else ''Free up disk space or reduce cache: cpip cache --clear'')\<rparr>)"

text \<open>\<open>run_all\<close>: one result per check, in order\<close>

definition caught :: "string \<Rightarrow> exn + check_result \<Rightarrow> check_result" where
  "caught fname r = (case r of Inr c \<Rightarrow> c
     | Inl e \<Rightarrow> \<lparr>ck_name = fname, ck_passed = False, ck_message = exn_message e, ck_fix = []\<rparr>)"

definition run_all :: "doctor_env \<Rightarrow> cpip_config \<Rightarrow> cache \<Rightarrow> check_result list \<times> cache" where
  "run_all env config c = (let python = check_python env; plat = check_platform env;
       dirs = check_directories env (ca_fs c) in
     case check_cache env c of (cc, c') \<Rightarrow>
       ([python, plat, dirs, cc, check_cloud env config, caught ''_check_auth'' (check_auth config),
         check_dependencies env, check_disk env], c'))"

text \<open>The lines of the report, with the markup of the console\<close>

definition check_lines :: "check_result \<Rightarrow> string list" where
  "check_lines r =
     [''  '' @ (if ck_passed r then ''[cpip.success]'' @ [CHR 0xE2, CHR 0x9C, CHR 0x93] @ ''[/cpip.success]''
        else ''[cpip.error]'' @ [CHR 0xE2, CHR 0x9C, CHR 0x97] @ ''[/cpip.error]'') @
      '' [bold]'' @ ck_name r @ ''[/bold]: '' @ ck_message r] @
     (if \<not> ck_passed r \<and> ck_fix r \<noteq> [] then [''      [cpip.dim]fix: '' @ ck_fix r @ ''[/cpip.dim]''] else [])"

definition report_lines :: "check_result list \<Rightarrow> string list" where
  "report_lines rs =
     [newline # ''  [cpip.header]cpip doctor v'' @ VERSION @ ''[/cpip.header]'' @ [newline]] @ concat (map check_lines rs) @
     [newline # ''  [cpip.dim]'' @ nat_str (length (filter ck_passed rs)) @ ''/'' @ nat_str (length rs) @
       '' checks passed[/cpip.dim]'' @ [newline]]"

section \<open>What a run shows\<close>

lemma check_cache_passed: "ck_passed (fst (check_cache env c)) \<longleftrightarrow> fst (verify_integrity (do_file env) c) = []"
  by (simp add: check_cache_def Let_def split: prod.split)

lemma check_cache_state: "snd (check_cache env c) = snd (verify_integrity (do_file env) c)"
  by (simp add: check_cache_def Let_def split: prod.split)


definition demo_host :: host where
  "demo_host = \<lparr>ho_getenv = (\<lambda>k. None), ho_isdir = (\<lambda>p. False), ho_isfile = (\<lambda>p. False), ho_exists = (\<lambda>p. False),
     ho_which = (\<lambda>c. None), ho_platform = ''Linux'', ho_release = ''6'', ho_machine = ''x86_64'', ho_system = ''Linux'',
     ho_cpu_count = Inr (Some 4), ho_meminfo = Inr [''MemTotal: 2048000 kB''], ho_disk_free = Inr 1073741824,
     ho_home = ''/root'', ho_python = (3, 11, 0), ho_pointer_bytes = 8\<rparr>"

definition demo_doctor :: doctor_env where
  "demo_doctor = \<lparr>do_health = (\<lambda>u. Inl (ConnectionError [])), do_find_spec = (\<lambda>p. True), do_host = demo_host,
     do_str = (\<lambda>v. []), do_fmt1 = (\<lambda>r. []), do_file = text_env, do_home = [''h'']\<rparr>"

definition broken_cache :: cache where
  "broken_cache = demo_cache\<lparr>ca_fs := [([''a''], File (Text ''A''))]\<rparr>"


end
