(* ===== verification/Security.thy ===== *)
theory Security
  imports FileSystem
begin

text \<open>
  \<open>security/\<close> and \<open>builder/signer.py\<close>: encryption, package signatures on both sides, the audit log, the
  sandbox policy. AES-GCM, Ed25519, its PEM forms and random bytes are parameters; the laws
  a theorem needs of them are its hypotheses.
\<close>

section \<open>Encryption\<close>

text \<open>\<open>AESGCM(key).encrypt(nonce, data, None)\<close> and \<open>decrypt\<close>, None for an invalid tag\<close>

record aead =
  ae_encrypt :: "byte list \<Rightarrow> byte list \<Rightarrow> byte list \<Rightarrow> byte list"
  ae_decrypt :: "byte list \<Rightarrow> byte list \<Rightarrow> byte list \<Rightarrow> byte list option"

text \<open>\<open>random\<close>: the 32 bytes of \<open>os.urandom\<close>. The manager is its key.\<close>

definition new_crypto_manager :: "byte list option \<Rightarrow> byte list \<Rightarrow> exn + byte list" where
  "new_crypto_manager master_key random = (case master_key of
       None \<Rightarrow> Inr random
     | Some k \<Rightarrow> (if k = [] then Inr random
         else if length k \<noteq> 32 then Inl (ValueError ''Master key must be exactly 32 bytes'') else Inr k))"

definition encrypt :: "aead \<Rightarrow> byte list \<Rightarrow> byte list \<Rightarrow> byte list \<Rightarrow> string" where
  "encrypt a key nonce data = b64_encode (nonce @ ae_encrypt a key nonce data)"

definition decrypt :: "aead \<Rightarrow> byte list \<Rightarrow> string \<Rightarrow> exn + byte list" where
  "decrypt a key encrypted_b64 = (case b64_decode encrypted_b64 of
       None \<Rightarrow> Inl (ValueError ''Incorrect padding'')
     | Some raw \<Rightarrow>
         (if length raw < 12 then Inl (ValueError ''Invalid encrypted data length'')
          else case ae_decrypt a key (take 12 raw) (drop 12 raw) of
              None \<Rightarrow> Inl (OtherError ''InvalidTag'' [])
            | Some data \<Rightarrow> Inr data))"

section \<open>Signing\<close>

text \<open>Ed25519 and PEM: \<open>None\<close> is a text that is no key.\<close>

record ('priv, 'pub) ed25519 =
  ed_public :: "'priv \<Rightarrow> 'pub"
  ed_sign :: "'priv \<Rightarrow> content \<Rightarrow> byte list"
  ed_verify :: "'pub \<Rightarrow> byte list \<Rightarrow> content \<Rightarrow> bool"
  ed_load_private :: "content \<Rightarrow> exn + 'priv"
  ed_load_public :: "string \<Rightarrow> exn + 'pub option"
  ed_public_pem :: "'pub \<Rightarrow> string"
  ed_private_pem :: "'priv \<Rightarrow> string"

record ('priv, 'pub) package_signer =
  ps_private :: "'priv option"
  ps_public :: "'pub option"

definition signer_generate :: "('priv, 'pub) ed25519 \<Rightarrow> 'priv \<Rightarrow> ('priv, 'pub) package_signer" where
  "signer_generate ed private = \<lparr>ps_private = Some private, ps_public = Some (ed_public ed private)\<rparr>"

definition signer_from_key_file ::
  "('priv, 'pub) ed25519 \<Rightarrow> fs \<Rightarrow> path \<Rightarrow> exn + ('priv, 'pub) package_signer" where
  "signer_from_key_file ed fs p =
     map_result (signer_generate ed) (bind_result (fs_read fs p) (ed_load_private ed))"

definition sign_file :: "('priv, 'pub) ed25519 \<Rightarrow> fs \<Rightarrow> path \<Rightarrow> ('priv, 'pub) package_signer \<Rightarrow> exn + string" where
  "sign_file ed fs p s = (case ps_private s of
       None \<Rightarrow> Inl (ValueError ''No private key available'')
     | Some k \<Rightarrow> map_result (\<lambda>data. b64_encode (ed_sign ed k data)) (fs_read fs p))"

definition b64_or_error :: "string \<Rightarrow> exn + byte list" where
  "b64_or_error s = (case b64_decode s of None \<Rightarrow> Inl (ValueError ''Incorrect padding'') | Some b \<Rightarrow> Inr b)"

definition signer_verify_file ::
  "('priv, 'pub) ed25519 \<Rightarrow> fs \<Rightarrow> path \<Rightarrow> string \<Rightarrow> ('priv, 'pub) package_signer \<Rightarrow> exn + bool" where
  "signer_verify_file ed fs p signature_b64 s = (case ps_public s of
       None \<Rightarrow> Inl (ValueError ''No public key available'')
     | Some k \<Rightarrow> bind_result (fs_read fs p) (\<lambda>data.
         map_result (\<lambda>signature. ed_verify ed k signature data) (b64_or_error signature_b64)))"

definition export_public_key :: "('priv, 'pub) ed25519 \<Rightarrow> ('priv, 'pub) package_signer \<Rightarrow> exn + string" where
  "export_public_key ed s = (case ps_public s of
       None \<Rightarrow> Inl (ValueError ''No public key'') | Some k \<Rightarrow> Inr (ed_public_pem ed k))"

definition export_private_key :: "('priv, 'pub) ed25519 \<Rightarrow> ('priv, 'pub) package_signer \<Rightarrow> exn + string" where
  "export_private_key ed s = (case ps_private s of
       None \<Rightarrow> Inl (ValueError ''No private key'') | Some k \<Rightarrow> Inr (ed_private_pem ed k))"

section \<open>Verification on the device\<close>

text \<open>\<open>ed_load_public\<close> gives None for a key that is not Ed25519.\<close>

definition load_public_key ::
  "('priv, 'pub) ed25519 \<Rightarrow> string \<Rightarrow> string \<Rightarrow> (string, 'pub) dict \<Rightarrow> exn + (string, 'pub) dict" where
  "load_public_key ed key_id pem keys = bind_result (ed_load_public ed pem) (\<lambda>k. case k of
       None \<Rightarrow> Inl (ValueError ''Must be an Ed25519 public key'')
     | Some key \<Rightarrow> Inr (dset key_id key keys))"

definition keys_to_try :: "(string, 'pub) dict \<Rightarrow> string option \<Rightarrow> 'pub list" where
  "keys_to_try keys key_id = (case key_id of
       None \<Rightarrow> dvalues keys
     | Some i \<Rightarrow> (if i = [] then dvalues keys
         else case dget keys i of Some k \<Rightarrow> [k] | None \<Rightarrow> dvalues keys))"

definition verify_file ::
  "('priv, 'pub) ed25519 \<Rightarrow> fs \<Rightarrow> path \<Rightarrow> string \<Rightarrow> string option \<Rightarrow> (string, 'pub) dict \<Rightarrow> exn + bool" where
  "verify_file ed fs p signature_b64 key_id keys =
     (if keys = [] then Inr False
      else bind_result (fs_read fs p) (\<lambda>data.
        map_result (\<lambda>signature. list_ex (\<lambda>k. ed_verify ed k signature data) (keys_to_try keys key_id))
          (b64_or_error signature_b64)))"

section \<open>Audit log\<close>

text \<open>The lines of \<open>audit.jsonl\<close>, as values, and of \<open>audit.log\<close>, as messages.\<close>

record audit_log =
  al_events :: "pyval list"
  al_messages :: "string list"

text \<open>\<open>al_open\<close> says whether the file can be opened for appending; \<open>text\<close> is \<open>json.dumps\<close> as a string.\<close>

record audit_env =
  al_open :: bool
  al_str :: "pyval \<Rightarrow> string"
  al_text :: "pyval \<Rightarrow> string"
  al_now :: real

text \<open>\<open>__init__\<close> makes the directory and opens the log of messages: where either is refused, importing the
  module fails.\<close>

definition new_audit_logger :: "path \<Rightarrow> fs \<Rightarrow> exn + fs" where
  "new_audit_logger log_dir fs = bind_result (fs_mkdirs log_dir fs) (\<lambda>fs1.
     let p = log_dir @ [''audit.log''] in
     if fs_is_dir fs1 p then Inl (OSError ''Is a directory'')
     else if fs_exists fs1 p then Inr fs1 else fs_write p (Text []) fs1)"

definition audit_event :: "audit_env \<Rightarrow> string \<Rightarrow> string \<Rightarrow> string \<Rightarrow> pyval \<Rightarrow> pyval" where
  "audit_event env event_type user_id device_id details = str_dict [(''timestamp'', VFloat (al_now env)),
     (''type'', VStr event_type), (''user_id'', VStr user_id), (''device_id'', VStr device_id), (''details'', details)]"

definition log_event :: "audit_env \<Rightarrow> string \<Rightarrow> string \<Rightarrow> string \<Rightarrow> pyval \<Rightarrow> audit_log \<Rightarrow> audit_log" where
  "log_event env event_type user_id device_id details l =
     (if \<not> al_open env then l
      else case json_dumps (al_str env) (audit_event env event_type user_id device_id details) of
          Inr (JsonText j) \<Rightarrow> \<lparr>al_events = al_events l @ [j],
            al_messages = al_messages l @ [''Audit event: '' @ event_type @ '' | User: '' @ user_id @ '' | Device: '' @
              device_id @ '' | Details: '' @ al_text env details]\<rparr>
        | _ \<Rightarrow> l)"

definition log_auth_success :: "audit_env \<Rightarrow> string \<Rightarrow> string \<Rightarrow> string \<Rightarrow> audit_log \<Rightarrow> audit_log" where
  "log_auth_success env user_id device_id ip_address =
     log_event env ''auth_success'' user_id device_id (str_dict [(''ip_address'', VStr ip_address)])"

definition log_auth_failure :: "audit_env \<Rightarrow> string \<Rightarrow> string \<Rightarrow> string \<Rightarrow> string \<Rightarrow> audit_log \<Rightarrow> audit_log" where
  "log_auth_failure env user_id device_id reason ip_address = log_event env ''auth_failure'' user_id device_id
     (str_dict [(''reason'', VStr reason), (''ip_address'', VStr ip_address)])"

definition log_execution :: "audit_env \<Rightarrow> string \<Rightarrow> string \<Rightarrow> string \<Rightarrow> pyval \<Rightarrow> audit_log \<Rightarrow> audit_log" where
  "log_execution env user_id device_id meth sandbox_config = log_event env ''execution_attempt'' user_id device_id
     (str_dict [(''method'', VStr meth), (''sandbox'', sandbox_config)])"

definition log_package_install :: "audit_env \<Rightarrow> string \<Rightarrow> string \<Rightarrow> string \<Rightarrow> string \<Rightarrow> audit_log \<Rightarrow> audit_log" where
  "log_package_install env user_id device_id package strategy = log_event env ''package_install'' user_id device_id
     (str_dict [(''package'', VStr package), (''strategy'', VStr strategy)])"

section \<open>Sandbox policy\<close>

definition ALLOWED_SYSCALLS :: "string list" where
  "ALLOWED_SYSCALLS =
    [''read'', ''write'', ''open'', ''openat'', ''close'', ''stat'', ''fstat'', ''lstat'', ''poll'',
     ''lseek'', ''mmap'', ''mprotect'', ''munmap'', ''brk'', ''rt_sigaction'', ''rt_sigprocmask'',
     ''rt_sigreturn'', ''ioctl'', ''pread64'', ''pwrite64'', ''readv'', ''writev'', ''access'', ''pipe'',
     ''select'', ''sched_yield'', ''mremap'', ''msync'', ''mincore'', ''madvise'', ''shmget'', ''shmat'',
     ''shmctl'', ''dup'', ''dup2'', ''pause'', ''nanosleep'', ''getitimer'', ''alarm'', ''setitimer'',
     ''getpid'', ''sendfile'', ''socket'', ''connect'', ''accept'', ''sendto'', ''recvfrom'', ''sendmsg'',
     ''recvmsg'', ''shutdown'', ''bind'', ''listen'', ''getsockname'', ''getpeername'', ''socketpair'',
     ''setsockopt'', ''getsockopt'', ''clone'', ''fork'', ''vfork'', ''execve'', ''exit'', ''wait4'',
     ''kill'', ''uname'', ''semget'', ''semop'', ''semctl'', ''shmdt'', ''msgget'', ''msgsnd'', ''msgrcv'',
     ''msgctl'', ''fcntl'', ''flock'', ''fsync'', ''fdatasync'', ''truncate'', ''ftruncate'', ''getdents'',
     ''getcwd'', ''chdir'', ''fchdir'', ''rename'', ''mkdir'', ''rmdir'', ''creat'', ''link'', ''unlink'',
     ''symlink'', ''readlink'', ''chmod'', ''fchmod'', ''chown'', ''fchown'', ''lchown'', ''umask'',
     ''gettimeofday'', ''getrlimit'', ''getrusage'', ''sysinfo'', ''times'', ''ptrace'', ''getuid'',
     ''syslog'', ''getgid'', ''setuid'', ''setgid'', ''geteuid'', ''getegid'', ''setpgid'', ''getppid'',
     ''getpgrp'', ''setsid'', ''setreuid'', ''setregid'', ''getgroups'', ''setgroups'', ''setresuid'',
     ''getresuid'', ''setresgid'', ''getresgid'', ''getpgid'', ''setfsuid'', ''setfsgid'', ''getsid'',
     ''capget'', ''capset'', ''rt_sigpending'', ''rt_sigtimedwait'', ''rt_sigqueueinfo'',
     ''rt_sigsuspend'', ''sigaltstack'', ''utime'', ''mknod'', ''uselib'', ''personality'', ''ustat'',
     ''statfs'', ''fstatfs'', ''sysfs'', ''getpriority'', ''setpriority'', ''sched_setparam'',
     ''sched_getparam'', ''sched_setscheduler'', ''sched_getscheduler'', ''sched_get_priority_max'',
     ''sched_get_priority_min'', ''sched_rr_get_interval'', ''mlock'', ''munlock'', ''mlockall'',
     ''munlockall'', ''vhangup'', ''modify_ldt'', ''pivot_root'', ''_sysctl'', ''prctl'', ''arch_prctl'',
     ''adjtimex'', ''setrlimit'', ''chroot'', ''sync'', ''acct'', ''settimeofday'', ''mount'', ''umount2'',
     ''swapon'', ''swapoff'', ''reboot'', ''sethostname'', ''setdomainname'', ''iopl'', ''ioperm'',
     ''create_module'', ''init_module'', ''delete_module'', ''get_kernel_syms'', ''query_module'',
     ''quotactl'', ''nfsservctl'', ''getpmsg'', ''putpmsg'', ''afs_syscall'', ''tuxcall'', ''security'',
     ''gettid'', ''readahead'', ''setxattr'', ''lsetxattr'', ''fsetxattr'', ''getxattr'', ''lgetxattr'',
     ''fgetxattr'', ''listxattr'', ''llistxattr'', ''flistxattr'', ''removexattr'', ''lremovexattr'',
     ''fremovexattr'', ''tkill'', ''time'', ''futex'', ''sched_setaffinity'', ''sched_getaffinity'',
     ''set_thread_area'', ''io_setup'', ''io_destroy'', ''io_getevents'', ''io_submit'', ''io_cancel'',
     ''get_thread_area'', ''lookup_dcookie'', ''epoll_create'', ''epoll_ctl_old'', ''epoll_wait_old'',
     ''remap_file_pages'', ''getdents64'', ''set_tid_address'', ''restart_syscall'', ''semtimedop'',
     ''fadvise64'', ''timer_create'', ''timer_settime'', ''timer_gettime'', ''timer_getoverrun'',
     ''timer_delete'', ''clock_settime'', ''clock_gettime'', ''clock_getres'', ''clock_nanosleep'',
     ''exit_group'', ''epoll_wait'', ''epoll_ctl'', ''tgkill'', ''utimes'', ''vserver'', ''mbind'',
     ''set_mempolicy'', ''get_mempolicy'', ''mq_open'', ''mq_unlink'', ''mq_timedsend'',
     ''mq_timedreceive'', ''mq_notify'', ''mq_getsetattr'', ''kexec_load'', ''waitid'', ''add_key'',
     ''request_key'', ''keyctl'', ''ioprio_set'', ''ioprio_get'', ''inotify_init'', ''inotify_add_watch'',
     ''inotify_rm_watch'', ''migrate_pages'', ''openat'', ''mkdirat'', ''mknodat'', ''fchownat'',
     ''futimesat'', ''newfstatat'', ''unlinkat'', ''renameat'', ''linkat'', ''symlinkat'', ''readlinkat'',
     ''fchmodat'', ''faccessat'', ''pselect6'', ''ppoll'', ''unshare'', ''set_robust_list'',
     ''get_robust_list'', ''splice'', ''tee'', ''sync_file_range'', ''vmsplice'', ''move_pages'',
     ''utimensat'', ''epoll_pwait'', ''signalfd'', ''timerfd_create'', ''eventfd'', ''fallocate'',
     ''timerfd_settime'', ''timerfd_gettime'', ''accept4'', ''signalfd4'', ''eventfd2'', ''epoll_create1'',
     ''dup3'', ''pipe2'', ''inotify_init1'', ''preadv'', ''pwritev'', ''rt_tgsigqueueinfo'',
     ''perf_event_open'', ''recvmmsg'', ''fanotify_init'', ''fanotify_mark'', ''prlimit64'',
     ''name_to_handle_at'', ''open_by_handle_at'', ''clock_adjtime'', ''syncfs'', ''sendmmsg'', ''setns'',
     ''getcpu'', ''process_vm_readv'', ''process_vm_writev'', ''kcmp'', ''finit_module'',
     ''sched_setattr'', ''sched_getattr'', ''renameat2'', ''seccomp'', ''getrandom'', ''memfd_create'',
     ''kexec_file_load'', ''bpf'', ''execveat'', ''userfaultfd'', ''membarrier'', ''mlock2'',
     ''copy_file_range'', ''preadv2'', ''pwritev2'', ''pkey_mprotect'', ''pkey_alloc'', ''pkey_free'',
     ''statx'', ''io_pgetevents'', ''rseq'']"

definition DEFAULT_SECCOMP :: pyval where
  "DEFAULT_SECCOMP = str_dict [(''defaultAction'', VStr ''SCMP_ACT_ERRNO''),
     (''architectures'', VList (map VStr [''SCMP_ARCH_X86_64'', ''SCMP_ARCH_X86'', ''SCMP_ARCH_X32'', ''SCMP_ARCH_AARCH64''])),
     (''syscalls'', VList [str_dict [(''names'', VList (map VStr ALLOWED_SYSCALLS)),
        (''action'', VStr ''SCMP_ACT_ALLOW''), (''args'', VList []), (''includes'', str_dict []), (''excludes'', str_dict [])]])]"

record sandbox_security =
  sb_drop_capabilities :: "string list"
  sb_add_capabilities :: "string list"
  sb_read_only_rootfs :: bool
  sb_no_new_privileges :: bool
  sb_seccomp_profile :: pyval

definition SandboxSecurityConfig :: sandbox_security where
  "SandboxSecurityConfig = \<lparr>sb_drop_capabilities = [''ALL''], sb_add_capabilities = [], sb_read_only_rootfs = True,
     sb_no_new_privileges = True, sb_seccomp_profile = DEFAULT_SECCOMP\<rparr>"

definition to_docker_args :: "sandbox_security \<Rightarrow> string list" where
  "to_docker_args c =
     (if sb_drop_capabilities c \<noteq> [] then [''--cap-drop'', py_join '','' (sb_drop_capabilities c)] else []) @
     concat (map (\<lambda>cap. [''--cap-add'', cap]) (sb_add_capabilities c)) @
     (if sb_read_only_rootfs c then [''--read-only''] else []) @
     (if sb_no_new_privileges c then [''--security-opt=no-new-privileges:true''] else []) @
     [''--security-opt=seccomp=unconfined'']"

section \<open>Properties\<close>

text \<open>What one manager encrypts under a fresh nonce, any manager with its key decrypts to the same bytes.\<close>

theorem decrypt_encrypt:
  assumes "length nonce = 12" and "ae_decrypt a key nonce (ae_encrypt a key nonce data) = Some data"
  shows "decrypt a key (encrypt a key nonce data) = Inr data"
  using assms by (simp add: decrypt_def encrypt_def b64_decode_def b64_roundtrip)

definition xor_aead :: aead where
  "xor_aead = \<lparr>ae_encrypt = (\<lambda>k n d. map (\<lambda>b. b + hd k) d @ n), ae_decrypt = (\<lambda>k n c.
     if drop (length c - length n) c = n then Some (map (\<lambda>b. b - hd k) (take (length c - length n) c)) else None)\<rparr>"

theorem decrypt_encrypt_witness:
  "decrypt xor_aead [5] (encrypt xor_aead [5] (replicate 12 7) [1, 2, 3]) = Inr [1, 2, 3]"
  by (rule decrypt_encrypt) (simp_all add: xor_aead_def)

lemma b64_or_error_encode [simp]: "b64_or_error (b64_encode b) = Inr b"
  by (simp add: b64_or_error_def b64_decode_def b64_roundtrip)

text \<open>C38: A wheel signed by the build farm verifies on a device that trusts the farm's exported key, whatever other
  keys it trusts, whether the key is named or not; and a file that verifies was signed so
  that one of the keys tried accepts exactly these bytes.\<close>

theorem signed_wheel_verifies:
  assumes "sign_file ed fs p (signer_generate ed priv) = Inr signature"
    and "\<And>d. ed_verify ed (ed_public ed priv) (ed_sign ed priv d) d"
    and "ed_load_public ed (ed_public_pem ed (ed_public ed priv)) = Inr (Some (ed_public ed priv))"
    and "export_public_key ed (signer_generate ed priv) = Inr pem" and "load_public_key ed key_id pem keys = Inr keys'"
    and "fs_read fs' p' = fs_read fs p"
  shows "verify_file ed fs' p' signature (Some key_id) keys' = Inr True \<and>
    verify_file ed fs' p' signature None keys' = Inr True \<and>
    (\<forall>q s i. verify_file ed fs' q s i keys' = Inr True \<longrightarrow>
       (\<exists>k b c. k \<in> set (keys_to_try keys' i) \<and> b64_decode s = Some b \<and> fs_read fs' q = Inr c \<and> ed_verify ed k b c))"
proof -
  let ?pub = "ed_public ed priv"
  from assms(1) obtain c where c: "fs_read fs p = Inr c" and sig: "signature = b64_encode (ed_sign ed priv c)"
    by (auto simp: sign_file_def signer_generate_def map_result_def split: sum.splits)
  from assms(3-5) have keys: "keys' = dset key_id ?pub keys"
    by (auto simp: export_public_key_def signer_generate_def load_public_key_def)
  then have mem: "?pub \<in> set (dvalues keys')"
    using map_of_SomeD [of keys' key_id ?pub] by (auto simp: dget_dset intro: rev_image_eqI)
  then have ne: "keys' \<noteq> []" by auto
  have try1: "?pub \<in> set (keys_to_try keys' (Some key_id))"
    using mem unfolding keys by (auto simp: keys_to_try_def dget_dset)
  have ok: "verify_file ed fs' p' signature i keys' = Inr True" if "?pub \<in> set (keys_to_try keys' i)" for i
    using that assms(2) c by (auto simp: verify_file_def ne assms(6) sig list_ex_iff)
  have "\<exists>k b c. k \<in> set (keys_to_try keys' i) \<and> b64_decode s = Some b \<and> fs_read fs' q = Inr c \<and> ed_verify ed k b c"
    if "verify_file ed fs' q s i keys' = Inr True" for q s i
    using that ne by (auto simp: verify_file_def bind_result_def map_result_def b64_or_error_def list_ex_iff
        split: sum.splits option.splits)
  with ok [OF try1] ok [of None] mem show ?thesis by (simp add: keys_to_try_def)
qed

definition toy_ed :: "(byte, byte) ed25519" where
  "toy_ed = \<lparr>ed_public = (\<lambda>k. k), ed_sign = (\<lambda>k c. case c of Bytes b \<Rightarrow> k # b | _ \<Rightarrow> [k]),
     ed_verify = (\<lambda>k s c. s = (case c of Bytes b \<Rightarrow> k # b | _ \<Rightarrow> [k])), ed_load_private = (\<lambda>c. Inr 0),
     ed_load_public = (\<lambda>t. Inr (if t = [] then None else Some (of_nat (length t)))),
     ed_public_pem = (\<lambda>k. replicate (unat k) CHR ''x''), ed_private_pem = (\<lambda>k. [])\<rparr>"

theorem signed_wheel_verifies_witness:
  "verify_file toy_ed [([''w''], File (Bytes [1, 2]))] [''w''] (b64_encode [3, 1, 2]) None [(''farm'', 3)] = Inr True"
proof -
  let ?fs = "[([''w''], File (Bytes [1, 2]))]"
  have "sign_file toy_ed ?fs [''w''] (signer_generate toy_ed 3) = Inr (b64_encode [3, 1, 2])"
    by (simp add: sign_file_def signer_generate_def toy_ed_def fs_read_def fs_node_def)
  moreover have "ed_verify toy_ed (ed_public toy_ed 3) (ed_sign toy_ed 3 d) d" for d by (simp add: toy_ed_def)
  moreover have "ed_load_public toy_ed (ed_public_pem toy_ed (ed_public toy_ed 3)) = Inr (Some (ed_public toy_ed 3))"
    by (simp add: toy_ed_def)
  moreover have "export_public_key toy_ed (signer_generate toy_ed 3) = Inr (replicate 3 CHR ''x'')"
    by (simp add: export_public_key_def signer_generate_def toy_ed_def)
  moreover have "load_public_key toy_ed ''farm'' (replicate 3 CHR ''x'') [] = Inr [(''farm'', 3)]"
    by (simp add: load_public_key_def toy_ed_def)
  ultimately show ?thesis using signed_wheel_verifies [of toy_ed ?fs "[''w'']" 3 _ _ "''farm''" "[]" _ ?fs "[''w'']"] by blast
qed

text \<open>A key id that is not known does not fail: any trusted key will do.\<close>

lemma unknown_key_id_falls_back: "dget keys i = None \<Longrightarrow> keys_to_try keys (Some i) = dvalues keys"
  by (simp add: keys_to_try_def)

text \<open>An event whose details JSON cannot hold is lost in silence.\<close>

lemma unserialisable_event_is_lost: "\<not> json_able details \<Longrightarrow> log_event env t u d details l = l"
  by (simp add: log_event_def json_dumps_def audit_event_def str_dict_def)

text \<open>The profile is never applied: whatever it says, docker is told to run unconfined.\<close>

lemma seccomp_profile_is_not_applied:
  "to_docker_args (c\<lparr>sb_seccomp_profile := p\<rparr>) = to_docker_args c \<and>
   ''--security-opt=seccomp=unconfined'' \<in> set (to_docker_args c)"
  by (simp add: to_docker_args_def)

text \<open>And it would allow what its comment says it drops.\<close>

lemma dangerous_syscalls_allowed:
  "list_all (\<lambda>s. s \<in> set ALLOWED_SYSCALLS) [''reboot'', ''mount'', ''kexec_load'', ''init_module'', ''ptrace'', ''bpf'']"
  unfolding ALLOWED_SYSCALLS_def by simp

end
