(* ===== verification/Exceptions.thy ===== *)
theory Exceptions
  imports Cache
begin

text \<open>
  \<open>shared/exceptions.py\<close> and \<open>server/exceptions.py\<close>: the error classes with their codes, and how
  the server turns one of its errors into a response (\<open>server/app.py\<close>).
\<close>

section \<open>Errors of the client side\<close>

datatype error_class =
    CpipError | CloudUnavailableError | ConnectionTimeoutError | WebSocketError
  | PackageNotFoundError | PackageInstallError | PackageIntegrityError
  | BuildError | BuildTimeoutError | BuildQueueFullError
  | ExecutionError | ExecutionTimeoutError | SerializationError
  | AuthenticationError | TokenExpiredError | RateLimitError
  | SecurityError | SandboxViolationError | PlatformError | DaemonNotRunningError

text \<open>The base class of a class; that of \<open>CpipError\<close> is \<open>Exception\<close>.\<close>

fun base_class :: "error_class \<Rightarrow> error_class option" where
  "base_class CpipError = None"
| "base_class BuildTimeoutError = Some BuildError"
| "base_class BuildQueueFullError = Some BuildError"
| "base_class ExecutionTimeoutError = Some ExecutionError"
| "base_class TokenExpiredError = Some AuthenticationError"
| "base_class SandboxViolationError = Some SecurityError"
| "base_class c = Some CpipError"

text \<open>\<open>issubclass\<close>\<close>

inductive issubclass :: "error_class \<Rightarrow> error_class \<Rightarrow> bool" where
  sub_refl: "issubclass c c"
| sub_base: "base_class c = Some b \<Longrightarrow> issubclass b d \<Longrightarrow> issubclass c d"

code_pred issubclass .

record cpip_error =
  er_class :: error_class
  er_message :: string
  er_code :: string
  er_details :: "(string, pyval) dict"

text \<open>\<open>CpipError.__init__\<close> for an object of the given class\<close>

definition init_error :: "error_class \<Rightarrow> string \<Rightarrow> string \<Rightarrow> (string, pyval) dict \<Rightarrow> cpip_error" where
  "init_error c message code details =
     \<lparr>er_class = c, er_message = message, er_code = code, er_details = details\<rparr>"

definition cloud_unavailable_error :: "string \<Rightarrow> cpip_error" where
  "cloud_unavailable_error message = init_error CloudUnavailableError message ''CLOUD_UNAVAILABLE'' []"

definition connection_timeout_error :: "string \<Rightarrow> cpip_error" where
  "connection_timeout_error message = init_error ConnectionTimeoutError message ''CONNECTION_TIMEOUT'' []"

definition websocket_error :: "string \<Rightarrow> cpip_error" where
  "websocket_error message = init_error WebSocketError message ''WEBSOCKET_ERROR'' []"

definition package_not_found_error :: "string \<Rightarrow> cpip_error" where
  "package_not_found_error package = init_error PackageNotFoundError
     (''Package '' @ [CHR 0x27] @ package @ [CHR 0x27] @ '' not found in any registry'')
     ''PACKAGE_NOT_FOUND'' [(''package'', VStr package)]"

definition package_install_error :: "string \<Rightarrow> string \<Rightarrow> cpip_error" where
  "package_install_error package reason = init_error PackageInstallError
     (''Failed to install '' @ [CHR 0x27] @ package @ [CHR 0x27] @ '': '' @ reason)
     ''PACKAGE_INSTALL_FAILED'' [(''package'', VStr package), (''reason'', VStr reason)]"

definition package_integrity_error :: "string \<Rightarrow> string \<Rightarrow> cpip_error" where
  "package_integrity_error package reason = init_error PackageIntegrityError
     (''Integrity check failed for '' @ [CHR 0x27] @ package @ [CHR 0x27] @ '': '' @ reason)
     ''PACKAGE_INTEGRITY_FAILED'' [(''package'', VStr package), (''reason'', VStr reason)]"

text \<open>\<open>BuildError.__init__\<close>, also called by its issubclass\<close>

definition init_build_error :: "error_class \<Rightarrow> string \<Rightarrow> string \<Rightarrow> cpip_error" where
  "init_build_error c package reason = init_error c
     (''Build failed for '' @ [CHR 0x27] @ package @ [CHR 0x27] @ '': '' @ reason)
     ''BUILD_FAILED'' [(''package'', VStr package), (''reason'', VStr reason)]"

definition build_timeout_error :: "string \<Rightarrow> cpip_error" where
  "build_timeout_error package =
     (init_build_error BuildTimeoutError package ''Build timed out'')\<lparr>er_code := ''BUILD_TIMEOUT''\<rparr>"

definition build_queue_full_error :: cpip_error where
  "build_queue_full_error =
     init_error BuildQueueFullError ''Build queue is full, try again later'' ''BUILD_QUEUE_FULL'' []"

definition init_execution_error :: "error_class \<Rightarrow> string \<Rightarrow> (string, pyval) dict \<Rightarrow> cpip_error" where
  "init_execution_error c message details = init_error c message ''EXECUTION_FAILED'' details"

definition execution_timeout_error :: "int \<Rightarrow> cpip_error" where
  "execution_timeout_error timeout =
     (init_execution_error ExecutionTimeoutError (''Execution timed out after '' @ int_str timeout @ ''s'')
        [(''timeout'', VInt timeout)])\<lparr>er_code := ''EXECUTION_TIMEOUT''\<rparr>"

definition serialization_error :: "string \<Rightarrow> cpip_error" where
  "serialization_error message = init_error SerializationError message ''SERIALIZATION_ERROR'' []"

definition authentication_error :: "string \<Rightarrow> cpip_error" where
  "authentication_error message = init_error AuthenticationError message ''AUTH_FAILED'' []"

definition token_expired_error :: cpip_error where
  "token_expired_error = init_error TokenExpiredError ''Token has expired'' ''TOKEN_EXPIRED'' []"

definition rate_limit_error :: "int \<Rightarrow> cpip_error" where
  "rate_limit_error retry_after = init_error RateLimitError
     (''Rate limit exceeded, retry after '' @ int_str retry_after @ ''s'')
     ''RATE_LIMITED'' [(''retry_after'', VInt retry_after)]"

definition security_error :: "string \<Rightarrow> cpip_error" where
  "security_error message = init_error SecurityError message ''SECURITY_ERROR'' []"

definition sandbox_violation_error :: "string \<Rightarrow> cpip_error" where
  "sandbox_violation_error message = init_error SandboxViolationError message ''SANDBOX_VIOLATION'' []"

definition platform_error :: "string \<Rightarrow> cpip_error" where
  "platform_error message = init_error PlatformError message ''PLATFORM_ERROR'' []"

definition daemon_not_running_error :: cpip_error where
  "daemon_not_running_error = init_error DaemonNotRunningError
     ''cpip daemon is not running. Start it with: cpip daemon start'' ''DAEMON_NOT_RUNNING'' []"

text \<open>What the constructors of the classes below \<open>CpipError\<close> can make\<close>

inductive constructed :: "cpip_error \<Rightarrow> bool" where
  "constructed (cloud_unavailable_error m)" | "constructed (connection_timeout_error m)"
| "constructed (websocket_error m)" | "constructed (package_not_found_error p)"
| "constructed (package_install_error p r)" | "constructed (package_integrity_error p r)"
| "constructed (init_build_error BuildError p r)" | "constructed (build_timeout_error p)"
| "constructed build_queue_full_error" | "constructed (init_execution_error ExecutionError m d)"
| "constructed (execution_timeout_error t)" | "constructed (serialization_error m)"
| "constructed (authentication_error m)" | "constructed token_expired_error"
| "constructed (rate_limit_error i)" | "constructed (security_error m)"
| "constructed (sandbox_violation_error m)" | "constructed (platform_error m)"
| "constructed daemon_not_running_error"

lemmas error_defs = init_error_def cloud_unavailable_error_def connection_timeout_error_def websocket_error_def
  package_not_found_error_def package_install_error_def package_integrity_error_def init_build_error_def
  build_timeout_error_def build_queue_full_error_def init_execution_error_def execution_timeout_error_def
  serialization_error_def authentication_error_def token_expired_error_def rate_limit_error_def
  security_error_def sandbox_violation_error_def platform_error_def daemon_not_running_error_def

text \<open>The code of each class\<close>

fun class_code :: "error_class \<Rightarrow> string" where
  "class_code CpipError = ''CPIP_ERROR''"
| "class_code CloudUnavailableError = ''CLOUD_UNAVAILABLE''"
| "class_code ConnectionTimeoutError = ''CONNECTION_TIMEOUT''"
| "class_code WebSocketError = ''WEBSOCKET_ERROR''"
| "class_code PackageNotFoundError = ''PACKAGE_NOT_FOUND''"
| "class_code PackageInstallError = ''PACKAGE_INSTALL_FAILED''"
| "class_code PackageIntegrityError = ''PACKAGE_INTEGRITY_FAILED''"
| "class_code BuildError = ''BUILD_FAILED''"
| "class_code BuildTimeoutError = ''BUILD_TIMEOUT''"
| "class_code BuildQueueFullError = ''BUILD_QUEUE_FULL''"
| "class_code ExecutionError = ''EXECUTION_FAILED''"
| "class_code ExecutionTimeoutError = ''EXECUTION_TIMEOUT''"
| "class_code SerializationError = ''SERIALIZATION_ERROR''"
| "class_code AuthenticationError = ''AUTH_FAILED''"
| "class_code TokenExpiredError = ''TOKEN_EXPIRED''"
| "class_code RateLimitError = ''RATE_LIMITED''"
| "class_code SecurityError = ''SECURITY_ERROR''"
| "class_code SandboxViolationError = ''SANDBOX_VIOLATION''"
| "class_code PlatformError = ''PLATFORM_ERROR''"
| "class_code DaemonNotRunningError = ''DAEMON_NOT_RUNNING''"

lemma class_code_inject: "class_code c = class_code d \<longleftrightarrow> c = d"
  by (cases c; cases d) simp_all

lemma constructed_code: "constructed e \<Longrightarrow> er_code e = class_code (er_class e)"
  by (induction rule: constructed.induct) (simp_all add: error_defs)

lemma every_error_is_cpip: "issubclass c CpipError"
proof -
  have refl: "issubclass CpipError CpipError" by (rule issubclass.intros(1))
  have one: "base_class c = Some CpipError \<Longrightarrow> issubclass c CpipError" for c
    by (rule issubclass.intros(2) [OF _ refl])
  have two: "base_class c = Some b \<Longrightarrow> base_class b = Some CpipError \<Longrightarrow> issubclass c CpipError" for c b
    by (rule issubclass.intros(2) [OF _ one])
  show ?thesis
    by (cases c) (simp_all add: refl one two [of _ BuildError] two [of _ ExecutionError]
        two [of _ AuthenticationError] two [of _ SecurityError])
qed

inductive_cases issubclass_cases: "issubclass c d"

lemma issubclass_iff: "issubclass c d \<longleftrightarrow> d = c \<or> base_class c = Some d \<or> d = CpipError"
proof
  show "issubclass c d \<Longrightarrow> d = c \<or> base_class c = Some d \<or> d = CpipError"
  proof (induction rule: issubclass.induct)
    case (sub_base c b d)
    then show ?case by (cases c) auto
  qed simp
  show "d = c \<or> base_class c = Some d \<or> d = CpipError \<Longrightarrow> issubclass c d"
    using every_error_is_cpip issubclass.intros by metis
qed

text \<open>The code of an error names its class: errors with one code are caught by the same \<open>except\<close>
  clauses, namely those of the class, of the class it extends and of \<open>CpipError\<close>.\<close>

theorem code_names_class:
  assumes "constructed e" and "constructed e'" and "er_code e = er_code e'"
  shows "er_class e = er_class e' \<and> (\<forall>d. issubclass (er_class e) d \<longleftrightarrow>
    d = er_class e' \<or> base_class (er_class e') = Some d \<or> d = CpipError)"
proof -
  have "er_class e = er_class e'" using assms by (simp add: constructed_code class_code_inject)
  then show ?thesis by (simp add: issubclass_iff)
qed

theorem code_names_class_witness:
  "issubclass (er_class (build_timeout_error ''a'')) BuildError \<and> \<not> issubclass (er_class (build_timeout_error ''a'')) ExecutionError"
  using code_names_class [OF constructed.intros(8) constructed.intros(8), of "''a''" "''b''"]
  by (simp add: error_defs)

section \<open>Errors of the server\<close>

datatype error_code =
    WS_ACCEPT_FAILED | WS_SEND_FAILED | WS_RECEIVE_FAILED | WS_CLOSE_FAILED
  | SESSION_NOT_FOUND | SESSION_EXPIRED | SESSION_INVALID
  | DB_CONNECT_FAILED | DB_QUERY_FAILED | DB_TRANSACTION_FAILED
  | VALIDATION_ERROR | INVALID_REQUEST | INVALID_DEVICE_ID
  | RPC_METHOD_NOT_FOUND | RPC_INVALID_PARAMS | RPC_INTERNAL_ERROR
  | INTERNAL_ERROR | NOT_FOUND

fun error_code_value :: "error_code \<Rightarrow> string" where
  "error_code_value WS_ACCEPT_FAILED = ''WS_ACCEPT_FAILED''"
| "error_code_value WS_SEND_FAILED = ''WS_SEND_FAILED''"
| "error_code_value WS_RECEIVE_FAILED = ''WS_RECEIVE_FAILED''"
| "error_code_value WS_CLOSE_FAILED = ''WS_CLOSE_FAILED''"
| "error_code_value SESSION_NOT_FOUND = ''SESSION_NOT_FOUND''"
| "error_code_value SESSION_EXPIRED = ''SESSION_EXPIRED''"
| "error_code_value SESSION_INVALID = ''SESSION_INVALID''"
| "error_code_value DB_CONNECT_FAILED = ''DB_CONNECT_FAILED''"
| "error_code_value DB_QUERY_FAILED = ''DB_QUERY_FAILED''"
| "error_code_value DB_TRANSACTION_FAILED = ''DB_TRANSACTION_FAILED''"
| "error_code_value VALIDATION_ERROR = ''VALIDATION_ERROR''"
| "error_code_value INVALID_REQUEST = ''INVALID_REQUEST''"
| "error_code_value INVALID_DEVICE_ID = ''INVALID_DEVICE_ID''"
| "error_code_value RPC_METHOD_NOT_FOUND = ''RPC_METHOD_NOT_FOUND''"
| "error_code_value RPC_INVALID_PARAMS = ''RPC_INVALID_PARAMS''"
| "error_code_value RPC_INTERNAL_ERROR = ''RPC_INTERNAL_ERROR''"
| "error_code_value INTERNAL_ERROR = ''INTERNAL_ERROR''"
| "error_code_value NOT_FOUND = ''NOT_FOUND''"

text \<open>\<open>ErrorCode(value)\<close>\<close>

definition error_codes :: "error_code list" where
  "error_codes = [WS_ACCEPT_FAILED, WS_SEND_FAILED, WS_RECEIVE_FAILED, WS_CLOSE_FAILED, SESSION_NOT_FOUND,
     SESSION_EXPIRED, SESSION_INVALID, DB_CONNECT_FAILED, DB_QUERY_FAILED, DB_TRANSACTION_FAILED, VALIDATION_ERROR,
     INVALID_REQUEST, INVALID_DEVICE_ID, RPC_METHOD_NOT_FOUND, RPC_INVALID_PARAMS, RPC_INTERNAL_ERROR,
     INTERNAL_ERROR, NOT_FOUND]"

definition parse_error_code :: "string \<Rightarrow> error_code option" where
  "parse_error_code v = find (\<lambda>c. error_code_value c = v) error_codes"

interpretation error_codes: codec error_code_value parse_error_code "\<lambda>_. True"
proof unfold_locales
  show "parse_error_code (error_code_value c) = Some c" for c
    by (cases c) (simp_all add: parse_error_code_def error_codes_def)
qed

text \<open>An error of the server; \<open>ErrorCode\<close> is a \<open>str\<close>, so the code is kept as given and counts as its value.\<close>

record server_error =
  se_message :: string
  se_error_code :: string
  se_status_code :: int
  se_details :: "(string, pyval) dict"

definition cpip_exception :: "string \<Rightarrow> string \<Rightarrow> int \<Rightarrow> (string, pyval) dict option \<Rightarrow> server_error" where
  "cpip_exception message code status details = \<lparr>se_message = message, se_error_code = code,
     se_status_code = status, se_details = (case details of None \<Rightarrow> [] | Some d \<Rightarrow> d)\<rparr>"

definition ws_error :: "string \<Rightarrow> string \<Rightarrow> (string, pyval) dict option \<Rightarrow> server_error" where
  "ws_error message code details = cpip_exception message code 1008 details"

definition session_error :: "string \<Rightarrow> string \<Rightarrow> (string, pyval) dict option \<Rightarrow> server_error" where
  "session_error message code details = cpip_exception message code 400 details"

definition database_error :: "string \<Rightarrow> string \<Rightarrow> (string, pyval) dict option \<Rightarrow> server_error" where
  "database_error message code details = cpip_exception message code 500 details"

definition validation_error :: "string \<Rightarrow> (string, pyval) dict option \<Rightarrow> server_error" where
  "validation_error message details = cpip_exception message (error_code_value VALIDATION_ERROR) 422 details"

definition rpc_error :: "string \<Rightarrow> string \<Rightarrow> (string, pyval) dict option \<Rightarrow> server_error" where
  "rpc_error message code details = cpip_exception message code 400 details"

text \<open>\<open>{..., **details}\<close>: later keys replace earlier ones.\<close>

definition error_to_dict :: "server_error \<Rightarrow> (string, pyval) dict" where
  "error_to_dict e = fold (\<lambda>(k, v). dset k v) (se_details e)
     [(''error'', VStr (se_error_code e)), (''message'', VStr (se_message e)), (''status'', VInt (se_status_code e))]"

text \<open>\<open>JSONResponse\<close>: its status and body, or the exception when the body is not JSON\<close>

definition json_response :: "int \<Rightarrow> pyval \<Rightarrow> exn + int \<times> pyval" where
  "json_response status body =
     (if json_able body then Inr (status, body) else Inl (TypeError ''Object is not JSON serializable''))"

definition cpip_exception_handler :: "server_error \<Rightarrow> exn + int \<times> pyval" where
  "cpip_exception_handler e = json_response (se_status_code e) (str_dict (error_to_dict e))"

definition pydantic_validation_handler :: "pyval \<Rightarrow> exn + int \<times> pyval" where
  "pydantic_validation_handler errors = json_response 422 (str_dict [(''error'', VStr ''VALIDATION_ERROR''),
     (''message'', VStr ''Request validation failed''), (''status'', VInt 422),
     (''details'', str_dict [(''errors'', errors)])])"

lemma dget_fold_dset:
  "dict_ok d \<Longrightarrow> dget (fold (\<lambda>(k, v). dset k v) d b) k = (case dget d k of Some v \<Rightarrow> Some v | None \<Rightarrow> dget b k)"
proof (induction d arbitrary: b)
  case (Cons x d)
  obtain i v where x: "x = (i, v)" by (cases x)
  with Cons.prems have ok: "dict_ok d" and i: "dget d i = None"
    by (auto simp: dict_ok_def map_of_eq_None_iff)
  show ?case unfolding x by (simp add: Cons.IH [OF ok] dget_dset i split: option.split)
qed simp

lemma json_able_str_dict: "json_able (str_dict d) \<longleftrightarrow> (\<forall>(k, v) \<in> set d. json_able v)"
  by (auto simp: str_dict_def list_all_iff split: prod.splits)

text \<open>An error reaches the client with its status, and its body has every detail under its key; code,
  message and status are in the body unless a detail has that very key, which then hides them.\<close>

theorem error_response_body:
  assumes "dict_ok (se_details e)" and "cpip_exception_handler e = Inr (status, body)"
  shows "status = se_status_code e \<and> (\<exists>d. body = str_dict d \<and>
    (\<forall>k v. dget (se_details e) k = Some v \<longrightarrow> dget d k = Some v) \<and>
    (dget (se_details e) ''error'' = None \<longrightarrow> dget d ''error'' = Some (VStr (se_error_code e))) \<and>
    (dget (se_details e) ''message'' = None \<longrightarrow> dget d ''message'' = Some (VStr (se_message e))) \<and>
    (dget (se_details e) ''status'' = None \<longrightarrow> dget d ''status'' = Some (VInt (se_status_code e))))"
proof -
  from assms(2) have "status = se_status_code e" "body = str_dict (error_to_dict e)"
    by (auto simp: cpip_exception_handler_def json_response_def split: if_splits)
  then show ?thesis
    by (intro conjI exI [of _ "error_to_dict e"]) (simp_all add: error_to_dict_def dget_fold_dset [OF assms(1)])
qed

theorem error_response_body_witness:
  "\<exists>d. cpip_exception_handler (session_error ''gone'' ''SESSION_EXPIRED'' (Some [(''status'', VInt 200)])) =
     Inr (400, str_dict d) \<and> dget d ''status'' = Some (VInt 200) \<and> dget d ''error'' = Some (VStr ''SESSION_EXPIRED'')"
proof -
  let ?e = "session_error ''gone'' ''SESSION_EXPIRED'' (Some [(''status'', VInt 200)])"
  have ok: "dict_ok (se_details ?e)" by (simp add: session_error_def cpip_exception_def dict_ok_def)
  have "cpip_exception_handler ?e = Inr (400, str_dict (error_to_dict ?e))"
    by (simp add: cpip_exception_handler_def json_response_def session_error_def cpip_exception_def error_to_dict_def
        json_able_str_dict)
  with error_response_body [OF ok this] show ?thesis
    by (auto simp: session_error_def cpip_exception_def)
qed

text \<open>The status of a WebSocket error is the close code 1008, which is no HTTP status.\<close>

lemma websocket_error_is_no_http_status:
  "cpip_exception_handler (ws_error m c d) = Inr (status, body) \<Longrightarrow> \<not> (100 \<le> status \<and> status \<le> 599)"
  by (auto simp: cpip_exception_handler_def json_response_def ws_error_def cpip_exception_def split: if_splits)

end
