(* ===== verification/ServerConfig.thy ===== *)
theory ServerConfig
  imports FileSystem
begin

text \<open>
  \<open>server/config.py\<close>: the configuration of the server, read from the environment, a map from
  variables to values. Logging is left out; tomllib is a parameter.
\<close>

type_synonym environ = "string \<Rightarrow> string option"

definition parse_bool :: "string \<Rightarrow> bool" where
  "parse_bool v = (py_lower v \<in> {''true'', ''1'', ''yes'', ''on''})"

definition parse_int :: "string \<Rightarrow> int \<Rightarrow> int" where
  "parse_int v dflt = (case py_int v of Some i \<Rightarrow> i | None \<Rightarrow> dflt)"

section \<open>The configuration\<close>

record logging_config =
  lg_backend :: string
  lg_level :: string
  lg_format :: string

definition LoggingConfig :: logging_config where
  "LoggingConfig = \<lparr>lg_backend = ''zap'', lg_level = ''INFO'', lg_format = ''json''\<rparr>"

definition BACKENDS :: "string list" where
  "BACKENDS = [''zap'', ''zerolog'', ''python'']"

definition VALID_LEVELS :: "string list" where
  "VALID_LEVELS = [''DEBUG'', ''INFO'', ''WARNING'', ''ERROR'', ''CRITICAL'']"

definition LOG_FORMATS :: "string list" where
  "LOG_FORMATS = [''json'', ''text'']"

text \<open>\<open>v\<close> when it is one of the options, otherwise the default\<close>

definition one_of :: "string list \<Rightarrow> string \<Rightarrow> string \<Rightarrow> string" where
  "one_of options dflt v = (if v \<in> set options then v else dflt)"

definition logging_from_env :: "environ \<Rightarrow> logging_config" where
  "logging_from_env env =
     \<lparr>lg_backend = one_of BACKENDS ''zap'' (env_or env ''LOGGER_BACKEND'' ''zap''),
      lg_level = one_of VALID_LEVELS ''INFO'' (py_upper (env_or env ''LOG_LEVEL'' ''INFO'')),
      lg_format = one_of LOG_FORMATS ''json'' (env_or env ''LOG_FORMAT'' ''json'')\<rparr>"

record database_config =
  db_url :: string
  db_pool_size :: int
  db_max_overflow :: int
  db_pool_timeout :: int
  db_pool_recycle :: int
  db_echo :: bool

definition DatabaseConfig :: database_config where
  "DatabaseConfig = \<lparr>db_url = ''sqlite+aiosqlite:///./cpip.db'', db_pool_size = 20, db_max_overflow = 10,
     db_pool_timeout = 30, db_pool_recycle = 3600, db_echo = False\<rparr>"

definition database_from_env :: "environ \<Rightarrow> database_config" where
  "database_from_env env =
     \<lparr>db_url = env_or env ''DATABASE_URL'' ''sqlite+aiosqlite:///./cpip.db'',
      db_pool_size = parse_int (env_or env ''DB_POOL_SIZE'' ''20'') 20,
      db_max_overflow = parse_int (env_or env ''DB_MAX_OVERFLOW'' ''10'') 10,
      db_pool_timeout = parse_int (env_or env ''DB_POOL_TIMEOUT'' ''30'') 30,
      db_pool_recycle = parse_int (env_or env ''DB_POOL_RECYCLE'' ''3600'') 3600,
      db_echo = parse_bool (env_or env ''DB_ECHO'' ''false'')\<rparr>"

record session_config =
  sc_cleanup_interval :: int
  sc_max_idle_seconds :: int
  sc_heartbeat_interval :: int
  sc_heartbeat_timeout :: int

definition SessionConfig :: session_config where
  "SessionConfig = \<lparr>sc_cleanup_interval = 300, sc_max_idle_seconds = 3600, sc_heartbeat_interval = 30,
     sc_heartbeat_timeout = 90\<rparr>"

definition session_from_env :: "environ \<Rightarrow> session_config" where
  "session_from_env env =
     \<lparr>sc_cleanup_interval = parse_int (env_or env ''SESSION_CLEANUP_INTERVAL'' ''300'') 300,
      sc_max_idle_seconds = parse_int (env_or env ''SESSION_MAX_IDLE_SECONDS'' ''3600'') 3600,
      sc_heartbeat_interval = parse_int (env_or env ''SESSION_HEARTBEAT_INTERVAL'' ''30'') 30,
      sc_heartbeat_timeout = parse_int (env_or env ''SESSION_HEARTBEAT_TIMEOUT'' ''90'') 90\<rparr>"

record server_config =
  sf_host :: string
  sf_port :: int
  sf_debug :: bool
  sf_database :: database_config
  sf_logging :: logging_config
  sf_session :: session_config
  sf_redis_url :: string
  sf_jwt_secret :: string
  sf_cors_origins :: "string list"

definition DEV_SECRET :: string where
  "DEV_SECRET = ''cpip-dev-secret-change-in-production''"

definition ServerConfig :: server_config where
  "ServerConfig = \<lparr>sf_host = ''0.0.0.0'', sf_port = 8000, sf_debug = False, sf_database = DatabaseConfig,
     sf_logging = LoggingConfig, sf_session = SessionConfig, sf_redis_url = ''redis://localhost:6379/0'',
     sf_jwt_secret = DEV_SECRET, sf_cors_origins = [''*'']\<rparr>"

definition parse_origins :: "string \<Rightarrow> string list" where
  "parse_origins s = filter (\<lambda>o'. o' \<noteq> []) (map py_strip (py_split CHR '','' s))"

definition server_from_env :: "environ \<Rightarrow> server_config" where
  "server_from_env env =
     \<lparr>sf_host = env_or env ''CPIP_HOST'' ''0.0.0.0'',
      sf_port = parse_int (env_or env ''CPIP_PORT'' ''8000'') 8000,
      sf_debug = parse_bool (env_or env ''CPIP_DEBUG'' ''false''),
      sf_database = database_from_env env, sf_logging = logging_from_env env, sf_session = session_from_env env,
      sf_redis_url = env_or env ''REDIS_URL'' ''redis://localhost:6379/0'',
      sf_jwt_secret = env_or env ''JWT_SECRET'' DEV_SECRET,
      sf_cors_origins = parse_origins (env_or env ''CORS_ORIGINS'' ''*'')\<rparr>"

text \<open>Whether the start warns of the well-known secret\<close>

definition warns_of_secret :: "server_config \<Rightarrow> bool" where
  "warns_of_secret c = (\<not> sf_debug c \<and> sf_jwt_secret c = DEV_SECRET)"

definition server_from_file :: "(content \<Rightarrow> exn + pyval) \<Rightarrow> environ \<Rightarrow> fs \<Rightarrow> path \<Rightarrow> exn + server_config" where
  "server_from_file toml env fs p =
     (if fs_exists fs p then map_result (\<lambda>config_dict. server_from_env env) (bind_result (fs_read fs p) toml)
      else Inr (server_from_env env))"

section \<open>Properties\<close>

lemma py_strip_idem: "py_strip (py_strip s) = py_strip s"
proof (cases "py_strip s = []")
  case False
  let ?t = "dropWhile is_space s" and ?u = "rev (dropWhile is_space (rev (dropWhile is_space s)))"
  have u: "py_strip s = ?u" by (simp add: py_strip_def)
  with False have ne: "dropWhile is_space (rev ?t) \<noteq> []" by simp
  then have "\<not> is_space (List.last ?u)" by (simp add: last_rev hd_dropWhile)
  moreover have "\<not> is_space (hd ?u)"
  proof -
    obtain w where w: "rev ?t = w @ dropWhile is_space (rev ?t)" by (metis takeWhile_dropWhile_id)
    then have "?t = ?u @ rev w" by (metis rev_append rev_rev_ident)
    with ne have "hd ?u = hd ?t" by (metis hd_append2 rev_is_Nil_conv)
    moreover have "?t \<noteq> []" using ne by (cases "?t = []") simp_all
    ultimately show ?thesis by (simp add: hd_dropWhile)
  qed
  ultimately show ?thesis using False u by (metis py_strip_id)
next
  case True
  moreover have "py_strip [] = []" by (simp add: py_strip_def)
  ultimately show ?thesis by simp
qed

lemma one_of_in: "dflt \<in> set options \<Longrightarrow> one_of options dflt v \<in> set options"
  by (simp add: one_of_def)

lemma one_of_keeps: "v \<in> set options \<Longrightarrow> one_of options dflt v = v"
  by (simp add: one_of_def)

lemma parse_int_cases: "parse_int v dflt = i \<longleftrightarrow> py_int v = Some i \<or> py_int v = None \<and> i = dflt"
  by (auto simp: parse_int_def split: option.split)

lemma py_int_defaults: "py_int ''20'' = Some 20" "py_int ''10'' = Some 10" "py_int ''30'' = Some 30"
  "py_int ''3600'' = Some 3600" "py_int ''300'' = Some 300" "py_int ''90'' = Some 90" "py_int ''8000'' = Some 8000"
  by (simp_all add: py_int_def parse_nat_def py_strip_def is_space_def digit_val_def is_digit_def)

lemmas config_defs = server_from_env_def database_from_env_def logging_from_env_def session_from_env_def
  ServerConfig_def DatabaseConfig_def LoggingConfig_def SessionConfig_def env_or_def parse_int_def parse_bool_def

lemma unset_is_default: "server_from_env (\<lambda>k. None) = ServerConfig"
  by (simp add: config_defs py_int_defaults one_of_def BACKENDS_def VALID_LEVELS_def LOG_FORMATS_def py_upper_def
      py_lower_def char_upper_def char_lower_def parse_origins_def py_strip_def is_space_def)



text \<open>A configuration file is read, and can make the start fail, but no value in it is used.\<close>

lemma file_has_no_effect:
  "server_from_file toml env fs p = Inr c \<Longrightarrow> c = server_from_env env"
  by (auto simp: server_from_file_def map_result_def split: if_splits sum.splits)

lemma broken_file_raises:
  "fs_read fs p = Inr t \<Longrightarrow> toml t = Inl e \<Longrightarrow> fs_exists fs p \<Longrightarrow> server_from_file toml env fs p = Inl e"
  by (simp add: server_from_file_def)

text \<open>An empty list of origins is possible, a negative port or interval too.\<close>

lemma no_origin_allowed: "env ''CORS_ORIGINS'' = Some [] \<Longrightarrow> sf_cors_origins (server_from_env env) = []"
  by (simp add: server_from_env_def env_or_def parse_origins_def py_strip_def)

end
