(* ===== verification/ServerApp.thy ===== *)
theory ServerApp
  imports Endpoint Exceptions ServerConfig
begin

text \<open>
  \<open>server/models.py\<close>, \<open>server/db/\<close> and the rest of \<open>server/app.py\<close>: device registration, the
  database handle, tables, start and stop of the server. SQLAlchemy is a parameter.
\<close>

section \<open>Device registration\<close>

record device_registration =
  dr_device_id :: string
  dr_platform :: "string option"
  dr_version :: "string option"

definition id_char :: "char \<Rightarrow> bool" where
  "id_char c \<longleftrightarrow> is_digit c \<or> (let n = of_char c :: nat in 97 \<le> n \<and> n \<le> 122 \<or> 65 \<le> n \<and> n \<le> 90) \<or>
     c = CHR ''_'' \<or> c = CHR ''-''"

text \<open>\<open>re.match(r"^[a-zA-Z0-9_-]+$", v)\<close>; \<open>$\<close> also matches before a final line feed.\<close>

definition matches_id :: "string \<Rightarrow> bool" where
  "matches_id v = (let w = (if v \<noteq> [] \<and> List.last v = CHR 0x0A then butlast v else v) in w \<noteq> [] \<and> list_all id_char w)"

text \<open>The fields of a request as pydantic checks them: a value, or the kind of the error. The
  validator runs on an id that has passed the length checks.\<close>

definition check_device_id :: "pyval option \<Rightarrow> string + string" where
  "check_device_id v = (case v of
       None \<Rightarrow> Inl ''missing''
     | Some (VStr s) \<Rightarrow>
         (if length s < 1 then Inl ''string_too_short''
          else if 255 < length s then Inl ''string_too_long''
          else if \<not> matches_id s then Inl ''value_error'' else Inr s)
     | Some v' \<Rightarrow> Inl ''string_type'')"

definition check_optional :: "nat \<Rightarrow> pyval option \<Rightarrow> string + string option" where
  "check_optional n v = (case v of
       None \<Rightarrow> Inr None
     | Some VNone \<Rightarrow> Inr None
     | Some (VStr s) \<Rightarrow> (if n < length s then Inl ''string_too_long'' else Inr (Some s))
     | Some v' \<Rightarrow> Inl ''string_type'')"

definition field_error :: "string \<Rightarrow> string + 'a \<Rightarrow> (string \<times> string) list" where
  "field_error name r = (case r of Inl kind \<Rightarrow> [(name, kind)] | Inr x \<Rightarrow> [])"

definition parse_registration :: "pyval \<Rightarrow> (string \<times> string) list + device_registration" where
  "parse_registration body = (case body of
       VDict d \<Rightarrow>
         (let i = check_device_id (map_of d (VStr ''device_id''));
              p = check_optional 50 (map_of d (VStr ''platform''));
              v = check_optional 50 (map_of d (VStr ''version''))
          in case (i, p, v) of
               (Inr i', Inr p', Inr v') \<Rightarrow> Inr \<lparr>dr_device_id = i', dr_platform = p', dr_version = v'\<rparr>
             | _ \<Rightarrow> Inl (field_error ''device_id'' i @ field_error ''platform'' p @ field_error ''version'' v))
     | _ \<Rightarrow> Inl [(''body'', ''model_attributes_type'')])"

definition register_device :: "real \<Rightarrow> device_registration \<Rightarrow> pyval" where
  "register_device now data = str_dict [(''status'', VStr ''ok''), (''device_id'', VStr (dr_device_id data)),
     (''timestamp'', VFloat now)]"

text \<open>\<open>POST /api/v1/devices/register\<close>: the errors (status 422) or the answer (status 200)\<close>

definition post_register :: "real \<Rightarrow> pyval \<Rightarrow> (string \<times> string) list + pyval" where
  "post_register now body = (case parse_registration body of
       Inl errs \<Rightarrow> Inl errs | Inr data \<Rightarrow> Inr (register_device now data))"

definition root_info :: pyval where
  "root_info = str_dict [(''name'', VStr ''cpip Cloud API''), (''version'', VStr VERSION),
     (''docs'', VStr ''/docs''), (''health'', VStr ''/health'')]"

record error_response =
  rs_error :: string
  rs_message :: string
  rs_status :: int
  rs_details :: "pyval option"

record health_response =
  rs_health_status :: string
  rs_timestamp :: string

section \<open>The database handle\<close>

datatype pool_class = NullPool | QueuePool

text \<open>The arguments of \<open>create_async_engine\<close>; None for one that is not given\<close>

record engine_args =
  en_url :: string
  en_echo :: bool
  en_pool :: pool_class
  en_pool_size :: "int option"
  en_max_overflow :: "int option"
  en_pool_timeout :: "int option"
  en_pool_recycle :: "int option"
  en_connect_args :: "(string \<times> pyval) list"

definition create_engine_args :: "database_config \<Rightarrow> engine_args" where
  "create_engine_args c =
     (if py_contains (db_url c) ''sqlite'' \<and> py_contains (db_url c) ''memory'' then
        \<lparr>en_url = db_url c, en_echo = db_echo c, en_pool = NullPool, en_pool_size = None, en_max_overflow = None,
         en_pool_timeout = None, en_pool_recycle = None, en_connect_args = []\<rparr>
      else
        \<lparr>en_url = db_url c, en_echo = db_echo c, en_pool = QueuePool, en_pool_size = Some (db_pool_size c),
         en_max_overflow = Some (db_max_overflow c), en_pool_timeout = Some (db_pool_timeout c),
         en_pool_recycle = Some (db_pool_recycle c),
         en_connect_args = [(''timeout'', VInt (db_pool_timeout c)), (''check_same_thread'', VBool False)]\<rparr>)"

text \<open>SQLAlchemy: creating an engine, creating the tables, disposing of it\<close>

record 'e sqlalchemy =
  sq_create :: "engine_args \<Rightarrow> exn + 'e"
  sq_create_all :: "'e \<Rightarrow> exn option"
  sq_dispose :: "'e \<Rightarrow> exn option"

text \<open>The globals of \<open>db/session.py\<close>: the engine and the session factory, by its engine; with them the number
  of sessions open and the engines disposed of.\<close>

record 'e database =
  da_engine :: "'e option"
  da_session :: "'e option"
  da_open :: nat
  da_disposed :: "'e list"

definition new_database :: "'e database" where
  "new_database = \<lparr>da_engine = None, da_session = None, da_open = 0, da_disposed = []\<rparr>"

definition init_failed :: "exn \<Rightarrow> server_error" where
  "init_failed e = database_error (''Failed to initialize database: '' @ exn_message e)
     (error_code_value DB_CONNECT_FAILED) (Some [(''details'', VStr (exn_message e))])"

definition init_db :: "'e sqlalchemy \<Rightarrow> database_config \<Rightarrow> 'e database \<Rightarrow> server_error option \<times> 'e database" where
  "init_db sq c db = (case sq_create sq (create_engine_args c) of
       Inl e \<Rightarrow> (Some (init_failed e), db)
     | Inr en \<Rightarrow>
         (let db' = db\<lparr>da_engine := Some en, da_session := Some en\<rparr> in
          case sq_create_all sq en of Some e \<Rightarrow> (Some (init_failed e), db') | None \<Rightarrow> (None, db')))"

text \<open>\<open>get_db\<close> around a request: the session opened before it, and the outcome after it\<close>

definition get_db_enter :: "'e database \<Rightarrow> server_error option \<times> 'e database" where
  "get_db_enter db = (case da_session db of
       None \<Rightarrow> (Some (database_error ''Database not initialized. Call init_db() first.''
                  (error_code_value DB_CONNECT_FAILED) None), db)
     | Some en \<Rightarrow> (None, db\<lparr>da_open := da_open db + 1\<rparr>))"

definition get_db_exit :: "exn + 'a \<Rightarrow> 'e database \<Rightarrow> (server_error + 'a) \<times> 'e database" where
  "get_db_exit outcome db = (case outcome of
       Inl e \<Rightarrow> (Inl (database_error ''Database session error'' (error_code_value DB_QUERY_FAILED)
                   (Some [(''details'', VStr (exn_message e))])), db\<lparr>da_open := da_open db - 1\<rparr>)
     | Inr x \<Rightarrow> (Inr x, db\<lparr>da_open := da_open db - 1\<rparr>))"

text \<open>An error of \<open>dispose\<close> is logged only; the globals are kept.\<close>

definition close_db :: "'e sqlalchemy \<Rightarrow> 'e database \<Rightarrow> 'e database" where
  "close_db sq db = (case da_engine db of
       None \<Rightarrow> db
     | Some en \<Rightarrow> (case sq_dispose sq en of
         Some e \<Rightarrow> db | None \<Rightarrow> db\<lparr>da_disposed := da_disposed db @ [en]\<rparr>))"

section \<open>Start and stop\<close>

datatype task = HeartbeatLoop int | CleanupLoop int int

record 'e app =
  ap_db :: "'e database"
  ap_tasks :: "task list"

definition startup :: "'e sqlalchemy \<Rightarrow> server_config \<Rightarrow> 'e app \<Rightarrow> server_error option \<times> 'e app" where
  "startup sq c a = (case init_db sq (sf_database c) (ap_db a) of
       (Some e, db) \<Rightarrow> (Some e, a\<lparr>ap_db := db\<rparr>)
     | (None, db) \<Rightarrow> (None, a\<lparr>ap_db := db, ap_tasks := ap_tasks a @
          [HeartbeatLoop (sc_heartbeat_interval (sf_session c)),
           CleanupLoop (sc_cleanup_interval (sf_session c)) (sc_max_idle_seconds (sf_session c))]\<rparr>))"

definition shutdown :: "'e sqlalchemy \<Rightarrow> 'e app \<Rightarrow> 'e app" where
  "shutdown sq a = a\<lparr>ap_db := close_db sq (ap_db a)\<rparr>"

text \<open>The system event of one round of a task, at a time and with a heartbeat's payload\<close>

fun task_round :: "real \<Rightarrow> (pyval \<Rightarrow> pyval) \<Rightarrow> task \<Rightarrow> server_event" where
  "task_round now payload (HeartbeatLoop i) = EvHeartbeat now i payload"
| "task_round now payload (CleanupLoop i m) = EvCleanup now m"

section \<open>Properties\<close>

lemma matches_id_iff: "matches_id v \<longleftrightarrow> (\<exists>w. w \<noteq> [] \<and> list_all id_char w \<and> (v = w \<or> v = w @ [CHR 0x0A]))"
proof
  assume "matches_id v"
  then show "\<exists>w. w \<noteq> [] \<and> list_all id_char w \<and> (v = w \<or> v = w @ [CHR 0x0A])"
    using append_butlast_last_id [of v] unfolding matches_id_def Let_def
    by (cases "v \<noteq> [] \<and> List.last v = CHR 0x0A") (auto intro: exI [of _ "butlast v"])
next
  have lf: "\<not> id_char (CHR 0x0A)" by (simp add: id_char_def is_digit_def Let_def)
  assume "\<exists>w. w \<noteq> [] \<and> list_all id_char w \<and> (v = w \<or> v = w @ [CHR 0x0A])"
  then obtain w where w: "w \<noteq> []" "list_all id_char w" and v: "v = w \<or> v = w @ [CHR 0x0A]" by blast
  from w have "id_char (List.last w)" by (simp add: list_all_iff)
  with lf have "List.last w \<noteq> CHR 0x0A" by metis
  with w v show "matches_id v" by (auto simp: matches_id_def)
qed

lemma check_device_id_ok: "check_device_id v = Inr i \<longleftrightarrow> v = Some (VStr i) \<and> length i \<le> 255 \<and> matches_id i"
  by (auto simp: check_device_id_def matches_id_def Suc_le_eq split: option.splits pyval.splits)

lemma check_optional_ok: "check_optional n v = Inr r \<longleftrightarrow>
    r = None \<and> (v = None \<or> v = Some VNone) \<or> (\<exists>s. r = Some s \<and> v = Some (VStr s) \<and> length s \<le> n)"
  by (auto simp: check_optional_def split: option.splits pyval.splits)

lemma parse_registration_ok:
  "parse_registration (VDict d) = Inr r \<longleftrightarrow>
     check_device_id (map_of d (VStr ''device_id'')) = Inr (dr_device_id r) \<and>
     check_optional 50 (map_of d (VStr ''platform'')) = Inr (dr_platform r) \<and>
     check_optional 50 (map_of d (VStr ''version'')) = Inr (dr_version r)"
  by (cases r) (auto simp: parse_registration_def Let_def split: sum.splits)

definition optional_ok :: "nat \<Rightarrow> pyval option \<Rightarrow> bool" where
  "optional_ok n v \<longleftrightarrow> v = None \<or> v = Some VNone \<or> (\<exists>s. v = Some (VStr s) \<and> length s \<le> n)"

text \<open>A device is registered exactly when its id is a string of at most 255 characters, nonempty, of letters,
  digits, hyphens and underscores only, but for a line feed that may end it, and platform and
  version are absent, null or strings of at most 50; the answer echoes the id. (Nothing is
  stored: the answer is a function of the request and the clock.)\<close>

theorem registration_accepts_identifiers:
  "post_register now (VDict d) = Inr r \<longleftrightarrow>
     (\<exists>i w. map_of d (VStr ''device_id'') = Some (VStr i) \<and> length i \<le> 255 \<and> w \<noteq> [] \<and> list_all id_char w \<and>
       (i = w \<or> i = w @ [CHR 0x0A]) \<and> r = str_dict [(''status'', VStr ''ok''), (''device_id'', VStr i),
         (''timestamp'', VFloat now)]) \<and>
     optional_ok 50 (map_of d (VStr ''platform'')) \<and> optional_ok 50 (map_of d (VStr ''version''))"
proof -
  have opt: "optional_ok 50 v \<longleftrightarrow> (\<exists>x. check_optional 50 v = Inr x)" for v
    by (auto simp: optional_ok_def check_optional_ok)
  have "post_register now (VDict d) = Inr r \<longleftrightarrow>
      (\<exists>x. parse_registration (VDict d) = Inr x \<and> r = register_device now x)"
    by (auto simp: post_register_def split: sum.split)
  also have "\<dots> \<longleftrightarrow> (\<exists>i p v. parse_registration (VDict d) =
      Inr \<lparr>dr_device_id = i, dr_platform = p, dr_version = v\<rparr> \<and>
      r = register_device now \<lparr>dr_device_id = i, dr_platform = p, dr_version = v\<rparr>)"
    by (metis device_registration.cases)
  also have "\<dots> \<longleftrightarrow> (\<exists>i. check_device_id (map_of d (VStr ''device_id'')) = Inr i \<and>
      r = str_dict [(''status'', VStr ''ok''), (''device_id'', VStr i), (''timestamp'', VFloat now)]) \<and>
      optional_ok 50 (map_of d (VStr ''platform'')) \<and> optional_ok 50 (map_of d (VStr ''version''))"
    by (auto simp: parse_registration_ok opt register_device_def)
  finally show ?thesis by (auto simp: check_device_id_ok matches_id_iff)
qed

text \<open>A client that has not logged in has the empty id, which is refused.\<close>

lemma empty_id_is_refused: "post_register now (VDict ((VStr ''device_id'', VStr []) # d)) \<noteq> Inr r"
  by (simp add: post_register_def parse_registration_def check_device_id_def Let_def)

text \<open>The database handle as a system of steps: the factory and the engine always agree.\<close>

datatype 'e db_event = DbInit "'e sqlalchemy" database_config | DbEnter | DbExit "exn + unit" | DbClose "'e sqlalchemy"

fun db_step :: "'e db_event \<Rightarrow> 'e database \<Rightarrow> 'e database" where
  "db_step (DbInit sq c) db = snd (init_db sq c db)"
| "db_step DbEnter db = snd (get_db_enter db)"
| "db_step (DbExit r) db = snd (get_db_exit r db)"
| "db_step (DbClose sq) db = close_db sq db"

interpretation handle: step_system db_step "\<lambda>db. da_session db = da_engine db"
proof
  fix db :: "'e database" and e
  assume "da_session db = da_engine db"
  then show "da_session (db_step e db) = da_engine (db_step e db)"
    by (cases e) (auto simp: init_db_def get_db_enter_def get_db_exit_def close_db_def Let_def
        split: sum.splits option.splits)
qed

lemma close_keeps_factory: "da_session (close_db sq db) = da_session db"
  by (simp add: close_db_def split: option.split)

text \<open>Closing does not close: sessions are still handed out, on the engine disposed of.\<close>

lemma sessions_after_close:
  "da_session db = Some en \<Longrightarrow> fst (get_db_enter (close_db sq db)) = None"
  by (simp add: get_db_enter_def close_keeps_factory)

text \<open>A request that raises, an HTTP error included, ends as a database error of status 500.\<close>

lemma any_exception_is_a_database_error:
  "fst (get_db_exit (Inl e) db) = Inl x \<Longrightarrow> se_status_code x = 500 \<and> se_error_code x = ''DB_QUERY_FAILED''"
  by (auto simp: get_db_exit_def database_error_def cpip_exception_def)

text \<open>Tables that cannot be created leave the factory set, so requests still get sessions.\<close>

lemma failed_tables_leave_factory:
  "sq_create sq (create_engine_args c) = Inr en \<Longrightarrow> sq_create_all sq en = Some e \<Longrightarrow>
   init_db sq c db = (Some (init_failed e), db\<lparr>da_engine := Some en, da_session := Some en\<rparr>)"
  by (simp add: init_db_def)

lemma startup_outcome:
  assumes "startup sq c a = (err, a')"
  shows "if \<exists>en. sq_create sq (create_engine_args (sf_database c)) = Inr en \<and> sq_create_all sq en = None
    then err = None \<and> ap_tasks a' = ap_tasks a @ [HeartbeatLoop (sc_heartbeat_interval (sf_session c)),
        CleanupLoop (sc_cleanup_interval (sf_session c)) (sc_max_idle_seconds (sf_session c))]
    else ap_tasks a' = ap_tasks a \<and> (\<exists>x. err = Some x \<and> se_error_code x = ''DB_CONNECT_FAILED'' \<and> se_status_code x = 500)"
  using assms by (auto simp: startup_def init_db_def init_failed_def database_error_def cpip_exception_def Let_def
      split: sum.splits option.splits)

text \<open>C39: SQLAlchemy refuses \<open>QueuePool\<close> for an asyncio engine. The server therefore starts only with an in-memory
  SQLite URL: with any other, the default included, its start raises DB_CONNECT_FAILED, no loop
  runs and no request gets a session.\<close>

theorem server_starts_only_in_memory:
  assumes "\<And>a. en_pool a = QueuePool \<Longrightarrow> \<exists>e. sq_create sq a = Inl e"
    and "\<not> (py_contains (db_url (sf_database c)) ''sqlite'' \<and> py_contains (db_url (sf_database c)) ''memory'')"
    and "startup sq c \<lparr>ap_db = new_database, ap_tasks = []\<rparr> = (err, a)"
  shows "(\<exists>x. err = Some x \<and> se_error_code x = ''DB_CONNECT_FAILED'') \<and> ap_tasks a = [] \<and>
    (\<exists>x. fst (get_db_enter (ap_db a)) = Some x)"
proof -
  have "en_pool (create_engine_args (sf_database c)) = QueuePool" using assms(2) by (auto simp: create_engine_args_def)
  from assms(1) [OF this] obtain e where e: "sq_create sq (create_engine_args (sf_database c)) = Inl e" by blast
  with startup_outcome [OF assms(3)] assms(3) show ?thesis
    by (auto simp: startup_def init_db_def get_db_enter_def new_database_def)
qed

definition strict_sqlalchemy :: "unit sqlalchemy" where
  "strict_sqlalchemy = \<lparr>sq_create = (\<lambda>a. if en_pool a = QueuePool
       then Inl (OtherError ''ArgumentError'' ''Pool class QueuePool cannot be used with asyncio engine'') else Inr ()),
     sq_create_all = (\<lambda>e. None), sq_dispose = (\<lambda>e. None)\<rparr>"

theorem server_starts_only_in_memory_witness:
  "ap_tasks (snd (startup strict_sqlalchemy ServerConfig \<lparr>ap_db = new_database, ap_tasks = []\<rparr>)) = [] \<and>
   ap_tasks (snd (startup strict_sqlalchemy (ServerConfig\<lparr>sf_database := DatabaseConfig\<lparr>db_url := ''sqlite:///:memory:''\<rparr>\<rparr>)
     \<lparr>ap_db = new_database, ap_tasks = []\<rparr>)) = [HeartbeatLoop 30, CleanupLoop 300 3600]"
proof -
  let ?a = "\<lparr>ap_db = new_database, ap_tasks = []\<rparr>"
  obtain err a where run: "startup strict_sqlalchemy ServerConfig ?a = (err, a)" by (metis surj_pair)
  have "\<not> py_contains (db_url (sf_database ServerConfig)) ''memory''"
    by (simp add: ServerConfig_def DatabaseConfig_def)
  then have "ap_tasks a = []"
    using server_starts_only_in_memory [OF _ _ run] by (simp add: strict_sqlalchemy_def)
  moreover have "ap_tasks (snd (startup strict_sqlalchemy
      (ServerConfig\<lparr>sf_database := DatabaseConfig\<lparr>db_url := ''sqlite:///:memory:''\<rparr>\<rparr>) ?a)) =
      [HeartbeatLoop 30, CleanupLoop 300 3600]"
    by (simp add: startup_def init_db_def create_engine_args_def strict_sqlalchemy_def ServerConfig_def
        SessionConfig_def)
  ultimately show ?thesis using run by simp
qed

section \<open>Tables\<close>

datatype sql_type = SqlString nat | SqlText | SqlInteger | SqlFloat | SqlBoolean | SqlDateTime | SqlJSON

text \<open>\<open>default=\<close>: a literal, or a function called at insertion\<close>

datatype column_default = NoDefault | Literal pyval | GenUuid | UtcNow | NewDict | NewList

record column =
  co_name :: string
  co_type :: sql_type
  co_primary :: bool
  co_nullable :: bool
  co_unique :: bool
  co_index :: bool
  co_foreign :: "string option"
  co_default :: column_default
  co_onupdate :: bool

definition Column :: "string \<Rightarrow> sql_type \<Rightarrow> column_default \<Rightarrow> column" where
  "Column n t d = \<lparr>co_name = n, co_type = t, co_primary = False, co_nullable = True, co_unique = False,
     co_index = False, co_foreign = None, co_default = d, co_onupdate = False\<rparr>"

definition id_column :: column where
  "id_column = (Column ''id'' (SqlString 36) GenUuid)\<lparr>co_primary := True, co_nullable := False\<rparr>"

type_synonym table = "string \<times> column list"

definition users_schema :: table where
  "users_schema = (''users'', [id_column,
     (Column ''email'' (SqlString 255) NoDefault)\<lparr>co_unique := True\<rparr>,
     (Column ''api_key'' (SqlString 255) NoDefault)\<lparr>co_unique := True, co_index := True\<rparr>,
     Column ''hashed_password'' (SqlString 255) NoDefault, Column ''tier'' (SqlString 50) (Literal (VStr ''free'')),
     Column ''is_active'' SqlBoolean (Literal (VBool True)), Column ''created_at'' SqlDateTime UtcNow,
     (Column ''updated_at'' SqlDateTime UtcNow)\<lparr>co_onupdate := True\<rparr>])"

definition devices_schema :: table where
  "devices_schema = (''devices'', [id_column,
     (Column ''user_id'' (SqlString 36) NoDefault)\<lparr>co_foreign := Some ''users.id''\<rparr>,
     Column ''architecture'' (SqlString 50) NoDefault, Column ''platform_tag'' (SqlString 100) NoDefault,
     Column ''python_version'' (SqlString 20) NoDefault, Column ''last_seen'' SqlDateTime UtcNow,
     Column ''metadata'' SqlJSON NewDict])"

definition packages_schema :: table where
  "packages_schema = (''packages'', [id_column,
     (Column ''name'' (SqlString 255) NoDefault)\<lparr>co_index := True, co_nullable := False\<rparr>,
     (Column ''version'' (SqlString 50) NoDefault)\<lparr>co_nullable := False\<rparr>,
     Column ''description'' SqlText (Literal (VStr [])), Column ''strategy'' (SqlString 50) (Literal (VStr ''local_install'')),
     Column ''wheel_url'' (SqlString 1024) NoDefault, Column ''wheel_hash'' (SqlString 64) NoDefault,
     Column ''wheel_size'' SqlInteger (Literal (VInt 0)), Column ''requires_gpu'' SqlBoolean (Literal (VBool False)),
     Column ''cloud_only'' SqlBoolean (Literal (VBool False)), Column ''supported_architectures'' SqlJSON NewList,
     Column ''dependencies'' SqlJSON NewList, Column ''layers'' SqlJSON NewList, Column ''metadata'' SqlJSON NewDict,
     Column ''created_at'' SqlDateTime UtcNow, (Column ''updated_at'' SqlDateTime UtcNow)\<lparr>co_onupdate := True\<rparr>])"

definition builds_schema :: table where
  "builds_schema = (''builds'', [id_column,
     (Column ''package_name'' (SqlString 255) NoDefault)\<lparr>co_nullable := False\<rparr>,
     Column ''package_version'' (SqlString 50) (Literal (VStr ''latest'')),
     Column ''target_architecture'' (SqlString 50) (Literal (VStr ''aarch64'')),
     Column ''python_version'' (SqlString 20) (Literal (VStr ''3.11'')),
     Column ''status'' (SqlString 50) (Literal (VStr ''queued'')), Column ''wheel_url'' (SqlString 1024) NoDefault,
     Column ''wheel_hash'' (SqlString 64) NoDefault, Column ''build_log'' SqlText (Literal (VStr [])),
     Column ''error'' SqlText NoDefault, Column ''priority'' SqlInteger (Literal (VInt 5)),
     Column ''duration_seconds'' SqlFloat (Literal (VInt 0)), Column ''created_at'' SqlDateTime UtcNow,
     Column ''completed_at'' SqlDateTime NoDefault])"

definition executions_schema :: table where
  "executions_schema = (''executions'', [id_column,
     Column ''device_id'' (SqlString 36) NoDefault, Column ''session_id'' (SqlString 36) NoDefault,
     Column ''method'' (SqlString 500) NoDefault, Column ''status'' (SqlString 50) (Literal (VStr ''pending'')),
     Column ''mode'' (SqlString 50) (Literal (VStr ''cloud'')), Column ''result_type'' (SqlString 50) (Literal (VStr ''python'')),
     Column ''duration_ms'' SqlFloat (Literal (VInt 0)), Column ''error'' SqlText NoDefault,
     Column ''created_at'' SqlDateTime UtcNow, Column ''completed_at'' SqlDateTime NoDefault])"

definition tables :: "table list" where
  "tables = [users_schema, devices_schema, packages_schema, builds_schema, executions_schema]"

text \<open>A new row: the values given, and the defaults of the other columns\<close>

definition default_value :: "string \<Rightarrow> pyval \<Rightarrow> column_default \<Rightarrow> pyval" where
  "default_value uuid now d = (case d of NoDefault \<Rightarrow> VNone | Literal v \<Rightarrow> v | GenUuid \<Rightarrow> VStr uuid
     | UtcNow \<Rightarrow> now | NewDict \<Rightarrow> VDict [] | NewList \<Rightarrow> VList [])"

definition new_row :: "string \<Rightarrow> pyval \<Rightarrow> column list \<Rightarrow> (string, pyval) dict \<Rightarrow> (string, pyval) dict" where
  "new_row uuid now cols given = map (\<lambda>c. (co_name c, case dget given (co_name c) of
     Some v \<Rightarrow> v | None \<Rightarrow> default_value uuid now (co_default c))) cols"

text \<open>What a column can hold; a date is an object of class \<open>datetime\<close>.\<close>

fun fits_type :: "sql_type \<Rightarrow> pyval \<Rightarrow> bool" where
  "fits_type (SqlString n) (VStr s) = (length s \<le> n)"
| "fits_type SqlText (VStr s) = True"
| "fits_type SqlInteger (VInt i) = True"
| "fits_type SqlFloat (VFloat r) = True"
| "fits_type SqlFloat (VInt i) = True"
| "fits_type SqlBoolean (VBool b) = True"
| "fits_type SqlDateTime (VObj m c i) = (m = ''datetime'' \<and> c = ''datetime'')"
| "fits_type SqlJSON v = json_able v"
| "fits_type t v = False"

definition fits_column :: "column \<Rightarrow> pyval \<Rightarrow> bool" where
  "fits_column c v = (if v = VNone then co_nullable c else fits_type (co_type c) v)"

text \<open>A table in order: distinct columns, one primary key, defaults that fit\<close>

definition sound_table :: "column list \<Rightarrow> bool" where
  "sound_table cols = (distinct (map co_name cols) \<and> length (filter co_primary cols) = 1 \<and>
     list_all (\<lambda>c. (case co_default c of
         NoDefault \<Rightarrow> True | Literal v \<Rightarrow> v \<noteq> VNone \<and> fits_type (co_type c) v | GenUuid \<Rightarrow> co_type c = SqlString 36
       | UtcNow \<Rightarrow> co_type c = SqlDateTime | NewDict \<Rightarrow> co_type c = SqlJSON | NewList \<Rightarrow> co_type c = SqlJSON)) cols)"

lemmas table_defs = users_schema_def devices_schema_def packages_schema_def builds_schema_def executions_schema_def
  id_column_def Column_def

lemma tables_sound: "list_all (\<lambda>(n, cols). sound_table cols) tables"
  by (simp add: tables_def table_defs sound_table_def)

text \<open>A row of any table that is made from values that fit and covers the columns without a default that may
  not be null fits the table in every column, whatever else is left to the defaults.\<close>

theorem new_rows_fit:
  assumes "(n, cols) \<in> set tables" and "length uuid \<le> 36" and "fits_type SqlDateTime now"
    and "\<And>c v. c \<in> set cols \<Longrightarrow> dget given (co_name c) = Some v \<Longrightarrow> fits_column c v"
    and "\<And>c. c \<in> set cols \<Longrightarrow> \<not> co_nullable c \<Longrightarrow> co_default c = NoDefault \<Longrightarrow> dget given (co_name c) \<noteq> None"
  shows "map fst (new_row uuid now cols given) = map co_name cols \<and>
    (\<forall>c\<in>set cols. \<exists>v. dget (new_row uuid now cols given) (co_name c) = Some v \<and> fits_column c v)"
proof -
  have sound: "sound_table cols" using tables_sound assms(1) by (auto simp: list_all_iff)
  have "\<exists>v. dget (new_row uuid now cols given) (co_name c) = Some v \<and> fits_column c v" if c: "c \<in> set cols" for c
  proof -
    let ?v = "case dget given (co_name c) of Some v \<Rightarrow> v | None \<Rightarrow> default_value uuid now (co_default c)"
    have "distinct (map fst (new_row uuid now cols given))"
      using sound by (simp add: new_row_def sound_table_def comp_def)
    moreover have "(co_name c, ?v) \<in> set (new_row uuid now cols given)" using c by (auto simp: new_row_def)
    ultimately have "dget (new_row uuid now cols given) (co_name c) = Some ?v" by (rule map_of_is_SomeI)
    moreover have "fits_column c ?v"
    proof (cases "dget given (co_name c)")
      case None
      have "fits_column c (default_value uuid now (co_default c))"
        using sound c assms(2,3) assms(5) [OF c] None
        by (auto simp: sound_table_def list_all_iff fits_column_def default_value_def split: column_default.splits)
      with None show ?thesis by simp
    qed (use assms(4) [OF c] in auto)
    ultimately show ?thesis by blast
  qed
  then show ?thesis by (simp add: new_row_def comp_def)
qed

definition demo_now :: pyval where
  "demo_now = VObj ''datetime'' ''datetime'' 0"

theorem new_rows_fit_witness:
  "\<forall>c\<in>set (snd builds_schema). \<exists>v. dget (new_row ''u'' demo_now (snd builds_schema) [(''package_name'', VStr ''numpy'')])
     (co_name c) = Some v \<and> fits_column c v"
proof -
  let ?given = "[(''package_name'', VStr ''numpy'')]"
  have mem: "(''builds'', snd builds_schema) \<in> set tables" by (simp add: tables_def builds_schema_def)
  have cols: "list_all (\<lambda>c. (co_name c = ''package_name'' \<longrightarrow> fits_column c (VStr ''numpy'')) \<and>
      (\<not> co_nullable c \<and> co_default c = NoDefault \<longrightarrow> co_name c = ''package_name'')) (snd builds_schema)"
    by (simp add: builds_schema_def Column_def id_column_def fits_column_def)
  have fits: "fits_column c v" if "c \<in> set (snd builds_schema)" "dget ?given (co_name c) = Some v" for c v
  proof -
    from that(2) have "co_name c = ''package_name''" "v = VStr ''numpy''" by (simp_all split: if_splits)
    with cols that(1) show ?thesis by (auto simp: list_all_iff)
  qed
  have needs: "dget ?given (co_name c) \<noteq> None"
    if "c \<in> set (snd builds_schema)" "\<not> co_nullable c" "co_default c = NoDefault" for c
  proof -
    from cols that have "co_name c = ''package_name''" by (auto simp: list_all_iff)
    then show ?thesis by simp
  qed
  have date: "fits_type SqlDateTime demo_now" by (simp add: demo_now_def)
  have uuid: "length ''u'' \<le> 36" by simp
  show ?thesis
    by (rule new_rows_fit [where given = ?given, OF mem uuid date, THEN conjunct2]) (rule fits needs; assumption)+
qed

text \<open>Foreign keys name the primary key of a table; the defaults of states and strategies are values of
  the enumerations of \<open>shared/models.py\<close>.\<close>

definition primary_keys :: "string list" where
  "primary_keys = map (\<lambda>(n, cols). n @ ''.'' @ co_name (hd (filter co_primary cols))) tables"

lemma foreign_keys_exist:
  "list_all (\<lambda>(n, cols). list_all (\<lambda>c. co_foreign c = None \<or> the (co_foreign c) \<in> set primary_keys) cols) tables"
  by (simp add: primary_keys_def tables_def table_defs)

lemma defaults_are_enum_values:
  "dget (new_row u t (snd packages_schema) []) ''strategy'' = Some (VStr (strategy_value LOCAL_INSTALL))"
  "dget (new_row u t (snd builds_schema) []) ''status'' = Some (VStr (build_status_value B_QUEUED))"
  by (simp_all add: new_row_def packages_schema_def builds_schema_def Column_def id_column_def default_value_def)

end
