(* ===== verification/UI.thy ===== *)
theory UI
  imports Platform Models
begin

text \<open>
  \<open>client/ui/\<close>: the theme and the lines of the console, status panels, progress bars. Rich renders
  them; here a line is the markup string given to it, in UTF-8, and a panel or a bar is data.
\<close>

section \<open>Console\<close>

text \<open>The art of \<open>BANNER\<close>, with an ASCII letter for each box-drawing character\<close>

definition banner_glyph :: "char \<Rightarrow> string" where
  "banner_glyph c = (if c = CHR ''H'' then [CHR 0xE2, CHR 0x96, CHR 0x88] else if c = CHR ''7'' then [CHR 0xE2, CHR 0x95, CHR 0x97]
     else if c = CHR ''r'' then [CHR 0xE2, CHR 0x95, CHR 0x94] else if c = CHR ''='' then [CHR 0xE2, CHR 0x95, CHR 0x90]
     else if c = CHR ''I'' then [CHR 0xE2, CHR 0x95, CHR 0x91] else if c = CHR ''J'' then [CHR 0xE2, CHR 0x95, CHR 0x9D]
     else if c = CHR ''L'' then [CHR 0xE2, CHR 0x95, CHR 0x9A] else [c])"

definition BANNER :: "string \<Rightarrow> string \<Rightarrow> string" where
  "BANNER version codename = py_join [CHR 0x0A] ([[], ''[bold cyan]''] @
     map (\<lambda>s. concat (map banner_glyph s)) [''   HHHHHH7HHHHHH7 HH7HHHHHH7'',
       ''  HHr====JHHr==HH7HHIHHr==HH7'',
       ''  HHI     HHHHHHrJHHIHHHHHHrJ'',
       ''  HHI     HHr===J HHIHHr===J'',
       ''  LHHHHHH7HHI     HHIHHI'',
       ''   L=====JL=J     L=JL=J''] @
     [''[/bold cyan]'', ''[dim]  Cloud-Powered Package Intelligence[/dim]'',
      ''[dim]  v'' @ version @ '' '' @ [CHR 0xE2, CHR 0x80, CHR 0xA2] @ '' '' @ codename @ ''[/dim]'', []])"

definition print_banner :: string where
  "print_banner = BANNER VERSION CODENAME"


record text_style =
  ts_color :: string
  ts_bold :: bool
  ts_italic :: bool
  ts_underline :: bool
  ts_dim :: bool

definition style :: "string \<Rightarrow> bool \<Rightarrow> bool \<Rightarrow> bool \<Rightarrow> bool \<Rightarrow> text_style" where
  "style c b i u d = \<lparr>ts_color = c, ts_bold = b, ts_italic = i, ts_underline = u, ts_dim = d\<rparr>"

definition CPIP_THEME :: "(string, text_style) dict" where
  "CPIP_THEME =
    [(''cpip.primary'', style ''#00D4FF'' True False False False),
     (''cpip.secondary'', style ''#7B61FF'' False False False False),
     (''cpip.accent'', style ''#FF6B6B'' False False False False),
     (''cpip.success'', style ''#00E676'' True False False False),
     (''cpip.warning'', style ''#FFD600'' True False False False),
     (''cpip.error'', style ''#FF1744'' True False False False),
     (''cpip.info'', style ''#448AFF'' False False False False),
     (''cpip.dim'', style ''#78909C'' False False False False),
     (''cpip.muted'', style ''#546E7A'' False False False True),
     (''cpip.package'', style ''#00D4FF'' True False False False),
     (''cpip.version'', style ''#7B61FF'' False False False False),
     (''cpip.strategy'', style ''#FF6B6B'' False True False False),
     (''cpip.path'', style ''#80CBC4'' False False False False),
     (''cpip.url'', style ''#448AFF'' False False True False),
     (''cpip.command'', style ''#FFD600'' True False False False),
     (''cpip.status.ok'', style ''#00E676'' False False False False),
     (''cpip.status.warn'', style ''#FFD600'' False False False False),
     (''cpip.status.fail'', style ''#FF1744'' False False False False),
     (''cpip.status.cloud'', style ''#7B61FF'' False False False False),
     (''cpip.status.local'', style ''#00D4FF'' False False False False),
     (''cpip.status.gpu'', style ''#FF6B6B'' False False False False),
     (''cpip.progress.bar'', style ''#00D4FF'' False False False False),
     (''cpip.progress.text'', style ''#B0BEC5'' False False False False),
     (''cpip.progress.speed'', style ''#7B61FF'' False False False False),
     (''cpip.header'', style ''#00D4FF'' True False False False),
     (''cpip.subheader'', style ''#B0BEC5'' True False False False),
     (''cpip.divider'', style ''#37474F'' False False False False),
     (''cpip.table.header'', style ''#00D4FF'' True False False False),
     (''cpip.table.row'', style ''#ECEFF1'' False False False False),
     (''cpip.table.row.alt'', style ''#B0BEC5'' False False False False)]"

text \<open>\<open>[style]text[/style]\<close>\<close>

definition markup :: "string \<Rightarrow> string \<Rightarrow> string" where
  "markup st t = ''['' @ st @ '']'' @ t @ ''[/'' @ st @ '']''"

definition print_success :: "string \<Rightarrow> string" where
  "print_success m = ''  '' @ markup ''cpip.success'' [CHR 0xE2, CHR 0x9C, CHR 0x93] @ '' '' @ m"

definition print_error :: "string \<Rightarrow> string" where
  "print_error m = ''  '' @ markup ''cpip.error'' [CHR 0xE2, CHR 0x9C, CHR 0x97] @ '' '' @ m"

definition print_warning :: "string \<Rightarrow> string" where
  "print_warning m = ''  '' @ markup ''cpip.warning'' [CHR 0xE2, CHR 0x9A, CHR 0xA0] @ '' '' @ m"

definition print_info :: "string \<Rightarrow> string" where
  "print_info m = ''  '' @ markup ''cpip.info'' [CHR 0xE2, CHR 0x84, CHR 0xB9] @ '' '' @ m"

definition print_cloud :: "string \<Rightarrow> string" where
  "print_cloud m = ''  '' @ markup ''cpip.status.cloud'' [CHR 0xE2, CHR 0x98, CHR 0x81] @ '' '' @ m"

definition print_gpu :: "string \<Rightarrow> string" where
  "print_gpu m = ''  '' @ markup ''cpip.status.gpu'' [CHR 0xE2, CHR 0x9A, CHR 0xA1] @ '' '' @ m"

definition print_package :: "string \<Rightarrow> string \<Rightarrow> string \<Rightarrow> string" where
  "print_package name version strategy = py_join '' ''
     ([''  '' @ markup ''cpip.package'' name] @ (if version \<noteq> [] then [markup ''cpip.version'' version] else []) @
      (if strategy \<noteq> [] then [markup ''cpip.strategy'' (''('' @ strategy @ '')'')] else []))"

definition print_divider :: "string \<Rightarrow> string" where
  "print_divider title =
     (let bar = [CHR 0xE2, CHR 0x94, CHR 0x81] in
      if title \<noteq> [] then CHR 0x0A # ''  '' @ markup ''cpip.header'' (bar @ bar @ bar @ '' '' @ title @ '' '' @ bar @ bar @ bar)
      else ''  '' @ markup ''cpip.divider'' (concat (replicate 50 bar)))"

definition print_step :: "nat \<Rightarrow> nat \<Rightarrow> string \<Rightarrow> string" where
  "print_step step n m = ''  '' @ markup ''cpip.dim'' (''['' @ nat_str step @ ''/'' @ nat_str n @ '']'') @ '' '' @ m"

section \<open>Panels\<close>

datatype panel_body = Rows "(string \<times> string) list" | Grid "string list" "string list list" | Centered string

record panel =
  pl_title :: string
  pl_border :: string
  pl_body :: panel_body

definition status_panel :: "string \<Rightarrow> (string, string) dict \<Rightarrow> string \<Rightarrow> panel" where
  "status_panel title items border =
     \<lparr>pl_title = markup ''cpip.header'' title, pl_border = border, pl_body = Rows items\<rparr>"

text \<open>\<open>info.get(k, dflt)\<close> of a dict with string keys\<close>

definition info_get :: "(string, pyval) dict \<Rightarrow> string \<Rightarrow> pyval \<Rightarrow> pyval" where
  "info_get info k dflt = (case dget info k of Some v \<Rightarrow> v | None \<Rightarrow> dflt)"

definition system_info_panel :: "(pyval \<Rightarrow> string) \<Rightarrow> (string, pyval) dict \<Rightarrow> panel" where
  "system_info_panel str info = status_panel ''System Information''
     [(''Platform'', markup ''cpip.primary'' (str (info_get info ''platform_tag'' (VStr ''unknown'')))),
      (''Architecture'', str (info_get info ''architecture'' (VStr ''unknown''))),
      (''Python'', str (info_get info ''python_version'' (VStr ''unknown''))),
      (''CPU Cores'', str (info_get info ''cpu_count'' (VInt 0))),
      (''Memory'', str (info_get info ''total_memory_mb'' (VInt 0)) @ '' MB''),
      (''Disk Free'', str (info_get info ''available_disk_mb'' (VInt 0)) @ '' MB''),
      (''Termux'', if truthy (info_get info ''is_termux'' VNone) then markup ''cpip.success'' ''Yes'' else markup ''cpip.dim'' ''No''),
      (''GPU'', if truthy (info_get info ''has_gpu'' VNone)
         then markup ''cpip.status.gpu'' ([CHR 0xE2, CHR 0x9A, CHR 0xA1] @ '' Detected'') else markup ''cpip.dim'' ''None'')] ''cyan''"

definition cloud_status_panel :: "(pyval \<Rightarrow> string) \<Rightarrow> bool \<Rightarrow> string \<Rightarrow> (string, pyval) dict \<Rightarrow> panel" where
  "cloud_status_panel str is_connected api_url stats = status_panel ''Cloud Status''
     ([(''Status'', if is_connected then markup ''cpip.success'' ([CHR 0xE2, CHR 0x97, CHR 0x8F] @ '' Connected'')
          else markup ''cpip.error'' ([CHR 0xE2, CHR 0x97, CHR 0x8F] @ '' Disconnected'')),
       (''API'', markup ''cpip.url'' api_url)] @
      (if stats \<noteq> [] then [(''Build Queue'', str (info_get stats ''build_queue_size'' (VInt 0))),
         (''Active Exec'', str (info_get stats ''active_executions'' (VInt 0))),
         (''Devices'', str (info_get stats ''connected_devices'' (VInt 0)))] else [])) ''bright_magenta''"

definition strategy_colors :: "(string, string) dict" where
  "strategy_colors = [(''local_install'', ''cpip.status.local''), (''cloud_wheel'', ''cpip.status.cloud''),
     (''cloud_exec'', ''cpip.status.cloud''), (''cloud_build'', ''cpip.status.cloud''), (''hybrid'', ''cpip.status.gpu''),
     (''termux_pkg'', ''cpip.status.local'')]"

text \<open>The optional details: size, dependencies, whether a GPU is required\<close>

definition package_info_panel ::
  "string \<Rightarrow> string \<Rightarrow> string \<Rightarrow> string option \<Rightarrow> string list option \<Rightarrow> pyval option \<Rightarrow> panel" where
  "package_info_panel name version strategy sz dependencies gpu_required =
     (let st = (case dget strategy_colors strategy of Some s \<Rightarrow> s | None \<Rightarrow> ''cpip.info'') in
      status_panel ([CHR 0xF0, CHR 0x9F, CHR 0x93, CHR 0xA6] @ '' '' @ name)
        ([(''Package'', markup ''cpip.package'' name), (''Version'', markup ''cpip.version'' version),
          (''Strategy'', markup st strategy)] @
         (case sz of None \<Rightarrow> [] | Some s \<Rightarrow> [(''Size'', s)]) @
         (case dependencies of None \<Rightarrow> [] | Some ds \<Rightarrow> [(''Dependencies'', py_join '', '' (take 5 ds))]) @
         (case gpu_required of None \<Rightarrow> [] | Some g \<Rightarrow>
            [(''GPU'', if truthy g then markup ''cpip.status.gpu'' ''Required'' else ''Not required'')])) ''bright_cyan'')"

definition gpu_status_panel :: "(string, string) dict list \<Rightarrow> panel" where
  "gpu_status_panel gpus =
     (if gpus = [] then \<lparr>pl_title = markup ''cpip.header'' ''GPU Status'', pl_border = ''bright_red'',
        pl_body = Centered (''No local GPU detected'' @ [CHR 0x0A] @ ''Cloud GPU available via cpip runtime'')\<rparr>
      else \<lparr>pl_title = markup ''cpip.header'' ([CHR 0xE2, CHR 0x9A, CHR 0xA1] @ '' GPU Status''), pl_border = ''bright_red'',
        pl_body = Grid [''GPU'', ''Memory'', ''Status'']
          (map (\<lambda>g. [env_or (map_of g) ''name'' ''Unknown'', env_or (map_of g) ''memory'' ''N/A'',
             env_or (map_of g) ''status'' ''available'']) gpus)\<rparr>)"

definition strategy_icons :: "(string, string) dict" where
  "strategy_icons = [(''local_install'', [CHR 0xF0, CHR 0x9F, CHR 0x93, CHR 0xA6] @ '' local''), (''cloud_wheel'', [CHR 0xE2, CHR 0x98, CHR 0x81, CHR 0xEF, CHR 0xB8, CHR 0x8F, CHR 0x20, CHR 0x20] @ ''wheel''),
     (''cloud_exec'', [CHR 0xE2, CHR 0x98, CHR 0x81, CHR 0xEF, CHR 0xB8, CHR 0x8F, CHR 0x20, CHR 0x20] @ ''exec''), (''hybrid'', [CHR 0xE2, CHR 0x9A, CHR 0xA1] @ '' hybrid''), (''termux_pkg'', [CHR 0xF0, CHR 0x9F, CHR 0x93, CHR 0xB1] @ '' termux'')]"

definition packages_table :: "(string, string) dict list \<Rightarrow> panel_body" where
  "packages_table packages = Grid [''Package'', ''Version'', ''Strategy'', ''Size'']
     (map (\<lambda>p. let strategy = env_or (map_of p) ''strategy'' ''local_install'' in
        [env_or (map_of p) ''name'' ''?'', env_or (map_of p) ''version'' ''?'',
         env_or (map_of strategy_icons) strategy strategy, env_or (map_of p) ''size'' []]) packages)"

definition dashboard :: "(pyval \<Rightarrow> string) \<Rightarrow> (string, pyval) dict \<Rightarrow> bool \<Rightarrow> string \<Rightarrow> panel list" where
  "dashboard str system cloud_connected api_url =
     [system_info_panel str system, cloud_status_panel str cloud_connected api_url []]"

section \<open>Progress bars\<close>

text \<open>The columns of a bar; a text column is a format over the fields of its task.\<close>

datatype progress_column =
    Spinner string string | TextCol string | Bar nat string string string | TaskProgress | Download
  | TransferSpeed | TimeRemaining | TimeElapsed

definition download_progress :: "progress_column list" where
  "download_progress = [Spinner ''dots'' ''cpip.primary'', TextCol (markup ''cpip.package'' ''{task.fields[package]}''),
     Bar 30 ''cpip.divider'' ''cpip.primary'' ''cpip.success'', TaskProgress, Download, TransferSpeed, TimeRemaining]"

definition build_progress :: "progress_column list" where
  "build_progress = [Spinner ''bouncingBall'' ''cpip.status.cloud'', TextCol (markup ''cpip.status.cloud'' [CHR 0xE2, CHR 0x98, CHR 0x81]),
     TextCol (markup ''cpip.package'' ''{task.fields[package]}''), TextCol (markup ''cpip.dim'' ''{task.fields[stage]}''),
     Bar 25 ''cpip.divider'' ''cpip.status.cloud'' ''cpip.success'', TaskProgress, TimeElapsed]"

definition install_progress :: "progress_column list" where
  "install_progress = [Spinner ''arc'' ''cpip.primary'', TextCol (markup ''cpip.primary'' ''installing''),
     TextCol (markup ''cpip.package'' ''{task.fields[package]}''), Bar 30 ''cpip.divider'' ''cpip.primary'' ''cpip.success'',
     TaskProgress, TimeElapsed]"

definition sync_progress :: "progress_column list" where
  "sync_progress = [Spinner ''dots12'' ''cpip.info'', TextCol (markup ''cpip.info'' ''syncing''), TextCol ''{task.description}'',
     Bar 25 ''cpip.divider'' ''cpip.info'' ''cpip.success'', TaskProgress]"

definition exec_spinner :: "string \<Rightarrow> progress_column list" where
  "exec_spinner message = [Spinner ''dots2'' ''cpip.status.gpu'',
     TextCol (markup ''cpip.status.gpu'' [CHR 0xE2, CHR 0x9A, CHR 0xA1] @ '' '' @ message), TimeElapsed]"

definition multi_package_progress :: "progress_column list" where
  "multi_package_progress = [Spinner ''dots'' ''cpip.primary'', TextCol ''{task.description}'',
     Bar 35 ''cpip.divider'' ''cpip.primary'' ''cpip.success'', TextCol (markup ''cpip.dim'' ''{task.fields[status]}''), TaskProgress]"

section \<open>Every style is in the theme\<close>

fun column_styles :: "progress_column \<Rightarrow> string list" where
  "column_styles (Spinner n s) = [s]"
| "column_styles (Bar w s c f) = [s, c, f]"
| "column_styles c = []"

lemma progress_styles_in_theme:
  "list_all (\<lambda>c. list_all (dhas CPIP_THEME) (column_styles c)) (download_progress @ build_progress @ install_progress @
     sync_progress @ exec_spinner m @ multi_package_progress)"
  by (simp add: download_progress_def build_progress_def install_progress_def sync_progress_def exec_spinner_def
      multi_package_progress_def dhas_def CPIP_THEME_def)

lemma strategy_styles_in_theme: "list_all (dhas CPIP_THEME) (map snd strategy_colors)"
  by (simp add: strategy_colors_def dhas_def CPIP_THEME_def)

text \<open>The dashboard shows the fields of the system under their labels.\<close>

lemma dashboard_shows_system:
  assumes "dget info ''architecture'' = Some (VStr a)" and "\<And>s. str (VStr s) = s"
  shows "\<exists>rows. pl_body (hd (dashboard str info c u)) = Rows rows \<and> dget rows ''Architecture'' = Some a"
  using assms by (simp add: dashboard_def system_info_panel_def status_panel_def info_get_def)

end
