(* ===== verification/Cli.thy ===== *)
theory Cli
  imports UI Install Runtime Daemon Doctor Auth "HOL-Library.Char_ord" "HOL-Library.List_Lexorder"
begin

text \<open>
  \<open>client/cli.py\<close> and \<open>client/shell.py\<close>: each command as a function from the state of the
  device and of its process to how the process ends and the state it leaves. A command
  runs in a process of its own, whose import registry starts empty.
\<close>

section \<open>The device and its processes\<close>

datatype screen_item = Line string | PanelOut panel | TableOut panel_body

text \<open>Files, the index of the cache on disk, processes started and signals sent; what was printed and
  the import machinery belong to the process.\<close>

record cli =
  cl_fs :: fs
  cl_disk :: "cache_index option"
  cl_spawned :: nat
  cl_signals :: "(int \<times> int) list"
  cl_out :: "screen_item list"
  cl_imports :: import_state

definition fresh_imports :: import_state where
  "fresh_imports = \<lparr>im_packages = [], im_active = False, im_meta_path = [], im_modules = []\<rparr>"

definition new_process :: "cli \<Rightarrow> cli" where
  "new_process s = s\<lparr>cl_out := [], cl_imports := fresh_imports\<rparr>"

text \<open>How a process or a coroutine ends; \<open>typer.Exit\<close> is \<open>Exited\<close>.\<close>

datatype ending = Returned | Exited int | Crashed exn

text \<open>The event loop \<open>asyncio.get_event_loop\<close> finds\<close>

datatype event_loop = NoLoop | IdleLoop | RunningLoop

text \<open>What a command takes from outside. \<open>cx_login\<close> is \<open>POST /api/v1/auth/login\<close> with an API key: its
  status, its body as JSON and as text; \<open>cx_script\<close> and \<open>cx_interact\<close> run Python code with the imports given.\<close>

record cli_env =
  cx_home :: home_env
  cx_writable :: bool
  cx_client :: client_env
  cx_doctor :: doctor_env
  cx_sync :: sync_env
  cx_host :: host
  cx_str :: "pyval \<Rightarrow> string"
  cx_fmt1 :: "real \<Rightarrow> string"
  cx_alive :: "int \<Rightarrow> bool"
  cx_kill :: "int \<Rightarrow> exn option"
  cx_spawn :: "exn option"
  cx_login :: "string \<Rightarrow> string \<Rightarrow> exn + int \<times> (exn + pyval) \<times> string"
  cx_uuid :: string
  cx_dists :: "(string option \<times> string option) list"
  cx_script :: "string \<Rightarrow> import_state \<Rightarrow> exn option"
  cx_interact :: "import_state \<Rightarrow> exn option"
  cx_config_obj :: pyval
  cx_loop :: event_loop

definition say :: "string \<Rightarrow> cli \<Rightarrow> cli" where
  "say l s = s\<lparr>cl_out := cl_out s @ [Line l]\<rparr>"

definition show_panel :: "panel \<Rightarrow> cli \<Rightarrow> cli" where
  "show_panel p s = s\<lparr>cl_out := cl_out s @ [PanelOut p]\<rparr>"

definition keep_cache :: "cache \<Rightarrow> cli \<Rightarrow> cli" where
  "keep_cache c s = s\<lparr>cl_fs := ca_fs c, cl_disk := ca_disk c\<rparr>"

text \<open>\<open>config = load_config()\<close> and \<open>cache = CacheManager(config.cache.max_size_mb)\<close>, and the rest of a
  command after them. (A maximum that is no integer is not modelled.)\<close>

definition with_config :: "cli_env \<Rightarrow> (cpip_config \<Rightarrow> cli \<Rightarrow> ending \<times> cli) \<Rightarrow> cli \<Rightarrow> ending \<times> cli" where
  "with_config env k s = (case load_config (cx_home env) (cl_fs s) of
       Inl e \<Rightarrow> (Crashed e, s) | Inr (cfg, fs) \<Rightarrow> k cfg (s\<lparr>cl_fs := fs\<rparr>))"

definition max_size :: "cpip_config \<Rightarrow> int" where
  "max_size cfg = (case kc_max_size_mb (cf_cache cfg) of VInt i \<Rightarrow> i | _ \<Rightarrow> 0)"

definition with_cache ::
  "cli_env \<Rightarrow> cpip_config \<Rightarrow> (cache \<Rightarrow> cli \<Rightarrow> ending \<times> cli) \<Rightarrow> cli \<Rightarrow> ending \<times> cli" where
  "with_cache env cfg k s =
     (case new_cache (max_size cfg) (he_home (cx_home env)) (cl_fs s) (cl_disk s) (cx_writable env) of
        Inl e \<Rightarrow> (Crashed e, s) | Inr c \<Rightarrow> k c (keep_cache c s))"

section \<open>Running coroutines\<close>

text \<open>\<open>typer.Exit\<close> (of click) is a subclass of \<open>RuntimeError\<close>.\<close>

fun is_runtime_error :: "ending \<Rightarrow> bool" where
  "is_runtime_error (Exited c) = True"
| "is_runtime_error (Crashed (RuntimeError m)) = True"
| "is_runtime_error e = False"

text \<open>\<open>_run\<close>, given how the coroutine ends when it is run. Without a current loop \<open>get_event_loop\<close>
  raises RuntimeError before the coroutine has started, and \<open>asyncio.run\<close> runs it; otherwise a
  RuntimeError comes from the coroutine itself, which cannot run again.\<close>

definition run_coro :: "event_loop \<Rightarrow> ending \<Rightarrow> ending" where
  "run_coro loop r = (case loop of
       NoLoop \<Rightarrow> r
     | IdleLoop \<Rightarrow> (if is_runtime_error r then Crashed (RuntimeError ''cannot reuse already awaited coroutine'') else r)
     | RunningLoop \<Rightarrow> (if is_runtime_error r
         then Crashed (RuntimeError ''asyncio.run() cannot be called from a running event loop'') else r))"

definition run_command_coro :: "cli_env \<Rightarrow> ending \<times> cli \<Rightarrow> ending \<times> cli" where
  "run_command_coro env r = (run_coro (cx_loop env) (fst r), snd r)"

section \<open>install\<close>

definition offline_if :: "bool \<Rightarrow> cpip_config \<Rightarrow> cpip_config" where
  "offline_if b cfg = (if b then cfg\<lparr>cf_runtime := (cf_runtime cfg)\<lparr>rc_offline_mode := VBool True\<rparr>\<rparr> else cfg)"

definition client_of :: "cli_env \<Rightarrow> cpip_config \<Rightarrow> client_env" where
  "client_of env cfg = (cx_client env)\<lparr>ce_offline := truthy (rc_offline_mode (cf_runtime cfg)),
     ce_gpu_offload := truthy (rc_gpu_offload (cf_runtime cfg))\<rparr>"

text \<open>The packages the installer registered for cloud execution, in the import registry\<close>

definition register_all :: "pyval \<Rightarrow> (string \<times> bool) list \<Rightarrow> import_state \<Rightarrow> import_state" where
  "register_all obj ps im = fold (\<lambda>(p, h). register_cloud_package p obj h) ps im"

text \<open>The body of the loop: an exception is reported and the package noted as failed.\<close>

definition install_one ::
  "cli_env \<Rightarrow> cpip_config \<Rightarrow> string \<Rightarrow> bool \<Rightarrow> bool \<Rightarrow> string \<Rightarrow> cache \<times> cli \<Rightarrow> string list \<times> cache \<times> cli" where
  "install_one env cfg version force cloud_only pkg cs = (case cs of (c, s) \<Rightarrow>
     (if cloud_only then
        ([], c, say (print_success (pkg @ '' configured for cloud execution''))
           (s\<lparr>cl_imports := register_cloud_package pkg (cx_config_obj env) False (cl_imports s)\<rparr>))
      else (case install (client_of env cfg) pkg version force \<lparr>wo_cache = c, wo_proxied = []\<rparr> of
         (r, w) \<Rightarrow>
           (let s' = s\<lparr>cl_imports := register_all (cx_config_obj env) (wo_proxied w) (cl_imports s)\<rparr> in
            case r of
              Inr ok \<Rightarrow> ([], wo_cache w, s')
            | Inl e \<Rightarrow> ([pkg], wo_cache w,
                say (print_error (''Failed to install '' @ pkg @ '': '' @ exn_message e)) s')))))"

fun install_each ::
  "cli_env \<Rightarrow> cpip_config \<Rightarrow> string \<Rightarrow> bool \<Rightarrow> bool \<Rightarrow> string list \<Rightarrow> cache \<times> cli \<Rightarrow> string list \<times> cache \<times> cli" where
  "install_each env cfg version force cloud_only [] cs = ([], cs)"
| "install_each env cfg version force cloud_only (p # ps) cs =
     (case install_one env cfg version force cloud_only p cs of (f, cs') \<Rightarrow>
        (case install_each env cfg version force cloud_only ps cs' of (fs, cs'') \<Rightarrow> (f @ fs, cs'')))"

definition install_finish :: "nat \<Rightarrow> string list \<times> cache \<times> cli \<Rightarrow> ending \<times> cli" where
  "install_finish n r = (case r of (failed, c, s) \<Rightarrow>
     (let s' = keep_cache c s in
      if failed \<noteq> [] then (Exited 1, say (print_error (CHR 0x0A # ''  '' @ nat_str (length failed) @
            '' package(s) failed: '' @ py_join '', '' failed)) s')
      else (Returned, say (print_success (CHR 0x0A # ''  '' @ nat_str n @ '' package(s) installed successfully'')) s')))"

definition install_command ::
  "cli_env \<Rightarrow> string list \<Rightarrow> string \<Rightarrow> bool \<Rightarrow> bool \<Rightarrow> bool \<Rightarrow> cli \<Rightarrow> ending \<times> cli" where
  "install_command env packages version force local_only cloud_only s = run_command_coro env
     (with_config env (\<lambda>cfg. with_cache env cfg (\<lambda>c s.
        install_finish (length packages) (install_each env (offline_if local_only cfg) version force cloud_only packages
          (c, say (print_divider ''Installing Packages'') s)))) s)"

section \<open>doctor, sync, gpu-status, runtime\<close>

definition doctor_command :: "cli_env \<Rightarrow> cli \<Rightarrow> ending \<times> cli" where
  "doctor_command env s = run_command_coro env
     (with_config env (\<lambda>cfg. with_cache env cfg (\<lambda>c s.
        case run_all (cx_doctor env) cfg c of (results, c') \<Rightarrow>
          (Returned, fold say (report_lines results) (keep_cache c' s)))) s)"

definition sync_command :: "cli_env \<Rightarrow> cli \<Rightarrow> ending \<times> cli" where
  "sync_command env s = run_command_coro env
     (with_config env (\<lambda>cfg. with_cache env cfg (\<lambda>c s.
        let s1 = say (print_cloud ''Syncing with cloud registry...'') s in
        case do_sync ((cx_sync env)\<lparr>sx_device_id := au_device_id (cf_auth cfg)\<rparr>) new_sync c of
          (Inl e, m, c') \<Rightarrow> (Crashed e, keep_cache c' s1)
        | (Inr r, m, c') \<Rightarrow> (Returned, say (if sr_errors r \<noteq> []
              then print_warning (''Sync completed with errors: '' @ hd (sr_errors r))
              else print_success (''Synced '' @ nat_str (sr_metadata_updated r) @ '' package(s)'')) (keep_cache c' s1)))) s)"

definition gpu_status :: "cli_env \<Rightarrow> cli \<Rightarrow> ending \<times> cli" where
  "gpu_status env s =
     (let gpus = (if sy_has_gpu (get_system_info (cx_host env))
        then [[(''name'', ''Detected GPU''), (''memory'', ''N/A''), (''status'', ''available'')]] else []) in
      (Returned, fold say [print_divider ''Cloud GPU'', print_cloud ''Cloud GPU runtimes: NVIDIA A100, T4, V100'',
          print_info ''Use `cpip install --cloud torch` for GPU-accelerated packages'', []]
        (show_panel (gpu_status_panel gpus) (say [] s))))"

text \<open>The fields of \<open>info.__dict__\<close> the dashboard reads\<close>

definition system_fields :: "system_info \<Rightarrow> (string, pyval) dict" where
  "system_fields i = [(''platform_tag'', VStr (sy_platform_tag i)), (''architecture'', VStr (sy_architecture i)),
     (''python_version'', VStr (sy_python_version i)), (''cpu_count'', VInt (sy_cpu_count i)),
     (''total_memory_mb'', VInt (sy_total_memory_mb i)), (''available_disk_mb'', VInt (sy_available_disk_mb i)),
     (''is_termux'', VBool (sy_is_termux i)), (''has_gpu'', VBool (sy_has_gpu i))]"

definition stats_lines :: "cli_env \<Rightarrow> cache_stats \<Rightarrow> string list" where
  "stats_lines env st = [print_divider ''Cache'',
     print_info (''Size: '' @ cx_fmt1 env (cs_total_size_mb st) @ ''/'' @ int_str (cs_max_size_mb st) @ ''MB ('' @
       cx_str env (VFloat (cs_utilization_pct st)) @ ''%)''),
     print_info (''Wheels: '' @ nat_str (cs_num_wheels st) @ '' | Layers: '' @ nat_str (cs_num_layers st) @
       '' | Metadata: '' @ nat_str (cs_num_metadata st)), []]"

definition runtime_command :: "cli_env \<Rightarrow> cli \<Rightarrow> ending \<times> cli" where
  "runtime_command env = with_config env (\<lambda>cfg s.
     case daemon_is_running (cx_alive env) (he_home (cx_home env)) (cl_fs s) of
       (Inl e, fs) \<Rightarrow> (Crashed e, s\<lparr>cl_fs := fs\<rparr>)
     | (Inr cloud_connected, fs) \<Rightarrow>
         (let s1 = say print_banner (s\<lparr>cl_fs := fs\<rparr>);
              panels = dashboard (cx_str env) (system_fields (get_system_info (cx_host env))) cloud_connected
                (cx_str env (cc_api_url (cf_cloud cfg)));
              s2 = say [] (fold show_panel panels (say [] s1)) in
          with_cache env cfg (\<lambda>c s. (Returned, fold say (stats_lines env (stats c)) s)) s2))"

section \<open>config\<close>

definition set_api_url :: "string \<Rightarrow> cpip_config \<Rightarrow> cpip_config" where
  "set_api_url u cfg = cfg\<lparr>cf_cloud := (cf_cloud cfg)\<lparr>cc_api_url := VStr u\<rparr>\<rparr>"

definition set_offline :: "bool \<Rightarrow> cpip_config \<Rightarrow> cpip_config" where
  "set_offline b cfg = cfg\<lparr>cf_runtime := (cf_runtime cfg)\<lparr>rc_offline_mode := VBool b\<rparr>\<rparr>"

definition save_and_say :: "cli_env \<Rightarrow> cpip_config \<Rightarrow> string \<Rightarrow> cli \<Rightarrow> exn option \<times> cli" where
  "save_and_say env cfg message s = (case save_config (cx_home env) cfg (cl_fs s) of
       Inl e \<Rightarrow> (Some e, s) | Inr fs \<Rightarrow> (None, say (print_success message) (s\<lparr>cl_fs := fs\<rparr>)))"

definition config_table :: "cli_env \<Rightarrow> cpip_config \<Rightarrow> panel_body" where
  "config_table env cfg = Grid [''Setting'', ''Value'']
     [[''API URL'', cx_str env (cc_api_url (cf_cloud cfg))], [''WS URL'', cx_str env (cc_ws_url (cf_cloud cfg))],
      [''Cache Max'', cx_str env (kc_max_size_mb (cf_cache cfg)) @ '' MB''],
      [''Offline Mode'', cx_str env (rc_offline_mode (cf_runtime cfg))],
      [''GPU Offload'', cx_str env (rc_gpu_offload (cf_runtime cfg))],
      [''Import Hooks'', cx_str env (rc_import_hooks (cf_runtime cfg))],
      [''Auth'', if truthy (au_token (cf_auth cfg)) then [CHR 0xE2, CHR 0x9C, CHR 0x93] @ '' Authenticated''
         else [CHR 0xE2, CHR 0x9C, CHR 0x97] @ '' Not authenticated'']]"

text \<open>\<open>if api_url:\<close> and \<open>if offline is not None:\<close>, with the configuration they leave\<close>

definition config_api_url :: "cli_env \<Rightarrow> string option \<Rightarrow> cpip_config \<Rightarrow> cli \<Rightarrow> exn option \<times> cpip_config \<times> cli" where
  "config_api_url env api_url cfg s = (case truthy_str api_url of
       None \<Rightarrow> (None, cfg, s)
     | Some u \<Rightarrow> (case save_and_say env (set_api_url u cfg) (''API URL set to '' @ u) s of
         (err, s') \<Rightarrow> (err, set_api_url u cfg, s')))"

definition config_offline :: "cli_env \<Rightarrow> bool option \<Rightarrow> cpip_config \<Rightarrow> cli \<Rightarrow> exn option \<times> cpip_config \<times> cli" where
  "config_offline env offline cfg s = (case offline of
       None \<Rightarrow> (None, cfg, s)
     | Some b \<Rightarrow> (case save_and_say env (set_offline b cfg) (''Offline mode '' @ (if b then ''enabled'' else ''disabled'')) s of
         (err, s') \<Rightarrow> (err, set_offline b cfg, s')))"

definition config_command ::
  "cli_env \<Rightarrow> bool \<Rightarrow> bool \<Rightarrow> string option \<Rightarrow> bool option \<Rightarrow> cli \<Rightarrow> ending \<times> cli" where
  "config_command env show_it init api_url offline = with_config env (\<lambda>cfg s.
     if init then (case save_and_say env cfg ''Configuration initialized'' s of
         (Some e, s') \<Rightarrow> (Crashed e, s') | (None, s') \<Rightarrow> (Returned, s'))
     else (case config_api_url env api_url cfg s of
         (Some e, cfg1, s1) \<Rightarrow> (Crashed e, s1)
       | (None, cfg1, s1) \<Rightarrow> (case config_offline env offline cfg1 s1 of
           (Some e, cfg2, s2) \<Rightarrow> (Crashed e, s2)
         | (None, cfg2, s2) \<Rightarrow>
             (Returned, if show_it \<or> truthy_str api_url = None \<and> offline = None
                then s2\<lparr>cl_out := cl_out s2 @ [Line [], TableOut (config_table env cfg2), Line []]\<rparr> else s2))))"

section \<open>list, run, shell\<close>

text \<open>The distributions in the order of their names in lower case; a name that is missing has no \<open>lower\<close>.\<close>

definition list_rows :: "(string option \<times> string option) list \<Rightarrow> exn + string list list" where
  "list_rows dists =
     (if \<exists>d\<in>set dists. fst d = None then Inl (AttributeError ''NoneType object has no attribute lower'')
      else Inr (map (\<lambda>(n, v). [the n, case v of None \<Rightarrow> [] | Some v' \<Rightarrow> v'])
        (sort_key (\<lambda>d. py_lower (the (fst d))) dists)))"

definition list_command :: "cli_env \<Rightarrow> cli \<Rightarrow> ending \<times> cli" where
  "list_command env s = (case list_rows (cx_dists env) of
       Inl e \<Rightarrow> (Crashed e, s)
     | Inr rows \<Rightarrow> (Returned, s\<lparr>cl_out := cl_out s @ [Line [], TableOut (Grid [''Package'', ''Version''] rows), Line []]\<rparr>))"

definition run_script :: "cli_env \<Rightarrow> string \<Rightarrow> cli \<Rightarrow> ending \<times> cli" where
  "run_script env script = with_config env (\<lambda>cfg s.
     let s1 = say (print_info (''Running '' @ script @ '' with cpip runtime...''))
           (s\<lparr>cl_imports := activate_hooks (cx_config_obj env) (cl_imports s)\<rparr>) in
     case cx_script env script (cl_imports s1) of
       None \<Rightarrow> (Returned, s1)
     | Some e \<Rightarrow> (Exited 1, say (print_error (''Script failed: '' @ exn_message e)) s1))"

text \<open>\<open>CpipShell.start\<close>: \<open>SystemExit\<close> ends the session quietly.\<close>

definition shell_start :: "cli_env \<Rightarrow> cli \<Rightarrow> ending \<times> cli" where
  "shell_start env s =
     (let s1 = fold say [print_banner, print_info (''cpip runtime active '' @ [CHR 0xE2, CHR 0x80, CHR 0x94] @
           '' cloud packages available transparently''),
           print_info (''Type '' @ [CHR 0x27] @ ''exit()'' @ [CHR 0x27] @ '' or Ctrl+D to quit'' @ [CHR 0x0A])] s;
          s2 = s1\<lparr>cl_imports := activate_hooks (cx_config_obj env) (cl_imports s1)\<rparr> in
      case cx_interact env (cl_imports s2) of
        None \<Rightarrow> (Returned, s2)
      | Some (OtherError n m) \<Rightarrow> (if n = ''SystemExit'' then (Returned, s2) else (Crashed (OtherError n m), s2))
      | Some e \<Rightarrow> (Crashed e, s2))"

definition shell_command :: "cli_env \<Rightarrow> cli \<Rightarrow> ending \<times> cli" where
  "shell_command env = with_config env (\<lambda>cfg. shell_start env)"

section \<open>daemon\<close>

definition fs_touch :: "path \<Rightarrow> fs \<Rightarrow> exn + fs" where
  "fs_touch p fs = (if fs_is_file fs p then Inr fs else fs_write p (Text []) fs)"

definition daemon_start_command :: "cli_env \<Rightarrow> cli \<Rightarrow> ending \<times> cli" where
  "daemon_start_command env s = (let home = he_home (cx_home env) in
     case daemon_is_running (cx_alive env) home (cl_fs s) of
       (Inl e, fs) \<Rightarrow> (Crashed e, s\<lparr>cl_fs := fs\<rparr>)
     | (Inr True, fs) \<Rightarrow> (Returned, say (print_warning ''Daemon is already running'') (s\<lparr>cl_fs := fs\<rparr>))
     | (Inr False, fs) \<Rightarrow>
         (let s1 = say (print_cloud ''Starting cpip daemon...'') (s\<lparr>cl_fs := fs\<rparr>) in
          case fs_touch (log_dir home @ [''daemon.log'']) fs of
            Inl e \<Rightarrow> (Crashed e, s1)
          | Inr fs1 \<Rightarrow> (case fs_touch (log_dir home @ [''daemon.err'']) fs1 of
              Inl e \<Rightarrow> (Crashed e, s1\<lparr>cl_fs := fs1\<rparr>)
            | Inr fs2 \<Rightarrow> (case cx_spawn env of
                Some e \<Rightarrow> (Crashed e, s1\<lparr>cl_fs := fs2\<rparr>)
              | None \<Rightarrow> (Returned, say (print_success ''Daemon started'')
                  (s1\<lparr>cl_fs := fs2, cl_spawned := cl_spawned s1 + 1\<rparr>))))))"

definition read_pid :: "path \<Rightarrow> fs \<Rightarrow> exn + int" where
  "read_pid p fs = bind_result (fs_read fs p) (\<lambda>c. case c of
       JsonText (VInt i) \<Rightarrow> Inr i
     | Text t \<Rightarrow> (case py_int (py_strip t) of Some i \<Rightarrow> Inr i | None \<Rightarrow> Inl (ValueError ''invalid literal for int()''))
     | _ \<Rightarrow> Inl (ValueError ''invalid literal for int()''))"

definition daemon_stop_command :: "cli_env \<Rightarrow> cli \<Rightarrow> ending \<times> cli" where
  "daemon_stop_command env s = (let p = he_home (cx_home env) @ [''daemon.pid''] in
     if fs_exists (cl_fs s) p then
       (case read_pid p (cl_fs s) of
          Inl e \<Rightarrow> (Crashed e, s)
        | Inr pid \<Rightarrow> (case cx_kill env pid of
            Some e \<Rightarrow> (Crashed e, s)
          | None \<Rightarrow> (Returned, say (print_success ''Daemon stopped'') (s\<lparr>cl_signals := cl_signals s @ [(pid, 15)]\<rparr>))))
     else (Returned, say (print_warning ''Daemon is not running'') s))"

definition daemon_status_command :: "cli_env \<Rightarrow> cli \<Rightarrow> ending \<times> cli" where
  "daemon_status_command env s =
     (case daemon_is_running (cx_alive env) (he_home (cx_home env)) (cl_fs s) of
        (Inl e, fs) \<Rightarrow> (Crashed e, s\<lparr>cl_fs := fs\<rparr>)
      | (Inr b, fs) \<Rightarrow> (Returned, say (if b then print_success ''Daemon is running''
          else print_warning ''Daemon is not running'') (s\<lparr>cl_fs := fs\<rparr>)))"

definition daemon_command :: "cli_env \<Rightarrow> string \<Rightarrow> cli \<Rightarrow> ending \<times> cli" where
  "daemon_command env action = with_config env (\<lambda>cfg.
     if action = ''start'' then daemon_start_command env
     else if action = ''stop'' then daemon_stop_command env else daemon_status_command env)"

section \<open>login, main\<close>

definition save_login :: "cli_env \<Rightarrow> cpip_config \<Rightarrow> string \<Rightarrow> cli \<Rightarrow> exn option \<times> cli" where
  "save_login env cfg message s = (case save_auth (cx_str env) (cx_home env) cfg (cl_fs s) of
       Inl e \<Rightarrow> (Some e, s) | Inr fs \<Rightarrow> (None, say (print_success message) (s\<lparr>cl_fs := fs\<rparr>)))"

definition dev_login :: "cli_env \<Rightarrow> cpip_config \<Rightarrow> cli \<Rightarrow> ending \<times> cli" where
  "dev_login env cfg s =
     (let auth = (cf_auth cfg)\<lparr>au_device_id := VStr (cx_uuid env), au_token := VStr (''dev_'' @ cx_uuid env)\<rparr> in
      case save_login env (cfg\<lparr>cf_auth := auth\<rparr>)
             (''Dev mode: Device registered ('' @ take 8 (cx_uuid env) @ ''...)'') s of
        (Some e, s') \<Rightarrow> (Crashed e, s') | (None, s') \<Rightarrow> (Returned, s'))"

text \<open>\<open>data["access_token"]\<close> and \<open>data.get(...)\<close> of the answer\<close>

definition login_auth :: "pyval \<Rightarrow> auth_config \<Rightarrow> exn + auth_config" where
  "login_auth data a = (case data of
       VDict d \<Rightarrow>
         bind_result (py_item d ''access_token'') (\<lambda>t.
         bind_result (py_get data ''refresh_token'' (VStr [])) (\<lambda>r.
         bind_result (py_get data ''device_id'' (VStr [])) (\<lambda>i.
           Inr (a\<lparr>au_token := t, au_refresh_token := r, au_device_id := i\<rparr>))))
     | _ \<Rightarrow> Inl (TypeError ''indices must be integers''))"

definition key_login :: "cli_env \<Rightarrow> cpip_config \<Rightarrow> string \<Rightarrow> cli \<Rightarrow> exn option \<times> cli" where
  "key_login env cfg api_key s =
     (case cx_login env (cx_str env (cc_api_url (cf_cloud cfg))) api_key of
        Inl e \<Rightarrow> (Some e, s)
      | Inr (status, body, txt) \<Rightarrow>
          (if status = 200 then
             (case bind_result body (\<lambda>data. login_auth data (cf_auth cfg)) of
                Inl e \<Rightarrow> (Some e, s)
              | Inr auth \<Rightarrow> save_login env (cfg\<lparr>cf_auth := auth\<rparr>) ''Authenticated successfully'' s)
           else (None, say (print_error (''Login failed: '' @ txt)) s)))"

definition login_command :: "cli_env \<Rightarrow> string \<Rightarrow> cli \<Rightarrow> ending \<times> cli" where
  "login_command env api_key s = run_command_coro env (with_config env (\<lambda>cfg s.
     if api_key = [] then dev_login env cfg s
     else (case key_login env cfg api_key s of
         (None, s') \<Rightarrow> (Returned, s')
       | (Some e, s') \<Rightarrow> (Returned, say (print_error (''Login error: '' @ exn_message e)) s'))) s)"

text \<open>The callback of the application, before a subcommand if there is one\<close>

definition main_callback :: "bool \<Rightarrow> bool \<Rightarrow> cli \<Rightarrow> ending \<times> cli" where
  "main_callback version has_subcommand s =
     (if version then (Exited 0, say (''  cpip '' @ markup ''cpip.primary'' (''v'' @ VERSION) @ '' ('' @ CODENAME @ '')'') s)
      else (Returned, if has_subcommand then s else say print_banner s))"

section \<open>The HTTP client of the resolver\<close>

record http_client =
  ht_base_url :: pyval
  ht_timeout :: pyval
  ht_authorization :: "string option"
  ht_closed :: bool

definition open_client :: "(pyval \<Rightarrow> string) \<Rightarrow> cpip_config \<Rightarrow> http_client" where
  "open_client str cfg = \<lparr>ht_base_url = cc_api_url (cf_cloud cfg), ht_timeout = cc_timeout (cf_cloud cfg),
     ht_authorization = (if truthy (au_token (cf_auth cfg)) then Some (''Bearer '' @ str (au_token (cf_auth cfg))) else None),
     ht_closed = False\<rparr>"

definition resolver_client :: "(pyval \<Rightarrow> string) \<Rightarrow> cpip_config \<Rightarrow> http_client option \<Rightarrow> http_client" where
  "resolver_client str cfg http = (case http of
       None \<Rightarrow> open_client str cfg
     | Some c \<Rightarrow> (if ht_closed c then open_client str cfg else c))"

definition resolver_close :: "http_client option \<Rightarrow> http_client option" where
  "resolver_close http = map_option (\<lambda>c. c\<lparr>ht_closed := True\<rparr>) http"

text \<open>Address and token are those of the first request: a change of the configuration, a login
  included, reaches the resolver only after it was closed.\<close>

lemma resolver_keeps_its_token:
  "resolver_client str new (Some (resolver_client str old None)) = open_client str old"
  "resolver_client str new (resolver_close (Some c)) = open_client str new"
  by (simp_all add: resolver_client_def resolver_close_def open_client_def)

section \<open>Properties\<close>

text \<open>What the installation of each package raised, if anything, one after the other on one cache\<close>

fun attempts :: "client_env \<Rightarrow> string \<Rightarrow> bool \<Rightarrow> string list \<Rightarrow> cache \<Rightarrow> (string \<times> exn option) list" where
  "attempts env version force [] c = []"
| "attempts env version force (p # ps) c = (case install env p version force \<lparr>wo_cache = c, wo_proxied = []\<rparr> of
     (r, w) \<Rightarrow> (p, case r of Inl e \<Rightarrow> Some e | Inr b \<Rightarrow> None) # attempts env version force ps (wo_cache w))"

definition failures :: "(string \<times> exn option) list \<Rightarrow> (string \<times> exn) list" where
  "failures rs = concat (map (\<lambda>(p, e). case e of None \<Rightarrow> [] | Some x \<Rightarrow> [(p, x)]) rs)"

definition failure_line :: "string \<times> exn \<Rightarrow> screen_item" where
  "failure_line f = Line (print_error (''Failed to install '' @ fst f @ '': '' @ exn_message (snd f)))"

lemma attempts_each: "map fst (attempts env version force ps c) = ps"
  by (induction ps arbitrary: c) (auto split: prod.split)

lemma install_each_failures:
  assumes "install_each env cfg version force False ps (c, s) = (failed, c', s')"
  shows "failed = map fst (failures (attempts (client_of env cfg) version force ps c)) \<and>
    cl_out s' = cl_out s @ map failure_line (failures (attempts (client_of env cfg) version force ps c))"
  using assms
proof (induction ps arbitrary: c s failed c' s')
  case Nil
  then show ?case by (simp add: failures_def)
next
  case (Cons p ps)
  obtain r w where i: "install (client_of env cfg) p version force \<lparr>wo_cache = c, wo_proxied = []\<rparr> = (r, w)"
    by (metis surj_pair)
  let ?s1 = "s\<lparr>cl_imports := register_all (cx_config_obj env) (wo_proxied w) (cl_imports s)\<rparr>"
  show ?case
  proof (cases r)
    case (Inl e)
    let ?s2 = "say (print_error (''Failed to install '' @ p @ '': '' @ exn_message e)) ?s1"
    obtain fs c2 s2 where rest: "install_each env cfg version force False ps (wo_cache w, ?s2) = (fs, c2, s2)"
      by (metis surj_pair)
    with Cons.prems i Inl have "failed = p # fs" "s' = s2" by (simp_all add: install_one_def Let_def)
    with Cons.IH [OF rest] i Inl show ?thesis by (simp add: failures_def failure_line_def say_def)
  next
    case (Inr b)
    obtain fs c2 s2 where rest: "install_each env cfg version force False ps (wo_cache w, ?s1) = (fs, c2, s2)"
      by (metis surj_pair)
    with Cons.prems i Inr have "failed = fs" "s' = s2" by (simp_all add: install_one_def Let_def)
    with Cons.IH [OF rest] i Inr show ?thesis by (simp add: failures_def)
  qed
qed

text \<open>C15: An installation of several packages tries them all, whatever fails, on one cache; it prints exactly one
  line for each that raised and a last line that sums up. It ends normally when none failed;
  when one failed the exit status 1 it asks for is lost wherever an event loop is found:
  \<open>typer.Exit\<close> is a RuntimeError, so the finished coroutine is run again and the process
  crashes.\<close>

theorem install_reports_failures:
  assumes "load_config (cx_home env) (cl_fs s) = Inr (cfg, fs)"
    and "new_cache (max_size cfg) (he_home (cx_home env)) fs (cl_disk s) (cx_writable env) = Inr c"
    and "install_command env ps version force local_only False s = (r, s')"
    and "failed = failures (attempts (client_of env (offline_if local_only cfg)) version force ps c)"
  shows "(\<exists>summary. cl_out s' = cl_out s @ [Line (print_divider ''Installing Packages'')] @ map failure_line failed @ [Line summary]) \<and>
    r = (if failed = [] then Returned
         else if cx_loop env = NoLoop then Exited 1
         else if cx_loop env = IdleLoop then Crashed (RuntimeError ''cannot reuse already awaited coroutine'')
         else Crashed (RuntimeError ''asyncio.run() cannot be called from a running event loop''))"
proof -
  let ?s1 = "say (print_divider ''Installing Packages'') (keep_cache c (s\<lparr>cl_fs := fs\<rparr>))"
  obtain names c' s2 where each: "install_each env (offline_if local_only cfg) version force False ps (c, ?s1) = (names, c', s2)"
    by (metis surj_pair)
  from install_each_failures [OF each] assms(4)
  have names: "names = map fst failed" and out: "cl_out s2 = cl_out ?s1 @ map failure_line failed" by simp_all
  have run: "(r, s') = run_command_coro env (install_finish (length ps) (names, c', s2))"
    using assms(1-3) each by (simp add: install_command_def with_config_def with_cache_def)
  show ?thesis
    using run names out
    by (cases "failed = []"; cases "cx_loop env")
      (simp_all add: run_command_coro_def run_coro_def install_finish_def Let_def say_def keep_cache_def)
qed

text \<open>A package set up for cloud execution is known to the process that set it up only.\<close>

lemma install_each_cloud:
  assumes "install_each env cfg version force True ps (c, s) = (failed, c', s')"
  shows "failed = [] \<and> c' = c \<and> cl_fs s' = cl_fs s \<and> cl_disk s' = cl_disk s \<and>
    (\<forall>p. p \<in> set ps \<or> dhas (im_packages (cl_imports s)) p \<longrightarrow> dhas (im_packages (cl_imports s')) p)"
  using assms
proof (induction ps arbitrary: s failed)
  case (Cons p ps)
  let ?s1 = "say (print_success (p @ '' configured for cloud execution''))
    (s\<lparr>cl_imports := register_cloud_package p (cx_config_obj env) False (cl_imports s)\<rparr>)"
  from Cons.prems obtain fs where rest: "install_each env cfg version force True ps (c, ?s1) = (fs, c', s')"
    and f: "failed = fs" by (auto simp: install_one_def split: prod.splits)
  have "dhas (im_packages (cl_imports ?s1)) q \<longleftrightarrow> q = p \<or> dhas (im_packages (cl_imports s)) q" for q
    by (simp add: say_def register_cloud_package_def dhas_dset)
  with Cons.IH [OF rest] f show ?case by (auto simp: say_def)
qed simp

lemma nothing_registered: "im_packages im = [] \<Longrightarrow> cpip_find_spec n im = None"
  by (simp add: cpip_find_spec_def Let_def)

text \<open>C16: \<open>cpip install --cloud\<close> reports success and registers the packages in its own process, but writes nothing
  of it to the disk; so in every later process that runs a script or the shell no import of any
  name is intercepted: the script runs with an empty registry.\<close>

theorem cloud_install_is_forgotten:
  assumes "load_config (cx_home env) (cl_fs s) = Inr (cfg, fs)"
    and "new_cache (max_size cfg) (he_home (cx_home env)) fs (cl_disk s) (cx_writable env) = Inr c"
    and "install_command env ps version force local_only True s = (r, s')"
    and "run_script env' script (new_process s') = (r', s'')"
  shows "r = Returned \<and> (\<forall>p\<in>set ps. dhas (im_packages (cl_imports s')) p) \<and>
    cl_fs s' = ca_fs c \<and> cl_disk s' = ca_disk c \<and> (\<forall>n. cpip_find_spec n (cl_imports s'') = None)"
proof -
  let ?s1 = "say (print_divider ''Installing Packages'') (keep_cache c (s\<lparr>cl_fs := fs\<rparr>))"
  obtain failed c' s2 where each: "install_each env (offline_if local_only cfg) version force True ps (c, ?s1) = (failed, c', s2)"
    by (metis surj_pair)
  note each' = install_each_cloud [OF each]
  have run: "(r, s') = run_command_coro env (install_finish (length ps) (failed, c', s2))"
    using assms(1-3) each by (simp add: install_command_def with_config_def with_cache_def)
  have s': "r = Returned" "cl_fs s' = ca_fs c" "cl_disk s' = ca_disk c" "cl_imports s' = cl_imports s2"
    using run each' by (cases "cx_loop env"; simp add: run_command_coro_def run_coro_def install_finish_def say_def keep_cache_def)+
  have "im_packages (cl_imports s'') = []"
    using assms(4)
    by (auto simp: run_script_def with_config_def new_process_def fresh_imports_def Let_def say_def activate_hooks_def
        split: sum.splits option.splits if_splits)
  with nothing_registered s' each' show ?thesis by simp
qed

lemma config_saves:
  assumes "load_config (cx_home env) (cl_fs s) = Inr (cfg, fs)"
    and "config_command env show_it False api_url offline s = (Returned, s')"
    and "truthy_str api_url \<noteq> None \<or> offline \<noteq> None"
    and "cfg1 = (case truthy_str api_url of None \<Rightarrow> cfg | Some u \<Rightarrow> set_api_url u cfg)"
    and "cfg2 = (case offline of None \<Rightarrow> cfg1 | Some b \<Rightarrow> set_offline b cfg1)"
    and d0: "\<And>d. d \<in> set (standard_dirs (he_home (cx_home env))) \<Longrightarrow> dirs_to fs d"
  shows "\<exists>f. save_config (cx_home env) cfg2 f = Inr (cl_fs s') \<and> (\<forall>d\<in>set (standard_dirs (he_home (cx_home env))). dirs_to f d)"
proof (cases "truthy_str api_url")
  case None
  with assms(3) obtain b where b: "offline = Some b" by blast
  with None assms(1,2,4,5) d0 show ?thesis
    by (auto simp: config_command_def with_config_def config_api_url_def config_offline_def save_and_say_def say_def
        split: sum.splits)
next
  case (Some u)
  have "\<exists>s1. config_api_url env api_url cfg (s\<lparr>cl_fs := fs\<rparr>) = (None, cfg1, s1)"
    using Some assms(1,2,4) by (auto simp: config_command_def with_config_def config_api_url_def split: prod.splits option.splits)
  then obtain s1 where s1: "config_api_url env api_url cfg (s\<lparr>cl_fs := fs\<rparr>) = (None, cfg1, s1)" ..
  with Some assms(4) have w: "save_config (cx_home env) cfg1 fs = Inr (cl_fs s1)"
    by (auto simp: config_api_url_def save_and_say_def say_def split: sum.splits)
  note d1 = save_config_writes(2) [OF d0 w]
  show ?thesis
  proof (cases offline)
    case None
    with s1 assms(1,2,5) Some have "cl_fs s' = cl_fs s1" "cfg2 = cfg1"
      by (auto simp: config_command_def with_config_def config_offline_def split: if_splits)
    with w d0 show ?thesis by auto
  next
    case (Some b)
    with s1 assms(1,2,5) d1 show ?thesis
      by (auto simp: config_command_def with_config_def config_offline_def save_and_say_def say_def split: sum.splits)
  qed
qed


section \<open>A device to try them on\<close>

definition demo_cli :: "event_loop \<Rightarrow> cli_env" where
  "demo_cli loop = \<lparr>cx_home = demo_home, cx_writable = True,
     cx_client = demo_client\<lparr>ce_find_spec := (\<lambda>p. if p = ''x.y'' then Inl (ValueError ''x'') else Inr True)\<rparr>,
     cx_doctor = demo_doctor, cx_sync = \<lparr>sx_register = (\<lambda>d. None), sx_catalog = (\<lambda>q. Inl (ConnectionError [])),
       sx_device_id = VStr [], sx_host = demo_host, sx_str = (\<lambda>v. []), sx_now = 0, sx_store = 0, sx_end = 1\<rparr>,
     cx_host = demo_host, cx_str = (\<lambda>v. case v of VStr t \<Rightarrow> t | _ \<Rightarrow> []), cx_fmt1 = (\<lambda>r. []), cx_alive = (\<lambda>p. False),
     cx_kill = (\<lambda>p. None), cx_spawn = None, cx_login = (\<lambda>u k. Inl (ConnectionError [])), cx_uuid = ''0123456789'',
     cx_dists = [], cx_script = (\<lambda>f im. None), cx_interact = (\<lambda>im. None), cx_config_obj = VNone, cx_loop = loop\<rparr>"

definition demo_state :: cli where
  "demo_state = \<lparr>cl_fs = [], cl_disk = None, cl_spawned = 0, cl_signals = [], cl_out = [], cl_imports = fresh_imports\<rparr>"

definition demo_files :: fs where
  "demo_files = [([''h''], Dir), ([''h'', ''cache''], Dir), ([''h'', ''cache'', ''wheels''], Dir),
     ([''h'', ''cache'', ''layers''], Dir), ([''h'', ''cache'', ''metadata''], Dir), ([''h'', ''logs''], Dir), ([''h'', ''envs''], Dir)]"

definition demo_cli_cache :: cache where
  "demo_cli_cache = \<lparr>ca_max_mb = 2048, ca_home = [''h''], ca_index = [], ca_disk = None, ca_fs = demo_files, ca_writable = True\<rparr>"

lemma demo_load: "load_config (cx_home (demo_cli loop)) (cl_fs demo_state) = Inr (CpipConfig demo_home, demo_files)"
  by (simp add: demo_cli_def demo_state_def demo_files_def load_config_def load_toml_def fs_exists_def demo_home_def
      config_file_def fs_node_def with_section_def ensure_directories_def cache_root_def wheels_dir_def layers_dir_def
      metadata_dir_def log_dir_def venv_dir_def fs_mkdirs_def CpipConfig_def override_cloud_def override_runtime_def
      getenv_set_def load_auth_def auth_file_def)

lemma demo_open: "new_cache (max_size (CpipConfig demo_home)) (he_home (cx_home (demo_cli loop))) demo_files
    (cl_disk demo_state) (cx_writable (demo_cli loop)) = Inr demo_cli_cache"
  by (simp add: new_cache_def max_size_def CpipConfig_def CacheConfig_def demo_cli_def demo_home_def demo_state_def
      make_dirs_def wheels_dir_def layers_dir_def metadata_dir_def fs_mkdirs_def fs_node_def demo_files_def
      demo_cli_cache_def load_index_def)

lemma demo_attempts: "failures (attempts (client_of (demo_cli loop) (offline_if False (CpipConfig demo_home)))
    ''latest'' False [''numpy'', ''x.y''] demo_cli_cache) = [(''x.y'', ValueError ''x'')]"
proof -
  have "py_lower (py_replace1 CHR ''-'' CHR ''_'' ''x.y'') = ''x.y''" by code_simp
  moreover have "py_lower (py_replace1 CHR ''-'' CHR ''_'' ''numpy'') = ''numpy''" by code_simp
  ultimately show ?thesis
    by (simp add: failures_def client_of_def demo_cli_def install_def resolve_def is_installed_def resolution_def
        demo_client_def offline_if_def)
qed

theorem install_reports_failures_witness:
  "fst (install_command (demo_cli IdleLoop) [''numpy'', ''x.y''] ''latest'' False False False demo_state)
     = Crashed (RuntimeError ''cannot reuse already awaited coroutine'') \<and>
   fst (install_command (demo_cli NoLoop) [''numpy'', ''x.y''] ''latest'' False False False demo_state) = Exited 1"
proof -
  have l: "cx_loop (demo_cli loop) = loop" for loop by (simp add: demo_cli_def)
  obtain r s where a: "install_command (demo_cli IdleLoop) [''numpy'', ''x.y''] ''latest'' False False False demo_state = (r, s)"
    by (metis surj_pair)
  obtain r' s' where b: "install_command (demo_cli NoLoop) [''numpy'', ''x.y''] ''latest'' False False False demo_state = (r', s')"
    by (metis surj_pair)
  from install_reports_failures [OF demo_load demo_open a demo_attempts [symmetric]]
    install_reports_failures [OF demo_load demo_open b demo_attempts [symmetric]] a b
  show ?thesis by (simp add: l)
qed

theorem cloud_install_is_forgotten_witness:
  "\<exists>s1 s2. install_command (demo_cli IdleLoop) [''torch''] ''latest'' False False True demo_state = (Returned, s1) \<and>
     dhas (im_packages (cl_imports s1)) ''torch'' \<and>
     run_script (demo_cli IdleLoop) ''a.py'' (new_process s1) = (Returned, s2) \<and> cpip_find_spec ''torch'' (cl_imports s2) = None"
proof -
  obtain r s1 where a: "install_command (demo_cli IdleLoop) [''torch''] ''latest'' False False True demo_state = (r, s1)"
    by (metis surj_pair)
  obtain r' s2 where b: "run_script (demo_cli IdleLoop) ''a.py'' (new_process s1) = (r', s2)" by (metis surj_pair)
  note t = cloud_install_is_forgotten [OF demo_load demo_open a b]
  have "\<exists>c f. load_config (cx_home (demo_cli IdleLoop)) demo_files = Inr (c, f)"
    by (simp add: demo_cli_def demo_files_def load_config_def load_toml_def fs_exists_def demo_home_def
      config_file_def fs_node_def with_section_def ensure_directories_def cache_root_def wheels_dir_def layers_dir_def
      metadata_dir_def log_dir_def venv_dir_def fs_mkdirs_def)
  with t b have "r' = Returned"
    by (auto simp: run_script_def with_config_def new_process_def demo_cli_cache_def demo_cli_def Let_def)
  with t a b show ?thesis by auto
qed


section \<open>Logging in at the server\<close>

text \<open>The answer of the server's login as the client's JSON\<close>

definition claims_json :: "claims \<Rightarrow> pyval" where
  "claims_json c = str_dict c"

lemma save_auth_succeeds:
  assumes "\<And>d. d \<in> set (standard_dirs (he_home env)) \<Longrightarrow> dirs_to fs d" and "clean_auth (cf_auth c)"
    and "\<not> fs_is_dir fs (auth_file (he_home env))" and "fs_is_dir fs (he_home env)"
  shows "\<exists>fs'. save_auth str env c fs = Inr fs'"
proof -
  have "fs_mkdirs (he_home env) fs = Inr fs" by (rule fs_mkdirs_again [OF assms(1) [OF home_standard]])
  moreover have "canonical (auth_data (cf_auth c))"
    using assms(2) by (simp add: auth_data_def clean_auth_def str_dict_def)
  ultimately show ?thesis
    using assms(3,4) by (simp add: save_auth_def json_dumps_canonical fs_write_def auth_file_def)
qed

text \<open>C17: After \<open>cpip login\<close> with an API key, whatever key, the device holds the identity the server gave it: the
  token that the next command reads authenticates at the server, for an hour, as a user with the
  device id that is stored beside it.\<close>

theorem login_gives_the_device_an_identity:
  assumes "load_config (cx_home env) (cl_fs s) = Inr (cfg, fs)" and "api_key \<noteq> []"
    and "\<And>u. cx_login env u api_key = Inr (200, Inr (claims_json (login lib secret t0 uuid hex api_key [])), txt)"
    and "jwt_law lib secret (VStr (''user_'' @ take 8 hex)) (VStr uuid)" and "\<lfloor>t1\<rfloor> \<le> \<lfloor>t0 + 3600\<rfloor>"
    and "clean_auth (cf_auth cfg)" and "\<not> fs_is_dir fs (auth_file (he_home (cx_home env)))"
    and "fs_is_dir fs (he_home (cx_home env))" and "login_command env api_key s = (r, s')"
  shows "r = Returned \<and> (\<exists>access user. au_token (load_auth (cx_home env) (cl_fs s')) = VStr access \<and>
    au_device_id (load_auth (cx_home env) (cl_fs s')) = VStr uuid \<and>
    authenticate lib False secret t1 (Some access) = Inr user \<and> dget user ''device_id'' = Some (VStr uuid))"
proof -
  let ?h = "cx_home env" and ?u = "VStr (''user_'' @ take 8 hex)" and ?d = "VStr uuid"
  let ?access = "create_access_token lib secret t0 (identity ?u ?d) None"
  let ?auth = "(cf_auth cfg)\<lparr>au_token := VStr ?access,
    au_refresh_token := VStr (create_refresh_token lib secret t0 (identity ?u ?d)), au_device_id := ?d\<rparr>"
  have auth: "login_auth (claims_json (login lib secret t0 uuid hex api_key [])) (cf_auth cfg) = Inr ?auth"
    by (simp add: login_auth_def claims_json_def str_dict_def login_def create_token_pair_def Let_def py_item_def py_get_def)
  have clean: "clean_auth ?auth" using assms(6) by (simp add: clean_auth_def)
  have dirs: "dirs_to fs d" if "d \<in> set (standard_dirs (he_home ?h))" for d using load_makes_dirs [OF assms(1) that] .
  obtain fs' where save: "save_auth (cx_str env) ?h (cfg\<lparr>cf_auth := ?auth\<rparr>) fs = Inr fs'"
    using save_auth_succeeds [OF dirs _ assms(7,8), of "cfg\<lparr>cf_auth := ?auth\<rparr>"] clean by auto
  have "r = Returned" "cl_fs s' = fs'"
    using assms(1,2,3,9) auth save
    by (auto simp: login_command_def run_command_coro_def run_coro_def with_config_def key_login_def save_login_def say_def
        split: event_loop.splits)
  moreover have "load_auth ?h fs' = ?auth" using load_saved_auth [OF save] clean by simp
  moreover have "decode_token lib secret t1 ?access = Some (token_claims False \<lfloor>t0 + 3600\<rfloor> ?u ?d)"
    unfolding decode_own_tokens [OF assms(4)] using assms(5) by simp
  ultimately show ?thesis using authenticate_own by simp
qed

theorem login_gives_the_device_an_identity_witness:
  "\<exists>s access user. login_command ((demo_cli IdleLoop)\<lparr>cx_login := (\<lambda>u k. Inr (200,
       Inr (claims_json (login demo_jwt ''s'' 0 ''phone'' ''0123'' k [])), []))\<rparr>) ''key'' demo_state = (Returned, s) \<and>
     au_token (load_auth demo_home (cl_fs s)) = VStr access \<and> authenticate demo_jwt False ''s'' 60 (Some access) = Inr user"
proof -
  let ?env = "(demo_cli IdleLoop)\<lparr>cx_login := (\<lambda>u k. Inr (200,
       Inr (claims_json (login demo_jwt ''s'' 0 ''phone'' ''0123'' k [])), []))\<rparr>"
  obtain r s where run: "login_command ?env ''key'' demo_state = (r, s)" by (metis surj_pair)
  have home: "cx_home ?env = demo_home" by (simp add: demo_cli_def)
  have load: "load_config (cx_home ?env) (cl_fs demo_state) = Inr (CpipConfig demo_home, demo_files)"
    using demo_load [of IdleLoop] by (simp add: demo_cli_def)
  have srv: "cx_login ?env u ''key'' = Inr (200, Inr (claims_json (login demo_jwt ''s'' 0 ''phone'' ''0123'' ''key'' [])), [])" for u
    by simp
  have law: "jwt_law demo_jwt ''s'' (VStr (''user_'' @ take 8 ''0123'')) (VStr ''phone'')" using demo_jwt_law by simp
  have clean: "clean_auth (cf_auth (CpipConfig demo_home))" by (simp add: clean_auth_def CpipConfig_def AuthConfig_def)
  have files: "\<not> fs_is_dir demo_files (auth_file (he_home (cx_home ?env)))" "fs_is_dir demo_files (he_home (cx_home ?env))"
    by (simp_all add: home demo_home_def demo_files_def fs_is_dir_def fs_node_def auth_file_def)
  from login_gives_the_device_an_identity [OF load _ srv law _ clean files run, of 60] run home show ?thesis
    by auto
qed

text \<open>Without a key the device makes up a token that is no token of the server's: only a server in debug mode
  accepts it.\<close>

lemma dev_login_works_in_debug_only:
  assumes "jl_decode lib now (''dev_'' @ uuid) secret = None"
  shows "get_current_user lib False secret now (Some (''dev_'' @ uuid)) = Inl (HTTPError 401 ''Invalid token'' [])"
    and "\<exists>u. get_current_user lib True secret now (Some (''dev_'' @ uuid)) = Inr u \<and> dget u ''device_id'' = Some (VStr uuid)"
  using assms by (simp_all add: get_current_user_def decode_token_def Let_def)

text \<open>\<open>cpip list\<close> prints every distribution once, in the order of the names in lower case.\<close>

lemma list_is_a_sorted_permutation:
  assumes "list_rows dists = Inr rows"
  shows "\<exists>ds. mset ds = mset dists \<and> sorted (map (\<lambda>d. py_lower (the (fst d))) ds) \<and> map hd rows = map (\<lambda>d. the (fst d)) ds"
  using assms by (intro exI [of _ "sort_key (\<lambda>d. py_lower (the (fst d))) dists"])
    (auto simp: list_rows_def comp_def split: if_splits prod.splits)

text \<open>A pid file that is no number makes \<open>daemon stop\<close> crash; \<open>daemon status\<close> removes it.\<close>

lemma stop_crashes_on_garbage:
  assumes "fs_node (cl_fs s) (he_home (cx_home env) @ [''daemon.pid'']) = Some (File (Text t))" and "py_int (py_strip t) = None"
  shows "\<exists>e. daemon_stop_command env s = (Crashed e, s)"
    and "\<not> fs_exists (cl_fs (snd (daemon_status_command env s))) (he_home (cx_home env) @ [''daemon.pid''])"
  using assms by (simp_all add: daemon_stop_command_def daemon_status_command_def daemon_is_running_def read_pid_def
      fs_read_def fs_exists_def fs_is_dir_def fs_unlink_def fs_node_def say_def Let_def dget_ddel)

end
