(* ===== verification/Workers.thy ===== *)
theory Workers
  imports BuildFarm
begin

text \<open>
  Several workers on one build queue (\<open>builder/worker.py\<close>, \<open>builder/queue.py\<close>). A worker takes a request
  and, at the awaits of the compiler and the scanner, lets the others run; it comes back to
  the queue once, to complete or fail the request. So the steps of a farm are the submission
  of a request, the taking of one and the end of one, in any order.
\<close>

section \<open>The farm as a step relation\<close>

text \<open>\<open>fa_hands\<close>: the request each busy worker builds; \<open>fa_published\<close>: the ids that were signed, in order.\<close>

record farm =
  fa_queue :: build_queue
  fa_hands :: "(nat, build_request) dict"
  fa_published :: "string list"

definition new_farm :: farm where
  "new_farm = \<lparr>fa_queue = new_queue, fa_hands = [], fa_published = []\<rparr>"

datatype farm_event = SubmitJob real build_request | TakeJob nat | EndJob nat build_run

inductive farm_step :: "farm \<Rightarrow> farm_event \<Rightarrow> farm \<Rightarrow> bool" where
  submit: "farm_step f (SubmitJob now r) (f\<lparr>fa_queue := bq_push now r (fa_queue f)\<rparr>)"
| take: "\<not> dhas (fa_hands f) w \<Longrightarrow> bq_pop (fa_queue f) = (Some r, q) \<Longrightarrow>
    farm_step f (TakeJob w) (f\<lparr>fa_queue := q, fa_hands := dset w r (fa_hands f)\<rparr>)"
| finish: "dget (fa_hands f) w = Some r \<Longrightarrow>
    farm_step f (EndJob w run) (f\<lparr>fa_queue := process_build run r (fa_queue f), fa_hands := ddel w (fa_hands f),
      fa_published := fa_published f @ (if published run then [br_request_id r] else [])\<rparr>)"

inductive_cases submit_cases: "farm_step f (SubmitJob now r) f'"
inductive_cases take_cases: "farm_step f (TakeJob w) f'"
inductive_cases finish_cases: "farm_step f (EndJob w run) f'"

text \<open>What a farm does next is decided by the event alone, and it can go on while there is work: a free
  worker can take a request from a queue that is not empty, a busy one can end its own.\<close>

lemma farm_step_deterministic: "farm_step f ev f1 \<Longrightarrow> farm_step f ev f2 \<Longrightarrow> f1 = f2"
  by (cases ev) (auto elim!: submit_cases take_cases finish_cases)

lemma farm_progress:
  shows "bq_queue (fa_queue f) \<noteq> [] \<Longrightarrow> \<not> dhas (fa_hands f) w \<Longrightarrow> \<exists>f'. farm_step f (TakeJob w) f'"
    and "dhas (fa_hands f) w \<Longrightarrow> \<exists>f'. farm_step f (EndJob w run) f'"
proof -
  assume "bq_queue (fa_queue f) \<noteq> []" and "\<not> dhas (fa_hands f) w"
  moreover from this(1) obtain r q where "bq_pop (fa_queue f) = (Some r, q)"
    by (cases "bq_queue (fa_queue f)") (simp_all add: bq_pop_def bq_take_def)
  ultimately show "\<exists>f'. farm_step f (TakeJob w) f'" using farm_step.take by blast
next
  assume "dhas (fa_hands f) w"
  then obtain r where "dget (fa_hands f) w = Some r" by (auto simp: dhas_def)
  from farm_step.finish [OF this] show "\<exists>f'. farm_step f (EndJob w run) f'" by blast
qed

text \<open>The farms reached from the empty one, with the ids submitted on the way\<close>

inductive reached :: "string list \<Rightarrow> farm \<Rightarrow> bool" where
  start: "reached [] new_farm"
| step: "reached ids f \<Longrightarrow> farm_step f ev f' \<Longrightarrow>
    reached (ids @ (case ev of SubmitJob now r \<Rightarrow> [br_request_id r] | _ \<Rightarrow> [])) f'"

section \<open>Where the jobs are\<close>

definition queued_ids :: "farm \<Rightarrow> string multiset" where
  "queued_ids f = image_mset (br_request_id \<circ> item_request) (mset (bq_queue (fa_queue f)))"

definition held_ids :: "farm \<Rightarrow> string multiset" where
  "held_ids f = image_mset (br_request_id \<circ> snd) (mset (fa_hands f))"

definition all_ids :: "farm \<Rightarrow> string multiset" where
  "all_ids f = queued_ids f + held_ids f + mset (fa_published f)"

text \<open>The table of jobs in work is what the workers hold.\<close>

definition hands_ok :: "farm \<Rightarrow> bool" where
  "hands_ok f \<longleftrightarrow> dict_ok (fa_hands f) \<and>
     (\<forall>w r. dget (fa_hands f) w = Some r \<longrightarrow> dget (bq_processing (fa_queue f)) (br_request_id r) = Some r) \<and>
     (\<forall>i. dhas (bq_processing (fa_queue f)) i \<longrightarrow> (\<exists>w r. dget (fa_hands f) w = Some r \<and> br_request_id r = i))"

text \<open>The records of a step, by component\<close>

lemma bq_queue_process:
  "bq_queue (process_build run r q) = (if published run then bq_queue q
     else case dget (bq_processing q) (br_request_id r) of None \<Rightarrow> bq_queue q
       | Some req \<Rightarrow> sort_key item_key (bq_queue q @ [requeued (run_time run) req]))"
  by (simp add: process_build_cases bq_complete_def bq_fail_def bq_push_def bq_insert_def requeued_def Let_def
      split: option.split)

lemma bq_processing_process:
  "dget (bq_processing (process_build run r q)) = (dget (bq_processing q))(br_request_id r := None)"
  by (auto simp: process_build_cases bq_complete_def bq_fail_def bq_push_def bq_insert_def dict_simps
      split: option.split)

lemma requeued_id [simp]: "br_request_id (item_request (requeued now r)) = br_request_id r"
  by (simp add: requeued_def Let_def)

lemma bq_pop_Some:
  assumes "bq_pop q = (Some r, q')"
  obtains x where "bq_queue q = x # bq_queue q'" and "item_request x = r"
    and "bq_processing q' = dset (br_request_id r) r (bq_processing q)"
  using assms by (auto simp: bq_pop_def bq_take_def split: option.splits list.splits)

section \<open>Lemmas on the multisets\<close>

lemma held_take:
  assumes "\<not> dhas (fa_hands f) w"
  shows "image_mset (br_request_id \<circ> snd) (mset (dset w r (fa_hands f))) = add_mset (br_request_id r) (held_ids f)"
  using assms by (simp add: dkeys_dset_new held_ids_def)

lemma mset_ddel_get: "dict_ok d \<Longrightarrow> dget d k = Some v \<Longrightarrow> mset d = add_mset (k, v) (mset (ddel k d))"
  using mset_ddel [of d "(k, v)"] by (simp add: dget_SomeD)

lemma held_end:
  assumes "dict_ok (fa_hands f)" and "dget (fa_hands f) w = Some r"
  shows "held_ids f = add_mset (br_request_id r) (image_mset (br_request_id \<circ> snd) (mset (ddel w (fa_hands f))))"
  using mset_ddel_get [OF assms] by (simp add: held_ids_def)

lemma distinct_once:
  assumes "distinct ids" and "mset ids = add_mset i M"
  shows "i \<notin># M"
proof
  assume "i \<in># M"
  then have "2 \<le> count (mset ids) i" using assms(2) by (simp add: Suc_le_eq)
  then show False using assms(1) by (simp add: distinct_count_atmost_1 split: if_splits)
qed

lemma held_other:
  assumes "dict_ok d" and "i \<notin># image_mset (br_request_id \<circ> snd) (mset d)" and "dget d w = Some r"
  shows "br_request_id r \<noteq> i"
  using mset_ddel_get [OF assms(1,3)] assms(2) by auto

lemma hands_okI:
  assumes "dict_ok (fa_hands f)"
    and "\<And>w r. dget (fa_hands f) w = Some r \<Longrightarrow> dget (bq_processing (fa_queue f)) (br_request_id r) = Some r"
    and "\<And>i. dhas (bq_processing (fa_queue f)) i \<Longrightarrow> \<exists>w r. dget (fa_hands f) w = Some r \<and> br_request_id r = i"
  shows "hands_ok f"
  using assms unfolding hands_ok_def by blast

section \<open>The invariant\<close>

lemma submit_ids:
  "all_ids (f\<lparr>fa_queue := bq_push now r (fa_queue f)\<rparr>) = add_mset (br_request_id r) (all_ids f)"
  by (simp add: all_ids_def queued_ids_def held_ids_def bq_push_def bq_insert_def)

lemma submit_hands: "hands_ok f \<Longrightarrow> hands_ok (f\<lparr>fa_queue := bq_push now r (fa_queue f)\<rparr>)"
  by (simp add: hands_ok_def bq_push_def bq_insert_def)

lemma take_ids:
  assumes "\<not> dhas (fa_hands f) w" and "bq_pop (fa_queue f) = (Some r, q)"
  shows "all_ids (f\<lparr>fa_queue := q, fa_hands := dset w r (fa_hands f)\<rparr>) = all_ids f"
  using assms(2) by (rule bq_pop_Some)
    (auto simp: all_ids_def queued_ids_def held_ids_def dkeys_dset_new [OF assms(1)])

lemma finish_ids:
  assumes "hands_ok f" and "dget (fa_hands f) w = Some r"
  shows "all_ids (f\<lparr>fa_queue := process_build run r (fa_queue f), fa_hands := ddel w (fa_hands f),
      fa_published := fa_published f @ (if published run then [br_request_id r] else [])\<rparr>) = all_ids f"
proof -
  have "dget (bq_processing (fa_queue f)) (br_request_id r) = Some r" and ok: "dict_ok (fa_hands f)"
    using assms by (auto simp: hands_ok_def)
  then show ?thesis
    by (simp add: all_ids_def queued_ids_def held_end [OF ok assms(2)] bq_queue_process)
      (simp add: held_ids_def)
qed

lemma take_hands:
  assumes ok: "hands_ok f" and w: "\<not> dhas (fa_hands f) w" and pop: "bq_pop (fa_queue f) = (Some r, q)"
    and dist: "mset ids = all_ids f" "distinct ids"
  shows "hands_ok (f\<lparr>fa_queue := q, fa_hands := dset w r (fa_hands f)\<rparr>)"
proof -
  obtain x where x: "bq_queue (fa_queue f) = x # bq_queue q" "item_request x = r"
    and proc: "bq_processing q = dset (br_request_id r) r (bq_processing (fa_queue f))"
    using pop by (rule bq_pop_Some)
  have d: "dict_ok (fa_hands f)" using ok by (simp add: hands_ok_def)
  have "mset ids = add_mset (br_request_id r)
      (image_mset (br_request_id \<circ> item_request) (mset (bq_queue q)) + held_ids f + mset (fa_published f))"
    using dist(1) x by (simp add: all_ids_def queued_ids_def)
  from distinct_once [OF dist(2) this] have new: "br_request_id r \<notin># held_ids f"
    by (metis union_iff)
  note other = held_other [OF d new [unfolded held_ids_def]]
  show ?thesis
  proof (rule hands_okI)
    fix w' r'
    assume "dget (fa_hands (f\<lparr>fa_queue := q, fa_hands := dset w r (fa_hands f)\<rparr>)) w' = Some r'"
    then have "r' = r \<or> dget (fa_hands f) w' = Some r'" by (auto simp: dget_dset split: if_splits)
    then show "dget (bq_processing (fa_queue (f\<lparr>fa_queue := q, fa_hands := dset w r (fa_hands f)\<rparr>)))
        (br_request_id r') = Some r'"
      using other [of w' r'] ok by (auto simp: proc dget_dset hands_ok_def)
  next
    fix i
    assume "dhas (bq_processing (fa_queue (f\<lparr>fa_queue := q, fa_hands := dset w r (fa_hands f)\<rparr>))) i"
    then consider "i = br_request_id r" | "dhas (bq_processing (fa_queue f)) i"
      by (auto simp: proc dhas_dset)
    then show "\<exists>w' r'. dget (fa_hands (f\<lparr>fa_queue := q, fa_hands := dset w r (fa_hands f)\<rparr>)) w' = Some r'
        \<and> br_request_id r' = i"
    proof cases
      case 1
      then have "dget (dset w r (fa_hands f)) w = Some r \<and> br_request_id r = i" by (simp add: dget_dset)
      then show ?thesis by simp metis
    next
      case 2
      then obtain w' r' where held: "dget (fa_hands f) w' = Some r'" "br_request_id r' = i"
        using ok by (auto simp: hands_ok_def)
      then have "w' \<noteq> w" using w by (auto simp: dhas_def)
      with held show ?thesis by (auto simp: dget_dset intro!: exI [of _ w'])
    qed
  qed (use d in simp)
qed

lemma finish_hands:
  assumes ok: "hands_ok f" and w: "dget (fa_hands f) w = Some r"
    and dist: "mset ids = all_ids f" "distinct ids"
  shows "hands_ok (f\<lparr>fa_queue := process_build run r (fa_queue f), fa_hands := ddel w (fa_hands f), fa_published := p\<rparr>)"
    (is "hands_ok ?f")
proof -
  let ?d = "ddel w (fa_hands f)"
  have d: "dict_ok (fa_hands f)" using ok by (simp add: hands_ok_def)
  have "mset ids = add_mset (br_request_id r)
      (queued_ids f + image_mset (br_request_id \<circ> snd) (mset ?d) + mset (fa_published f))"
    using dist(1) held_end [OF d w] by (simp add: all_ids_def)
  from distinct_once [OF dist(2) this]
  have new: "br_request_id r \<notin># image_mset (br_request_id \<circ> snd) (mset ?d)"
    by (metis union_iff)
  note other = held_other [OF dict_ok_ddel [OF d] new]
  show ?thesis
  proof (rule hands_okI)
    fix w' r'
    assume "dget (fa_hands ?f) w' = Some r'"
    then have h: "dget ?d w' = Some r'" by simp
    then have "dget (fa_hands f) w' = Some r'" by (simp add: dget_ddel split: if_splits)
    then show "dget (bq_processing (fa_queue ?f)) (br_request_id r') = Some r'"
      using other [OF h] ok by (simp add: bq_processing_process hands_ok_def)
  next
    fix i
    assume "dhas (bq_processing (fa_queue ?f)) i"
    then have i: "i \<noteq> br_request_id r" "dhas (bq_processing (fa_queue f)) i"
      by (auto simp: bq_processing_process dhas_def split: if_splits)
    then obtain w' r' where held: "dget (fa_hands f) w' = Some r'" "br_request_id r' = i"
      using ok by (auto simp: hands_ok_def)
    then have "w' \<noteq> w" using w i(1) by auto
    with held show "\<exists>w' r'. dget (fa_hands ?f) w' = Some r' \<and> br_request_id r' = i"
      by (auto simp: dget_ddel intro!: exI [of _ w'])
  qed (use d in simp)
qed

lemma farm_invariant:
  assumes "reached ids f" and "distinct ids"
  shows "hands_ok f \<and> mset ids = all_ids f"
  using assms
proof (induction rule: reached.induct)
  case start
  then show ?case by (simp add: hands_ok_def new_farm_def all_ids_def queued_ids_def held_ids_def new_queue_def dhas_def)
next
  case (step ids f ev f')
  then have IH: "hands_ok f" "mset ids = all_ids f" and "distinct ids" by auto
  from step.hyps(2) show ?case
  proof cases
    case (submit now r)
    then show ?thesis using IH by (simp add: submit_ids submit_hands)
  next
    case (take w r q)
    then show ?thesis using IH \<open>distinct ids\<close> by (simp add: take_ids take_hands)
  next
    case (finish w r run)
    then show ?thesis using IH \<open>distinct ids\<close> by (simp only: finish_ids finish_hands) simp
  qed
qed

section \<open>Conservation\<close>

text \<open>C29: No interleaving of submissions and of any number of workers loses a job or runs one twice at a
  time: while the submitted ids differ, each of them is in exactly one place, in the queue, in
  the hands of one worker, or published; the table of jobs in work holds what the workers hold.\<close>

theorem farm_conserves_jobs:
  assumes "reached ids f" and "distinct ids"
  shows "mset ids = all_ids f \<and> distinct (map (br_request_id \<circ> snd) (fa_hands f) @ fa_published f) \<and>
    (\<forall>i. dhas (bq_processing (fa_queue f)) i \<longleftrightarrow> i \<in># held_ids f)"
proof -
  have ok: "hands_ok f" and ids: "mset ids = all_ids f" using farm_invariant [OF assms] by simp_all
  have "mset (map (br_request_id \<circ> item_request) (bq_queue (fa_queue f)) @
      map (br_request_id \<circ> snd) (fa_hands f) @ fa_published f) = mset ids"
    by (simp add: ids all_ids_def queued_ids_def held_ids_def)
  from mset_eq_imp_distinct_iff [OF this] assms(2)
  have "distinct (map (br_request_id \<circ> snd) (fa_hands f) @ fa_published f)" by simp
  moreover have "dhas (bq_processing (fa_queue f)) i \<longleftrightarrow> i \<in># held_ids f" for i
  proof
    assume "dhas (bq_processing (fa_queue f)) i"
    then obtain w r where "dget (fa_hands f) w = Some r" "br_request_id r = i"
      using ok by (auto simp: hands_ok_def)
    then show "i \<in># held_ids f" using held_other [of "fa_hands f" i w r] ok
      by (auto simp only: hands_ok_def held_ids_def)
  next
    assume "i \<in># held_ids f"
    then obtain w r where "(w, r) \<in> set (fa_hands f)" "br_request_id r = i" by (auto simp: held_ids_def)
    then show "dhas (bq_processing (fa_queue f)) i"
      using ok by (auto simp: hands_ok_def dget_mem dhas_def)
  qed
  ultimately show ?thesis using ids by simp
qed

text \<open>Two jobs, two workers: the second ends first, and its build fails.\<close>

definition crash :: build_run where
  "crash = \<lparr>run_compiled = Inl (OSError []), run_scan = (\<lambda>w. Inl (OSError [])),
     run_sign = (\<lambda>w. Inl (OSError [])), run_time = 7\<rparr>"

theorem farm_conserves_jobs_witness:
  "\<exists>f. reached [''a'', ''b''] f \<and> held_ids f = {#''a''#} \<and> queued_ids f = {#''b''#} \<and>
     mset [''a'', ''b''] = all_ids f"
proof -
  let ?a = "demo_request ''a'' 1" and ?b = "demo_request ''b'' 5"
  have a: "br_request_id ?a = ''a''" and b: "br_request_id ?b = ''b''"
    by (simp_all add: demo_request_def new_build_request_def)
  define q where "q = bq_push 2 ?b (bq_push 1 ?a new_queue)"
  define q2 where "q2 = \<lparr>bq_queue = [(5, 2, ?b)], bq_processing = [(''a'', ?a)]\<rparr>"
  define q3 where "q3 = \<lparr>bq_queue = [], bq_processing = [(''a'', ?a), (''b'', ?b)]\<rparr>"
  define f1 where "f1 = \<lparr>fa_queue = q, fa_hands = [], fa_published = []\<rparr>"
  have r1: "reached [''a'', ''b''] f1"
    using reached.step [OF reached.step [OF reached.start farm_step.submit [of _ 1 ?a]] farm_step.submit [of _ 2 ?b]]
    by (simp add: a b f1_def q_def new_farm_def)
  have pop1: "bq_pop q = (Some ?a, q2)"
    by (simp add: q_def q2_def bq_push_def bq_insert_def new_queue_def bq_pop_def bq_take_def demo_request_def
        new_build_request_def less_eq_qkey_def)
  have pop2: "bq_pop q2 = (Some ?b, q3)" by (simp add: q2_def q3_def bq_pop_def bq_take_def b)
  define f2 where "f2 = \<lparr>fa_queue = q3, fa_hands = [(1, ?a), (2, ?b)], fa_published = []\<rparr>"
  define f3 where "f3 = \<lparr>fa_queue = process_build crash ?b q3, fa_hands = [(1, ?a)], fa_published = []\<rparr>"
  define f4 where "f4 = \<lparr>fa_queue = q2, fa_hands = [(1::nat, ?a)], fa_published = []\<rparr>"
  have "farm_step f1 (TakeJob 1) f4"
    using farm_step.take [of f1 1 ?a q2] pop1 by (simp add: f1_def f4_def dhas_def)
  from reached.step [OF r1 this] have r4: "reached [''a'', ''b''] f4" by simp
  have "farm_step f4 (TakeJob 2) f2"
    using farm_step.take [of f4 2 ?b q3] pop2 by (simp add: f2_def f4_def dhas_def)
  from reached.step [OF r4 this] have r2: "reached [''a'', ''b''] f2" by simp
  have "farm_step f2 (EndJob 2 crash) f3"
    using farm_step.finish [of f2 2 ?b crash] by (simp add: f2_def f3_def published_def crash_def)
  from reached.step [OF r2 this] have r: "reached [''a'', ''b''] f3" by simp
  have "distinct [''a'', ''b'']" by simp
  with farm_conserves_jobs [OF r] have "mset [''a'', ''b''] = all_ids f3" by blast
  moreover have "held_ids f3 = {#''a''#}" by (simp add: f3_def held_ids_def a)
  moreover have "\<not> published crash" by (simp add: published_def crash_def)
  then have "queued_ids f3 = {#''b''#}" by (simp add: f3_def queued_ids_def bq_queue_process q3_def b)
  ultimately show ?thesis using r by blast
qed

section \<open>One worker\<close>

text \<open>The loop of \<open>start\<close> between calls of \<open>stop\<close>, which lets the build in progress end: each turn takes a
  request and ends it, or finds the queue empty and sleeps.\<close>

datatype worker_event = StartWorker | TurnWorker build_run | StopWorker

fun worker_step :: "worker_event \<Rightarrow> bool \<times> build_queue \<Rightarrow> bool \<times> build_queue" where
  "worker_step StartWorker (running, q) = (True, q)"
| "worker_step (TurnWorker run) (running, q) = (running, if running then worker_round run q else q)"
| "worker_step StopWorker (running, q) = (False, q)"

lemma stopped_worker_rests: "fold worker_step (map TurnWorker runs) (False, q) = (False, q)"
  by (induction runs) auto

text \<open>A turn is two steps of the farm, so what holds of a farm holds of a worker.\<close>

lemma worker_turn_is_farm_steps:
  assumes "reached ids f" and "\<not> dhas (fa_hands f) w"
  shows "\<exists>f'. reached ids f' \<and> (running, fa_queue f') = worker_step (TurnWorker run) (running, fa_queue f) \<and>
    fa_hands f' = fa_hands f"
proof (cases running)
  case False
  with assms show ?thesis by auto
next
  case True
  show ?thesis
  proof (cases "bq_pop (fa_queue f)")
    case (Pair a q)
    show ?thesis
    proof (cases a)
      case None
      then have "worker_round run (fa_queue f) = fa_queue f"
        using Pair by (auto simp: worker_round_def bq_pop_def split: option.splits)
      with assms True show ?thesis by auto
    next
      case (Some r)
      let ?f1 = "f\<lparr>fa_queue := q, fa_hands := dset w r (fa_hands f)\<rparr>"
      have "farm_step f (TakeJob w) ?f1" using assms(2) Pair Some by (intro farm_step.take) simp_all
      from reached.step [OF assms(1) this] have r1: "reached ids ?f1" by simp
      have "farm_step ?f1 (EndJob w run) (?f1\<lparr>fa_queue := process_build run r (fa_queue ?f1), fa_hands := ddel w (fa_hands ?f1),
          fa_published := fa_published ?f1 @ (if published run then [br_request_id r] else [])\<rparr>)"
        by (rule farm_step.finish) (simp add: dget_dset)
      from reached.step [OF r1 this] show ?thesis
        using True Pair Some assms(2)
        by (intro exI) (auto simp: worker_round_def dkeys_dset_new ddel_filter dhas_keys filter_id_conv image_iff)
    qed
  qed
qed

section \<open>Requests with the id of another\<close>

text \<open>The table is keyed by the request id alone: of two requests in work under one id the one
  that fails first takes the entry of the table with it, and when the other one fails too,
  it is gone: neither queued nor in work.\<close>

lemma duplicate_id_is_lost:
  assumes "bq_queue q = []" and "dget (bq_processing q) i = None"
    and "br_request_id r1 = i" and "br_request_id r2 = i" and "\<not> published run1" and "\<not> published run2"
  shows "length (bq_queue (process_build run2 r1 (process_build run1 r2
      (snd (bq_pop (snd (bq_pop (bq_push 2 r2 (bq_push 1 r1 q))))))))) = 1"
  using assms
  by (simp add: bq_queue_process bq_processing_process bq_pop_def bq_take_def bq_push_def bq_insert_def dict_simps
      split: option.split list.split)

end
