(* ===== verification/Api.thy ===== *)
theory Api
  imports ServerApp Services Auth
begin

text \<open>
  The HTTP side of the server as a whole: the routers of \<open>server/api/\<close> as \<open>server/app.py\<close> puts
  them together, one request from its path to its reply, and the addresses the client uses.
  The framework's router and the validation of bodies by pydantic are parameters.
\<close>

section \<open>Routes\<close>

datatype http_method = GET | POST | DELETE

datatype endpoint =
    EP_openapi | EP_docs | EP_oauth2_redirect | EP_redoc | EP_health | EP_login | EP_register | EP_refresh | EP_me
  | EP_package | EP_wheel | EP_layers | EP_search | EP_catalog
  | EP_create_build | EP_get_build | EP_list_builds | EP_cancel_build
  | EP_submit_execution | EP_get_execution | EP_cancel_execution | EP_register_device | EP_root

type_synonym route = "http_method \<times> string \<times> endpoint"

text \<open>The decorators of each router, in order, with the prefix of the router\<close>

definition with_prefix :: "string \<Rightarrow> route list \<Rightarrow> route list" where
  "with_prefix prefix = map (\<lambda>(m, path, e). (m, prefix @ path, e))"

definition health_router :: "route list" where
  "health_router = [(GET, ''/health'', EP_health)]"

definition auth_router :: "route list" where
  "auth_router = with_prefix ''/api/v1/auth'' [(POST, ''/login'', EP_login), (POST, ''/register'', EP_register),
     (POST, ''/refresh'', EP_refresh), (GET, ''/me'', EP_me)]"

definition packages_router :: "route list" where
  "packages_router = with_prefix ''/api/v1/packages'' [(GET, ''/{name}'', EP_package), (GET, ''/{name}/wheel'', EP_wheel),
     (GET, ''/{name}/layers'', EP_layers), (GET, ''/'', EP_search), (GET, ''/catalog'', EP_catalog)]"

definition builds_router :: "route list" where
  "builds_router = with_prefix ''/api/v1/builds'' [(POST, ''/'', EP_create_build), (GET, ''/{build_id}'', EP_get_build),
     (GET, ''/'', EP_list_builds), (DELETE, ''/{build_id}'', EP_cancel_build)]"

definition execution_router :: "route list" where
  "execution_router = with_prefix ''/api/v1/execute'' [(POST, ''/'', EP_submit_execution),
     (GET, ''/{execution_id}'', EP_get_execution), (DELETE, ''/{execution_id}'', EP_cancel_execution)]"

text \<open>The application: what its construction adds, the routers as they are included, its own endpoints\<close>

definition documentation_routes :: "route list" where
  "documentation_routes = [(GET, ''/openapi.json'', EP_openapi), (GET, ''/docs'', EP_docs),
     (GET, ''/docs/oauth2-redirect'', EP_oauth2_redirect), (GET, ''/redoc'', EP_redoc)]"

definition included_routers :: "route list" where
  "included_routers = health_router @ auth_router @ packages_router @ builds_router @ execution_router"

definition route_table :: "route list" where
  "route_table = documentation_routes @ included_routers @
     [(POST, ''/api/v1/devices/register'', EP_register_device), (GET, ''/'', EP_root)]"

text \<open>What is relied on of the framework: a route fits a path when they agree segment by segment, where a
  name in braces takes any segment that is not empty, and the first route that fits path and
  method serves the request.\<close>

datatype routing = Serve endpoint "string list" | NoRoute int

definition is_param :: "string \<Rightarrow> bool" where
  "is_param t = (case t of c # cs \<Rightarrow> c = CHR ''{'' | [] \<Rightarrow> False)"

fun bind_path :: "string list \<Rightarrow> string list \<Rightarrow> string list option" where
  "bind_path [] [] = Some []"
| "bind_path (t # ts) (w # ws) =
     (if is_param t then if w = [] then None else map_option (\<lambda>ps. w # ps) (bind_path ts ws)
      else if t = w then bind_path ts ws else None)"
| "bind_path ts ws = None"

fun first_route :: "route list \<Rightarrow> http_method \<Rightarrow> string \<Rightarrow> (endpoint \<times> string list) option" where
  "first_route [] m path = None"
| "first_route ((m', template, e) # rs) m path =
     (case if m' = m then bind_path (py_split CHR ''/'' template) (py_split CHR ''/'' path) else None of
        Some ps \<Rightarrow> Some (e, ps)
      | None \<Rightarrow> first_route rs m path)"

type_synonym router = "route list \<Rightarrow> http_method \<Rightarrow> string \<Rightarrow> routing"

definition routes_in_order :: "router \<Rightarrow> bool" where
  "routes_in_order router \<longleftrightarrow>
     (\<forall>rs m path e ps. router rs m path = Serve e ps \<longleftrightarrow> first_route rs m path = Some (e, ps))"

lemma first_route_served:
  "routes_in_order router \<Longrightarrow> first_route rs m path = Some (e, ps) \<Longrightarrow> router rs m path = Serve e ps"
  by (simp add: routes_in_order_def)

section \<open>The addresses of the client\<close>

definition package_url :: "string \<Rightarrow> string" where
  "package_url package = API_V1_PREFIX @ ''/packages/'' @ package"

definition wheel_url :: "string \<Rightarrow> string" where
  "wheel_url package = API_V1_PREFIX @ ''/packages/'' @ package @ ''/wheel''"

definition build_url :: string where
  "build_url = API_V1_PREFIX @ ''/builds/''"

definition poll_url :: "string \<Rightarrow> string" where
  "poll_url build_id = API_V1_PREFIX @ ''/builds/'' @ build_id"

definition device_url :: string where
  "device_url = API_V1_PREFIX @ ''/devices/register''"

definition catalog_url :: string where
  "catalog_url = API_V1_PREFIX @ ''/packages/catalog''"

definition login_url :: string where
  "login_url = ''/api/v1/auth/login''"

definition health_url :: string where
  "health_url = ''/health''"

lemmas router_defs = route_table_def documentation_routes_def included_routers_def health_router_def auth_router_def
  packages_router_def builds_router_def execution_router_def with_prefix_def

lemmas url_defs = package_url_def wheel_url_def build_url_def poll_url_def device_url_def catalog_url_def login_url_def
  health_url_def

lemma fixed_routes:
  "first_route route_table POST build_url = Some (EP_create_build, [])"
  "first_route route_table POST device_url = Some (EP_register_device, [])"
  "first_route route_table POST login_url = Some (EP_login, [])"
  "first_route route_table GET health_url = Some (EP_health, [])"
  "first_route route_table GET catalog_url = Some (EP_package, [''catalog''])"
  by (simp_all add: router_defs url_defs is_param_def)

lemma package_routes:
  assumes "n \<noteq> []" and "CHR ''/'' \<notin> set n"
  shows "first_route route_table GET (package_url n) = Some (EP_package, [n])"
    and "first_route route_table GET (wheel_url n) = Some (EP_wheel, [n])"
    and "first_route route_table GET (poll_url n) = Some (EP_get_build, [n])"
  using assms by (simp_all add: router_defs url_defs is_param_def py_split_single py_split_append)

lemma first_route_declared:
  "first_route rs m path = Some (e, ps) \<Longrightarrow>
   \<exists>t. (m, t, e) \<in> set rs \<and> bind_path (py_split CHR ''/'' t) (py_split CHR ''/'' path) = Some ps"
  by (induction rs m path rule: first_route.induct) (auto split: option.splits if_splits)

lemma bind_path_literal: "list_all (\<lambda>t. \<not> is_param t) ts \<Longrightarrow> bind_path ts ws = Some ps \<Longrightarrow> ws = ts"
  by (induction ts ws arbitrary: ps rule: bind_path.induct) (auto split: if_splits)

lemma catalog_is_never_served: "first_route route_table m path \<noteq> Some (EP_catalog, ps)"
proof
  assume cat: "first_route route_table m path = Some (EP_catalog, ps)"
  from first_route_declared [OF this] obtain t where "(m, t, EP_catalog) \<in> set route_table"
    and b: "bind_path (py_split CHR ''/'' t) (py_split CHR ''/'' path) = Some ps" by blast
  then have t: "m = GET" "t = ''/api/v1/packages/catalog''" by (auto simp: router_defs)
  have "py_split CHR ''/'' path = py_split CHR ''/'' ''/api/v1/packages/catalog''"
    by (rule bind_path_literal [OF _ b [unfolded t]]) (simp add: is_param_def)
  then have "first_route route_table GET path = Some (EP_package, [''catalog''])"
    by (simp add: router_defs is_param_def)
  with cat t show False by simp
qed

definition sample_path :: "endpoint \<Rightarrow> http_method \<times> string" where
  "sample_path e = (case filter (\<lambda>(m, t, e'). e' = e) route_table of
     (m, t, e') # rs \<Rightarrow> (m, map (\<lambda>c. if c = CHR ''{'' then CHR ''x'' else c) t) | [] \<Rightarrow> (GET, []))"

lemma others_are_served:
  assumes "e \<noteq> EP_catalog"
  shows "\<exists>ps. first_route route_table (fst (sample_path e)) (snd (sample_path e)) = Some (e, ps)"
  using assms by (cases e) (simp_all add: sample_path_def router_defs is_param_def)

text \<open>C11: Every request of the client about a package or build whose name has no slash (nor any other
  character that an address reserves) reaches the endpoint it is meant for. Only the one for the
  catalogue is served as the package of that name: the catalogue is the one endpoint of the
  server that no request reaches.\<close>

theorem client_requests_meet_their_endpoints:
  assumes "routes_in_order router" and "n \<noteq> []" and "CHR ''/'' \<notin> set n"
  shows "router route_table GET (package_url n) = Serve EP_package [n] \<and>
    router route_table GET (wheel_url n) = Serve EP_wheel [n] \<and>
    router route_table POST build_url = Serve EP_create_build [] \<and>
    router route_table GET (poll_url n) = Serve EP_get_build [n] \<and>
    router route_table POST device_url = Serve EP_register_device [] \<and>
    router route_table POST login_url = Serve EP_login [] \<and>
    router route_table GET health_url = Serve EP_health [] \<and>
    router route_table GET catalog_url = Serve EP_package [''catalog''] \<and>
    (\<forall>e. (\<exists>m path ps. router route_table m path = Serve e ps) \<longleftrightarrow> e \<noteq> EP_catalog)"
proof -
  have "(\<exists>m path ps. router route_table m path = Serve e ps) \<longleftrightarrow> e \<noteq> EP_catalog" for e
    using assms(1) catalog_is_never_served others_are_served [of e] unfolding routes_in_order_def by blast
  with assms show ?thesis
    by (simp add: first_route_served fixed_routes package_routes)
qed

definition demo_router :: router where
  "demo_router rs m path = (case first_route rs m path of Some (e, ps) \<Rightarrow> Serve e ps | None \<Rightarrow> NoRoute 404)"

theorem client_requests_meet_their_endpoints_witness:
  "demo_router route_table GET (wheel_url ''scipy'') = Serve EP_wheel [''scipy''] \<and>
   demo_router route_table GET catalog_url = Serve EP_package [''catalog'']"
proof -
  have "routes_in_order demo_router"
    by (auto simp: routes_in_order_def demo_router_def split: option.splits)
  from client_requests_meet_their_endpoints [OF this, of "''scipy''"] show ?thesis by simp
qed

section \<open>One request\<close>

text \<open>The state of the server process behind its HTTP interface\<close>

record app_state =
  app_api :: api_state
  app_server :: server

text \<open>A request as the framework hands it over: query and body parsed, the bearer token taken from its
  header; \<open>ac_now\<close> is the clock, \<open>ac_start\<close> and \<open>ac_end\<close> its readings around an execution, the last
  three what \<open>uuid4\<close> gives.\<close>

record api_call =
  ac_method :: http_method
  ac_path :: string
  ac_query :: "(string, string) dict"
  ac_body :: pyval
  ac_credentials :: "string option"
  ac_request :: http_request
  ac_now :: real
  ac_start :: real
  ac_end :: real
  ac_uuid1 :: string
  ac_hex :: string
  ac_uuid2 :: string

text \<open>The framework's part: routing, and the parsing of the two large bodies and of numbers by pydantic,
  \<open>None\<close> for a value it rejects. The answer to a rejected request is \<open>RInvalid\<close> (422).\<close>

record 'o app_env =
  ap_api :: api_env
  ap_runtime :: "'o py_runtime"
  ap_registry :: package_registry
  ap_started :: real
  ap_router :: router
  ap_build :: "pyval \<Rightarrow> build_request option"
  ap_exec :: "pyval \<Rightarrow> execution_request option"
  ap_int :: "string \<Rightarrow> int option"

datatype reply =
    RHealth health_status | RClaims claims | RPackage package_info | RWheel "string \<times> string"
  | RLayers "string \<times> layer_info list" | RSearch "search_result list \<times> nat" | RCatalogue "search_result list"
  | RCreated build_result | RBuild build_result | RBuilds "build_result list" | RStatus string
  | RExecuted execution_result | RExecution execution_result | RJson pyval | RFramework endpoint
  | RFail http_error | RInvalid | RNoRoute int

text \<open>A handler of \<open>server/api/\<close> on the state, with its value as a reply\<close>

definition via_api :: "('a \<Rightarrow> reply) \<Rightarrow> (api_state \<Rightarrow> (http_error + 'a) \<times> api_state) \<Rightarrow> app_state \<Rightarrow> reply \<times> app_state" where
  "via_api f h s = (case h (app_api s) of
       (Inl e, a) \<Rightarrow> (RFail e, s\<lparr>app_api := a\<rparr>) | (Inr x, a) \<Rightarrow> (f x, s\<lparr>app_api := a\<rparr>))"

definition reading :: "('a \<Rightarrow> reply) \<Rightarrow> http_error + 'a \<Rightarrow> reply" where
  "reading f r = (case r of Inl e \<Rightarrow> RFail e | Inr x \<Rightarrow> f x)"

text \<open>Authentication is a dependency, so its refusal comes before a rejected body.\<close>

definition with_body :: "'o app_env \<Rightarrow> api_call \<Rightarrow> 'b option \<Rightarrow> ('b \<Rightarrow> app_state \<Rightarrow> reply \<times> app_state) \<Rightarrow> app_state \<Rightarrow> reply \<times> app_state" where
  "with_body env c body h s = (case body of
       Some b \<Rightarrow> h b s
     | None \<Rightarrow> (case authenticate (ae_jwt (ap_api env)) (ae_debug (ap_api env)) (ae_secret (ap_api env)) (ac_now c) (ac_credentials c) of
           Inl e \<Rightarrow> (RFail e, s) | Inr u \<Rightarrow> (RInvalid, s)))"

text \<open>A query parameter with its default\<close>

definition query_str :: "api_call \<Rightarrow> string \<Rightarrow> string \<Rightarrow> string" where
  "query_str c name d = (case dget (ac_query c) name of None \<Rightarrow> d | Some v \<Rightarrow> v)"

definition query_int :: "'o app_env \<Rightarrow> api_call \<Rightarrow> string \<Rightarrow> int \<Rightarrow> int option" where
  "query_int env c name d = (case dget (ac_query c) name of None \<Rightarrow> Some d | Some v \<Rightarrow> ap_int env v)"

text \<open>The bodies of \<open>LoginRequest\<close> and \<open>RegisterRequest\<close>\<close>

definition str_field :: "(pyval \<times> pyval) list \<Rightarrow> string \<Rightarrow> string \<Rightarrow> string option" where
  "str_field d name def = (case map_of d (VStr name) of None \<Rightarrow> Some def | Some (VStr s) \<Rightarrow> Some s | Some v \<Rightarrow> None)"

definition parse_login :: "pyval \<Rightarrow> (string \<times> string) option" where
  "parse_login body = (case body of
       VDict d \<Rightarrow> (case (str_field d ''api_key'' [], str_field d ''device_id'' []) of
          (Some k, Some i) \<Rightarrow> Some (k, i) | _ \<Rightarrow> None)
     | _ \<Rightarrow> None)"

definition valid_register :: "pyval \<Rightarrow> bool" where
  "valid_register body = (case body of
       VDict d \<Rightarrow> (case map_of d (VStr ''email'') of None \<Rightarrow> True | Some VNone \<Rightarrow> True | Some (VStr s) \<Rightarrow> True | Some v \<Rightarrow> False)
     | _ \<Rightarrow> False)"

definition path_param :: "string list \<Rightarrow> string" where
  "path_param ps = (case ps of [] \<Rightarrow> [] | p # _ \<Rightarrow> p)"

fun run_endpoint :: "'o app_env \<Rightarrow> api_call \<Rightarrow> endpoint \<Rightarrow> string list \<Rightarrow> app_state \<Rightarrow> reply \<times> app_state" where
  "run_endpoint env c EP_health ps s = (RHealth (health_check VERSION (ac_now c - ap_started env) (app_server s)), s)"
| "run_endpoint env c EP_login ps s = (case parse_login (ac_body c) of
     None \<Rightarrow> (RInvalid, s)
   | Some (k, d) \<Rightarrow> (RClaims (login (ae_jwt (ap_api env)) (ae_secret (ap_api env)) (ac_now c) (ac_uuid1 c) (ac_hex c) k d), s))"
| "run_endpoint env c EP_register ps s =
     (if valid_register (ac_body c)
      then (RClaims (register (ae_jwt (ap_api env)) (ae_secret (ap_api env)) (ac_now c) (ac_uuid1 c) (ac_hex c) (ac_uuid2 c)), s)
      else (RInvalid, s))"
| "run_endpoint env c EP_refresh ps s = (case dget (ac_query c) ''refresh_token'' of
     None \<Rightarrow> (RInvalid, s)
   | Some t \<Rightarrow> (reading RClaims (refresh (ae_jwt (ap_api env)) (ae_secret (ap_api env)) (ac_now c) t), s))"
| "run_endpoint env c EP_me ps s = (reading (\<lambda>user. RClaims (get_me user)) (get_current_user (ae_jwt (ap_api env))
     (ae_debug (ap_api env)) (ae_secret (ap_api env)) (ac_now c) (ac_credentials c)), s)"
| "run_endpoint env c EP_package ps s = via_api RPackage (api_get_package (ap_registry env) (ac_now c) (ac_request c)
     (path_param ps) (query_str c ''arch'' ''aarch64'')) s"
| "run_endpoint env c EP_wheel ps s =
     via_api RWheel (api_get_wheel (ap_registry env) (ac_now c) (ac_request c) (path_param ps)) s"
| "run_endpoint env c EP_layers ps s =
     via_api RLayers (api_get_layers (ap_registry env) (ac_now c) (ac_request c) (path_param ps)) s"
| "run_endpoint env c EP_search ps s = (case query_int env c ''limit'' 50 of
     None \<Rightarrow> (RInvalid, s)
   | Some n \<Rightarrow> (if n \<le> 100
       then via_api RSearch (api_search_packages (ap_registry env) (ac_now c) (ac_request c) (query_str c ''q'' []) n) s
       else (RInvalid, s)))"
| "run_endpoint env c EP_catalog ps s = via_api RCatalogue (api_get_catalog (ap_registry env) (ac_now c) (ac_request c)) s"
| "run_endpoint env c EP_create_build ps s = with_body env c (ap_build env (ac_body c))
     (\<lambda>b. via_api RCreated (api_create_build (ap_api env) (ac_now c) (ac_request c) (ac_credentials c) b)) s"
| "run_endpoint env c EP_get_build ps s = (reading RBuild (api_get_build (path_param ps) (app_api s)), s)"
| "run_endpoint env c EP_list_builds ps s = (case query_int env c ''limit'' 20 of
     None \<Rightarrow> (RInvalid, s) | Some n \<Rightarrow> (RBuilds (api_list_builds n (app_api s)), s))"
| "run_endpoint env c EP_cancel_build ps s =
     via_api RStatus (api_cancel_build (ap_api env) (ac_now c) (ac_credentials c) (path_param ps)) s"
| "run_endpoint env c EP_submit_execution ps s = with_body env c (ap_exec env (ac_body c))
     (\<lambda>b. via_api RExecuted (api_submit_execution (ap_api env) (ap_runtime env) (ac_now c) (ac_start c) (ac_end c)
        (ac_request c) (ac_credentials c) b)) s"
| "run_endpoint env c EP_get_execution ps s = (reading RExecution (api_get_execution (path_param ps) (app_api s)), s)"
| "run_endpoint env c EP_cancel_execution ps s =
     via_api RStatus (api_cancel_execution (ap_api env) (ac_now c) (ac_credentials c) (path_param ps)) s"
| "run_endpoint env c EP_register_device ps s = (case post_register (ac_now c) (ac_body c) of
     Inl errs \<Rightarrow> (RInvalid, s) | Inr j \<Rightarrow> (RJson j, s))"
| "run_endpoint env c EP_root ps s = (RJson root_info, s)"
| "run_endpoint env c e ps s = (RFramework e, s)"

definition answer_call :: "'o app_env \<Rightarrow> api_call \<Rightarrow> app_state \<Rightarrow> reply \<times> app_state" where
  "answer_call env c s = (case ap_router env route_table (ac_method c) (ac_path c) of
       NoRoute status \<Rightarrow> (RNoRoute status, s)
     | Serve e ps \<Rightarrow> run_endpoint env c e ps s)"

definition run_calls :: "'o app_env \<Rightarrow> api_call list \<Rightarrow> app_state \<Rightarrow> app_state" where
  "run_calls env cs = fold (\<lambda>c s. snd (answer_call env c s)) cs"

section \<open>Requests without an identity\<close>

definition identified :: "'o app_env \<Rightarrow> api_call \<Rightarrow> http_error + claims" where
  "identified env c = authenticate (ae_jwt (ap_api env)) (ae_debug (ap_api env)) (ae_secret (ap_api env))
     (ac_now c) (ac_credentials c)"

lemma no_token_no_identity: "ac_credentials c = None \<Longrightarrow> \<exists>d. identified env c = Inl (HTTPError 401 d [])"
  by (cases "ae_debug (ap_api env)")
    (simp_all add: identified_def authenticate_def get_current_user_def Let_def require_auth_def)

text \<open>All of the state but the windows of the rate limiter\<close>

definition jobs :: "app_state \<Rightarrow> build_service \<times> results \<times> server" where
  "jobs s = (as_builds (app_api s), as_results (app_api s), app_server s)"

fun took_job :: "reply \<Rightarrow> bool" where
  "took_job (RCreated b) = True"
| "took_job (RExecuted x) = True"
| "took_job r = False"

lemma via_api_jobs:
  assumes "\<And>r a. h (app_api s) = (r, a) \<Longrightarrow> as_builds a = as_builds (app_api s) \<and> as_results a = as_results (app_api s)"
    and "\<And>x. \<not> took_job (f x)"
  shows "jobs (snd (via_api f h s)) = jobs s \<and> \<not> took_job (fst (via_api f h s))"
proof -
  obtain r a where h: "h (app_api s) = (r, a)" by (cases "h (app_api s)")
  with assms(1) [OF h] assms(2) show ?thesis
    by (auto simp: via_api_def jobs_def split: sum.splits)
qed

lemma via_api_refused: "h (app_api s) = (Inl e, app_api s) \<Longrightarrow> via_api f h s = (RFail e, s)"
  by (simp add: via_api_def)

lemma limited_jobs:
  assumes "limited now q l (\<lambda>s. (g s, s)) a = (r, a')"
  shows "as_builds a' = as_builds a \<and> as_results a' = as_results a"
  using assms by (auto simp: limited_def split: prod.splits option.splits)

lemmas limited_endpoints = api_get_package_def api_get_wheel_def api_get_layers_def api_search_packages_def
  api_get_catalog_def Let_def

lemmas guarded_endpoints = api_create_build_def api_cancel_build_def api_submit_execution_def api_cancel_execution_def
  with_user_def

lemma refused_request:
  assumes "identified env c = Inl e"
  shows "jobs (snd (run_endpoint env c ep ps s)) = jobs s \<and> \<not> took_job (fst (run_endpoint env c ep ps s))"
proof -
  have auth: "authenticate (ae_jwt (ap_api env)) (ae_debug (ap_api env)) (ae_secret (ap_api env)) (ac_now c) (ac_credentials c) = Inl e"
    using assms by (simp add: identified_def)
  have read: "jobs (snd (via_api f (limited now q l (\<lambda>s. (g s, s))) s)) = jobs s \<and>
      \<not> took_job (fst (via_api f (limited now q l (\<lambda>s. (g s, s))) s))" if "\<And>x. \<not> took_job (f x)"
    for f :: "'x \<Rightarrow> reply" and now q l g
    by (rule via_api_jobs) (use that in \<open>auto dest: limited_jobs\<close>)
  show ?thesis
    by (cases ep) (auto simp: read reading_def limited_endpoints guarded_endpoints auth with_body_def
        via_api_refused split: option.splits sum.splits)
qed


section \<open>Several limits on one window\<close>

lemma length_filter_mono: "(\<And>x. P x \<Longrightarrow> Q x) \<Longrightarrow> length (filter P xs) \<le> length (filter Q xs)"
  by (induction xs) (auto simp: le_Suc_eq)

text \<open>A run of checks by several clients under limits that share the window, with the answer to each; then
  the times and limits of what was granted to one client.\<close>

type_synonym check = "real \<times> string \<times> rate_limit"

fun mixed_trace :: "check list \<Rightarrow> windows \<Rightarrow> (check \<times> bool) list" where
  "mixed_trace [] ws = []"
| "mixed_trace ((now, key, limit) # es) ws = (case rl_check now key limit ws of
     (ok, ws') \<Rightarrow> ((now, key, limit), ok) # mixed_trace es ws')"

definition mixed_granted :: "string \<Rightarrow> (check \<times> bool) list \<Rightarrow> (real \<times> rate_limit) list" where
  "mixed_granted k tr = map (\<lambda>((t, k', l), ok). (t, l)) (filter (\<lambda>((t, k', l), ok). k' = k \<and> ok) tr)"

definition mixed_within :: "(real \<times> rate_limit) list \<Rightarrow> bool" where
  "mixed_within ps \<longleftrightarrow>
     (\<forall>p x l q. ps = p @ (x, l) # q \<longrightarrow> int (length (recent x l (map fst p @ [x]))) \<le> rl_requests l)"

lemma mixed_within_snoc:
  assumes "mixed_within ps" and "int (length (recent x l (map fst ps @ [x]))) \<le> rl_requests l"
  shows "mixed_within (ps @ [(x, l)])"
  unfolding mixed_within_def
proof (intro allI impI)
  fix p y l' q
  assume split: "ps @ [(x, l)] = p @ (y, l') # q"
  show "int (length (recent y l' (map fst p @ [y]))) \<le> rl_requests l'"
  proof (cases q rule: rev_cases)
    case Nil
    with split assms(2) show ?thesis by simp
  next
    case (snoc q' z)
    with split have "ps = p @ (y, l') # q'" by simp
    with assms(1) show ?thesis unfolding mixed_within_def by blast
  qed
qed

lemma recent_same_window: "rl_window_seconds l = rl_window_seconds l' \<Longrightarrow> recent now l ts = recent now l' ts"
  by (simp add: recent_def)

lemma mixed_trace_within:
  assumes "sorted (map fst es)" and "\<forall>e\<in>set es. c \<le> fst e"
    and "\<forall>e\<in>set es. rl_window_seconds (snd (snd e)) = rl_window_seconds w" and "0 < rl_window_seconds w"
    and "windows_agree w c (map fst past) (window_of ws k)" and "mixed_within past"
  shows "mixed_within (past @ mixed_granted k (mixed_trace es ws))"
  using assms
proof (induction es arbitrary: c past ws)
  case Nil
  then show ?case by (simp add: mixed_granted_def)
next
  case (Cons e es)
  obtain now key limit where e: "e = (now, key, limit)" by (cases e)
  obtain ok ws' where chk: "rl_check now key limit ws = (ok, ws')" by (metis surj_pair)
  let ?past = "past @ (if key = k \<and> ok then [(now, limit)] else [])"
  have now: "c \<le> now" and win: "rl_window_seconds limit = rl_window_seconds w" using Cons.prems(2,3) e by auto
  note lim = recent_same_window [OF win]
  have agree: "windows_agree w now (map fst ?past) (window_of ws' k)"
    using Cons.prems(5) now window_after_check [of now key limit ws k] chk
    by (auto simp: windows_agree_def recent_append recent_recent lim)
  have "mixed_within ?past"
  proof (cases "key = k \<and> ok")
    case True
    then have "int (length (recent now limit (map fst past))) < rl_requests limit"
      using chk Cons.prems(5) now by (auto simp: rl_check_def Let_def windows_agree_def lim split: if_splits)
    then have "int (length (recent now limit (map fst past @ [now]))) \<le> rl_requests limit" by (simp add: recent_def)
    with True Cons.prems(6) show ?thesis by (simp add: mixed_within_snoc)
  next
    case False
    with Cons.prems(6) show ?thesis by auto
  qed
  moreover have "sorted (map fst es)" "\<forall>e\<in>set es. now \<le> fst e" "\<forall>e\<in>set es. rl_window_seconds (snd (snd e)) = rl_window_seconds w"
    using Cons.prems(1,3) e by auto
  ultimately have "mixed_within (?past @ mixed_granted k (mixed_trace es ws'))"
    using Cons.IH [of now ?past ws'] Cons.prems(4) agree by blast
  moreover have "past @ mixed_granted k (mixed_trace (e # es) ws) = ?past @ mixed_granted k (mixed_trace es ws')"
    by (simp add: e chk mixed_granted_def)
  ultimately show ?case by simp
qed

lemma mixed_window:
  fixes t :: real
  assumes "mixed_within ps" and "0 \<le> rl_requests l" and "sorted (map fst ps)"
  shows "int (length (filter (\<lambda>p. snd p = l \<and> t - real_of_int (rl_window_seconds l) < fst p \<and> fst p \<le> t) ps)) \<le> rl_requests l"
  using assms
proof (induction ps rule: rev_induct)
  case Nil
  then show ?case by simp
next
  case (snoc y ps)
  obtain x l' where y: "y = (x, l')" by (cases y)
  let ?P = "\<lambda>p. snd p = l \<and> t - real_of_int (rl_window_seconds l) < fst p \<and> fst p \<le> t"
  have "mixed_within ps" using snoc.prems(1) unfolding mixed_within_def by (metis append.assoc append_Cons)
  then have ih: "int (length (filter ?P ps)) \<le> rl_requests l" using snoc by (simp add: sorted_append)
  show ?case
  proof (cases "?P y")
    case False
    with ih show ?thesis by auto
  next
    case True
    have "length (filter ?P (ps @ [y])) \<le> length (filter (\<lambda>p. x - real_of_int (rl_window_seconds l) < fst p) (ps @ [y]))"
      by (rule length_filter_mono) (use True y in auto)
    also have "\<dots> = length (recent x l' (map fst ps @ [x]))"
      using True y by (simp add: recent_def filter_map comp_def)
    finally show ?thesis using snoc.prems(1) True y unfolding mixed_within_def by fastforce
  qed
qed

lemma mixed_granted_Cons:
  "mixed_granted k (mixed_trace ((now, key, l) # es) ws) =
     (if key = k \<and> fst (rl_check now key l ws) then [(now, l)] else []) @
     mixed_granted k (mixed_trace es (snd (rl_check now key l ws)))"
  by (cases "rl_check now key l ws") (simp add: mixed_granted_def)

lemma mixed_granted_times: "p \<in> set (mixed_granted k (mixed_trace es ws)) \<Longrightarrow> fst p \<in> fst ` set es"
proof (induction es arbitrary: ws)
  case Nil
  then show ?case by (simp add: mixed_granted_def)
next
  case (Cons e es)
  then show ?case by (cases e) (auto simp: mixed_granted_Cons simp del: mixed_trace.simps split: if_splits)
qed

lemma mixed_granted_sorted: "sorted (map fst es) \<Longrightarrow> sorted (map fst (mixed_granted k (mixed_trace es ws)))"
proof (induction es arbitrary: ws)
  case Nil
  then show ?case by (simp add: mixed_granted_def)
next
  case (Cons e es)
  obtain now key l where e: "e = (now, key, l)" by (cases e)
  have "now \<le> fst p" if "p \<in> set (mixed_granted k (mixed_trace es ws'))" for p ws'
    using mixed_granted_times [OF that] Cons.prems e by auto
  with Cons show ?case by (auto simp: e mixed_granted_Cons simp del: mixed_trace.simps)
qed

lemma mixed_limits_hold:
  fixes t :: real
  assumes "sorted (map fst es)" and "\<forall>e\<in>set es. rl_window_seconds (snd (snd e)) = rl_window_seconds l"
    and "0 < rl_window_seconds l" and "0 \<le> rl_requests l"
  shows "int (length (filter (\<lambda>p. snd p = l \<and> t - real_of_int (rl_window_seconds l) < fst p \<and> fst p \<le> t)
    (mixed_granted k (mixed_trace es [])))) \<le> rl_requests l"
proof -
  define c where "c = (case es of [] \<Rightarrow> 0 | e # _ \<Rightarrow> fst e)"
  have "\<forall>e\<in>set es. c \<le> fst e" using assms(1) by (cases es) (auto simp: c_def)
  then have "mixed_within ([] @ mixed_granted k (mixed_trace es []))"
    using assms by (intro mixed_trace_within [of es c l]) (auto simp: windows_agree_def window_of_def mixed_within_def)
  with assms(4) mixed_granted_sorted [OF assms(1)] show ?thesis by (intro mixed_window) auto
qed

section \<open>The limits at the interface\<close>

text \<open>The limit an endpoint checks a request under, if it comes to that\<close>

fun endpoint_limit :: "'o app_env \<Rightarrow> api_call \<Rightarrow> endpoint \<Rightarrow> rate_limit option" where
  "endpoint_limit env c EP_package = Some DEFAULT_LIMIT"
| "endpoint_limit env c EP_wheel = Some DEFAULT_LIMIT"
| "endpoint_limit env c EP_layers = Some DEFAULT_LIMIT"
| "endpoint_limit env c EP_catalog = Some DEFAULT_LIMIT"
| "endpoint_limit env c EP_search = (case query_int env c ''limit'' 50 of
     Some n \<Rightarrow> if n \<le> 100 then Some DEFAULT_LIMIT else None | None \<Rightarrow> None)"
| "endpoint_limit env c EP_create_build =
     (if ap_build env (ac_body c) \<noteq> None \<and> (\<exists>u. identified env c = Inr u) then Some BUILD_LIMIT else None)"
| "endpoint_limit env c EP_submit_execution =
     (if ap_exec env (ac_body c) \<noteq> None \<and> (\<exists>u. identified env c = Inr u) then Some EXEC_LIMIT else None)"
| "endpoint_limit env c ep = None"

fun is_created :: "reply \<Rightarrow> bool" where "is_created (RCreated b) = True" | "is_created r = False"
fun is_executed :: "reply \<Rightarrow> bool" where "is_executed (RExecuted x) = True" | "is_executed r = False"

lemma limited_windows:
  assumes "\<And>x. as_windows (snd (body (a\<lparr>as_windows := x\<rparr>))) = x"
  shows "as_windows (snd (limited now q l body a)) = snd (rl_check now (client_key q) l (as_windows a))"
  using assms by (auto simp: limited_def check_rate_limit_def Let_def split: prod.splits option.splits bool.splits)

lemma via_api_windows: "as_windows (app_api (snd (via_api f h s))) = as_windows (snd (h (app_api s)))"
  by (auto simp: via_api_def split: prod.split sum.split)

lemma endpoint_windows:
  "as_windows (app_api (snd (run_endpoint env c ep ps s))) = (case endpoint_limit env c ep of
     None \<Rightarrow> as_windows (app_api s)
   | Some l \<Rightarrow> snd (rl_check (ac_now c) (client_key (ac_request c)) l (as_windows (app_api s))))"
  by (cases ep) (auto simp: via_api_windows limited_endpoints guarded_endpoints limited_windows with_body_def identified_def
      split: option.splits sum.splits prod.splits bool.splits)

lemma limits_differ: "BUILD_LIMIT \<noteq> DEFAULT_LIMIT" "EXEC_LIMIT \<noteq> DEFAULT_LIMIT" "BUILD_LIMIT \<noteq> EXEC_LIMIT"
  by (simp_all add: BUILD_LIMIT_def DEFAULT_LIMIT_def EXEC_LIMIT_def)

lemma limited_reply:
  assumes "\<And>x. \<exists>y a'. body (a\<lparr>as_windows := x\<rparr>) = (Inr y, a')"
  shows "(\<exists>y. fst (limited now q l body a) = Inr y) \<longleftrightarrow> fst (rl_check now (client_key q) l (as_windows a))"
proof -
  obtain ok ws where chk: "rl_check now (client_key q) l (as_windows a) = (ok, ws)" by (metis surj_pair)
  show ?thesis using assms [of ws] by (cases ok) (auto simp: limited_def check_rate_limit_def chk Let_def)
qed

lemma is_created_via: "is_created (fst (via_api RCreated h s)) \<longleftrightarrow> (\<exists>y. fst (h (app_api s)) = Inr y)"
  by (auto simp: via_api_def split: prod.split sum.split)

lemma is_executed_via: "is_executed (fst (via_api RExecuted h s)) \<longleftrightarrow> (\<exists>y. fst (h (app_api s)) = Inr y)"
  by (auto simp: via_api_def split: prod.split sum.split)

lemma never_created: "(\<And>x. \<not> is_created (f x)) \<Longrightarrow> \<not> is_created (fst (via_api f h s))"
  by (auto simp: via_api_def split: prod.split sum.split)

lemma never_executed: "(\<And>x. \<not> is_executed (f x)) \<Longrightarrow> \<not> is_executed (fst (via_api f h s))"
  by (auto simp: via_api_def split: prod.split sum.split)

lemma created_iff:
  "is_created (fst (run_endpoint env c ep ps s)) \<longleftrightarrow> endpoint_limit env c ep = Some BUILD_LIMIT \<and>
     fst (rl_check (ac_now c) (client_key (ac_request c)) BUILD_LIMIT (as_windows (app_api s)))"
proof (cases ep)
  case EP_create_build
  have "(\<exists>y. fst (limited now q l (\<lambda>s. case submit_build b (as_builds s) of (r, bs) \<Rightarrow> (Inr r, s\<lparr>as_builds := bs\<rparr>)) a) = Inr y)
      \<longleftrightarrow> fst (rl_check now (client_key q) l (as_windows a))" for now q l b a
    by (rule limited_reply) (auto simp: submit_build_def Let_def)
  then show ?thesis
    using EP_create_build
    by (auto simp: with_body_def is_created_via api_create_build_def with_user_def identified_def split: option.splits sum.splits)
qed (auto simp: never_created reading_def with_body_def limits_differ limits_differ [symmetric] split: option.splits sum.splits)

lemma executed_iff:
  fixes env :: "'o app_env"
  shows "is_executed (fst (run_endpoint env c ep ps s)) \<longleftrightarrow> endpoint_limit env c ep = Some EXEC_LIMIT \<and>
     fst (rl_check (ac_now c) (client_key (ac_request c)) EXEC_LIMIT (as_windows (app_api s)))"
proof (cases ep)
  case EP_submit_execution
  have "(\<exists>y. fst (limited now q l (\<lambda>s. case execute rt t u b (as_results s) of (r, rs) \<Rightarrow> (Inr r, s\<lparr>as_results := rs\<rparr>)) a) = Inr y)
      \<longleftrightarrow> fst (rl_check now (client_key q) l (as_windows a))" for now q l b a t u and rt :: "'o py_runtime"
    by (rule limited_reply) (auto split: prod.split)
  then show ?thesis
    using EP_submit_execution
    by (auto simp: with_body_def is_executed_via api_submit_execution_def with_user_def identified_def split: option.splits sum.splits)
qed (auto simp: never_executed reading_def with_body_def limits_differ limits_differ [symmetric] split: option.splits sum.splits)

text \<open>What a run of requests is answered, and the checks it amounts to\<close>

fun replies :: "'o app_env \<Rightarrow> api_call list \<Rightarrow> app_state \<Rightarrow> (api_call \<times> reply) list" where
  "replies env [] s = []"
| "replies env (c # cs) s = (case answer_call env c s of (r, s') \<Rightarrow> (c, r) # replies env cs s')"

definition accepted :: "string \<Rightarrow> (reply \<Rightarrow> bool) \<Rightarrow> (api_call \<times> reply) list \<Rightarrow> real list" where
  "accepted k P tr = map (\<lambda>(c, r). ac_now c) (filter (\<lambda>(c, r). client_key (ac_request c) = k \<and> P r) tr)"

definition call_check :: "'o app_env \<Rightarrow> api_call \<Rightarrow> check list" where
  "call_check env c = (case ap_router env route_table (ac_method c) (ac_path c) of
       NoRoute n \<Rightarrow> []
     | Serve ep ps \<Rightarrow> (case endpoint_limit env c ep of
           None \<Rightarrow> [] | Some l \<Rightarrow> [(ac_now c, client_key (ac_request c), l)]))"

definition call_checks :: "'o app_env \<Rightarrow> api_call list \<Rightarrow> check list" where
  "call_checks env cs = concat (map (call_check env) cs)"

lemma accepted_Cons:
  "accepted k P ((c, r) # tr) = (if client_key (ac_request c) = k \<and> P r then [ac_now c] else []) @ accepted k P tr"
  by (simp add: accepted_def)

lemma granted_under_limit:
  assumes kind: "\<And>c ep ps s. P (fst (run_endpoint env c ep ps s)) \<longleftrightarrow> endpoint_limit env c ep = Some l \<and>
      fst (rl_check (ac_now c) (client_key (ac_request c)) l (as_windows (app_api s)))"
    and "\<And>n. \<not> P (RNoRoute n)"
  shows "accepted k P (replies env cs s) = map fst (filter (\<lambda>p. snd p = l)
    (mixed_granted k (mixed_trace (call_checks env cs) (as_windows (app_api s)))))"
proof (induction cs arbitrary: s)
  case Nil
  then show ?case by (simp add: accepted_def call_checks_def mixed_granted_def)
next
  case (Cons c cs)
  show ?case
  proof (cases "ap_router env route_table (ac_method c) (ac_path c)")
    case (NoRoute n)
    with Cons assms(2) show ?thesis
      by (simp add: answer_call_def accepted_Cons call_checks_def call_check_def)
  next
    case (Serve ep ps)
    obtain r s' where run: "run_endpoint env c ep ps s = (r, s')" by (metis surj_pair)
    have "as_windows (app_api s') = (case endpoint_limit env c ep of None \<Rightarrow> as_windows (app_api s)
        | Some l \<Rightarrow> snd (rl_check (ac_now c) (client_key (ac_request c)) l (as_windows (app_api s))))"
      using endpoint_windows [of env c ep ps s] run by simp
    moreover have "P r \<longleftrightarrow> endpoint_limit env c ep = Some l \<and>
        fst (rl_check (ac_now c) (client_key (ac_request c)) l (as_windows (app_api s)))"
      using kind [of c ep ps s] run by simp
    ultimately show ?thesis
      using Cons [of s'] by (cases "endpoint_limit env c ep")
        (auto simp: answer_call_def Serve run accepted_Cons call_checks_def call_check_def mixed_granted_Cons
          simp del: mixed_trace.simps(2))
  qed
qed

lemma endpoint_limit_minute: "endpoint_limit env c ep = Some l \<Longrightarrow> rl_window_seconds l = 60"
  by (cases ep) (auto simp: DEFAULT_LIMIT_def BUILD_LIMIT_def EXEC_LIMIT_def split: option.splits if_splits)

lemma call_checks_minute: "e \<in> set (call_checks env cs) \<Longrightarrow> rl_window_seconds (snd (snd e)) = 60"
  by (auto simp: call_checks_def call_check_def dest: endpoint_limit_minute [OF sym] split: routing.splits option.splits)

lemma call_checks_times: "e \<in> set (call_checks env cs) \<Longrightarrow> fst e \<in> ac_now ` set cs"
  by (auto simp: call_checks_def call_check_def split: routing.splits option.splits)

lemma call_checks_sorted: "sorted (map ac_now cs) \<Longrightarrow> sorted (map fst (call_checks env cs))"
proof (induction cs)
  case Nil
  then show ?case by (simp add: call_checks_def)
next
  case (Cons c cs)
  have later: "ac_now c \<le> fst e" if "e \<in> set (call_checks env cs)" for e
    using call_checks_times [OF that] Cons.prems by auto
  have "call_checks env (c # cs) = call_check env c @ call_checks env cs" by (simp add: call_checks_def)
  with Cons later show ?case
    by (auto simp: call_check_def sorted_append split: routing.split option.split)
qed

lemma accepted_in_window:
  fixes t :: real
  assumes "sorted (map ac_now cs)" and "as_windows (app_api s) = []"
    and kind: "\<And>c ep ps s. P (fst (run_endpoint env c ep ps s)) \<longleftrightarrow> endpoint_limit env c ep = Some l \<and>
      fst (rl_check (ac_now c) (client_key (ac_request c)) l (as_windows (app_api s)))"
    and "\<And>n. \<not> P (RNoRoute n)" and "rl_window_seconds l = 60" and "0 \<le> rl_requests l"
  shows "int (length (filter (\<lambda>x. t - 60 < x \<and> x \<le> t) (accepted k P (replies env cs s)))) \<le> rl_requests l"
  using mixed_limits_hold [OF call_checks_sorted [OF assms(1)], of env l t k] call_checks_minute [of _ env cs] assms(2,5,6)
  by (simp add: granted_under_limit [OF kind assms(4)] filter_map comp_def conj_commute)



section \<open>A server to try\<close>

definition demo_runtime :: "unit py_runtime" where
  "demo_runtime = \<lparr>rt_import = (\<lambda>m. Inl (OtherError ''ModuleNotFoundError'' [])), rt_getattr = (\<lambda>a u. Inr u),
     rt_callable = (\<lambda>u. False), rt_call = (\<lambda>u a k. Inr VNone), rt_value = (\<lambda>u. VNone), rt_format_exc = (\<lambda>e. [])\<rparr>"

definition demo_app :: "unit app_env" where
  "demo_app = \<lparr>ap_api = \<lparr>ae_jwt = demo_jwt, ae_debug = True, ae_secret = []\<rparr>, ap_runtime = demo_runtime,
     ap_registry = REGISTRY, ap_started = 0, ap_router = demo_router,
     ap_build = (\<lambda>v. Some (new_build_request ''b1'' 0 ''scipy'')), ap_exec = (\<lambda>v. None), ap_int = py_int\<rparr>"

definition demo_call :: "string option \<Rightarrow> string option \<Rightarrow> real \<Rightarrow> api_call" where
  "demo_call token forwarded now = \<lparr>ac_method = POST, ac_path = build_url, ac_query = [], ac_body = VNone,
     ac_credentials = token, ac_request = \<lparr>rq_forwarded = forwarded, rq_client_host = None\<rparr>, ac_now = now,
     ac_start = now, ac_end = now, ac_uuid1 = [], ac_hex = [], ac_uuid2 = []\<rparr>"

definition demo_state :: app_state where
  "demo_state = \<lparr>app_api = \<lparr>as_windows = [], as_builds = new_build_service, as_results = []\<rparr>,
     app_server = \<lparr>sv_hub = new_hub, sv_sessions = []\<rparr>\<rparr>"

lemma demo_routes_in_order: "routes_in_order demo_router"
  by (auto simp: routes_in_order_def demo_router_def split: option.splits)

lemma demo_call_route: "ap_router demo_app route_table (ac_method (demo_call t f now)) (ac_path (demo_call t f now)) = Serve EP_create_build []"
  by (simp add: demo_app_def demo_call_def first_route_served [OF demo_routes_in_order] fixed_routes)

lemma demo_identified: "\<exists>u. identified demo_app (demo_call (Some ''dev_phone'') f now) = Inr u"
  by (simp add: identified_def demo_app_def demo_call_def authenticate_def get_current_user_def require_auth_def Let_def)

lemma demo_created:
  "is_created (fst (answer_call demo_app (demo_call (Some ''dev_phone'') f now) s)) \<longleftrightarrow>
     fst (rl_check now (client_key \<lparr>rq_forwarded = f, rq_client_host = None\<rparr>) BUILD_LIMIT (as_windows (app_api s)))"
  using created_iff [of demo_app "demo_call (Some ''dev_phone'') f now" EP_create_build "[]" s] demo_identified [of f now]
  by (simp add: answer_call_def demo_call_route) (simp add: demo_app_def demo_call_def)




end
