(* ===== verification/HubTasks.thy ===== *)
theory HubTasks
  imports Hub
begin

text \<open>
  The connection hub (\<open>server/ws/hub.py\<close>) with its methods as coroutines that interleave. A method
  runs without interruption from one \<open>await\<close> to the next; it stands at a socket call or at the
  lock, and any other task may go on meanwhile. \<open>Hub\<close> has the methods run one after the other.
\<close>

section \<open>A method between two awaits\<close>

text \<open>Where a coroutine stands: \<open>connect\<close> at \<open>accept\<close>, at the lock, at the closing of the connection it replaces;
  \<open>send_to_device\<close> and the heartbeat at \<open>send_text\<close>; \<open>disconnect\<close> at the lock and at \<open>close\<close>.\<close>

datatype phase =
    Accepting real real pyval nat pyval | Registering pyval nat | Replacing pyval nat nat
  | Sending pyval nat pyval | Leaving pyval | Closing pyval nat

text \<open>The rest of the method around it: the devices left of a broadcast with the number reached, those
  left of a heartbeat round with the dead ones, the dead ones left.\<close>

datatype job =
    Alone | Broadcasting "exn + pyval" "pyval list" nat
  | Beating real int "pyval \<Rightarrow> pyval" "pyval list" "pyval list" | Cleaning "pyval list"

datatype hub_task = Waiting phase job | Ended "exn + nat"

definition send_phase :: "exn + pyval \<Rightarrow> pyval \<Rightarrow> hub \<Rightarrow> phase option" where
  "send_phase payload d h = (case dget (hb_conns h) d of
       None \<Rightarrow> None
     | Some ref \<Rightarrow> Some (case payload of Inl e \<Rightarrow> Leaving d | Inr j \<Rightarrow> Sending d ref j))"

fun broadcast_next :: "exn + pyval \<Rightarrow> pyval list \<Rightarrow> nat \<Rightarrow> hub \<Rightarrow> hub_task" where
  "broadcast_next payload [] sent h = Ended (Inr sent)"
| "broadcast_next payload (d # ds) sent h = (case send_phase payload d h of
       None \<Rightarrow> broadcast_next payload ds sent h
     | Some p \<Rightarrow> Waiting p (Broadcasting payload ds sent))"

fun clean_next :: "pyval list \<Rightarrow> hub_task" where
  "clean_next [] = Ended (Inr 0)"
| "clean_next (d # ds) = Waiting (Leaving d) (Cleaning ds)"

fun beat_next :: "real \<Rightarrow> int \<Rightarrow> (pyval \<Rightarrow> pyval) \<Rightarrow> pyval list \<Rightarrow> pyval list \<Rightarrow> hub \<Rightarrow> hub_task" where
  "beat_next now interval payload [] dead h = clean_next dead"
| "beat_next now interval payload (d # ds) dead h = (case dget (hb_conns h) d of
       None \<Rightarrow> beat_next now interval payload ds dead h
     | Some ref \<Rightarrow>
         (if of_int (interval * 3) < now - dc_last_heartbeat (hb_objs h ! ref)
          then beat_next now interval payload ds (dead @ [d]) h
          else Waiting (Sending d ref (payload d)) (Beating now interval payload ds dead)))"

text \<open>What a task does after a send, and after a disconnect\<close>

fun after_send :: "bool \<Rightarrow> pyval \<Rightarrow> job \<Rightarrow> hub \<Rightarrow> hub_task" where
  "after_send ok d (Beating now interval payload ds dead) h =
     beat_next now interval payload ds (if ok then dead else dead @ [d]) h"
| "after_send ok d (Broadcasting payload ds sent) h =
     (if ok then broadcast_next payload ds (Suc sent) h else Waiting (Leaving d) (Broadcasting payload ds sent))"
| "after_send ok d job h = (if ok then Ended (Inr 1) else Waiting (Leaving d) job)"

fun after_leave :: "job \<Rightarrow> hub \<Rightarrow> hub_task" where
  "after_leave (Broadcasting payload ds sent) h = broadcast_next payload ds sent h"
| "after_leave (Cleaning ds) h = clean_next ds"
| "after_leave job h = Ended (Inr 0)"

text \<open>The call of a method, up to its first await. What a handler does to its object has no await.\<close>

fun begin_op :: "hub_event \<Rightarrow> hub \<Rightarrow> hub_task \<times> hub" where
  "begin_op (HConnect t1 t2 d w md) h = (Waiting (Accepting t1 t2 d w md) Alone, h)"
| "begin_op (HDisconnect d) h = (Waiting (Leaving d) Alone, h)"
| "begin_op (HSend payload d) h = ((case send_phase payload d h of
       None \<Rightarrow> Ended (Inr 0) | Some p \<Rightarrow> Waiting p Alone), h)"
| "begin_op (HBroadcast payload) h = (broadcast_next payload (dkeys (hb_conns h)) 0 h, h)"
| "begin_op (HHeartbeat now interval payload) h =
     (beat_next now interval payload (dkeys (hb_conns h)) [] h, h)"
| "begin_op (HAck now ref) h = (Ended (Inr 0), conn_heartbeat now ref h)"
| "begin_op (HMetadata md ref) h = (Ended (Inr 0), conn_set_metadata md ref h)"

section \<open>Tasks that interleave\<close>

text \<open>\<open>hr_lock\<close>: the task inside \<open>async with self._lock\<close>\<close>

record hub_run =
  hr_hub :: hub
  hr_lock :: "nat option"
  hr_tasks :: "(nat, hub_task) dict"

definition new_run :: hub_run where
  "new_run = \<lparr>hr_hub = new_hub, hr_lock = None, hr_tasks = []\<rparr>"

definition logged :: "sock_event \<Rightarrow> bool \<Rightarrow> hub \<Rightarrow> hub" where
  "logged ev ok h = h\<lparr>hb_log := hb_log h @ [(ev, ok)]\<rparr>"

definition enlist :: "pyval \<Rightarrow> nat \<Rightarrow> hub \<Rightarrow> hub" where
  "enlist d ref h = h\<lparr>hb_conns := dset d ref (hb_conns h)\<rparr>"

definition new_connection :: "real \<Rightarrow> real \<Rightarrow> pyval \<Rightarrow> nat \<Rightarrow> pyval \<Rightarrow> device_connection" where
  "new_connection t1 t2 d w md = \<lparr>dc_device_id = d, dc_socket = w, dc_connected_at = t1, dc_last_heartbeat = t2,
     dc_metadata = py_or md (VDict [])\<rparr>"

text \<open>From one await to the next, when the awaited call returns (\<open>ok\<close>) or raises. A task at the lock goes on
  only when the lock is free: otherwise there is no step.\<close>

fun advance :: "nat \<Rightarrow> bool \<Rightarrow> phase \<Rightarrow> job \<Rightarrow> hub \<Rightarrow> nat option \<Rightarrow> (hub_task \<times> hub \<times> nat option) option" where
  "advance t ok (Accepting t1 t2 d w md) k h l = Some
     (let h1 = logged (SAccept w) ok h in
      if ok then (Waiting (Registering d (length (hb_objs h))) k,
                  h1\<lparr>hb_objs := hb_objs h @ [new_connection t1 t2 d w md]\<rparr>, l)
      else (Ended (Inl accept_failed), h1, l))"
| "advance t ok (Registering d ref) k h l =
     (if l \<noteq> None then None
      else if \<not> hashable d then Some (Ended (Inl (TypeError ''unhashable type'')), h, l)
      else case dget (hb_conns h) d of
          None \<Rightarrow> Some (Ended (Inr ref), enlist d ref h, l)
        | Some old \<Rightarrow> Some (Waiting (Replacing d ref old) k, h, Some t))"
| "advance t ok (Replacing d ref old) k h l =
     Some (Ended (Inr ref), enlist d ref (logged (SClose (socket_of h old)) ok h), None)"
| "advance t ok (Sending d ref j) k h l =
     (let h1 = logged (SSend (socket_of h ref) j) ok h in Some (after_send ok d k h1, h1, l))"
| "advance t ok (Leaving d) k h l =
     (if l \<noteq> None then None
      else case dget (hb_conns h) d of
          None \<Rightarrow> Some (after_leave k h, h, l)
        | Some ref \<Rightarrow> Some (Waiting (Closing d ref) k, h\<lparr>hb_conns := ddel d (hb_conns h)\<rparr>, Some t))"
| "advance t ok (Closing d ref) k h l =
     (let h1 = logged (SClose (socket_of h ref)) ok h in Some (after_leave k h1, h1, None))"

datatype action = Begin nat hub_event | Resume nat bool

inductive task_step :: "hub_run \<Rightarrow> action \<Rightarrow> hub_run \<Rightarrow> bool" where
  call: "\<not> dhas (hr_tasks r) t \<Longrightarrow> begin_op ev (hr_hub r) = (x, h) \<Longrightarrow>
    task_step r (Begin t ev) (r\<lparr>hr_hub := h, hr_tasks := dset t x (hr_tasks r)\<rparr>)"
| resume: "dget (hr_tasks r) t = Some (Waiting p k) \<Longrightarrow> advance t ok p k (hr_hub r) (hr_lock r) = Some (x, h, l) \<Longrightarrow>
    task_step r (Resume t ok) \<lparr>hr_hub = h, hr_lock = l, hr_tasks = dset t x (hr_tasks r)\<rparr>"

inductive_cases call_cases: "task_step r (Begin t ev) r'"
inductive_cases resume_cases: "task_step r (Resume t ok) r'"

inductive interleaved :: "hub_run \<Rightarrow> bool" where
  idle: "interleaved new_run"
| more: "interleaved r \<Longrightarrow> task_step r a r' \<Longrightarrow> interleaved r'"

text \<open>What a task holds: the lock; a connection it is about to register, or has taken out to close\<close>

fun holds :: "hub_task \<Rightarrow> bool" where
  "holds (Waiting (Replacing d ref old) k) = True"
| "holds (Waiting (Closing d ref) k) = True"
| "holds x = False"

fun carries :: "hub_task \<Rightarrow> nat option" where
  "carries (Waiting (Registering d ref) k) = Some ref"
| "carries (Waiting (Replacing d ref old) k) = Some ref"
| "carries (Waiting (Closing d ref) k) = Some ref"
| "carries x = None"

definition plain :: "hub_task \<Rightarrow> bool" where
  "plain x \<longleftrightarrow> \<not> holds x \<and> carries x = None"

lemma plain_simps [simp]:
  "plain (Ended v)" "plain (Waiting (Accepting t1 t2 d w md) k)" "plain (Waiting (Sending d ref j) k)"
  "plain (Waiting (Leaving d) k)"
  by (simp_all add: plain_def)

lemma plain_clean [simp]: "plain (clean_next ds)"
  by (cases ds) simp_all

lemma plain_broadcast [simp]: "plain (broadcast_next payload ds sent h)"
  by (induction ds) (auto simp: send_phase_def split: option.split sum.split)

lemma plain_beat [simp]: "plain (beat_next now i payload ds dead h)"
  by (induction ds arbitrary: dead) (auto split: option.split)

lemma plain_after [simp]: "plain (after_send ok d k h)" "plain (after_leave k h)"
  by (cases k; simp)+

lemma plain_begin: "begin_op ev h = (x, h') \<Longrightarrow> plain x"
  by (cases ev) (auto simp: send_phase_def split: option.splits sum.splits)

section \<open>The books of the hub\<close>

text \<open>The sockets that were accepted, in order; the connections whose socket the hub has closed\<close>

fun accepted_sockets :: "sock_log \<Rightarrow> nat list" where
  "accepted_sockets [] = []"
| "accepted_sockets ((SAccept w, True) # es) = w # accepted_sockets es"
| "accepted_sockets (e # es) = accepted_sockets es"

lemma accepted_sockets_append [simp]: "accepted_sockets (es @ fs) = accepted_sockets es @ accepted_sockets fs"
  by (induction es rule: accepted_sockets.induct) simp_all

definition closed :: "hub \<Rightarrow> nat \<Rightarrow> bool" where
  "closed h ref \<longleftrightarrow> (\<exists>b. (SClose (socket_of h ref), b) \<in> set (hb_log h))"

definition owner :: "hub \<Rightarrow> nat \<Rightarrow> pyval" where
  "owner h ref = dc_device_id (hb_objs h ! ref)"

fun task_ok :: "hub \<Rightarrow> hub_task \<Rightarrow> bool" where
  "task_ok h (Waiting (Registering d ref) k) \<longleftrightarrow> ref < length (hb_objs h) \<and> owner h ref = d \<and>
     dget (hb_conns h) d \<noteq> Some ref \<and> \<not> closed h ref"
| "task_ok h (Waiting (Replacing d ref old) k) \<longleftrightarrow> ref < length (hb_objs h) \<and> owner h ref = d \<and>
     dget (hb_conns h) d = Some old \<and> old \<noteq> ref \<and> \<not> closed h ref"
| "task_ok h (Waiting (Closing d ref) k) \<longleftrightarrow> ref < length (hb_objs h) \<and> owner h ref = d \<and>
     dget (hb_conns h) d = None \<and> \<not> closed h ref"
| "task_ok h x \<longleftrightarrow> True"

definition carried :: "(nat \<Rightarrow> hub_task option) \<Rightarrow> nat \<Rightarrow> bool" where
  "carried T ref \<longleftrightarrow> (\<exists>t x. T t = Some x \<and> carries x = Some ref)"

lemma carried_split:
  "carried T ref \<longleftrightarrow> (case T t of None \<Rightarrow> False | Some y \<Rightarrow> carries y = Some ref) \<or> carried (T(t := None)) ref"
proof
  assume "carried T ref"
  then obtain t' x where "T t' = Some x" "carries x = Some ref" unfolding carried_def by blast
  then show "(case T t of None \<Rightarrow> False | Some y \<Rightarrow> carries y = Some ref) \<or> carried (T(t := None)) ref"
    by (cases "t' = t") (auto simp: carried_def intro: exI [of _ t'])
qed (auto simp: carried_def split: option.splits if_splits)

lemma carried_upd: "carried (T(t \<mapsto> x)) ref \<longleftrightarrow> carries x = Some ref \<or> carried (T(t := None)) ref"
  using carried_split [of "T(t \<mapsto> x)" ref t] by simp

definition accounted :: "hub \<Rightarrow> (nat \<Rightarrow> hub_task option) \<Rightarrow> nat \<Rightarrow> bool" where
  "accounted h T ref \<longleftrightarrow> carried T ref \<or>
     dget (hb_conns h) (owner h ref) = Some ref \<or> closed h ref"

definition sockets_ok :: "hub \<Rightarrow> bool" where
  "sockets_ok h \<longleftrightarrow> map dc_socket (hb_objs h) = accepted_sockets (hb_log h) \<and>
     distinct (accepted_sockets (hb_log h)) \<and>
     (\<forall>w b. (SClose w, b) \<in> set (hb_log h) \<longrightarrow> w \<in> set (accepted_sockets (hb_log h)))"

definition books :: "hub \<Rightarrow> nat option \<Rightarrow> (nat \<Rightarrow> hub_task option) \<Rightarrow> bool" where
  "books h l T \<longleftrightarrow> hub_ok h \<and> sockets_ok h \<and>
     (\<forall>t. l = Some t \<longleftrightarrow> (\<exists>x. T t = Some x \<and> holds x)) \<and>
     (\<forall>t x. T t = Some x \<longrightarrow> task_ok h x) \<and>
     (\<forall>t x t' x' ref. T t = Some x \<and> T t' = Some x' \<and> carries x = Some ref \<and> carries x' = Some ref \<longrightarrow> t = t') \<and>
     (\<forall>d ref. dget (hb_conns h) d = Some ref \<longrightarrow> \<not> closed h ref) \<and>
     (\<forall>ref<length (hb_objs h). hashable (owner h ref) \<longrightarrow> accounted h T ref)"

lemma booksI:
  assumes "hub_ok h" and "sockets_ok h" and "\<And>t. l = Some t \<longleftrightarrow> (\<exists>x. T t = Some x \<and> holds x)"
    and "\<And>t x. T t = Some x \<Longrightarrow> task_ok h x"
    and "\<And>t x t' x' ref. T t = Some x \<Longrightarrow> T t' = Some x' \<Longrightarrow> carries x = Some ref \<Longrightarrow> carries x' = Some ref \<Longrightarrow> t = t'"
    and "\<And>d ref. dget (hb_conns h) d = Some ref \<Longrightarrow> \<not> closed h ref"
    and "\<And>ref. ref < length (hb_objs h) \<Longrightarrow> hashable (owner h ref) \<Longrightarrow> accounted h T ref"
  shows "books h l T"
  using assms unfolding books_def by blast

lemma booksD:
  assumes "books h l T"
  shows "hub_ok h" "sockets_ok h" "l = Some t \<longleftrightarrow> (\<exists>x. T t = Some x \<and> holds x)"
    "T t = Some x \<Longrightarrow> task_ok h x"
    "T t = Some x \<Longrightarrow> T t' = Some x' \<Longrightarrow> carries x = Some ref \<Longrightarrow> carries x' = Some ref \<Longrightarrow> t = t'"
    "dget (hb_conns h) d = Some ref \<Longrightarrow> \<not> closed h ref"
    "ref < length (hb_objs h) \<Longrightarrow> hashable (owner h ref) \<Longrightarrow> accounted h T ref"
  using assms unfolding books_def by blast+

lemma hub_okD:
  "hub_ok h \<Longrightarrow> dget (hb_conns h) d = Some ref \<Longrightarrow> ref < length (hb_objs h) \<and> owner h ref = d"
  by (simp add: hub_ok_def owner_def)

text \<open>A task changes that carries nothing, before and after\<close>

lemma books_plain:
  assumes "books h l T" and "case T t of None \<Rightarrow> True | Some y \<Rightarrow> plain y" and "plain x"
  shows "books h l (T(t \<mapsto> x))"
proof (rule booksI)
  have no: "T t = Some y \<Longrightarrow> \<not> holds y \<and> carries y = None" for y
    using assms(2) by (simp add: plain_def)
  have x: "\<not> holds x" "carries x = None" using assms(3) by (simp_all add: plain_def)
  show "l = Some t' \<longleftrightarrow> (\<exists>y. (T(t \<mapsto> x)) t' = Some y \<and> holds y)" for t'
    using booksD(3) [OF assms(1), of t'] no x by (cases "t' = t") auto
  show "task_ok h y" if "(T(t \<mapsto> x)) t' = Some y" for t' y
  proof (cases "t' = t")
    case True
    with that x show ?thesis by (cases "(h, x)" rule: task_ok.cases) auto
  next
    case False
    with that booksD(4) [OF assms(1)] show ?thesis by simp
  qed
  show "a = b" if "(T(t \<mapsto> x)) a = Some y" "(T(t \<mapsto> x)) b = Some z" "carries y = Some ref" "carries z = Some ref"
    for a b y z ref
    using that x booksD(5) [OF assms(1), of a y b z ref] by (auto split: if_splits)
  show "accounted h (T(t \<mapsto> x)) ref" if "ref < length (hb_objs h)" "hashable (owner h ref)" for ref
    using booksD(7) [OF assms(1) that] no x carried_split [of T ref t]
    by (auto simp: accounted_def carried_upd split: option.splits)
qed (use booksD [OF assms(1)] in auto)

text \<open>The hub changes in nothing the books are about\<close>

lemma books_cong:
  assumes "books h l T" and "hub_ok h'" and "sockets_ok h'" and "hb_conns h' = hb_conns h"
    and "length (hb_objs h') = length (hb_objs h)"
    and "\<And>ref. ref < length (hb_objs h) \<Longrightarrow> owner h' ref = owner h ref \<and> closed h' ref = closed h ref"
  shows "books h' l T"
proof (rule booksI)
  show "task_ok h' x" if "T t = Some x" for t x
    using booksD(4) [OF assms(1) that] assms(4-6) by (cases "(h, x)" rule: task_ok.cases) auto
  show "\<not> closed h' ref" if "dget (hb_conns h') d = Some ref" for d ref
    using that booksD(6) [OF assms(1), of d ref] hub_okD [OF booksD(1) [OF assms(1)], of d ref] assms(4,6) by auto
  show "accounted h' T ref" if "ref < length (hb_objs h')" "hashable (owner h' ref)" for ref
    using that booksD(7) [OF assms(1), of ref] assms(4-6) by (auto simp: accounted_def)
qed (use booksD [OF assms(1)] assms(2,3) in auto)

lemma logged_simps [simp]:
  "hb_conns (logged ev ok h) = hb_conns h" "hb_objs (logged ev ok h) = hb_objs h"
  "hb_log (logged ev ok h) = hb_log h @ [(ev, ok)]" "owner (logged ev ok h) = owner h"
  "socket_of (logged ev ok h) = socket_of h" "hub_ok (logged ev ok h) = hub_ok h"
  by (simp_all add: logged_def owner_def socket_of_def fun_eq_iff hub_ok_def)

lemma closed_logged:
  "closed (logged ev ok h) ref \<longleftrightarrow> closed h ref \<or> ev = SClose (socket_of h ref)"
  by (auto simp: closed_def)

lemma books_logged:
  assumes "books h l T" and "accepted_sockets [(ev, ok)] = []" and "\<And>w. ev \<noteq> SClose w"
  shows "books (logged ev ok h) l T"
proof (rule books_cong [OF assms(1)])
  show "sockets_ok (logged ev ok h)"
    using booksD(2) [OF assms(1)] assms(2,3) by (auto simp: sockets_ok_def)
qed (use booksD(1) [OF assms(1)] assms(3) in \<open>simp_all add: closed_logged\<close>)

lemma books_update:
  assumes "books h l T" and "dc_device_id c = dc_device_id (hb_objs h ! r)" and "dc_socket c = dc_socket (hb_objs h ! r)"
  shows "books (h\<lparr>hb_objs := (hb_objs h)[r := c]\<rparr>) l T"
proof (rule books_cong [OF assms(1)])
  let ?h = "h\<lparr>hb_objs := (hb_objs h)[r := c]\<rparr>"
  show "hub_ok ?h" using hub_ok_update [OF booksD(1) [OF assms(1)] assms(2)] .
  have sock: "dc_socket ((hb_objs h)[r := c] ! ref) = dc_socket (hb_objs h ! ref)"
    if "ref < length (hb_objs h)" for ref using that assms(3) by (cases "r = ref") simp_all
  have dev: "dc_device_id ((hb_objs h)[r := c] ! ref) = dc_device_id (hb_objs h ! ref)"
    if "ref < length (hb_objs h)" for ref using that assms(2) by (cases "r = ref") simp_all
  have "map dc_socket ((hb_objs h)[r := c]) = map dc_socket (hb_objs h)"
    by (rule nth_equalityI) (simp_all add: sock)
  with booksD(2) [OF assms(1)] show "sockets_ok ?h" by (simp add: sockets_ok_def)
  show "owner ?h ref = owner h ref \<and> closed ?h ref = closed h ref" if "ref < length (hb_objs h)" for ref
    using that by (simp add: owner_def closed_def socket_of_def sock dev)
qed simp_all

text \<open>A connection is accepted\<close>

lemma socket_known: "sockets_ok h \<Longrightarrow> ref < length (hb_objs h) \<Longrightarrow> socket_of h ref \<in> set (accepted_sockets (hb_log h))"
  unfolding sockets_ok_def socket_of_def by (metis length_map nth_map nth_mem)

lemma socket_inj:
  "sockets_ok h \<Longrightarrow> ref < length (hb_objs h) \<Longrightarrow> ref' < length (hb_objs h) \<Longrightarrow>
   socket_of h ref = socket_of h ref' \<longleftrightarrow> ref = ref'"
  unfolding sockets_ok_def socket_of_def by (metis distinct_map inj_on_eq_iff length_map nth_map nth_eq_iff_index_eq)

lemma books_accept:
  assumes b: "books h l T" and no: "case T t of None \<Rightarrow> True | Some y \<Rightarrow> plain y" and w: "w \<notin> set (accepted_sockets (hb_log h))"
  shows "books ((logged (SAccept w) True h)\<lparr>hb_objs := hb_objs h @ [new_connection t1 t2 d w md]\<rparr>) l
    (T(t \<mapsto> Waiting (Registering d (length (hb_objs h))) k))"
    (is "books ?h l ?T")
proof (rule booksI)
  let ?n = "length (hb_objs h)"
  note D = booksD [OF b]
  have no': "T t = Some y \<Longrightarrow> \<not> holds y \<and> carries y = None" for y using no by (simp add: plain_def)
  have objs: "owner ?h ref = (if ref = ?n then d else owner h ref)" "socket_of ?h ref = (if ref = ?n then w else socket_of h ref)"
    if "ref \<le> ?n" for ref
    using that by (auto simp: owner_def socket_of_def nth_append new_connection_def)
  have old: "closed ?h ref = closed h ref" if "ref < ?n" for ref using that by (simp add: closed_def objs)
  have new: "\<not> closed ?h ?n" using D(2) w by (auto simp: closed_def objs sockets_ok_def)
  have lt: "ref < ?n" if "dget (hb_conns h) e = Some ref" for e ref using hub_okD [OF D(1) that] by simp
  show "hub_ok ?h" using D(1) by (auto simp: hub_ok_def nth_append less_Suc_eq)
  show "sockets_ok ?h" using D(2) w by (auto simp: sockets_ok_def new_connection_def)
  show "l = Some t' \<longleftrightarrow> (\<exists>y. ?T t' = Some y \<and> holds y)" for t' using D(3) [of t'] no' by (cases "t' = t") auto
  show "task_ok ?h y" if "?T t' = Some y" for t' y
  proof (cases "t' = t")
    case True
    with that new lt [of d ?n] show ?thesis by (auto simp: objs)
  next
    case False
    with that D(4) [of t' y] show ?thesis
      by (cases "(h, y)" rule: task_ok.cases) (auto simp: objs old)
  qed
  have fresh: "carries y \<noteq> Some ?n" if "T t' = Some y" for t' y
    using D(4) [OF that] by (cases "(h, y)" rule: task_ok.cases) auto
  show "a = b" if "?T a = Some y" "?T b = Some z" "carries y = Some ref" "carries z = Some ref" for a b y z ref
    using that fresh D(5) [of a y b z ref] by (auto split: if_splits)
  show "\<not> closed ?h ref" if "dget (hb_conns ?h) e = Some ref" for e ref
    using that lt [of e ref] D(6) [of e ref] by (simp add: old)
  show "accounted ?h ?T ref" if "ref < length (hb_objs ?h)" "hashable (owner ?h ref)" for ref
  proof (cases "ref = ?n")
    case True
    then show ?thesis by (simp add: accounted_def carried_upd)
  next
    case False
    with that have ref: "ref < ?n" "hashable (owner h ref)" by (auto simp: objs)
    from D(7) [OF this] show ?thesis
      using no' ref(1) carried_split [of T ref t]
      by (auto simp: accounted_def carried_upd old objs split: option.splits)
  qed
qed

text \<open>A connection is registered, at once or in place of another that was closed; one is taken out, and closed\<close>

lemma closed_cong:
  "socket_of h' ref = socket_of h ref \<Longrightarrow> hb_log h' = hb_log h \<Longrightarrow> closed h' ref = closed h ref"
  by (simp add: closed_def)

lemma enlist_simps [simp]:
  "hb_objs (enlist d ref h) = hb_objs h" "hb_log (enlist d ref h) = hb_log h" "owner (enlist d ref h) = owner h"
  "dget (hb_conns (enlist d ref h)) = (dget (hb_conns h))(d \<mapsto> ref)" "closed (enlist d ref h) = closed h"
  "sockets_ok (enlist d ref h) = sockets_ok h"
  by (simp_all add: enlist_def owner_def fun_eq_iff dget_dset closed_def socket_of_def sockets_ok_def)

lemma hub_ok_enlist: "hub_ok h \<Longrightarrow> ref < length (hb_objs h) \<Longrightarrow> owner h ref = d \<Longrightarrow> hub_ok (enlist d ref h)"
  by (auto simp: hub_ok_def enlist_def owner_def dict_simps split: if_splits)

lemma other_task:
  assumes "books h l T" and "l = None \<or> l = Some t" and "T t' = Some y" and "t' \<noteq> t"
  shows "\<not> holds y"
  using booksD(3) [OF assms(1), of t'] assms(2-4) by auto

lemma books_register:
  assumes b: "books h None T" and t: "T t = Some (Waiting (Registering d ref) k)" and new: "dget (hb_conns h) d = None"
  shows "books (enlist d ref h) None (T(t \<mapsto> Ended v))"
proof (rule booksI)
  note D = booksD [OF b]
  have ref: "ref < length (hb_objs h)" "owner h ref = d" "\<not> closed h ref" using D(4) [OF t] by auto
  show "hub_ok (enlist d ref h)" using hub_ok_enlist [OF D(1) ref(1,2)] .
  have other: "carries y \<noteq> Some ref" if "T t' = Some y" "t' \<noteq> t" for t' y
    using D(5) [OF that(1) t, of ref] that(2) by auto
  show "task_ok (enlist d ref h) y" if "(T(t \<mapsto> Ended v)) t' = Some y" for t' y
  proof (cases "t' = t")
    case False
    with that have y: "T t' = Some y" by simp
    from D(4) [OF y] other [OF y False] other_task [OF b _ y False] show ?thesis
      by (cases "(h, y)" rule: task_ok.cases) auto
  qed (use that in auto)
  show "None = Some t' \<longleftrightarrow> (\<exists>y. (T(t \<mapsto> Ended v)) t' = Some y \<and> holds y)" for t' using D(3) [of t'] by auto
  show "a = b'" if "(T(t \<mapsto> Ended v)) a = Some y" "(T(t \<mapsto> Ended v)) b' = Some z" "carries y = Some r" "carries z = Some r"
    for a b' y z r using that D(5) [of a y b' z r] by (auto split: if_splits)
  show "\<not> closed (enlist d ref h) r" if "dget (hb_conns (enlist d ref h)) e = Some r" for e r
    using that D(6) [of e r] ref(3) by (auto split: if_splits)
  show "accounted (enlist d ref h) (T(t \<mapsto> Ended v)) r"
    if "r < length (hb_objs (enlist d ref h))" "hashable (owner (enlist d ref h) r)" for r
  proof (cases "r = ref")
    case False
    from that have "accounted h T r" using D(7) [of r] by simp
    with False new t ref(2) carried_split [of T r t] show ?thesis
      by (auto simp: accounted_def carried_upd)
  qed (simp add: accounted_def ref(2))
qed (use booksD(2) [OF b] in simp)

lemma books_replace:
  assumes b: "books h (Some t) T" and t: "T t = Some (Waiting (Replacing d ref old) k)"
  shows "books (enlist d ref (logged (SClose (socket_of h old)) ok h)) None (T(t \<mapsto> Ended v))"
    (is "books ?h None ?T")
proof (rule booksI)
  note D = booksD [OF b]
  have ref: "ref < length (hb_objs h)" "owner h ref = d" "\<not> closed h ref" "dget (hb_conns h) d = Some old" "old \<noteq> ref"
    using D(4) [OF t] by auto
  have old: "old < length (hb_objs h)" "owner h old = d" using hub_okD [OF D(1) ref(4)] by auto
  note inj = socket_inj [OF D(2) old(1)]
  have cl: "closed ?h r \<longleftrightarrow> closed h r \<or> r = old" if "r < length (hb_objs h)" for r
    using inj [OF that] by (auto simp: closed_logged)
  show "hub_ok ?h" by (rule hub_ok_enlist) (simp_all add: D(1) ref)
  show "sockets_ok ?h" using D(2) socket_known [OF D(2) old(1)] by (auto simp: sockets_ok_def)
  have other: "carries y \<noteq> Some ref" if "T t' = Some y" "t' \<noteq> t" for t' y
    using D(5) [OF that(1) t, of ref] that(2) by auto
  have idle: "\<not> holds y" if "T t' = Some y" "t' \<noteq> t" for t' y
    using other_task [OF b _ that] by simp
  show "task_ok ?h y" if "?T t' = Some y" for t' y
  proof (cases "t' = t")
    case False
    with that have y: "T t' = Some y" by simp
    from D(4) [OF y] other [OF y False] idle [OF y False] ref(4) old(2) show ?thesis
      by (cases "(h, y)" rule: task_ok.cases) (auto simp: cl simp del: enlist_simps(5))
  qed (use that in auto)
  show "None = Some t' \<longleftrightarrow> (\<exists>y. ?T t' = Some y \<and> holds y)" for t' using idle [of t'] by auto
  show "a = b'" if "?T a = Some y" "?T b' = Some z" "carries y = Some r" "carries z = Some r"
    for a b' y z r using that D(5) [of a y b' z r] by (auto split: if_splits)
  show "\<not> closed ?h r" if c: "dget (hb_conns ?h) e = Some r" for e r
  proof (cases "e = d")
    case False
    with c have e: "dget (hb_conns h) e = Some r" by simp
    from hub_okD [OF D(1) e] D(6) [OF e] False old show ?thesis by (auto simp: cl simp del: enlist_simps(5))
  qed (use c ref cl [of ref] in auto)
  show "accounted ?h ?T r" if "r < length (hb_objs ?h)" "hashable (owner ?h r)" for r
  proof -
    from that have "accounted h T r" "r < length (hb_objs h)" using D(7) [of r] by auto
    with t ref old carried_split [of T r t] show ?thesis
      by (auto simp: accounted_def carried_upd cl simp del: enlist_simps(5))
  qed
qed

lemma books_lock:
  assumes b: "books h None T" and t: "T t = Some (Waiting (Registering d ref) k)" and old: "dget (hb_conns h) d = Some old"
  shows "books h (Some t) (T(t \<mapsto> Waiting (Replacing d ref old) k'))"
    (is "books h _ ?T")
proof (rule booksI)
  note D = booksD [OF b]
  have idle: "\<not> holds y" if "T t' = Some y" for t' y using D(3) [of t'] that by auto
  show "Some t = Some t' \<longleftrightarrow> (\<exists>y. ?T t' = Some y \<and> holds y)" for t' using idle [of t'] by auto
  show "task_ok h y" if "?T t' = Some y" for t' y
    using that D(4) [OF t] D(4) [of t' y] old by (cases "t' = t") auto
  show "a = b'" if "?T a = Some y" "?T b' = Some z" "carries y = Some r" "carries z = Some r" for a b' y z r
    using that D(5) [OF _ t, of _ _ r] D(5) [of a y b' z r] by (auto split: if_splits)
  show "accounted h ?T r" if "r < length (hb_objs h)" "hashable (owner h r)" for r
    using D(7) [OF that] t carried_split [of T r t] by (auto simp: accounted_def carried_upd)
qed (use booksD [OF b] in auto)

lemma books_take_out:
  assumes b: "books h None T" and t: "case T t of None \<Rightarrow> True | Some y \<Rightarrow> plain y" and ref: "dget (hb_conns h) d = Some ref"
  shows "books (h\<lparr>hb_conns := ddel d (hb_conns h)\<rparr>) (Some t) (T(t \<mapsto> Waiting (Closing d ref) k))"
    (is "books ?h _ ?T")
proof (rule booksI)
  note D = booksD [OF b]
  have no: "T t = Some y \<Longrightarrow> \<not> holds y \<and> carries y = None" for y using t by (simp add: plain_def)
  have ok: "ref < length (hb_objs h)" "owner h ref = d" "\<not> closed h ref"
    using hub_okD [OF D(1) ref] D(6) [OF ref] by auto
  have conns: "dget (ddel d (hb_conns h)) = (dget (hb_conns h))(d := None)" using D(1) by (auto simp: hub_ok_def dict_simps)
  have same: "owner ?h = owner h" "closed ?h = closed h" by (simp_all add: fun_eq_iff owner_def closed_def socket_of_def)
  show "hub_ok ?h" using D(1) by (auto simp: hub_ok_def conns dict_simps split: if_splits)
  show "sockets_ok ?h" using D(2) by (simp add: sockets_ok_def)
  have idle: "\<not> holds y" if "T t' = Some y" for t' y using D(3) [of t'] that by auto
  have other: "carries y \<noteq> Some ref" if "T t' = Some y" for t' y
    using D(4) [OF that] idle [OF that] ref ok(2) by (cases "(h, y)" rule: task_ok.cases) auto
  show "task_ok ?h y" if "?T t' = Some y" for t' y
  proof (cases "t' = t")
    case True
    with that have y: "y = Waiting (Closing d ref) k" by simp
    show ?thesis unfolding y by (simp add: same ok conns)
  next
    case False
    with that have y: "T t' = Some y" by simp
    from D(4) [OF y] idle [OF y] show ?thesis
      by (cases "(h, y)" rule: task_ok.cases) (auto simp: same conns)
  qed
  show "Some t = Some t' \<longleftrightarrow> (\<exists>y. ?T t' = Some y \<and> holds y)" for t' using idle [of t'] by auto
  show "a = b'" if "?T a = Some y" "?T b' = Some z" "carries y = Some r" "carries z = Some r" for a b' y z r
    using that D(5) [of a y b' z r] other by (auto split: if_splits)
  show "\<not> closed ?h r" if "dget (hb_conns ?h) e = Some r" for e r
    using that D(6) [of e r] by (auto simp: same conns split: if_splits)
  show "accounted ?h ?T r" if "r < length (hb_objs ?h)" "hashable (owner ?h r)" for r
  proof -
    from that have "accounted h T r" using D(7) [of r] by (simp add: same)
    with no ok ref carried_split [of T r t] show ?thesis
      by (auto simp: accounted_def carried_upd same conns split: option.splits)
  qed
qed

lemma books_close:
  assumes b: "books h (Some t) T" and t: "T t = Some (Waiting (Closing d ref) k)" and x: "plain x"
  shows "books (logged (SClose (socket_of h ref)) ok h) None (T(t \<mapsto> x))"
    (is "books ?h None ?T")
proof (rule booksI)
  note D = booksD [OF b]
  have x: "\<not> holds x" "carries x = None" using x by (simp_all add: plain_def)
  have ref: "ref < length (hb_objs h)" "owner h ref = d" "dget (hb_conns h) d = None" using D(4) [OF t] by auto
  have cl: "closed ?h r \<longleftrightarrow> closed h r \<or> r = ref" if "r < length (hb_objs h)" for r
    using socket_inj [OF D(2) ref(1) that] by (auto simp: closed_logged)
  show "hub_ok ?h" using D(1) by simp
  show "sockets_ok ?h" using D(2) socket_known [OF D(2) ref(1)] by (auto simp: sockets_ok_def)
  have other: "carries y \<noteq> Some ref" if "T t' = Some y" "t' \<noteq> t" for t' y
    using D(5) [OF that(1) t, of ref] that(2) by auto
  have idle: "\<not> holds y" if "T t' = Some y" "t' \<noteq> t" for t' y
    using other_task [OF b _ that] by simp
  show "task_ok ?h y" if "?T t' = Some y" for t' y
  proof (cases "t' = t")
    case True
    with that x show ?thesis by (cases "(h, y)" rule: task_ok.cases) auto
  next
    case False
    with that have y: "T t' = Some y" by simp
    from D(4) [OF y] other [OF y False] idle [OF y False] show ?thesis
      by (cases "(h, y)" rule: task_ok.cases) (auto simp: cl)
  qed
  show "None = Some t' \<longleftrightarrow> (\<exists>y. ?T t' = Some y \<and> holds y)" for t' using idle [of t'] x by auto
  show "a = b'" if "?T a = Some y" "?T b' = Some z" "carries y = Some r" "carries z = Some r"
    for a b' y z r using that x D(5) [of a y b' z r] by (auto split: if_splits)
  show "\<not> closed ?h r" if "dget (hb_conns ?h) e = Some r" for e r
  proof -
    from that have e: "dget (hb_conns h) e = Some r" by simp
    from hub_okD [OF D(1) e] D(6) [OF e] e ref show ?thesis by (auto simp: cl)
  qed
  show "accounted ?h ?T r" if "r < length (hb_objs ?h)" "hashable (owner ?h r)" for r
  proof -
    from that have "accounted h T r" "r < length (hb_objs h)" using D(7) [of r] by auto
    with t x carried_split [of T r t] show ?thesis
      by (auto simp: accounted_def carried_upd cl)
  qed
qed

text \<open>A device id that cannot be a key: the connection is dropped without an entry.\<close>

lemma books_unhashable:
  assumes b: "books h l T" and t: "T t = Some (Waiting (Registering d ref) k)" and "\<not> hashable d"
  shows "books h l (T(t \<mapsto> Ended v))"
proof (rule booksI)
  note D = booksD [OF b]
  show "l = Some t' \<longleftrightarrow> (\<exists>y. (T(t \<mapsto> Ended v)) t' = Some y \<and> holds y)" for t' using D(3) [of t'] t by (cases "t' = t") auto
  show "task_ok h y" if "(T(t \<mapsto> Ended v)) t' = Some y" for t' y
    using that D(4) [of t' y] by (auto split: if_splits)
  show "a = b'" if "(T(t \<mapsto> Ended v)) a = Some y" "(T(t \<mapsto> Ended v)) b' = Some z" "carries y = Some r" "carries z = Some r"
    for a b' y z r using that D(5) [of a y b' z r] by (auto split: if_splits)
  show "accounted h (T(t \<mapsto> Ended v)) r" if "r < length (hb_objs h)" "hashable (owner h r)" for r
    using D(7) [OF that] that(2) D(4) [OF t] t assms(3) carried_split [of T r t] by (auto simp: accounted_def carried_upd)
qed (use booksD [OF b] in auto)

section \<open>Every interleaving keeps the books\<close>

lemma advance_books:
  assumes b: "books h l T" and t: "T t = Some (Waiting p k)" and step: "advance t ok p k h l = Some (x, h', l')"
    and d: "distinct (accepted_sockets (hb_log h'))"
  shows "books h' l' (T(t \<mapsto> x))"
proof -
  have lock: "l = Some t" if "holds (Waiting p k)" using booksD(3) [OF b, of t] t that by blast
  show ?thesis
  proof (cases p)
    case (Accepting t1 t2 dev w md)
    show ?thesis
    proof (cases ok)
      case True
      with step Accepting have eq: "x = Waiting (Registering dev (length (hb_objs h))) k" "l' = l"
        "h' = (logged (SAccept w) True h)\<lparr>hb_objs := hb_objs h @ [new_connection t1 t2 dev w md]\<rparr>"
        by (auto simp: Let_def)
      show ?thesis
        unfolding eq by (rule books_accept [OF b]) (use t d Accepting in \<open>simp_all add: eq\<close>)
    next
      case False
      have "books (logged (SAccept w) False h) l T" by (rule books_logged [OF b]) simp_all
      from books_plain [OF this, of t x] False step t Accepting show ?thesis by (auto simp: Let_def)
    qed
  next
    case (Registering dev ref)
    with step have l: "l = None" by (auto split: if_splits)
    show ?thesis
      using step b t Registering by (auto simp: l split: if_splits option.splits
          intro: books_unhashable books_register books_lock)
  next
    case (Replacing dev ref old)
    with step lock t b show ?thesis by (auto intro: books_replace)
  next
    case (Sending dev ref j)
    have "books (logged (SSend (socket_of h ref) j) ok h) l T" by (rule books_logged [OF b]) simp_all
    from books_plain [OF this, of t x] step t Sending show ?thesis by (auto simp: Let_def)
  next
    case (Leaving dev)
    with step have l: "l = None" by (auto split: if_splits)
    show ?thesis
      using step b t Leaving by (auto simp: l split: option.splits intro!: books_plain books_take_out)
  next
    case (Closing dev ref)
    with step lock t b show ?thesis by (auto simp: Let_def intro: books_close)
  qed
qed

definition run_books :: "hub_run \<Rightarrow> bool" where
  "run_books r \<longleftrightarrow> books (hr_hub r) (hr_lock r) (dget (hr_tasks r))"

lemma begin_books:
  assumes b: "books h l T" and new: "T t = None" and step: "begin_op ev h = (x, h')"
  shows "books h' l (T(t \<mapsto> x))"
proof -
  have "books h' l T"
    using step b by (cases ev) (auto simp: conn_heartbeat_def conn_set_metadata_def intro!: books_update)
  from books_plain [OF this, of t x] new plain_begin [OF step] show ?thesis by simp
qed

lemma advance_log: "advance t ok p k h l = Some (x, h', l') \<Longrightarrow> \<exists>new. hb_log h' = hb_log h @ new"
  by (cases p) (auto simp: Let_def split: if_splits option.splits)

lemma begin_log: "begin_op ev h = (x, h') \<Longrightarrow> hb_log h' = hb_log h"
  by (cases ev) (auto simp: conn_heartbeat_def conn_set_metadata_def)

lemma step_books:
  assumes "task_step r a r'" and "run_books r" and "distinct (accepted_sockets (hb_log (hr_hub r')))"
  shows "run_books r'"
  using assms
proof cases
  case (call t ev x h)
  from call assms(2) show ?thesis
    by (auto simp: run_books_def dget_dset dhas_def intro: begin_books)
next
  case (resume t p k ok x h l)
  from resume assms(2,3) show ?thesis
    by (auto simp: run_books_def dget_dset intro: advance_books)
qed

lemma step_log: "task_step r a r' \<Longrightarrow> \<exists>new. hb_log (hr_hub r') = hb_log (hr_hub r) @ new"
  by (erule task_step.cases) (auto dest: begin_log advance_log)

lemma interleaved_books:
  "interleaved r \<Longrightarrow> distinct (accepted_sockets (hb_log (hr_hub r))) \<Longrightarrow> run_books r"
proof (induction rule: interleaved.induct)
  case idle
  show ?case
    by (auto simp: run_books_def new_run_def new_hub_def hub_ok_def sockets_ok_def intro!: booksI)
next
  case (more r a r')
  from step_log [OF more(2)] more.prems have "distinct (accepted_sockets (hb_log (hr_hub r)))" by auto
  from step_books [OF more(2) more.IH [OF this] more.prems] show ?case .
qed

section \<open>Where a connection is\<close>

text \<open>Waiting to be registered, registered, taken out to be closed, closed by the hub\<close>

datatype place = Entering | Listed | Withdrawn | Shut

fun enters :: "hub_task \<Rightarrow> nat option" where
  "enters (Waiting (Registering d ref) k) = Some ref"
| "enters (Waiting (Replacing d ref old) k) = Some ref"
| "enters x = None"

fun withdraws :: "hub_task \<Rightarrow> nat option" where
  "withdraws (Waiting (Closing d ref) k) = Some ref"
| "withdraws x = None"

lemma carries_iff: "carries x = Some ref \<longleftrightarrow> enters x = Some ref \<or> withdraws x = Some ref"
  by (cases x rule: carries.cases) auto

fun in_place :: "hub_run \<Rightarrow> nat \<Rightarrow> place \<Rightarrow> bool" where
  "in_place r ref Entering \<longleftrightarrow> (\<exists>t x. dget (hr_tasks r) t = Some x \<and> enters x = Some ref)"
| "in_place r ref Listed \<longleftrightarrow> dget (hb_conns (hr_hub r)) (owner (hr_hub r) ref) = Some ref"
| "in_place r ref Withdrawn \<longleftrightarrow> (\<exists>t x. dget (hr_tasks r) t = Some x \<and> withdraws x = Some ref)"
| "in_place r ref Shut \<longleftrightarrow> closed (hr_hub r) ref"

lemma enters_facts:
  assumes "task_ok h x" and "enters x = Some ref"
  shows "dget (hb_conns h) (owner h ref) \<noteq> Some ref" "\<not> closed h ref"
  using assms by (cases x rule: enters.cases; auto)+

lemma withdraws_facts:
  assumes "task_ok h x" and "withdraws x = Some ref"
  shows "dget (hb_conns h) (owner h ref) \<noteq> Some ref" "\<not> closed h ref"
  using assms by (cases x rule: withdraws.cases; auto)+

lemma enters_withdraws: "\<not> (enters x = Some ref \<and> withdraws x = Some ref')"
  by (cases x rule: enters.cases) auto

text \<open>C3: Whatever methods of the hub are called and however they interleave at their awaits, one task
  at most is inside the lock, a registered connection belongs to the device it is registered
  for, and no connection that was accepted is lost: it waits to be registered, is registered, is
  taken out to be closed or has been closed by the hub, and it is in one of these places only. (Each
  socket is accepted once, and the device id is one that a dict takes.)\<close>

theorem hub_accounts_for_connections:
  assumes "interleaved r" and "distinct (accepted_sockets (hb_log (hr_hub r)))"
  shows "(\<forall>t x t' x'. dget (hr_tasks r) t = Some x \<and> dget (hr_tasks r) t' = Some x' \<and> holds x \<and> holds x' \<longrightarrow> t = t') \<and>
    (\<forall>d ref. dget (hb_conns (hr_hub r)) d = Some ref \<longrightarrow> owner (hr_hub r) ref = d) \<and>
    map dc_socket (hb_objs (hr_hub r)) = accepted_sockets (hb_log (hr_hub r)) \<and>
    (\<forall>ref<length (hb_objs (hr_hub r)). hashable (owner (hr_hub r) ref) \<longrightarrow> (\<exists>!p. in_place r ref p))"
proof (intro conjI allI impI)
  have "run_books r" by (rule interleaved_books [OF assms])
  note D = booksD [OF this [unfolded run_books_def]]
  show "t = t'" if "dget (hr_tasks r) t = Some x \<and> dget (hr_tasks r) t' = Some x' \<and> holds x \<and> holds x'" for t x t' x'
    using that D(3) [of t] D(3) [of t'] by auto
  show "owner (hr_hub r) ref = d" if "dget (hb_conns (hr_hub r)) d = Some ref" for d ref
    using hub_okD [OF D(1) that] by simp
  show "map dc_socket (hb_objs (hr_hub r)) = accepted_sockets (hb_log (hr_hub r))"
    using D(2) by (simp add: sockets_ok_def)
  fix ref
  assume ref: "ref < length (hb_objs (hr_hub r))" "hashable (owner (hr_hub r) ref)"
  have enter: "\<not> in_place r ref Listed \<and> \<not> in_place r ref Withdrawn \<and> \<not> in_place r ref Shut" if "in_place r ref Entering"
  proof -
    from that obtain t x where t: "dget (hr_tasks r) t = Some x" "enters x = Some ref" by auto
    have "\<not> in_place r ref Withdrawn"
      using D(5) [OF t(1), of _ _ ref] t enters_withdraws by (fastforce simp: carries_iff)
    with enters_facts [OF D(4) [OF t(1)] t(2)] show ?thesis by simp
  qed
  have withdraw: "\<not> in_place r ref Listed \<and> \<not> in_place r ref Shut" if w: "in_place r ref Withdrawn"
  proof -
    from w obtain t x where t: "dget (hr_tasks r) t = Some x" "withdraws x = Some ref" by auto
    from withdraws_facts [OF D(4) [OF t(1)] t(2)] show ?thesis by simp
  qed
  have listed: "\<not> in_place r ref Shut" if "in_place r ref Listed" using D(6) that by simp
  have "accounted (hr_hub r) (dget (hr_tasks r)) ref" by (rule D(7) [OF ref])
  then have "\<exists>p. in_place r ref p"
    unfolding accounted_def carried_def carries_iff by (metis in_place.simps)
  moreover have "p = q" if "in_place r ref p" "in_place r ref q" for p q
    using that enter withdraw listed by (cases p; cases q) blast+
  ultimately show "\<exists>!p. in_place r ref p" by blast
qed

section \<open>Every method ends\<close>

text \<open>The awaits a task has before it, at most\<close>

fun phase_work :: "phase \<Rightarrow> nat" where
  "phase_work (Accepting t1 t2 d w md) = 3"
| "phase_work (Registering d ref) = 2"
| "phase_work (Replacing d ref old) = 1"
| "phase_work (Sending d ref j) = 3"
| "phase_work (Leaving d) = 2"
| "phase_work (Closing d ref) = 1"

fun job_work :: "job \<Rightarrow> nat" where
  "job_work Alone = 0"
| "job_work (Broadcasting payload ds sent) = 3 * length ds"
| "job_work (Beating now interval payload ds dead) = 3 * length ds + 2 * length dead"
| "job_work (Cleaning ds) = 2 * length ds"

fun task_work :: "hub_task \<Rightarrow> nat" where
  "task_work (Ended v) = 0"
| "task_work (Waiting p k) = phase_work p + job_work k"

definition pending_work :: "hub_run \<Rightarrow> nat" where
  "pending_work r = sum_list (map (\<lambda>(t, x). task_work x) (hr_tasks r))"

lemma clean_work: "task_work (clean_next ds) = 2 * length ds"
  by (cases ds) simp_all

lemma broadcast_work: "task_work (broadcast_next payload ds sent h) \<le> 3 * length ds"
  by (induction ds) (auto simp: send_phase_def split: option.split sum.split)

lemma beat_work: "task_work (beat_next now i payload ds dead h) \<le> 3 * length ds + 2 * length dead"
proof (induction ds arbitrary: dead)
  case Nil
  then show ?case by (simp add: clean_work)
next
  case (Cons d ds)
  from Cons [of dead] Cons [of "dead @ [d]"] show ?case by (auto split: option.split)
qed

lemma after_send_work: "task_work (after_send ok d k h) < 3 + job_work k"
proof (cases k)
  case (Broadcasting payload ds sent)
  with broadcast_work [of payload ds "Suc sent" h] show ?thesis by simp
next
  case (Beating now i payload ds dead)
  with beat_work [of now i payload ds "if ok then dead else dead @ [d]" h] show ?thesis by auto
qed simp_all

lemma after_leave_work: "task_work (after_leave k h) \<le> job_work k"
  using broadcast_work by (cases k) (simp_all add: clean_work)

lemma advance_work: "advance t ok p k h l = Some (x, h', l') \<Longrightarrow> task_work x < phase_work p + job_work k"
  using after_send_work le_imp_less_Suc [OF after_leave_work] less_SucI [OF le_imp_less_Suc [OF after_leave_work]]
  by (cases p) (auto simp: Let_def split: if_splits option.splits)

lemma sum_dset:
  "dget d k = Some y \<Longrightarrow> sum_list (map (\<lambda>(k, v). f v) (dset k v d)) + f y = sum_list (map (\<lambda>(k, v). f v) d) + (f v :: nat)"
  by (induction d) (auto split: if_splits)

lemma resume_work: "task_step r (Resume t ok) r' \<Longrightarrow> pending_work r' < pending_work r"
proof (erule resume_cases)
  fix p k x h l
  assume t: "dget (hr_tasks r) t = Some (Waiting p k)" and r': "r' = \<lparr>hr_hub = h, hr_lock = l, hr_tasks = dset t x (hr_tasks r)\<rparr>"
    and a: "advance t ok p k (hr_hub r) (hr_lock r) = Some (x, h, l)"
  from sum_dset [OF t, of task_work x] advance_work [OF a] show "pending_work r' < pending_work r"
    by (simp add: pending_work_def r')
qed

text \<open>Who has the lock is a task that stands at a socket, so it can go on.\<close>

definition lock_ok :: "hub_run \<Rightarrow> bool" where
  "lock_ok r \<longleftrightarrow> (\<forall>t. hr_lock r = Some t \<longrightarrow> (\<exists>x. dget (hr_tasks r) t = Some x \<and> holds x))"

lemma advance_lock:
  "advance t ok p k h l = Some (x, h', l') \<Longrightarrow> l' = None \<or> l' = Some t \<and> holds x \<or> l' = l \<and> \<not> holds (Waiting p k)"
  by (cases p) (auto simp: Let_def split: if_splits option.splits)

lemma interleaved_lock: "interleaved r \<Longrightarrow> lock_ok r"
proof (induction rule: interleaved.induct)
  case idle
  show ?case by (simp add: lock_ok_def new_run_def)
next
  case (more r a r')
  from more(2) show ?case
  proof cases
    case (call t ev x h)
    with more.IH show ?thesis by (auto simp: lock_ok_def dget_dset dhas_def)
  next
    case (resume t p k ok x h l)
    with advance_lock [OF resume(4)] more.IH show ?thesis by (fastforce simp: lock_ok_def dget_dset)
  qed
qed

lemma advances:
  assumes "l = None \<or> holds (Waiting p k)"
  shows "\<exists>x h' l'. advance t ok p k h l = Some (x, h', l')"
  using assms by (cases p) (auto simp: Let_def split: option.split)

inductive resumed :: "hub_run \<Rightarrow> nat \<Rightarrow> hub_run \<Rightarrow> bool" where
  none: "resumed r 0 r"
| one: "resumed r n r1 \<Longrightarrow> task_step r1 (Resume t ok) r2 \<Longrightarrow> resumed r (Suc n) r2"

lemma resumed_work: "resumed r n r' \<Longrightarrow> n + pending_work r' \<le> pending_work r"
proof (induction rule: resumed.induct)
  case none
  show ?case by simp
next
  case (one r n r1 t ok r2)
  from resume_work [OF one(2)] one.IH show ?case by simp
qed

lemma resumed_interleaved: "resumed r n r' \<Longrightarrow> interleaved r \<Longrightarrow> interleaved r'"
  by (induction rule: resumed.induct) (auto intro: interleaved.more)

text \<open>C5: No method of the hub waits forever, as long as the sockets answer: the tasks that have begun
  are resumed at most as often as they have awaits before them, in whatever order and whatever the
  sockets answer; and while any of them waits, one can be resumed, for the task that has
  the lock never waits for it.\<close>

theorem hub_methods_end:
  assumes "interleaved r" and "resumed r n r'"
  shows "n \<le> pending_work r \<and>
    ((\<exists>t p k. dget (hr_tasks r') t = Some (Waiting p k)) \<longrightarrow> (\<exists>t. \<forall>ok. \<exists>r''. task_step r' (Resume t ok) r''))"
proof (intro conjI impI)
  show "n \<le> pending_work r" using resumed_work [OF assms(2)] by simp
  assume "\<exists>t p k. dget (hr_tasks r') t = Some (Waiting p k)"
  then obtain t p k where t: "dget (hr_tasks r') t = Some (Waiting p k)" by blast
  have lock: "lock_ok r'" by (rule interleaved_lock [OF resumed_interleaved [OF assms(2,1)]])
  obtain t' p' k' where t': "dget (hr_tasks r') t' = Some (Waiting p' k')" "hr_lock r' = None \<or> holds (Waiting p' k')"
  proof (cases "hr_lock r'")
    case None
    with t that show ?thesis by blast
  next
    case (Some u)
    with lock obtain x where x: "dget (hr_tasks r') u = Some x" "holds x" unfolding lock_ok_def by blast
    then obtain p' k' where "x = Waiting p' k'" by (cases x) auto
    with x that show ?thesis by blast
  qed
  have "\<exists>r''. task_step r' (Resume t' ok) r''" for ok
    using advances [OF t'(2), of t' ok "hr_hub r'"] t'(1) task_step.resume by blast
  then show "\<exists>t. \<forall>ok. \<exists>r''. task_step r' (Resume t ok) r''" by blast
qed

section \<open>A device that comes back during a send\<close>

text \<open>C4: A send that fails takes the connection of the device out, whichever it is: when the device has
  come back meanwhile, so that the send was on the connection it left, the new connection, open
  and working, is closed for it and the device is registered no longer.\<close>

theorem failed_send_drops_the_new_connection:
  assumes "interleaved r" and "distinct (accepted_sockets (hb_log (hr_hub r)))"
    and "dget (hr_tasks r) t = Some (Waiting (Sending d ref j) k)" and "k = Alone \<or> (\<exists>payload ds n. k = Broadcasting payload ds n)"
    and "dget (hb_conns (hr_hub r)) d = Some new" and "new \<noteq> ref" and "hr_lock r = None"
  shows "\<exists>r1 r2 r3. task_step r (Resume t False) r1 \<and> task_step r1 (Resume t ok) r2 \<and> task_step r2 (Resume t ok') r3 \<and>
    dget (hb_conns (hr_hub r3)) d = None \<and> \<not> closed (hr_hub r) new \<and> closed (hr_hub r3) new \<and>
    hb_log (hr_hub r3) = hb_log (hr_hub r) @
      [(SSend (socket_of (hr_hub r) ref) j, False), (SClose (socket_of (hr_hub r) new), ok')]"
proof -
  let ?h = "hr_hub r" and ?T = "hr_tasks r"
  let ?h1 = "logged (SSend (socket_of ?h ref) j) False ?h"
  let ?h2 = "?h1\<lparr>hb_conns := ddel d (hb_conns ?h)\<rparr>"
  let ?x1 = "Waiting (Leaving d) k" and ?x2 = "Waiting (Closing d new) k"
  let ?h3 = "logged (SClose (socket_of ?h2 new)) ok' ?h2"
  have run: "run_books r" by (rule interleaved_books [OF assms(1,2)])
  note D = booksD [OF run [unfolded run_books_def]]
  have s1: "task_step r (Resume t False) \<lparr>hr_hub = ?h1, hr_lock = None, hr_tasks = dset t ?x1 ?T\<rparr>"
    using assms(4) by (intro task_step.resume [OF assms(3)]) (auto simp: assms(7) Let_def)
  have s2: "task_step \<lparr>hr_hub = ?h1, hr_lock = None, hr_tasks = dset t ?x1 ?T\<rparr> (Resume t ok)
      \<lparr>hr_hub = ?h2, hr_lock = Some t, hr_tasks = dset t ?x2 (dset t ?x1 ?T)\<rparr>"
    using assms(5) task_step.resume [of "\<lparr>hr_hub = ?h1, hr_lock = None, hr_tasks = dset t ?x1 ?T\<rparr>" t "Leaving d" k ok ?x2 ?h2 "Some t"]
    by (simp add: dget_dset)
  have s3: "task_step \<lparr>hr_hub = ?h2, hr_lock = Some t, hr_tasks = dset t ?x2 (dset t ?x1 ?T)\<rparr> (Resume t ok')
      \<lparr>hr_hub = ?h3, hr_lock = None, hr_tasks = dset t (after_leave k ?h3) (dset t ?x2 (dset t ?x1 ?T))\<rparr>"
    using task_step.resume [of "\<lparr>hr_hub = ?h2, hr_lock = Some t, hr_tasks = dset t ?x2 (dset t ?x1 ?T)\<rparr>" t "Closing d new" k ok'
        "after_leave k ?h3" ?h3 None]
    by (simp add: dget_dset Let_def)
  have sock: "socket_of ?h2 = socket_of ?h" by (simp add: socket_of_def fun_eq_iff)
  have "dget (hb_conns ?h3) d = None" using D(1) by (simp add: hub_ok_def dict_simps)
  moreover have "\<not> closed ?h new" using D(6) [OF assms(5)] .
  moreover have "closed ?h3 new" by (simp add: closed_logged)
  moreover have "hb_log ?h3 = hb_log ?h @ [(SSend (socket_of ?h ref) j, False), (SClose (socket_of ?h new), ok')]"
    by (simp add: sock)
  ultimately show ?thesis using s1 s2 s3 by (intro exI conjI) (assumption | simp)+
qed

section \<open>Without interleaving\<close>

text \<open>The call a task waits for, none at the lock; a task that goes on alone, with the answers of \<open>net\<close>\<close>

fun awaited :: "phase \<Rightarrow> hub \<Rightarrow> sock_event option" where
  "awaited (Accepting t1 t2 d w md) h = Some (SAccept w)"
| "awaited (Replacing d ref old) h = Some (SClose (socket_of h old))"
| "awaited (Sending d ref j) h = Some (SSend (socket_of h ref) j)"
| "awaited (Closing d ref) h = Some (SClose (socket_of h ref))"
| "awaited p h = None"

definition answer_of :: "net \<Rightarrow> phase \<Rightarrow> hub \<Rightarrow> bool" where
  "answer_of net p h = (case awaited p h of None \<Rightarrow> True | Some ev \<Rightarrow> net (hb_log h) ev)"

inductive alone :: "net \<Rightarrow> hub_task \<times> hub \<times> nat option \<Rightarrow> hub_task \<times> hub \<times> nat option \<Rightarrow> bool" for net where
  stay: "alone net s s"
| go: "advance t (answer_of net p h) p k h l = Some s \<Longrightarrow> alone net s s' \<Longrightarrow> alone net (Waiting p k, h, l) s'"

lemma alone_trans: "alone net a b \<Longrightarrow> alone net b c \<Longrightarrow> alone net a c"
  by (induction rule: alone.induct) (auto intro: alone.go)

lemma alone_leave:
  "alone net (Waiting (Leaving d) k, h, None) (after_leave k (hub_disconnect net d h), hub_disconnect net d h, None)"
proof (cases "dget (hb_conns h) d")
  case None
  then have a: "advance 0 (answer_of net (Leaving d) h) (Leaving d) k h None = Some (after_leave k h, h, None)" by simp
  from None show ?thesis by (auto simp: hub_disconnect_def intro: alone.go [OF a] alone.stay)
next
  case (Some ref)
  let ?h = "h\<lparr>hb_conns := ddel d (hb_conns h)\<rparr>"
  have s: "socket_of ?h ref = socket_of h ref" by (simp add: socket_of_def)
  have d: "hub_disconnect net d h = logged (SClose (socket_of h ref)) (net (hb_log h) (SClose (socket_of h ref))) ?h"
    using Some by (simp add: hub_disconnect_def sock_op_eq logged_def)
  have "advance 0 (answer_of net (Leaving d) h) (Leaving d) k h None = Some (Waiting (Closing d ref) k, ?h, Some 0)"
    using Some by simp
  moreover have "advance 0 (answer_of net (Closing d ref) ?h) (Closing d ref) k ?h (Some 0) =
      Some (after_leave k (hub_disconnect net d h), hub_disconnect net d h, None)"
    by (simp add: answer_of_def Let_def s d)
  ultimately show ?thesis by (blast intro: alone.go alone.stay)
qed

lemma alone_send:
  assumes "dget (hb_conns h) d = Some ref" and "net (hb_log h) (SSend (socket_of h ref) j) = ok"
  shows "alone net (Waiting (Sending d ref j) k, h, None)
    (after_send ok d k (logged (SSend (socket_of h ref) j) ok h), logged (SSend (socket_of h ref) j) ok h, None)"
proof -
  have "advance 0 (answer_of net (Sending d ref j) h) (Sending d ref j) k h None =
      Some (after_send ok d k (logged (SSend (socket_of h ref) j) ok h), logged (SSend (socket_of h ref) j) ok h, None)"
    using assms by (simp add: answer_of_def Let_def)
  then show ?thesis by (blast intro: alone.go alone.stay)
qed

lemma send_to_device_cases:
  assumes "send_phase payload d h = Some p"
  obtains "p = Leaving d" and "send_to_device net payload d h = (False, hub_disconnect net d h)"
  | ref j ok where "p = Sending d ref j" and "dget (hb_conns h) d = Some ref" and "net (hb_log h) (SSend (socket_of h ref) j) = ok"
    and "send_to_device net payload d h = (ok, if ok then logged (SSend (socket_of h ref) j) ok h
      else hub_disconnect net d (logged (SSend (socket_of h ref) j) ok h))"
  using assms by (cases payload) (auto simp: send_phase_def send_to_device_def sock_op_eq logged_def split: option.splits bool.splits)

lemma send_to_device_none: "send_phase payload d h = None \<Longrightarrow> send_to_device net payload d h = (False, h)"
  by (auto simp: send_phase_def send_to_device_def split: option.splits)

lemma alone_clean: "alone net (clean_next ds, h, None) (Ended (Inr 0), fold (hub_disconnect net) ds h, None)"
proof (induction ds arbitrary: h)
  case Nil
  show ?case by (simp add: alone.stay)
next
  case (Cons d ds)
  from alone_trans [OF alone_leave [of net d "Cleaning ds" h]] Cons.IH [of "hub_disconnect net d h"] show ?case by simp
qed

lemma alone_broadcast:
  "alone net (broadcast_next payload ds sent h, h, None)
    (Ended (Inr (sent + fst (broadcast_loop net payload ds h))), snd (broadcast_loop net payload ds h), None)"
proof (induction ds arbitrary: sent h)
  case Nil
  show ?case by (simp add: alone.stay)
next
  case (Cons d ds)
  show ?case
  proof (cases "send_phase payload d h")
    case None
    with Cons show ?thesis by (simp add: send_to_device_none case_prod_beta)
  next
    case (Some p)
    let ?k = "Broadcasting payload ds sent"
    obtain ok h1 where s: "send_to_device net payload d h = (ok, h1)" by (metis surj_pair)
    have "alone net (Waiting p ?k, h, None) (broadcast_next payload ds (if ok then Suc sent else sent) h1, h1, None)"
      using Some
    proof (cases rule: send_to_device_cases [where net = net])
      case 1
      with s alone_leave [of net d ?k h] show ?thesis by simp
    next
      case (2 ref j b)
      let ?h = "logged (SSend (socket_of h ref) j) b h"
      note snd1 = alone_send [where net = net and k = ?k, OF 2(2,3)]
      show ?thesis
      proof (cases b)
        case True
        with 2 s snd1 show ?thesis by simp
      next
        case False
        with 2 s alone_trans [OF snd1, of "(after_leave ?k h1, h1, None)"] alone_leave [of net d ?k ?h] show ?thesis by simp
      qed
    qed
    from alone_trans [OF this Cons.IH] Some s show ?thesis by (cases ok) (simp_all add: case_prod_beta)
  qed
qed

lemma alone_beat:
  "alone net (beat_next now i payload ds dead h, h, None)
    (Ended (Inr 0), fold (hub_disconnect net) (dead @ fst (heartbeat_scan net now i payload ds h))
       (snd (heartbeat_scan net now i payload ds h)), None)"
proof (induction ds arbitrary: dead h)
  case Nil
  show ?case using alone_clean [of net dead h] by simp
next
  case (Cons d ds)
  show ?case
  proof (cases "dget (hb_conns h) d")
    case None
    with Cons [of dead h] show ?thesis by simp
  next
    case (Some ref)
    let ?ok = "net (hb_log h) (SSend (socket_of h ref) (payload d))"
    let ?h = "logged (SSend (socket_of h ref) (payload d)) ?ok h"
    have op: "sock_op net (SSend (socket_of h ref) (payload d)) h = (?ok, ?h)" by (simp add: sock_op_eq logged_def)
    show ?thesis
    proof (cases "of_int (i * 3) < now - dc_last_heartbeat (hb_objs h ! ref)")
      case True
      with Cons [of "dead @ [d]" h] Some show ?thesis by (simp add: case_prod_beta)
    next
      case False
      let ?k = "Beating now i payload ds dead"
      have "alone net (Waiting (Sending d ref (payload d)) ?k, h, None)
          (beat_next now i payload ds (if ?ok then dead else dead @ [d]) ?h, ?h, None)"
        using alone_send [where net = net and k = ?k, OF Some refl] by simp
      from alone_trans [OF this Cons.IH] False show ?thesis
        by (cases ?ok) (simp_all add: Some op case_prod_beta)
    qed
  qed
qed

lemma alone_connect:
  assumes "hashable d" and "hub_ok h"
  shows "alone net (Waiting (Accepting t1 t2 d w md) Alone, h, None)
    (Ended (fst (hub_connect net t1 t2 d w md h)), snd (hub_connect net t1 t2 d w md h), None)"
proof (cases "net (hb_log h) (SAccept w)")
  case False
  then have "advance 0 (answer_of net (Accepting t1 t2 d w md) h) (Accepting t1 t2 d w md) Alone h None =
      Some (Ended (fst (hub_connect net t1 t2 d w md h)), snd (hub_connect net t1 t2 d w md h), None)"
    by (simp add: answer_of_def hub_connect_def sock_op_eq Let_def logged_def)
  then show ?thesis by (blast intro: alone.go alone.stay)
next
  case ok: True
  let ?h0 = "logged (SAccept w) True h" and ?ref = "length (hb_objs h)"
  let ?h1 = "?h0\<lparr>hb_objs := hb_objs h @ [new_connection t1 t2 d w md]\<rparr>"
  have a: "advance 0 (answer_of net (Accepting t1 t2 d w md) h) (Accepting t1 t2 d w md) Alone h None =
      Some (Waiting (Registering d ?ref) Alone, ?h1, None)"
    using ok by (simp add: answer_of_def Let_def)
  show ?thesis
  proof (cases "dget (hb_conns h) d")
    case None
    with assms have b: "advance 0 (answer_of net (Registering d ?ref) ?h1) (Registering d ?ref) Alone ?h1 None =
        Some (Ended (Inr ?ref), enlist d ?ref ?h1, None)" by simp
    have "hub_connect net t1 t2 d w md h = (Inr ?ref, enlist d ?ref ?h1)"
      using assms ok None by (simp add: hub_connect_def sock_op_eq Let_def logged_def enlist_def new_connection_def)
    with alone.go [OF a alone.go [OF b alone.stay]] show ?thesis by simp
  next
    case (Some old)
    let ?ok = "net (hb_log ?h1) (SClose (socket_of ?h1 old))"
    let ?h2 = "enlist d ?ref (logged (SClose (socket_of ?h1 old)) ?ok ?h1)"
    have b: "advance 0 (answer_of net (Registering d ?ref) ?h1) (Registering d ?ref) Alone ?h1 None =
        Some (Waiting (Replacing d ?ref old) Alone, ?h1, Some 0)" using assms Some by simp
    have c: "advance 0 (answer_of net (Replacing d ?ref old) ?h1) (Replacing d ?ref old) Alone ?h1 (Some 0) =
        Some (Ended (Inr ?ref), ?h2, None)" by (simp add: answer_of_def)
    have "old < ?ref" using hub_okD [OF assms(2) Some] by simp
    then have "socket_of ?h1 old = socket_of h old" by (simp add: socket_of_def nth_append)
    then have "hub_connect net t1 t2 d w md h = (Inr ?ref, ?h2)"
      using assms(1) ok Some
      by (simp add: hub_connect_def sock_op_eq Let_def logged_def enlist_def new_connection_def)
    with alone.go [OF a alone.go [OF b alone.go [OF c alone.stay]]] show ?thesis by simp
  qed
qed

text \<open>The value of a method that runs alone: the connection made, how many devices were reached\<close>

fun hub_value :: "net \<Rightarrow> hub_event \<Rightarrow> hub \<Rightarrow> exn + nat" where
  "hub_value net (HConnect t1 t2 d w md) h = fst (hub_connect net t1 t2 d w md h)"
| "hub_value net (HSend payload d) h = Inr (if fst (send_to_device net payload d h) then 1 else 0)"
| "hub_value net (HBroadcast payload) h = Inr (fst (hub_broadcast net payload h))"
| "hub_value net ev h = Inr 0"


section \<open>Runs to try\<close>

fun perform :: "action \<Rightarrow> hub_run \<Rightarrow> hub_run option" where
  "perform (Begin t ev) r = (if dhas (hr_tasks r) t then None
     else case begin_op ev (hr_hub r) of (x, h) \<Rightarrow> Some (r\<lparr>hr_hub := h, hr_tasks := dset t x (hr_tasks r)\<rparr>))"
| "perform (Resume t ok) r = (case dget (hr_tasks r) t of
       Some (Waiting p k) \<Rightarrow> (case advance t ok p k (hr_hub r) (hr_lock r) of
          Some (x, h, l) \<Rightarrow> Some \<lparr>hr_hub = h, hr_lock = l, hr_tasks = dset t x (hr_tasks r)\<rparr>
        | None \<Rightarrow> None)
     | _ \<Rightarrow> None)"

fun performs :: "action list \<Rightarrow> hub_run \<Rightarrow> hub_run option" where
  "performs [] r = Some r"
| "performs (a # acts) r = Option.bind (perform a r) (performs acts)"

lemma perform_step: "perform a r = Some r' \<longleftrightarrow> task_step r a r'"
  by (cases a) (auto split: option.splits hub_task.splits prod.splits if_splits
      elim!: call_cases resume_cases intro: task_step.intros)

lemma performs_interleaved: "interleaved r \<Longrightarrow> performs acts r = Some r' \<Longrightarrow> interleaved r'"
  by (induction acts arbitrary: r) (auto simp: perform_step bind_eq_Some_conv intro: interleaved.more)

text \<open>A device connects, a message is sent to it; before the send returns it connects again.\<close>

definition PHONE :: pyval where
  "PHONE = VStr ''phone''"

definition comeback :: "action list" where
  "comeback = [Begin 1 (HConnect 0 0 PHONE 11 VNone), Resume 1 True, Resume 1 True,
     Begin 2 (HSend (Inr (VStr ''hi'')) PHONE),
     Begin 3 (HConnect 5 5 PHONE 12 VNone), Resume 3 True, Resume 3 True, Resume 3 True]"

definition comeback_run :: hub_run where
  "comeback_run = \<lparr>hr_hub = \<lparr>hb_objs = [new_connection 0 0 PHONE 11 VNone, new_connection 5 5 PHONE 12 VNone],
       hb_conns = [(PHONE, 1)],
       hb_log = [(SAccept 11, True), (SAccept 12, True), (SClose 11, True)]\<rparr>, hr_lock = None,
     hr_tasks = [(1, Ended (Inr 0)), (2, Waiting (Sending PHONE 0 (VStr ''hi'')) Alone), (3, Ended (Inr 1))]\<rparr>"

lemma comeback_performs: "performs comeback new_run = Some comeback_run"
  by (simp add: comeback_def comeback_run_def new_run_def new_hub_def send_phase_def Let_def logged_def enlist_def
      socket_of_def new_connection_def PHONE_def dhas_def)

lemma comeback_reached: "interleaved comeback_run"
  by (rule performs_interleaved [OF interleaved.idle comeback_performs])

lemma comeback_accepts: "distinct (accepted_sockets (hb_log (hr_hub comeback_run)))"
  by (simp add: comeback_run_def)

theorem hub_accounts_for_connections_witness:
  "(\<exists>!p. in_place comeback_run 0 p) \<and> in_place comeback_run 0 Shut \<and>
   (\<exists>!p. in_place comeback_run 1 p) \<and> in_place comeback_run 1 Listed"
proof -
  have "hashable (owner (hr_hub comeback_run) ref)" if "ref < 2" for ref
    using that by (auto simp: owner_def comeback_run_def new_connection_def PHONE_def less_2_cases_iff)
  moreover have "length (hb_objs (hr_hub comeback_run)) = 2" by (simp add: comeback_run_def)
  ultimately have "\<exists>!p. in_place comeback_run ref p" if "ref < 2" for ref
    using hub_accounts_for_connections [OF comeback_reached comeback_accepts] that by (elim conjE) (simp only:)
  moreover have "in_place comeback_run 0 Shut" "in_place comeback_run 1 Listed"
    by (auto simp: comeback_run_def owner_def closed_def socket_of_def new_connection_def)
  ultimately show ?thesis by (metis one_less_numeral_iff semiring_norm(76) zero_less_numeral)
qed

theorem failed_send_drops_the_new_connection_witness:
  "\<exists>r1 r2 r3. task_step comeback_run (Resume 2 False) r1 \<and> task_step r1 (Resume 2 True) r2 \<and>
     task_step r2 (Resume 2 True) r3 \<and> dget (hb_conns (hr_hub r3)) PHONE = None \<and> closed (hr_hub r3) 1"
proof -
  have t: "dget (hr_tasks comeback_run) 2 = Some (Waiting (Sending PHONE 0 (VStr ''hi'')) Alone)"
    and c: "dget (hb_conns (hr_hub comeback_run)) PHONE = Some 1" and l: "hr_lock comeback_run = None"
    by (simp_all add: comeback_run_def)
  have "Alone = Alone \<or> (\<exists>payload ds n. Alone = Broadcasting payload ds n)" by simp
  from failed_send_drops_the_new_connection [OF comeback_reached comeback_accepts t this c one_neq_zero l, of True True]
  show ?thesis by (elim exE conjE) (intro exI conjI, assumption+)
qed

theorem hub_methods_end_witness:
  "pending_work comeback_run = 3 \<and> (\<exists>t. \<forall>ok. \<exists>r. task_step comeback_run (Resume t ok) r)"
proof -
  have "dget (hr_tasks comeback_run) 2 = Some (Waiting (Sending PHONE 0 (VStr ''hi'')) Alone)"
    by (simp add: comeback_run_def)
  then have "\<exists>t p k. dget (hr_tasks comeback_run) t = Some (Waiting p k)" by blast
  with hub_methods_end [OF comeback_reached resumed.none] have "\<exists>t. \<forall>ok. \<exists>r. task_step comeback_run (Resume t ok) r" by blast
  moreover have "pending_work comeback_run = 3" by (simp add: pending_work_def comeback_run_def)
  ultimately show ?thesis by (rule conjI [rotated])
qed


end
