(* ===== verification/Dialogue.thy ===== *)
theory Dialogue
  imports ConfigManager "HOL-Library.Sublist"
begin

text \<open>
  The set-up dialogue of \<open>client/config/config_manager.py\<close> as its user meets it: the questions with what
  their prompts accept, and what is printed and asked, in order. \<open>ConfigManager\<close> has what it does
  with the answers. The prompts are the library's: a checked one gives only text its
  check accepts, a menu only one of its choices.
\<close>

section \<open>The checks of the prompts\<close>

definition valid_name :: "string \<Rightarrow> exn + bool" where
  "valid_name x = Inr (0 < length x \<and> length x \<le> 50)"

definition valid_time :: "string \<Rightarrow> exn + bool" where
  "valid_time x = Inr (length x = 5 \<and> x ! 2 = CHR '':'')"

text \<open>\<open>x.isdigit() and int(x) > 0\<close>, on ASCII\<close>

definition valid_count :: "string \<Rightarrow> exn + bool" where
  "valid_count x = (if x \<noteq> [] \<and> list_all is_digit x then
     (case py_int x of Some i \<Rightarrow> Inr (0 < i) | None \<Rightarrow> Inl (ValueError ''invalid literal for int() with base 10''))
   else Inr False)"

definition valid_amount :: "config_env \<Rightarrow> string \<Rightarrow> exn + bool" where
  "valid_amount env x = (case cn_float env x of
       Some r \<Rightarrow> Inr (0 < r) | None \<Rightarrow> Inl (ValueError ''could not convert string to float''))"

datatype prompt =
    FreeText | Checked "string \<Rightarrow> exn + bool" | Choose "string list" | ChooseMany "string list" | YesNo

definition setup_prompts :: "config_env \<Rightarrow> (string \<times> prompt) list" where
  "setup_prompts env =
    [(''Enter a name for this configuration:'', Checked valid_name),
     (''Infrastructure type:'', Choose (map fst INFRA_CHOICES)),
     (''Cloud provider:'', Choose (map fst PROVIDER_CHOICES)),
     (''GPUs to support:'', ChooseMany (map fst GPU_CHOICES)),
     (''Deployment region:'', Choose (map fst REGION_CHOICES)),
     (''Enable GPU timer (set start/end times for processes)?'', YesNo),
     (''Start time (HH:MM, e.g., 09:00):'', Checked valid_time),
     (''End time (HH:MM, e.g., 18:00):'', Checked valid_time),
     (''Timezone (default: UTC):'', FreeText),
     (''Allow manual override of timer?'', YesNo),
     (''Enable auto-detector for cost optimization?'', YesNo),
     (''Idle threshold (minutes before shutdown) [default: 30]:'', Checked valid_count),
     (''Hourly cost alert threshold (USD) [default: 10.0]:'', Checked (valid_amount env)),
     (''Auto-shutdown when idle?'', YesNo),
     (''Enable power consumption monitoring?'', YesNo),
     (''Consolidate workloads to fewer instances for cost savings?'', YesNo),
     (''Monthly compute budget (USD) [default: 500]:'', Checked (valid_amount env)),
     (''Maximum parallel workers [default: 8]:'', Checked valid_count)]"

text \<open>What a prompt can return when it is not interrupted\<close>

fun accepts :: "prompt \<Rightarrow> pyval \<Rightarrow> bool" where
  "accepts FreeText v = (case v of VStr s \<Rightarrow> True | _ \<Rightarrow> False)"
| "accepts (Checked f) v = (case v of VStr s \<Rightarrow> f s = Inr True | _ \<Rightarrow> False)"
| "accepts (Choose cs) v = (case v of VStr s \<Rightarrow> s \<in> set cs | _ \<Rightarrow> False)"
| "accepts (ChooseMany cs) v = (case v of
     VList vs \<Rightarrow> list_all (\<lambda>v. case v of VStr s \<Rightarrow> s \<in> set cs | _ \<Rightarrow> False) vs | _ \<Rightarrow> False)"
| "accepts YesNo v = (case v of VBool b \<Rightarrow> True | _ \<Rightarrow> False)"

definition answered :: "config_env \<Rightarrow> bool" where
  "answered env \<longleftrightarrow> list_all (\<lambda>(q, p). accepts p (cn_ask env q)) (setup_prompts env)"

section \<open>What is printed and asked\<close>

datatype said = Printed string | Asked string

type_synonym 'a told = "said list \<times> (exn + 'a)"

definition tell_bind :: "'a told \<Rightarrow> ('a \<Rightarrow> 'b told) \<Rightarrow> 'b told" where
  "tell_bind m f = (case snd m of Inl e \<Rightarrow> (fst m, Inl e) | Inr x \<Rightarrow> (fst m @ fst (f x), snd (f x)))"

definition told_infra :: "config_env \<Rightarrow> infra_type told" where
  "told_infra env = ([Printed ([CHR 0x0A, CHR 0xF0, CHR 0x9F, CHR 0x93, CHR 0xA6] @ '' Select Infrastructure Type:''),
     Asked ''Infrastructure type:''], ask_infra_type env)"

definition told_provider :: "config_env \<Rightarrow> infra_type \<Rightarrow> provider_type told" where
  "told_provider env ty = (Printed ([CHR 0x0A, CHR 0xE2, CHR 0x98, CHR 0x81, CHR 0xEF, CHR 0xB8, CHR 0x8F] @ '' Select Provider:'') #
     (if ty = IT_BARE_METAL then [Printed ([CHR 0xE2, CHR 0x9C, CHR 0x93] @ '' Using local provider for bare metal'')]
      else [Asked ''Cloud provider:'']), ask_provider env ty)"

definition told_gpus :: "config_env \<Rightarrow> infra_type \<Rightarrow> gpu_type list told" where
  "told_gpus env ty = (if ty \<in> {IT_GPU_CLUSTER, IT_HYBRID, IT_VIRTUAL_MACHINE}
     then [Printed ([CHR 0x0A, CHR 0xF0, CHR 0x9F, CHR 0x8E, CHR 0xAE] @ '' Select GPU Types (multi-select):''),
       Asked ''GPUs to support:''] else [], ask_gpus env ty)"

definition told_region :: "config_env \<Rightarrow> string told" where
  "told_region env = ([Printed ([CHR 0x0A, CHR 0xF0, CHR 0x9F, CHR 0x8C, CHR 0x8D] @ '' Select Region:''),
     Asked ''Deployment region:''], chosen (KeyError ''None'') REGION_CHOICES (cn_ask env ''Deployment region:''))"

definition told_timer :: "config_env \<Rightarrow> gpu_timer_config told" where
  "told_timer env = ([Printed ([CHR 0x0A, CHR 0xE2, CHR 0x8F, CHR 0xB0] @ '' GPU Timer Configuration:''),
     Asked ''Enable GPU timer (set start/end times for processes)?''] @
     (if truthy (cn_ask env ''Enable GPU timer (set start/end times for processes)?'')
      then [Asked ''Start time (HH:MM, e.g., 09:00):'', Asked ''End time (HH:MM, e.g., 18:00):'',
        Asked ''Timezone (default: UTC):'', Asked ''Allow manual override of timer?''] else []), Inr (ask_timer env))"

definition told_detector :: "config_env \<Rightarrow> auto_detector_config told" where
  "told_detector env = ([Printed ([CHR 0x0A, CHR 0xF0, CHR 0x9F, CHR 0x94, CHR 0x8B] @ '' Auto-Detector Configuration (Cost Optimization):''),
     Asked ''Enable auto-detector for cost optimization?''] @
     (if truthy (cn_ask env ''Enable auto-detector for cost optimization?'') then
        Asked ''Idle threshold (minutes before shutdown) [default: 30]:'' #
        (case int_answer env ''Idle threshold (minutes before shutdown) [default: 30]:'' of Inl e \<Rightarrow> []
         | Inr i \<Rightarrow> Asked ''Hourly cost alert threshold (USD) [default: 10.0]:'' #
            (case float_answer env ''Hourly cost alert threshold (USD) [default: 10.0]:'' of Inl e \<Rightarrow> []
             | Inr c \<Rightarrow> [Asked ''Auto-shutdown when idle?'', Asked ''Enable power consumption monitoring?'',
                 Asked ''Consolidate workloads to fewer instances for cost savings?'']))
      else []), ask_detector env)"

definition told_config :: "config_env \<Rightarrow> pyval \<Rightarrow> infra_config told" where
  "told_config env name =
     tell_bind (told_infra env) (\<lambda>ty.
     tell_bind (told_provider env ty) (\<lambda>pr.
     tell_bind (told_gpus env ty) (\<lambda>gpus.
     tell_bind (told_region env) (\<lambda>region.
     tell_bind (told_timer env) (\<lambda>timer.
     tell_bind (told_detector env) (\<lambda>det.
     tell_bind ([Printed ([CHR 0x0A, CHR 0xF0, CHR 0x9F, CHR 0x92, CHR 0xB0] @ '' Compute Budget and Resources:''),
       Asked ''Monthly compute budget (USD) [default: 500]:''],
       float_answer env ''Monthly compute budget (USD) [default: 500]:'') (\<lambda>budget.
     tell_bind ([Asked ''Maximum parallel workers [default: 8]:''],
       int_answer env ''Maximum parallel workers [default: 8]:'') (\<lambda>workers.
       ([], Inr \<lparr>ic_name = name, ic_type = ty, ic_provider = pr, ic_gpu_types = gpus, ic_region = VStr region,
         ic_gpu_timer = Parsed timer, ic_auto_detector = Parsed det,
         ic_compute_budget_monthly = budget, ic_enable_caching = VBool True, ic_max_workers = workers,
         ic_metadata = VDict []\<rparr>)))))))))"

definition overwrite_question :: "config_env \<Rightarrow> pyval \<Rightarrow> string" where
  "overwrite_question env name =
     ''Configuration '' @ [CHR 0x27] @ show_val env name @ [CHR 0x27] @ '' already exists. Overwrite?''"

definition setup_title :: "said list" where
  "setup_title = [Printed (CHR 0x0A # rule_line),
     Printed ([CHR 0xF0, CHR 0x9F, CHR 0x94, CHR 0xA7] @ '' cpip Configuration Setup (rclone-style)''),
     Printed (rule_line @ [CHR 0x0A])]"

text \<open>\<open>interactive_create\<close> with its output: the questions up to the first failure, then the line of
  \<open>save_config\<close> and the summary\<close>

definition told_create ::
  "config_env \<Rightarrow> config_manager \<Rightarrow> said list \<times> (exn + infra_config option) \<times> config_manager" where
  "told_create env s =
     (let name = cn_ask env ''Enter a name for this configuration:'';
          start = setup_title @ [Asked ''Enter a name for this configuration:''] @
            (if dhas (cm_configs s) name then [Asked (overwrite_question env name)] else []) in
      if dhas (cm_configs s) name \<and> \<not> truthy (cn_ask env (overwrite_question env name)) then (start, Inr None, s)
      else case told_config env name of
          (out, Inl e) \<Rightarrow> (start @ out, Inl e, s)
        | (out, Inr c) \<Rightarrow> (case cm_save_config env c s of
              (Inl e, s1) \<Rightarrow> (start @ out, Inl e, s1)
            | (Inr u, s1) \<Rightarrow>
                (let saved = Printed ([CHR 0xE2, CHR 0x9C, CHR 0x93] @ '' Configuration '' @ [CHR 0x27] @ show_val env name @ [CHR 0x27] @ '' saved successfully'') in
                 case config_summary env c of
                   Inl e \<Rightarrow> (start @ out @ [saved], Inl e, s1)
                 | Inr lines \<Rightarrow> (start @ out @ saved # map Printed lines, Inr (Some c), s1))))"

section \<open>The output fits what the dialogue does\<close>

lemma snd_tell_bind: "snd (tell_bind m f) = bind_result (snd m) (\<lambda>x. snd (f x))"
  by (simp add: tell_bind_def bind_result_def split: sum.split)

lemma snd_parts:
  "snd (told_infra env) = ask_infra_type env" "snd (told_provider env ty) = ask_provider env ty"
  "snd (told_gpus env ty) = ask_gpus env ty" "snd (told_timer env) = Inr (ask_timer env)"
  "snd (told_region env) = chosen (KeyError ''None'') REGION_CHOICES (cn_ask env ''Deployment region:'')"
  "snd (told_detector env) = ask_detector env"
  by (simp_all add: told_infra_def told_provider_def told_gpus_def told_region_def told_timer_def told_detector_def)

lemma told_config_result: "snd (told_config env name) = ask_config env name"
  unfolding told_config_def ask_config_def snd_tell_bind snd_parts snd_conv by (simp add: bind_result_def)

lemma told_create_result: "snd (told_create env s) = interactive_create env s"
proof -
  let ?n = "cn_ask env ''Enter a name for this configuration:''"
  obtain out where t: "told_config env ?n = (out, ask_config env ?n)"
    using told_config_result [of env ?n] by (metis surj_pair snd_conv)
  show ?thesis
  proof (cases "dhas (cm_configs s) ?n \<and> \<not> truthy (cn_ask env (overwrite_question env ?n))")
    case True
    then show ?thesis by (simp add: told_create_def interactive_create_def Let_def overwrite_question_def)
  next
    case go: False
    show ?thesis
    proof (cases "ask_config env ?n")
      case (Inl e)
      with go t show ?thesis
        unfolding told_create_def interactive_create_def Let_def overwrite_question_def by (simp only: if_False prod.case sum.case snd_conv)
    next
      case (Inr c)
      obtain r s1 where sv: "cm_save_config env c s = (r, s1)" by (metis surj_pair)
      from go t Inr show ?thesis
        unfolding told_create_def interactive_create_def Let_def overwrite_question_def
        by (cases r; cases "config_summary env c") (simp_all only: if_False prod.case sum.case snd_conv sv)
    qed
  qed
qed

fun asked :: "said list \<Rightarrow> string list" where
  "asked [] = []"
| "asked (Asked q # out) = q # asked out"
| "asked (Printed l # out) = asked out"

lemma asked_append [simp]: "asked (out @ out') = asked out @ asked out'"
  by (induction out rule: asked.induct) simp_all

lemma asked_printed [simp]: "asked (map Printed ls) = []"
  by (induction ls) simp_all

text \<open>Each question is asked at most once, in the order of the table.\<close>

lemma asked_bind:
  assumes "subseq (asked (fst m)) qs" and "\<And>x. subseq (asked (fst (f x))) rs"
  shows "subseq (asked (fst (tell_bind m f))) (qs @ rs)"
  using assms list_emb_append_mono [OF assms(1), of "[]" rs]
  by (auto simp: tell_bind_def list_emb_append_mono split: sum.split)

lemma asked_parts:
  "subseq (asked (fst (told_infra env))) [''Infrastructure type:'']"
  "subseq (asked (fst (told_provider env ty))) [''Cloud provider:'']"
  "subseq (asked (fst (told_gpus env ty))) [''GPUs to support:'']"
  "subseq (asked (fst (told_region env))) [''Deployment region:'']"
  "subseq (asked (fst (told_timer env))) [''Enable GPU timer (set start/end times for processes)?'',
     ''Start time (HH:MM, e.g., 09:00):'', ''End time (HH:MM, e.g., 18:00):'', ''Timezone (default: UTC):'',
     ''Allow manual override of timer?'']"
  "subseq (asked (fst (told_detector env))) [''Enable auto-detector for cost optimization?'',
     ''Idle threshold (minutes before shutdown) [default: 30]:'', ''Hourly cost alert threshold (USD) [default: 10.0]:'',
     ''Auto-shutdown when idle?'', ''Enable power consumption monitoring?'',
     ''Consolidate workloads to fewer instances for cost savings?'']"
  by (simp_all add: told_infra_def told_provider_def told_gpus_def told_region_def told_timer_def told_detector_def
      split: sum.split)

lemma asked_config: "subseq (asked (fst (told_config env name))) (tl (map fst (setup_prompts env)))"
proof -
  have "subseq (asked (fst (told_config env name)))
    ([''Infrastructure type:''] @ [''Cloud provider:''] @ [''GPUs to support:''] @ [''Deployment region:''] @
     [''Enable GPU timer (set start/end times for processes)?'', ''Start time (HH:MM, e.g., 09:00):'',
      ''End time (HH:MM, e.g., 18:00):'', ''Timezone (default: UTC):'', ''Allow manual override of timer?''] @
     [''Enable auto-detector for cost optimization?'', ''Idle threshold (minutes before shutdown) [default: 30]:'',
      ''Hourly cost alert threshold (USD) [default: 10.0]:'', ''Auto-shutdown when idle?'',
      ''Enable power consumption monitoring?'', ''Consolidate workloads to fewer instances for cost savings?''] @
     [''Monthly compute budget (USD) [default: 500]:''] @ [''Maximum parallel workers [default: 8]:''] @ [])"
    unfolding told_config_def by (intro asked_bind asked_parts) simp_all
  then show ?thesis by (simp add: setup_prompts_def)
qed

text \<open>The dialogue depends on the answers to the questions it asks, and on no others.\<close>

definition same_answers :: "config_env \<Rightarrow> config_env \<Rightarrow> string list \<Rightarrow> bool" where
  "same_answers env env' qs \<longleftrightarrow> cn_str env' = cn_str env \<and> cn_float env' = cn_float env \<and>
     (\<forall>q\<in>set qs. cn_ask env' q = cn_ask env q)"

definition framed :: "(config_env \<Rightarrow> 'a told) \<Rightarrow> bool" where
  "framed f \<longleftrightarrow> (\<forall>env env'. same_answers env env' (asked (fst (f env))) \<longrightarrow> f env' = f env)"

lemma framedD: "framed f \<Longrightarrow> same_answers env env' (asked (fst (f env))) \<Longrightarrow> f env' = f env"
  by (simp add: framed_def)

lemma framedI: "(\<And>env env'. same_answers env env' (asked (fst (f env))) \<Longrightarrow> f env' = f env) \<Longrightarrow> framed f"
  by (simp add: framed_def)

lemma framed_bind:
  assumes "framed m" and "\<And>x. framed (\<lambda>env. f env x)"
  shows "framed (\<lambda>env. tell_bind (m env) (f env))"
proof (rule framedI)
  fix env env'
  assume same: "same_answers env env' (asked (fst (tell_bind (m env) (f env))))"
  then have "same_answers env env' (asked (fst (m env)))"
    by (auto simp: tell_bind_def same_answers_def split: sum.splits)
  from framedD [OF assms(1) this] have m: "m env' = m env" .
  show "tell_bind (m env') (f env') = tell_bind (m env) (f env)"
  proof (cases "snd (m env)")
    case (Inl e)
    then show ?thesis by (simp add: tell_bind_def m)
  next
    case (Inr x)
    with same have "same_answers env env' (asked (fst (f env x)))" by (auto simp: tell_bind_def same_answers_def)
    from framedD [OF assms(2) this] Inr show ?thesis by (simp add: tell_bind_def m)
  qed
qed

lemma answers_cong:
  "cn_ask env' q = cn_ask env q \<Longrightarrow> int_answer env' q = int_answer env q"
  "cn_ask env' q = cn_ask env q \<Longrightarrow> cn_float env' = cn_float env \<Longrightarrow> float_answer env' q = float_answer env q"
  by (cases "cn_ask env q"; simp add: int_answer_def float_answer_def)+

lemma framed_detector: "framed told_detector"
proof (rule framedI)
  fix env env'
  let ?q = "''Enable auto-detector for cost optimization?''" and ?i = "''Idle threshold (minutes before shutdown) [default: 30]:''"
    and ?c = "''Hourly cost alert threshold (USD) [default: 10.0]:''"
  assume same: "same_answers env env' (asked (fst (told_detector env)))"
  then have q: "cn_ask env' ?q = cn_ask env ?q" by (simp add: same_answers_def told_detector_def)
  show "told_detector env' = told_detector env"
  proof (cases "truthy (cn_ask env ?q)")
    case False
    with q show ?thesis by (simp add: told_detector_def ask_detector_def)
  next
    case on: True
    with same have i: "int_answer env' ?i = int_answer env ?i"
      by (intro answers_cong) (simp add: same_answers_def told_detector_def)
    show ?thesis
    proof (cases "int_answer env ?i")
      case (Inl e)
      with on q i show ?thesis by (simp add: told_detector_def ask_detector_def bind_result_def)
    next
      case idle: (Inr x)
      with on same have c: "float_answer env' ?c = float_answer env ?c"
        by (intro answers_cong) (simp_all add: same_answers_def told_detector_def)
      show ?thesis
      proof (cases "float_answer env ?c")
        case (Inl e)
        with on q i c idle show ?thesis by (simp add: told_detector_def ask_detector_def bind_result_def)
      next
        case (Inr y)
        with on q i c idle same show ?thesis
          by (simp add: told_detector_def ask_detector_def bind_result_def same_answers_def)
      qed
    qed
  qed
qed

lemma framed_simple: "framed told_infra" "framed told_region" "framed (\<lambda>env. ([], r))"
  by (rule framedI, simp add: same_answers_def told_infra_def told_region_def ask_infra_type_def)+

lemma framed_answers:
  "framed (\<lambda>env. ([Printed p, Asked q], float_answer env q))" "framed (\<lambda>env. ([Asked q], int_answer env q))"
  by (rule framedI, auto simp: same_answers_def intro: answers_cong)+

lemma framed_timer: "framed told_timer"
proof (rule framedI)
  fix env env'
  assume same: "same_answers env env' (asked (fst (told_timer env)))"
  then have q: "cn_ask env' ''Enable GPU timer (set start/end times for processes)?'' =
      cn_ask env ''Enable GPU timer (set start/end times for processes)?''"
    by (simp add: same_answers_def told_timer_def)
  show "told_timer env' = told_timer env"
  proof (cases "truthy (cn_ask env ''Enable GPU timer (set start/end times for processes)?'')")
    case True
    with same have "\<forall>q\<in>{''Start time (HH:MM, e.g., 09:00):'', ''End time (HH:MM, e.g., 18:00):'', ''Timezone (default: UTC):'',
        ''Allow manual override of timer?''}. cn_ask env' q = cn_ask env q" by (simp add: same_answers_def told_timer_def)
    with True q show ?thesis by (simp add: told_timer_def ask_timer_def Let_def)
  qed (use q in \<open>simp add: told_timer_def ask_timer_def Let_def\<close>)
qed

lemma framed_provider: "framed (\<lambda>env. told_provider env ty)"
  by (rule framedI) (cases ty; simp add: same_answers_def told_provider_def ask_provider_def)

lemma framed_gpus: "framed (\<lambda>env. told_gpus env ty)"
  by (rule framedI) (cases ty; simp add: same_answers_def told_gpus_def ask_gpus_def)

lemma framed_config: "framed (\<lambda>env. told_config env name)"
  unfolding told_config_def by (intro framed_bind framed_simple framed_answers framed_timer framed_provider framed_gpus framed_detector)

text \<open>Whatever is answered, the output belongs to what is done; every question is asked at most once; and who
  answers the questions asked in the same way gets the same output and the same result.\<close>

lemma distinct_subseq: "subseq xs ys \<Longrightarrow> distinct ys \<Longrightarrow> distinct xs"
proof (induction rule: list_emb.induct)
  case (list_emb_Cons2 x y xs ys)
  then show ?case using list_emb_set [of "(=)" xs ys] by auto
qed simp_all

lemma setup_asks_once: "distinct (asked (fst (told_create env s)))"
proof -
  let ?name = "cn_ask env ''Enter a name for this configuration:''"
  have sub: "set (asked (fst (told_config env ?name))) \<subseteq> set (tl (map fst (setup_prompts env)))"
    using list_emb_set [OF asked_config [of env ?name]] by blast
  have "distinct (tl (map fst (setup_prompts env)))" by (simp add: setup_prompts_def)
  then have d: "distinct (asked (fst (told_config env ?name)))"
    by (rule distinct_subseq [OF asked_config])
  have "''Enter a name for this configuration:'' \<notin> set (tl (map fst (setup_prompts env)))"
    by (simp add: setup_prompts_def)
  moreover have "overwrite_question env ?name \<notin> set (tl (map fst (setup_prompts env)))"
    "overwrite_question env ?name \<noteq> ''Enter a name for this configuration:''"
    by (simp_all add: setup_prompts_def overwrite_question_def)
  ultimately show ?thesis
    using d sub by (auto simp: told_create_def setup_title_def Let_def split: sum.split prod.split)
qed

lemma str_cong:
  assumes "cn_str env' = cn_str env"
  shows "show_val env' = show_val env" "cm_save_config env' = cm_save_config env" "config_summary env' = config_summary env"
    "overwrite_question env' = overwrite_question env"
proof -
  show s: "show_val env' = show_val env" unfolding show_val_def fun_eq_iff assms by simp
  show "overwrite_question env' = overwrite_question env" unfolding overwrite_question_def fun_eq_iff s by simp
  have "config_path env' = config_path env" unfolding config_path_def fun_eq_iff s by simp
  then show "cm_save_config env' = cm_save_config env" unfolding cm_save_config_def fun_eq_iff assms by simp
  have "timer_lines env' = timer_lines env" unfolding timer_lines_def fun_eq_iff s by simp
  moreover have "detector_lines env' = detector_lines env" unfolding detector_lines_def fun_eq_iff s by simp
  ultimately show "config_summary env' = config_summary env" unfolding config_summary_def fun_eq_iff s by simp
qed

lemma setup_depends_on_questions_asked:
  assumes "same_answers env env' (asked (fst (told_create env s)))"
  shows "told_create env' s = told_create env s"
proof -
  let ?q = "''Enter a name for this configuration:''"
  let ?name = "cn_ask env ?q"
  have "cn_str env' = cn_str env" using assms by (simp add: same_answers_def)
  note str = str_cong [OF this]
  have "?q \<in> set (asked (fst (told_create env s)))"
    by (simp add: told_create_def Let_def split: sum.split prod.split)
  then have name: "cn_ask env' ?q = ?name" using assms unfolding same_answers_def by blast
  have over: "cn_ask env' (overwrite_question env ?name) = cn_ask env (overwrite_question env ?name)" if "dhas (cm_configs s) ?name"
  proof -
    have "overwrite_question env ?name \<in> set (asked (fst (told_create env s)))"
      using that by (simp add: told_create_def Let_def split: sum.split prod.split)
    then show ?thesis using assms unfolding same_answers_def by blast
  qed
  show ?thesis
  proof (cases "dhas (cm_configs s) ?name \<and> \<not> truthy (cn_ask env (overwrite_question env ?name))")
    case True
    with over show ?thesis unfolding told_create_def Let_def name str by simp
  next
    case False
    then have sub: "set (asked (fst (told_config env ?name))) \<subseteq> set (asked (fst (told_create env s)))"
      by (auto simp: told_create_def Let_def split: sum.split prod.split)
    then have "same_answers env env' (asked (fst (told_config env ?name)))"
      using assms unfolding same_answers_def by blast
    from framedD [OF framed_config this] have conf: "told_config env' ?name = told_config env ?name" .
    show ?thesis
      using over unfolding told_create_def Let_def name str conf
      by (cases "dhas (cm_configs s) ?name") simp_all
  qed
qed

section \<open>A dialogue with checked answers succeeds\<close>

lemma answers:
  assumes "answered env"
  shows "accepts (Choose (map fst INFRA_CHOICES)) (cn_ask env ''Infrastructure type:'')"
    "accepts (Choose (map fst PROVIDER_CHOICES)) (cn_ask env ''Cloud provider:'')"
    "accepts (ChooseMany (map fst GPU_CHOICES)) (cn_ask env ''GPUs to support:'')"
    "accepts (Choose (map fst REGION_CHOICES)) (cn_ask env ''Deployment region:'')"
    "accepts (Checked valid_count) (cn_ask env ''Idle threshold (minutes before shutdown) [default: 30]:'')"
    "accepts (Checked (valid_amount env)) (cn_ask env ''Hourly cost alert threshold (USD) [default: 10.0]:'')"
    "accepts (Checked (valid_amount env)) (cn_ask env ''Monthly compute budget (USD) [default: 500]:'')"
    "accepts (Checked valid_count) (cn_ask env ''Maximum parallel workers [default: 8]:'')"
  using assms by (simp_all only: answered_def setup_prompts_def list.pred_inject prod.case)

lemma yes_no_answers:
  assumes "answered env"
  shows "accepts YesNo (cn_ask env ''Enable GPU timer (set start/end times for processes)?'')"
    "accepts YesNo (cn_ask env ''Allow manual override of timer?'')"
    "accepts YesNo (cn_ask env ''Enable auto-detector for cost optimization?'')"
    "accepts YesNo (cn_ask env ''Auto-shutdown when idle?'')"
    "accepts YesNo (cn_ask env ''Enable power consumption monitoring?'')"
    "accepts YesNo (cn_ask env ''Consolidate workloads to fewer instances for cost savings?'')"
  using assms by (simp_all only: answered_def setup_prompts_def list.pred_inject prod.case)

lemma time_answers:
  assumes "answered env"
  shows "accepts (Checked valid_time) (cn_ask env ''Start time (HH:MM, e.g., 09:00):'')"
    "accepts (Checked valid_time) (cn_ask env ''End time (HH:MM, e.g., 18:00):'')"
    "accepts FreeText (cn_ask env ''Timezone (default: UTC):'')"
  using assms by (simp_all only: answered_def setup_prompts_def list.pred_inject prod.case)

lemma chosen_listed:
  assumes "accepts (Choose (map fst table)) v"
  shows "\<exists>x. chosen e table v = Inr x \<and> x \<in> snd ` set table"
proof -
  from assms obtain s x where s: "v = VStr s" "(s, x) \<in> set table" by (auto split: pyval.splits)
  then obtain y where y: "map_of table s = Some y" by (metis weak_map_of_SomeI)
  from map_of_SomeD [OF y] s(1) y show ?thesis by (force simp: chosen_def)
qed

lemma counted:
  assumes "accepts (Checked valid_count) (cn_ask env q)"
  shows "\<exists>i>0. int_answer env q = Inr (VInt i)"
  using assms by (auto simp: valid_count_def int_answer_def split: pyval.splits option.splits if_splits)

lemma amount_given:
  assumes "accepts (Checked (valid_amount env)) (cn_ask env q)"
  shows "\<exists>r>0. float_answer env q = Inr (VFloat r)"
  using assms by (auto simp: valid_amount_def float_answer_def split: pyval.splits option.splits)

lemma gpus_listed:
  assumes "accepts (ChooseMany (map fst table)) v"
  shows "\<exists>gs. bind_result (py_iter v) (traverse (chosen e table)) = Inr gs"
proof -
  from assms obtain vs where vs: "v = VList vs" "\<forall>v\<in>set vs. accepts (Choose (map fst table)) v"
    by (auto simp: list_all_iff split: pyval.splits)
  then have "\<exists>gs. traverse (chosen e table) vs = Inr gs"
  proof (induction vs arbitrary: v)
    case (Cons w ws)
    with chosen_listed [of table w e] show ?case by (auto simp: bind_result_def)
  qed simp
  with vs(1) show ?thesis by (simp add: py_iter_def bind_result_def)
qed

lemma answer_canonical:
  "accepts YesNo v \<Longrightarrow> canonical v" "accepts FreeText v \<Longrightarrow> canonical v" "accepts (Checked f) v \<Longrightarrow> canonical v"
  by (auto split: pyval.splits)

lemma checked_timer:
  assumes "answered env"
  shows "canonical (timer_dict (ask_timer env))"
  using yes_no_answers(1,2) [OF assms, THEN answer_canonical(1)] time_answers(1,2) [OF assms, THEN answer_canonical(3)]
    time_answers(3) [OF assms, THEN answer_canonical(2)]
  by (simp add: ask_timer_def timer_dict_def GPUTimerConfig_def str_dict_def Let_def)

lemma checked_detector:
  assumes "answered env"
  shows "\<exists>d. ask_detector env = Inr d \<and> canonical (detector_dict d)"
proof -
  obtain i c where "int_answer env ''Idle threshold (minutes before shutdown) [default: 30]:'' = Inr (VInt i)"
    "float_answer env ''Hourly cost alert threshold (USD) [default: 10.0]:'' = Inr (VFloat c)"
    using counted [OF answers(5) [OF assms]] amount_given [OF answers(6) [OF assms]] by blast
  with yes_no_answers(3-6) [OF assms, THEN answer_canonical(1)] show ?thesis
    by (simp add: ask_detector_def bind_result_def detector_dict_def AutoDetectorConfig_def str_dict_def Let_def)
qed

lemma checked_config:
  assumes "answered env"
  shows "\<exists>c. ask_config env (VStr n) = Inr c \<and> (CHR ''/'' \<notin> set n \<longrightarrow> storable c) \<and>
    (\<exists>w>0. ic_max_workers c = VInt w) \<and> (\<exists>b>0. ic_compute_budget_monthly c = VFloat b)"
proof -
  obtain ty where ty: "ask_infra_type env = Inr ty"
    using chosen_listed [OF answers(1) [OF assms]] unfolding ask_infra_type_def by blast
  obtain pr where pr: "ask_provider env ty = Inr pr"
    using chosen_listed [OF answers(2) [OF assms]] unfolding ask_provider_def by (cases "ty = IT_BARE_METAL") auto
  obtain gs where gs: "ask_gpus env ty = Inr gs"
    using gpus_listed [OF answers(3) [OF assms]] unfolding ask_gpus_def by (metis (no_types))
  obtain rg where rg: "chosen (KeyError ''None'') REGION_CHOICES (cn_ask env ''Deployment region:'') = Inr rg"
    using chosen_listed [OF answers(4) [OF assms]] by blast
  obtain d where d: "ask_detector env = Inr d" "canonical (detector_dict d)" using checked_detector [OF assms] by blast
  obtain b w where b: "float_answer env ''Monthly compute budget (USD) [default: 500]:'' = Inr (VFloat b)" "0 < b"
    and w: "int_answer env ''Maximum parallel workers [default: 8]:'' = Inr (VInt w)" "0 < w"
    using amount_given [OF answers(7) [OF assms]] counted [OF answers(8) [OF assms]] by blast
  show ?thesis
    using checked_timer [OF assms] d(2) b(2) w(2)
    unfolding ask_config_def by (simp add: ty pr gs rg d(1) b(1) w(1) bind_result_def storable_def)
qed

text \<open>C20: A set-up whose answers are those the prompts accept, on a directory managed as before, never
  fails when the name has no slash and an overwriting is confirmed: it asks no question twice,
  returns a configuration with a positive number of workers and a positive budget, stores it and
  changes no other, and a manager started again on the directory has the same configurations.\<close>

theorem checked_setup_is_kept:
  assumes "new_config_manager dir fs = Inr s0" and "fs_glob_suffix (cm_fs s0) dir ''.json'' = []"
    and "list_all op_ok es" and "s = fold (config_step env) es s0"
    and "answered env" and "cn_ask env ''Enter a name for this configuration:'' = VStr n" and "CHR ''/'' \<notin> set n"
    and "dhas (cm_configs s) (VStr n) \<Longrightarrow> cn_ask env (overwrite_question env (VStr n)) = VBool True"
  shows "\<exists>out c s'. told_create env s = (out, Inr (Some c), s') \<and> distinct (asked out) \<and>
    ic_name c = VStr n \<and> dget (cm_configs s') = (dget (cm_configs s))(VStr n \<mapsto> c) \<and>
    (\<exists>w>0. ic_max_workers c = VInt w) \<and> (\<exists>b>0. ic_compute_budget_monthly c = VFloat b) \<and>
    (\<exists>m. new_config_manager dir (cm_fs s') = Inr m \<and> dget (cm_configs m) = dget (cm_configs s'))"
proof -
  have m0: "mirrors env s0" using fresh_mirrors [OF assms(1,2)] by blast
  then have m: "mirrors env s" using configs.sim_run [OF m0 assms(3), folded assms(4)] by blast
  have dir: "cm_dir s = dir"
    using config_run_dir [OF m0 assms(3), folded assms(4)] fresh_mirrors [OF assms(1,2), of env] by simp
  obtain c where ask: "ask_config env (VStr n) = Inr c" and st: "storable c"
    and num: "\<exists>w>0. ic_max_workers c = VInt w" "\<exists>b>0. ic_compute_budget_monthly c = VFloat b"
    using checked_config [OF assms(5), of n] assms(7) by blast
  have nm: "ic_name c = VStr n" using ask_config_facts [OF ask] by blast
  obtain r s' where sv: "cm_save_config env c s = (r, s')" by (metis surj_pair)
  note eff = save_storable [OF m st sv]
  have r: "r = Inr ()" and d': "cm_dir s' = dir" and cfg: "dget (cm_configs s') = (dget (cm_configs s))(VStr n \<mapsto> c)"
    using eff dir by (auto simp: nm dget_dset)
  obtain lines where lines: "config_summary env c = Inr lines"
    using st by (cases "ic_gpu_timer c"; cases "ic_auto_detector c")
      (auto simp: storable_def config_summary_def timer_lines_def detector_lines_def bind_result_def)
  have "snd (told_create env s) = (Inr (Some c), s')"
    using assms(8) by (auto simp: told_create_result interactive_create_def Let_def assms(6) ask sv r lines overwrite_question_def)
  moreover obtain out where "told_create env s = (out, snd (told_create env s))" by (metis surj_pair snd_conv)
  moreover from this have "distinct (asked out)" using setup_asks_once [of env s] by (metis fst_conv)
  moreover have "\<exists>m. new_config_manager dir (cm_fs s') = Inr m \<and> dget (cm_configs m) = dget (cm_configs s')"
    using restart_same [OF save_mirrors [OF m st sv]] d' by simp
  ultimately show ?thesis using nm num cfg by auto
qed

text \<open>A user to try, who sets the timer to something that is no time: the check looks at the length and the
  colon only.\<close>

definition demo_user :: "(string \<times> pyval) list" where
  "demo_user = [(''Enter a name for this configuration:'', VStr ''lab''), (''Infrastructure type:'', VStr ''GPU Cluster (Distributed GPU)''),
     (''Cloud provider:'', VStr ''Lambda Labs (GPU cloud)''), (''GPUs to support:'', VList [VStr ''NVIDIA T4'']),
     (''Deployment region:'', VStr ''us-west-2 (Oregon)''),
     (''Enable GPU timer (set start/end times for processes)?'', VBool True),
     (''Start time (HH:MM, e.g., 09:00):'', VStr ''ab:cd''), (''End time (HH:MM, e.g., 18:00):'', VStr ''99:99''),
     (''Timezone (default: UTC):'', VStr ''UTC''),
     (''Idle threshold (minutes before shutdown) [default: 30]:'', VStr ''8''),
     (''Hourly cost alert threshold (USD) [default: 10.0]:'', VStr ''10.0''),
     (''Monthly compute budget (USD) [default: 500]:'', VStr ''500''), (''Maximum parallel workers [default: 8]:'', VStr ''8'')]"

definition demo_setup :: config_env where
  "demo_setup = \<lparr>cn_ask = (\<lambda>q. case map_of demo_user q of Some v \<Rightarrow> v | None \<Rightarrow> VBool False), cn_str = (\<lambda>v. []),
     cn_float = (\<lambda>s. if s = ''500'' then Some 500 else if s = ''10.0'' then Some 10 else None)\<rparr>"

lemma demo_counts: "valid_count ''8'' = Inr True"
  by (simp add: valid_count_def demo_eight is_digit_def)

lemma demo_answered: "answered demo_setup"
  by (simp add: answered_def setup_prompts_def demo_setup_def demo_user_def demo_counts valid_name_def valid_time_def
      valid_amount_def INFRA_CHOICES_def PROVIDER_CHOICES_def GPU_CHOICES_def REGION_CHOICES_def)

theorem checked_setup_is_kept_witness:
  "\<exists>s0 out c s'. new_config_manager [''c''] [] = Inr s0 \<and> told_create demo_setup s0 = (out, Inr (Some c), s') \<and>
     (\<exists>m. new_config_manager [''c''] (cm_fs s') = Inr m \<and> dget (cm_configs m) (VStr ''lab'') = Some c)"
proof -
  let ?s0 = "\<lparr>cm_dir = [''c''], cm_configs = [], cm_fs = [([''c''], Dir)]\<rparr>"
  have s0: "new_config_manager [''c''] [] = Inr ?s0"
    by (simp add: new_config_manager_def fs_mkdirs_def fs_node_def load_all_configs_def fs_glob_suffix_def)
  have e: "fs_glob_suffix (cm_fs ?s0) [''c''] ''.json'' = []" by (simp add: fs_glob_suffix_def)
  have n: "cn_ask demo_setup ''Enter a name for this configuration:'' = VStr ''lab''" "CHR ''/'' \<notin> set ''lab''"
    by (simp_all add: demo_setup_def demo_user_def)
  have new: "dhas (cm_configs ?s0) (VStr ''lab'') \<Longrightarrow>
      cn_ask demo_setup (overwrite_question demo_setup (VStr ''lab'')) = VBool True" by (simp add: dhas_def)
  have ok: "list_all op_ok []" and run: "?s0 = fold (config_step demo_setup) [] ?s0" by simp_all
  obtain out c s' where "told_create demo_setup ?s0 = (out, Inr (Some c), s')"
    "dget (cm_configs s') = (dget (cm_configs ?s0))(VStr ''lab'' \<mapsto> c)"
    "\<exists>m. new_config_manager [''c''] (cm_fs s') = Inr m \<and> dget (cm_configs m) = dget (cm_configs s')"
    using checked_setup_is_kept [OF s0 e ok run demo_answered n new] by blast
  with s0 show ?thesis by (intro exI [of _ ?s0] exI [of _ out] exI [of _ c] exI [of _ s']) auto
qed

text \<open>An interrupted menu is an exception, not a cancellation, and an interrupted name is the name \<open>None\<close>.\<close>

lemma interrupted_menu_raises:
  assumes "cn_ask env ''Infrastructure type:'' = VNone" and "\<not> dhas (cm_configs s) (cn_ask env ''Enter a name for this configuration:'')"
  shows "interactive_create env s = (Inl (ValueError ''is not in list''), s)"
  using assms by (simp add: interactive_create_def ask_config_def ask_infra_type_def chosen_def bind_result_def Let_def)

lemma interrupted_name_is_None: "config_path env dir VNone = path_join dir ''None.json''"
  by (simp add: config_path_def show_val_def)

end
