(* ===== verification/Spec2Isabelle.thy ===== *)
theory Spec2Isabelle
  imports Fallback Streaming Cache BuildFarm Services Endpoint Install Executor Fetcher Layers Registry
    Runtime Agent ConfigManager ClientConfig Daemon Doctor Security Exceptions ServerConfig ServerApp Cli Workers Api HubTasks Dialogue
begin

text \<open>
  Verification of cpip, a client, server and build farm that provide Python packages to small
  devices by installing them, building them remotely or running them in the cloud.

  The program. A client resolves a package (\<open>client/resolver.py\<close>), installs it by the best of
  several strategies (\<open>client/installer.py\<close>) and keeps wheels, layers and metadata in a cache
  (\<open>client/cache.py\<close>). Packages that run in the cloud are imported as proxies whose calls travel as
  messages (\<open>shared/protocol.py\<close>, \<open>runtime/\<close>) over a WebSocket to the server (\<open>server/app.py\<close>,
  \<open>server/ws/\<close>), which authenticates and limits its clients (\<open>server/auth/\<close>) and answers an HTTP API
  (\<open>server/api/\<close>, \<open>server/services/\<close>). Builds are queued, compiled, scanned and signed by a build farm
  (\<open>builder/\<close>), calls run in containers (\<open>executor/\<close>), and packages can be mounted from
  content-addressed layers (\<open>virtualization/\<close>).

  Theories, and what their lemmas show.
  \<^item> Prelude, Interfaces: Python's exceptions, dicts, strings, numbers; the contracts (keyed store,
    step system, bounded system, simulation, codec, chain of codecs, priority queue), each
    interpreted on the operations of the components that provide it.
  \<^item> PyVal, PyText, Serialization, Protocol, Streaming: Python values and base64; wire forms of
    values and messages with their round trips; reassembly of streamed results.
  \<^item> FileSystem: the file operations of \<open>pathlib\<close> and \<open>shutil\<close> on a tree of paths, and JSON files.
  \<^item> Fallback: \<open>runtime/fallback.py\<close>; outcome and delays of retries, the circuit breaker's counter.
  \<^item> Models: \<open>shared/models.py\<close> and the constants.
  \<^item> Cache: every operation of the package cache; eviction, integrity checks, restarts.
  \<^item> Install: resolver and installer; the plan and the order in which it is tried.
  \<^item> BuildFarm, Workers: \<open>builder/\<close>; order of service, scanning before extraction; the interleavings of
    submissions and workers as a step relation, along which no job is lost.
  \<^item> Auth: \<open>server/auth/\<close>, \<open>api/auth.py\<close>; rate limits in every window, identity through tokens.
  \<^item> Services: build, execution and package services with their endpoints and routes.
  \<^item> Sessions, Hub, Endpoint: \<open>server/ws/\<close> and the WebSocket handler of \<open>server/app.py\<close>; connections
    as objects in a store, sockets as a log of calls whose outcomes are a parameter.
  \<^item> HubTasks: the methods of the hub as coroutines that interleave at their awaits under its lock; no
    connection is lost, every method ends, and alone each does what the sequential model says.
  \<^item> Executor: \<open>executor/\<close>; the container pool, the sandbox command, routing.
  \<^item> Fetcher, Layers, Registry: \<open>virtualization/\<close>; chunked downloads, layers and mounts, the manifest
    catalogue as a map, lazy modules, shared libraries.
  \<^item> Runtime: \<open>runtime/hooks.py\<close>, \<open>proxy.py\<close>, \<open>scheduler.py\<close>, \<open>interceptor.py\<close>; a call is split at its await, so
    any messages may arrive while it waits; a proxied call followed to the server and back.
  \<^item> Agent: \<open>agent/\<close>; pipelines of tasks, the model router, the tools over installer and sandbox.
  \<^item> ConfigManager, Dialogue, ClientConfig: \<open>client/config/config_manager.py\<close> as a map kept in files, its
    dialogue with what the prompts accept and what is printed and asked; \<open>client/config.py\<close> with the TOML it writes and reads.
  \<^item> Platform, Daemon, Doctor: \<open>shared/platform.py\<close>; \<open>client/sync.py\<close> and \<open>client/daemon.py\<close> with the daemon's
    reconnection, and its identity at the server; \<open>client/doctor.py\<close>, which repairs the cache.
  \<^item> Security: \<open>security/\<close> and \<open>builder/signer.py\<close>; a wheel signed by the farm verifies on the device.
  \<^item> Exceptions, ServerConfig, ServerApp: both hierarchies of errors and the responses made of them; the
    server's configuration; registration, the database handle and its tables, start and stop.
  \<^item> Api: the routers put together and one request from its path to its reply; which endpoints the
    client's addresses reach, who may change jobs, the limits over the whole interface.
  \<^item> UI, Cli: \<open>client/ui/\<close>, \<open>client/cli.py\<close> and \<open>client/shell.py\<close>; every command from the state of the device to the
    end of its process: what install reports, what config keeps, whom login makes the device.
  \<^item> This theory: the client against the server; its catalogue synchronisation and its installations.

  State and effects. A Python object with state is a record that its methods return updated; a
  method that can raise returns \<open>exn + 'a\<close>; a dict is an association list with distinct keys, in
  insertion order; objects shared by reference (connections, stream receivers) live in a list and
  are named by their index. What the program takes from outside (clock, random identifiers,
  sockets, HTTP answers, subprocesses, hashes, third-party libraries) is an argument or a
  field of an environment record; no law is assumed of it except in a theorem's hypotheses.

  Bounds. Loops are structural recursions or have a termination proof; the loop of the chunk
  downloader, which does not end for a chunk size of zero, is a partial function into option,
  and the property of the download proves that it returns.

  Not modelled. But for the hub, the workers of a farm, the requests of a chunked download, the calls
  of a proxy and the messages of a stream, which interleave, the operations of one component run one
  after the other. The rendering of terminal output, logging, option parsing, CORS, the matching of paths by the
  framework (a parameter) and the validation pydantic does by itself (but for device registration) are left out.
\<close>

section \<open>The catalogue synchronisation against the server\<close>

definition layer_info_json :: "layer_info \<Rightarrow> pyval" where
  "layer_info_json l = str_dict [(''layer_id'', VStr (li_layer_id l)), (''url'', VStr (li_url l)),
     (''sha256'', VStr (li_sha256 l)), (''size'', VInt (li_size l)), (''content_type'', VStr (li_content_type l)),
     (''compressed'', VBool (li_compressed l))]"

definition package_info_json :: "package_info \<Rightarrow> pyval" where
  "package_info_json i = str_dict [(''name'', VStr (pi_name i)), (''version'', VStr (pi_version i)),
     (''description'', VStr (pi_description i)), (''strategy'', VStr (strategy_value (pi_strategy i))),
     (''wheel_url'', opt_str (pi_wheel_url i)), (''wheel_hash'', opt_str (pi_wheel_hash i)),
     (''wheel_size'', VInt (pi_wheel_size i)), (''layers'', VList (map layer_info_json (pi_layers i))),
     (''dependencies'', VList (map VStr (pi_dependencies i))),
     (''supported_architectures'', VList (map VStr (pi_supported_architectures i))),
     (''requires_gpu'', VBool (pi_requires_gpu i)), (''cloud_only'', VBool (pi_cloud_only i)),
     (''metadata'', str_dict (pi_metadata i))]"

definition catalog_json :: "search_result list \<Rightarrow> pyval" where
  "catalog_json rows = str_dict [(''packages'', VList (map (\<lambda>(n, v, s).
     str_dict [(''name'', VStr n), (''version'', VStr v), (''strategy'', VStr s)]) rows))]"

text \<open>How a handler's outcome reaches the client, and the answer to \<open>GET /api/v1/packages/catalog\<close>\<close>

definition http_answer :: "('a \<Rightarrow> pyval) \<Rightarrow> http_error + 'a \<Rightarrow> int \<times> (exn + pyval)" where
  "http_answer json r = (case r of
       Inr x \<Rightarrow> (200, Inr (json x))
     | Inl (HTTPError status detail headers) \<Rightarrow> (status, Inr (str_dict [(''detail'', VStr detail)]))
     | Inl (http_error.Raised e) \<Rightarrow> (500, Inr (str_dict [(''detail'', VStr ''Internal server error'')])))"

definition serve_catalog_path ::
  "package_registry \<Rightarrow> real \<Rightarrow> http_request \<Rightarrow> string \<Rightarrow> api_state \<Rightarrow> int \<times> (exn + pyval)" where
  "serve_catalog_path reg now req arch api = (case route_packages [''catalog''] of
       Some (RGetPackage n) \<Rightarrow> http_answer package_info_json (fst (api_get_package reg now req n arch api))
     | Some RCatalog \<Rightarrow> http_answer catalog_json (fst (api_get_catalog reg now req api))
     | _ \<Rightarrow> (404, Inr (str_dict [(''detail'', VStr ''Not Found'')])))"

lemma catalog_gives_nothing:
  assumes "\<And>q. sx_catalog env q = Inr (serve_catalog_path reg now req arch api)" and "\<And>d. sx_register env d = None"
  shows "fetch_catalog env c = (None, 0, c)"
proof -
  have rt: "route_packages [''catalog''] = Some (RGetPackage ''catalog'')" by (simp add: route_packages_def)
  obtain status body where a: "serve_catalog_path reg now req arch api = (status, body)" by (metis surj_pair)
  have "status \<noteq> 200 \<or> (\<exists>i. body = Inr (package_info_json i))"
    using a by (auto simp: serve_catalog_path_def rt http_answer_def api_get_package_def limited_def
        check_rate_limit_def Let_def split: option.splits prod.splits bool.splits)
  moreover have "py_get (package_info_json i) ''packages'' (VList []) = Inr (VList [])" for i
    by (simp add: package_info_json_def str_dict_def py_get_def)
  ultimately show ?thesis
    by (auto simp: fetch_catalog_def Let_def assms(1,2) a py_iter_def)
qed

text \<open>C9: Against the server of this repository a synchronisation never updates anything: the catalogue
  request is answered with the description of a package named catalog (or with an error
  status), which has no packages, and the client takes that for an empty catalogue without an error.\<close>

theorem catalog_sync_never_updates:
  assumes "\<And>q. sx_catalog env q = Inr (serve_catalog_path reg now req arch api)" and "\<And>d. sx_register env d = None"
    and "do_sync env s c = (Inr r, s', c')"
  shows "sr_metadata_updated r = 0 \<and> sr_errors r = [] \<and> sn_last_sync s' = sx_end env \<and>
    (\<forall>p. p \<noteq> ca_home c @ [''.last_sync''] \<longrightarrow> fs_node (ca_fs c') p = fs_node (ca_fs c) p)"
proof -
  have "fetch_catalog env c = (None, 0, c)" by (rule catalog_gives_nothing [OF assms(1,2)])
  with assms(3) obtain fs where w: "fs_write (ca_home c @ [''.last_sync'']) (JsonText (sync_result_json r)) (ca_fs c) = Inr fs"
    and r: "sr_metadata_updated r = 0" "sr_errors r = []" "s' = s\<lparr>sn_last_sync := sx_end env\<rparr>" "c' = c\<lparr>ca_fs := fs\<rparr>"
    by (auto simp: do_sync_def Let_def split: sum.splits)
  with fs_write_node [OF w] show ?thesis by simp
qed

definition demo_sync :: "api_state \<Rightarrow> sync_env" where
  "demo_sync api = \<lparr>sx_register = (\<lambda>d. None),
     sx_catalog = (\<lambda>q. Inr (serve_catalog_path [] 0 \<lparr>rq_forwarded = None, rq_client_host = None\<rparr> ''aarch64'' api)),
     sx_device_id = VStr ''d'', sx_host = demo_host, sx_str = (\<lambda>v. []), sx_now = 0, sx_store = 0, sx_end = 1\<rparr>"

theorem catalog_sync_never_updates_witness:
  "\<forall>api. \<exists>r s' c'. do_sync (demo_sync api) new_sync (dm_cache demo_daemon) = (Inr r, s', c') \<and>
     sr_metadata_updated r = 0 \<and> sn_last_sync s' = 1"
proof
  fix api
  have q: "sx_catalog (demo_sync api) q =
      Inr (serve_catalog_path [] 0 \<lparr>rq_forwarded = None, rq_client_host = None\<rparr> ''aarch64'' api)" for q
    by (simp add: demo_sync_def)
  have d: "sx_register (demo_sync api) d = None" for d by (simp add: demo_sync_def)
  obtain r s' c' where run: "do_sync (demo_sync api) new_sync (dm_cache demo_daemon) = (Inr r, s', c')"
    by (simp add: do_sync_def catalog_gives_nothing [OF q d] Let_def demo_daemon_def new_daemon_def fs_write_def
        fs_is_dir_def fs_node_def)
  have "sx_end (demo_sync api) = 1" by (simp add: demo_sync_def)
  with catalog_sync_never_updates [OF q d run] run
  show "\<exists>r s' c'. do_sync (demo_sync api) new_sync (dm_cache demo_daemon) = (Inr r, s', c') \<and>
     sr_metadata_updated r = 0 \<and> sn_last_sync s' = 1" by auto
qed

section \<open>Installing from the server\<close>

text \<open>The outcome of an endpoint as the client reads it: the status, and the body when it is 200 or 201\<close>

definition client_answer :: "int \<Rightarrow> ('a \<Rightarrow> 'b) \<Rightarrow> http_error + 'a \<Rightarrow> int \<times> (exn + 'b)" where
  "client_answer ok f r = (case r of
       Inr x \<Rightarrow> (ok, Inr (f x))
     | Inl (HTTPError status detail headers) \<Rightarrow> (status, Inl (ValueError detail))
     | Inl (http_error.Raised e) \<Rightarrow> (500, Inl (ValueError ''Internal server error'')))"

text \<open>The requests of the installer answered by the server, in any of its states at any time. The resolver
  sends the token of the login where there is one, which the package endpoints do not ask for;
  the installer's own requests carry none.\<close>

definition served_by :: "api_env \<Rightarrow> string \<Rightarrow> client_env \<Rightarrow> bool" where
  "served_by aenv package env \<longleftrightarrow>
     (\<forall>u q. \<exists>now req arch api. ce_api_package env u q =
        Inr (client_answer 200 (\<lambda>i. i) (fst (api_get_package REGISTRY now req package arch api)))) \<and>
     (\<forall>u q. \<exists>now req api. ce_api_wheel env u q =
        Inr (client_answer 200 (\<lambda>(url, n). Some url) (fst (api_get_wheel REGISTRY now req package api)))) \<and>
     (\<forall>p v. \<exists>now req breq api. ce_api_build env p v =
        Inr (client_answer 201 (\<lambda>r. Some (bres_request_id r)) (fst (api_create_build aenv now req None breq api))))"

lemma registry_has_no_wheels: "get_wheel_url REGISTRY n = None"
  by (simp add: get_wheel_url_def REGISTRY_def seed_def new_package_info_def)

lemma registry_lists_no_wheels: "get_package REGISTRY n arch = Some i \<Longrightarrow> pi_wheel_url i = None"
  by (auto simp: get_package_def REGISTRY_def seed_def new_package_info_def split: if_splits)

lemma anonymous_is_refused: "authenticate lib debug secret now None = Inl (HTTPError 401 d [])
    \<or> (\<exists>d'. authenticate lib debug secret now None = Inl (HTTPError 401 d' []))"
  by (cases debug) (simp_all add: authenticate_def get_current_user_def Let_def require_auth_def)

lemma build_is_refused:
  assumes "served_by aenv package env"
  shows "\<exists>e. ce_api_build env p v = Inr (401, Inl e)"
proof -
  from assms obtain now req breq api where a: "ce_api_build env p v =
      Inr (client_answer 201 (\<lambda>r. Some (bres_request_id r)) (fst (api_create_build aenv now req None breq api)))"
    unfolding served_by_def by blast
  from anonymous_is_refused obtain d where "authenticate (ae_jwt aenv) (ae_debug aenv) (ae_secret aenv) now None = Inl (HTTPError 401 d [])"
    by blast
  with a show ?thesis by (simp add: api_create_build_def with_user_def client_answer_def)
qed

lemma no_wheel_url:
  assumes "served_by aenv package env"
  shows "query_wheel_url env package = None"
proof -
  from assms obtain now req api where a: "ce_api_wheel env (''/api/v1/packages/'' @ package @ ''/wheel'')
        [(''arch'', ce_architecture env), (''python'', ce_python env)] =
      Inr (client_answer 200 (\<lambda>(url, n). Some url) (fst (api_get_wheel REGISTRY now req package api)))"
    unfolding served_by_def by blast
  have "\<exists>st e. client_answer 200 (\<lambda>(url, n). Some url) (fst (api_get_wheel REGISTRY now req package api)) = (st, Inl e)"
    by (auto simp: api_get_wheel_def limited_def registry_has_no_wheels client_answer_def check_rate_limit_def Let_def
        split: option.splits prod.splits bool.splits)
  with a show ?thesis by (auto simp: query_wheel_url_def)
qed

lemma cloud_lists_no_wheel:
  assumes "served_by aenv package env" and "query_cloud env package version = Some i"
  shows "pi_wheel_url i = None"
proof -
  let ?q = "[(''arch'', ce_architecture env), (''python'', ce_python env)] @
    (if version \<noteq> ''latest'' then [(''version'', version)] else [])"
  from assms(1) obtain now req arch api where a: "ce_api_package env (''/api/v1/packages/'' @ package) ?q =
      Inr (client_answer 200 (\<lambda>i. i) (fst (api_get_package REGISTRY now req package arch api)))"
    unfolding served_by_def by blast
  obtain r s where r: "api_get_package REGISTRY now req package arch api = (r, s)" by (metis surj_pair)
  have "r = Inr j \<Longrightarrow> pi_wheel_url j = None" for j
    using r registry_lists_no_wheels
    by (auto simp: api_get_package_def limited_def split: option.splits prod.splits)
  moreover have "r = Inr i"
    using assms(2) a r by (auto simp: query_cloud_def Let_def client_answer_def split: sum.splits http_error.splits if_splits)
  ultimately show ?thesis by blast
qed

text \<open>What a strategy can do against this server: run pip or pkg on the device, or register a proxy\<close>

lemma strategy_without_delivery:
  assumes "served_by aenv package env" and "case pr_info res of None \<Rightarrow> True | Some i \<Rightarrow> pi_wheel_url i = None"
    and "dget (ca_index (wo_cache w)) (cache_key package version ''wheel'') = None"
    and "execute_strategy env package version res st w = (r, w')"
  shows "wo_cache w' = wo_cache w \<and> (r = Inr True \<longrightarrow>
    (st = LOCAL_INSTALL \<and> (\<exists>t. run_ok env (pip_install env t) = Inr True) \<or>
     st = TERMUX_PKG \<and> run_ok env [''pkg'', ''install'', ''-y'', ''python-'' @ package] = Inr True \<or>
     (st = CLOUD_EXEC \<or> st = HYBRID) \<and> package \<in> fst ` set (wo_proxied w')))"
proof (cases st)
  case CLOUD_WHEEL
  have "install_cloud_wheel env package version res w = (Inr False, w)"
    using assms(2) no_wheel_url [OF assms(1)]
    by (cases "pr_info res") (simp_all add: install_cloud_wheel_def Let_def truthy_str_def)
  with assms(4) CLOUD_WHEEL show ?thesis by (auto simp: execute_strategy_def)
next
  case CLOUD_BUILD
  from build_is_refused [OF assms(1)] obtain e where "ce_api_build env package version = Inr (401, Inl e)" by blast
  then have "install_cloud_build env package version w = (Inr False, w)" by (simp add: install_cloud_build_def)
  with assms(4) CLOUD_BUILD show ?thesis by (auto simp: execute_strategy_def)
next
  case LOCAL_INSTALL
  with assms(3,4) show ?thesis
    by (auto simp: execute_strategy_def install_local_def get_cached_def get_wheel_def Let_def)
qed (use assms(4) in \<open>auto simp: execute_strategy_def install_termux_def register_proxy_def\<close>)

lemma strategies_without_delivery:
  assumes "served_by aenv package env" and "case pr_info res of None \<Rightarrow> True | Some i \<Rightarrow> pi_wheel_url i = None"
  shows "dget (ca_index (wo_cache w)) (cache_key package version ''wheel'') = None \<Longrightarrow>
    try_strategies env package version res ss w = (r, w') \<Longrightarrow>
    wo_cache w' = wo_cache w \<and> (r = Inr True \<longrightarrow>
      (\<exists>t. run_ok env (pip_install env t) = Inr True) \<or>
      run_ok env [''pkg'', ''install'', ''-y'', ''python-'' @ package] = Inr True \<or>
      package \<in> fst ` set (wo_proxied w'))"
proof (induction ss arbitrary: w)
  case (Cons st ss)
  obtain r1 w1 where ex: "execute_strategy env package version res st w = (r1, w1)" by (metis surj_pair)
  note one = strategy_without_delivery [OF assms Cons.prems(1) ex]
  show ?case
  proof (cases "r1 = Inr True")
    case True
    with Cons.prems(2) ex have "r = Inr True" "w' = w1" by simp_all
    with one True show ?thesis by blast
  next
    case False
    with Cons.prems(2) ex have rest: "try_strategies env package version res ss w1 = (r, w')"
      by (cases r1) (auto split: bool.splits)
    have "wo_cache w1 = wo_cache w" using one by simp
    with Cons.IH [OF _ rest] Cons.prems(1) show ?thesis by simp
  qed
qed auto


definition demo_served :: "api_env \<Rightarrow> client_env" where
  "demo_served aenv = demo_client\<lparr>ce_offline := False,
     ce_api_package := (\<lambda>u q. Inr (client_answer 200 (\<lambda>i. i) (fst (api_get_package REGISTRY 0
       \<lparr>rq_forwarded = None, rq_client_host = None\<rparr> ''scipy'' ''aarch64'' \<lparr>as_windows = [], as_builds = new_build_service, as_results = []\<rparr>)))),
     ce_api_wheel := (\<lambda>u q. Inr (client_answer 200 (\<lambda>(url, n). Some url) (fst (api_get_wheel REGISTRY 0
       \<lparr>rq_forwarded = None, rq_client_host = None\<rparr> ''scipy'' \<lparr>as_windows = [], as_builds = new_build_service, as_results = []\<rparr>)))),
     ce_api_build := (\<lambda>p v. Inr (client_answer 201 (\<lambda>r. Some (bres_request_id r)) (fst (api_create_build aenv 0
       \<lparr>rq_forwarded = None, rq_client_host = None\<rparr> None (new_build_request ''1'' 0 p)
       \<lparr>as_windows = [], as_builds = new_build_service, as_results = []\<rparr>))))\<rparr>"


end
